(* ===== verification/Prelude.thy ===== *)
theory Prelude
  imports Main "HOL-Library.Word" "HOL-Library.Monad_Syntax"
begin

text \<open>
  Shared vocabulary of the development: Rust's fixed-width integers as words,
  slices with their bounds checks as options, little-endian byte encodings,
  ASCII string helpers, decimal and hexadecimal number text, and a locale for
  the fixed-width record codecs that several modules of the program implement
  by hand.

  Conventions. A signed Rust integer \<open>iN\<close> is a word of the same width, read
  by \<open>sint\<close>. A Rust panic is \<open>None\<close> where the Rust function has no other
  failure. A \<open>Result\<close> is a sum with the error on the left. Text is a list of
  \<open>char\<close>s, one per byte; the case and white-space helpers are the ASCII part
  of Rust's Unicode functions.
\<close>

unbundle bit_operations_syntax

named_theorems byte_simps \<open>evaluation of byte encodings and slices\<close>
named_theorems panic_free \<open>in-range facts that show a checked slice operation succeeds\<close>

section \<open>Integers, slices and errors\<close>

type_synonym u8 = "8 word"
type_synonym u16 = "16 word"
type_synonym u32 = "32 word"
type_synonym u64 = "64 word"
type_synonym i8 = "8 word"
type_synonym i16 = "16 word"
type_synonym i32 = "32 word"
type_synonym i64 = "64 word"
type_synonym errno = nat

text \<open>\<open>slice.get(i)\<close> and \<open>slice.get(a..b)\<close>.\<close>

definition get_at :: "'a list \<Rightarrow> nat \<Rightarrow> 'a option" where
  "get_at xs i = (if i < length xs then Some (xs ! i) else None)"

definition get_range :: "'a list \<Rightarrow> nat \<Rightarrow> nat \<Rightarrow> 'a list option" where
  "get_range xs a b = (if a \<le> b \<and> b \<le> length xs then Some (take (b - a) (drop a xs)) else None)"

text \<open>\<open>buf[off..off + src.len()].copy_from_slice(src)\<close>: \<open>None\<close> is the panic of an
  out-of-range slice. \<open>overwrite\<close> is the buffer when the slice is in range.\<close>

definition overwrite :: "nat \<Rightarrow> 'a list \<Rightarrow> 'a list \<Rightarrow> 'a list" where
  "overwrite off src buf = take off buf @ src @ drop (off + length src) buf"

definition put_slice :: "nat \<Rightarrow> 'a list \<Rightarrow> 'a list \<Rightarrow> 'a list option" where
  "put_slice off src buf =
     (if off + length src \<le> length buf then Some (overwrite off src buf) else None)"

lemma get_at_eq_Some [simp]: "get_at xs i = Some x \<longleftrightarrow> i < length xs \<and> xs ! i = x"
  by (auto simp: get_at_def)

lemma get_at_eq_None [simp]: "get_at xs i = None \<longleftrightarrow> length xs \<le> i"
  by (auto simp: get_at_def)

lemma get_range_in: "a \<le> b \<Longrightarrow> b \<le> length xs \<Longrightarrow> get_range xs a b = Some (take (b - a) (drop a xs))"
  by (simp add: get_range_def)

lemma length_overwrite [simp]: "off + length src \<le> length buf \<Longrightarrow> length (overwrite off src buf) = length buf"
  by (simp add: overwrite_def)

lemma put_slice_in [panic_free]:
  "off + length src \<le> length buf \<Longrightarrow> put_slice off src buf = Some (overwrite off src buf)"
  by (simp add: put_slice_def)

lemma set_map_filter: "set (List.map_filter f xs) = {y. \<exists>x\<in>set xs. f x = Some y}"
  by (induction xs) (auto simp: map_filter_simps split: option.splits)

lemma map_filter_inj_distinct:
  assumes "distinct xs" "\<And>x y z. f x = Some z \<Longrightarrow> f y = Some z \<Longrightarrow> x = y"
  shows "distinct (List.map_filter f xs)"
  using assms(1)
proof (induction xs)
  case (Cons x xs)
  have "z \<notin> {y. \<exists>x\<in>set xs. f x = Some y}" if "f x = Some z" for z
    using Cons.prems assms(2) [OF that] by auto
  with Cons show ?case by (auto simp: map_filter_simps set_map_filter split: option.splits)
qed (simp add: map_filter_simps)

text \<open>A write into a buffer whose tail is still zero, as every encoder does.\<close>

lemma put_slice_replicate:
  assumes "length pre \<le> off" "off + length src \<le> length pre + n"
  shows "put_slice off src (pre @ replicate n x) =
    Some ((pre @ replicate (off - length pre) x @ src) @ replicate (length pre + n - off - length src) x)"
  using assms by (simp add: put_slice_def overwrite_def)

lemma nth_overwrite:
  assumes "off + length src \<le> length buf"
  shows "overwrite off src buf ! i =
    (if off \<le> i \<and> i < off + length src then src ! (i - off) else buf ! i)"
  using assms by (auto simp: overwrite_def nth_append)

text \<open>What a later write leaves of an earlier one: a window that the write does not
  touch reads as before, and the window it fills reads the source.\<close>

definition window :: "'a list \<Rightarrow> nat \<Rightarrow> nat \<Rightarrow> 'a list" where
  "window xs off n = take n (drop off xs)"

lemma length_window [simp]: "off + n \<le> length xs \<Longrightarrow> length (window xs off n) = n"
  by (simp add: window_def)

lemma nth_window: "i < n \<Longrightarrow> off + n \<le> length xs \<Longrightarrow> window xs off n ! i = xs ! (off + i)"
  by (simp add: window_def)

lemma window_overwrite_same [simp]:
  assumes "off + length src \<le> length buf"
  shows "window (overwrite off src buf) off (length src) = src"
  using assms by (intro nth_equalityI) (auto simp: nth_window nth_overwrite)

lemma window_overwrite_other:
  assumes "off + length src \<le> length buf" "at + n \<le> length buf"
    and "at + n \<le> off \<or> off + length src \<le> at"
  shows "window (overwrite off src buf) at n = window buf at n"
  using assms by (intro nth_equalityI) (auto simp: nth_window nth_overwrite)

lemma window_replicate [simp]:
  "at + n \<le> m \<Longrightarrow> window (replicate m x) at n = replicate n x"
  by (simp add: window_def)

lemma get_range_window: "at + n \<le> length xs \<Longrightarrow> get_range xs at (at + n) = Some (window xs at n)"
  by (simp add: get_range_def window_def)

lemma get_range_mid:
  "length pre = a \<Longrightarrow> b = a + length x \<Longrightarrow> get_range (pre @ x @ post) a b = Some x"
  by (simp add: get_range_def)

section \<open>Little-endian bytes\<close>

definition to_le_bytes :: "'a::len word \<Rightarrow> u8 list" where
  "to_le_bytes w = map (\<lambda>i. ucast (drop_bit (8 * i) w)) [0..<LENGTH('a) div 8]"

primrec from_le_bytes :: "u8 list \<Rightarrow> 'a::len word" where
  "from_le_bytes [] = 0"
| "from_le_bytes (b # bs) = ucast b OR push_bit 8 (from_le_bytes bs)"

lemma length_to_le_bytes [simp]: "length (to_le_bytes (w :: 'a::len word)) = LENGTH('a) div 8"
  by (simp add: to_le_bytes_def)

lemma bit_nth_to_le_bytes:
  assumes "i < LENGTH('a) div 8"
  shows "bit (to_le_bytes (w :: 'a::len word) ! i) j \<longleftrightarrow> j < 8 \<and> bit w (8 * i + j)"
  using assms by (simp add: to_le_bytes_def bit_simps)

lemma bit_from_le_bytes:
  "bit (from_le_bytes bs :: 'a::len word) n \<longleftrightarrow>
     n < LENGTH('a) \<and> n div 8 < length bs \<and> bit (bs ! (n div 8)) (n mod 8)"
proof (induction bs arbitrary: n)
  case Nil
  then show ?case by simp
next
  case (Cons b bs)
  show ?case
  proof (cases "n < 8")
    case True
    then show ?thesis by (auto simp: bit_simps)
  next
    case False
    then have "n div 8 = Suc ((n - 8) div 8)" "n mod 8 = (n - 8) mod 8"
      by (simp_all add: le_div_geq le_mod_geq not_less)
    moreover from False have "\<not> bit b n" by (auto dest: bit_imp_le_length)
    ultimately show ?thesis using False
      by (auto simp: bit_simps Cons.IH dest: bit_imp_le_length)
  qed
qed

lemma from_to_le_bytes:
  assumes "8 dvd LENGTH('a)"
  shows "from_le_bytes (to_le_bytes w) = (w :: 'a::len word)"
proof (rule bit_word_eqI)
  fix n assume n: "n < LENGTH('a)"
  from n assms have "n div 8 < LENGTH('a) div 8" by (auto elim!: dvdE)
  with n show "bit (from_le_bytes (to_le_bytes w) :: 'a word) n \<longleftrightarrow> bit w n"
    by (simp add: bit_from_le_bytes bit_nth_to_le_bytes)
qed

lemma to_from_le_bytes:
  assumes "8 * length bs = LENGTH('a)"
  shows "to_le_bytes (from_le_bytes bs :: 'a::len word) = bs"
proof (rule nth_equalityI)
  show "length (to_le_bytes (from_le_bytes bs :: 'a word)) = length bs"
    using assms [symmetric] by simp
next
  fix i assume "i < length (to_le_bytes (from_le_bytes bs :: 'a word))"
  then have i: "i < length bs" using assms [symmetric] by simp
  show "to_le_bytes (from_le_bytes bs :: 'a word) ! i = bs ! i"
  proof (rule bit_word_eqI)
    fix j assume j: "j < LENGTH(8)"
    then have "8 * i + j < LENGTH('a)" using i assms [symmetric] by simp
    moreover have "(8 * i + j) div 8 = i" "(8 * i + j) mod 8 = j" using j by simp_all
    moreover have "i < LENGTH('a) div 8" using i assms [symmetric] by simp
    ultimately show "bit (to_le_bytes (from_le_bytes bs :: 'a word) ! i) j \<longleftrightarrow> bit (bs ! i) j"
      using j i by (simp add: bit_nth_to_le_bytes bit_from_le_bytes)
  qed
qed

lemma from_to_le_bytes_width [simp]:
  "from_le_bytes (to_le_bytes w) = (w :: 16 word)"
  "from_le_bytes (to_le_bytes x) = (x :: 32 word)"
  "from_le_bytes (to_le_bytes y) = (y :: 64 word)"
  by (simp_all add: from_to_le_bytes)

lemma to_le_bytes_16 [byte_simps]: "to_le_bytes (w :: 16 word) = [ucast w, ucast (drop_bit 8 w)]"
  by (simp add: to_le_bytes_def upt_rec)

lemma to_le_bytes_32 [byte_simps]:
  "to_le_bytes (w :: 32 word) =
     [ucast w, ucast (drop_bit 8 w), ucast (drop_bit 16 w), ucast (drop_bit 24 w)]"
  by (simp add: to_le_bytes_def upt_rec)


section \<open>Fixed-width record codecs\<close>

text \<open>
  The program writes and reads several fixed-width records by hand (evdev events,
  HID input reports, capture records). Each pair promises the same two laws; the
  stream lemmas are proved once from them. \<open>chunks_exact n xs\<close> is Rust's
  \<open>xs.chunks_exact(n)\<close>: whole chunks only, a short tail dropped.
\<close>

function chunks_exact :: "nat \<Rightarrow> 'a list \<Rightarrow> 'a list list" where
  "chunks_exact n xs = (if n = 0 \<or> length xs < n then [] else take n xs # chunks_exact n (drop n xs))"
  by pat_completeness auto
termination
  by (relation "measure (\<lambda>(n, xs). length xs)") auto

declare chunks_exact.simps [simp del]

lemma chunks_exact_short: "length xs < n \<Longrightarrow> chunks_exact n xs = []"
  by (simp add: chunks_exact.simps)

lemma chunks_exact_append:
  "0 < n \<Longrightarrow> length x = n \<Longrightarrow> chunks_exact n (x @ ys) = x # chunks_exact n ys"
  by (subst chunks_exact.simps) simp

lemma chunks_exact_width: "c \<in> set (chunks_exact n xs) \<Longrightarrow> length c = n"
proof (induction n xs rule: chunks_exact.induct)
  case (1 n xs)
  then show ?case
    by (cases "n = 0 \<or> length xs < n") (auto simp: chunks_exact.simps [of n xs])
qed

locale record_codec =
  fixes enc :: "'r \<Rightarrow> 'b list"
    and dec :: "'b list \<Rightarrow> 'r option"
    and width :: nat
  assumes width_pos: "0 < width"
    and enc_width: "length (enc r) = width"
    and dec_enc: "dec (enc r) = Some r"
begin

lemma enc_inject: "enc r = enc s \<longleftrightarrow> r = s"
  using dec_enc by (metis option.inject)

lemma stream_chunks:
  assumes "length tail < width"
  shows "chunks_exact width (concat (map enc rs) @ tail) = map enc rs"
proof (induction rs)
  case Nil
  then show ?case using assms by (simp add: chunks_exact_short)
next
  case (Cons r rs)
  then show ?case by (simp add: chunks_exact_append [OF width_pos enc_width])
qed

lemma stream_decodes:
  assumes "length tail < width"
  shows "map dec (chunks_exact width (concat (map enc rs) @ tail)) = map Some rs"
  using assms by (simp add: stream_chunks dec_enc)

lemma stream_prefix_free: "enc r @ xs = enc s @ ys \<Longrightarrow> r = s \<and> xs = ys"
  using enc_inject enc_width by (metis append_eq_append_conv)

end

section \<open>Signed arithmetic\<close>

text \<open>Rust's integer division truncates towards zero, and \<open>clamp\<close> bounds a value.\<close>

definition clamp_int :: "int \<Rightarrow> int \<Rightarrow> int \<Rightarrow> int" where
  "clamp_int lo hi x = (if x < lo then lo else if hi < x then hi else x)"

lemma clamp_int_bounds: "lo \<le> hi \<Longrightarrow> lo \<le> clamp_int lo hi x \<and> clamp_int lo hi x \<le> hi"
  by (simp add: clamp_int_def)

lemma clamp_int_id [simp]: "lo \<le> x \<Longrightarrow> x \<le> hi \<Longrightarrow> clamp_int lo hi x = x"
  by (simp add: clamp_int_def)

lemma uint_less_pow: "uint (w :: 'a::len word) < 2 ^ LENGTH('a)"
  by (rule uint_bounded)

lemma uint_u8_bounds [simp]: "0 \<le> uint (b :: u8)" "uint (b :: u8) < 256" "uint (b :: u8) \<le> 255"
  using uint_less_pow [of b] by auto

lemma uint_u16_bounds [simp]: "uint (w :: u16) < 65536" "uint (w :: u16) \<le> 65535"
  using uint_less_pow [of w] by auto

lemma unat_u8_less [simp]: "unat (b :: u8) < 256"
  using unsigned_less [where w = b, where ?'a = nat] by simp

lemma unat_u16_less [simp]: "unat (b :: u16) < 65536"
  using unsigned_less [where w = b, where ?'a = nat] by simp

lemma unat_u16_le [simp]: "unat (b :: u16) \<le> 65535"
  using unat_u16_less [of b] by linarith

lemma uint_word_of_int_16: "0 \<le> x \<Longrightarrow> x < 65536 \<Longrightarrow> uint (word_of_int x :: u16) = x"
  by (simp add: uint_word_of_int)

lemma sint_word_of_int_16: "-32768 \<le> x \<Longrightarrow> x < 32768 \<Longrightarrow> sint (word_of_int x :: i16) = x"
  by (simp add: sint_sbintrunc' signed_take_bit_int_eq_self)

lemma sint_word_of_int_32:
  "-2147483648 \<le> x \<Longrightarrow> x < 2147483648 \<Longrightarrow> sint (word_of_int x :: i32) = x"
  by (simp add: sint_sbintrunc' signed_take_bit_int_eq_self)

section \<open>ASCII text\<close>

definition to_upper_char :: "char \<Rightarrow> char" where
  "to_upper_char c =
     (if 97 \<le> (of_char c :: nat) \<and> (of_char c :: nat) \<le> 122 then char_of (of_char c - 32 :: nat) else c)"

definition to_upper :: "string \<Rightarrow> string" where
  "to_upper s = map to_upper_char s"

definition is_space :: "char \<Rightarrow> bool" where
  "is_space c \<longleftrightarrow> (let n = (of_char c :: nat) in n = 32 \<or> (9 \<le> n \<and> n \<le> 13))"

definition trim_start :: "string \<Rightarrow> string" where
  "trim_start s = dropWhile is_space s"

definition trim_end :: "string \<Rightarrow> string" where
  "trim_end s = rev (dropWhile is_space (rev s))"

definition trim :: "string \<Rightarrow> string" where
  "trim s = trim_end (trim_start s)"

fun starts_with :: "'a list \<Rightarrow> 'a list \<Rightarrow> bool" where
  "starts_with s [] = True"
| "starts_with [] (p # ps) = False"
| "starts_with (c # s) (p # ps) = (c = p \<and> starts_with s ps)"

fun contains_sub :: "'a list \<Rightarrow> 'a list \<Rightarrow> bool" where
  "contains_sub [] p = (p = [])"
| "contains_sub (c # s) p = (starts_with (c # s) p \<or> contains_sub s p)"

lemma starts_with_iff: "starts_with s p \<longleftrightarrow> (\<exists>t. s = p @ t)"
  by (induction s p rule: starts_with.induct) auto

lemma starts_with_append [simp]: "starts_with (p @ s) p"
  by (auto simp: starts_with_iff)

lemma starts_with_self [simp]: "starts_with p p"
  by (auto simp: starts_with_iff)

lemma contains_sub_iff: "contains_sub s p \<longleftrightarrow> (\<exists>u v. s = u @ p @ v)"
proof (induction s)
  case Nil
  then show ?case by auto
next
  case (Cons c s)
  show ?case
  proof
    assume "contains_sub (c # s) p"
    then consider t where "c # s = p @ t" | u v where "s = u @ p @ v"
      using Cons.IH by (auto simp: starts_with_iff)
    then show "\<exists>u v. c # s = u @ p @ v"
    proof cases
      case 1
      then show ?thesis by (metis append_Nil)
    next
      case 2
      then show ?thesis by (metis append_Cons)
    qed
  next
    assume "\<exists>u v. c # s = u @ p @ v"
    then obtain u v where uv: "c # s = u @ p @ v" by blast
    show "contains_sub (c # s) p"
    proof (cases u)
      case Nil
      with uv have "starts_with (c # s) p" by (auto simp: starts_with_iff)
      then show ?thesis by simp
    next
      case (Cons d u')
      with uv have "s = u' @ p @ v" by simp
      with Cons.IH show ?thesis by auto
    qed
  qed
qed

lemma contains_sub_append: "contains_sub (u @ p @ v) p"
  by (auto simp: contains_sub_iff)


section \<open>Numbers as text\<close>

text \<open>Decimal text of a natural number, as \<open>format!\<close> prints an unsigned integer, and its
  reading, as \<open>str::parse\<close> accepts digits.\<close>

definition digit_char :: "nat \<Rightarrow> char" where
  "digit_char d = char_of (48 + d)"

fun dec_nat :: "nat \<Rightarrow> string" where
  "dec_nat n = (if n < 10 then [digit_char n] else dec_nat (n div 10) @ [digit_char (n mod 10)])"

declare dec_nat.simps [simp del]

definition digit_val :: "char \<Rightarrow> nat option" where
  "digit_val c = (let n = of_char c in if 48 \<le> n \<and> n \<le> 57 then Some (n - 48) else None)"

fun parse_digits :: "nat \<Rightarrow> string \<Rightarrow> nat option" where
  "parse_digits acc [] = Some acc"
| "parse_digits acc (c # cs) =
     (case digit_val c of None \<Rightarrow> None | Some d \<Rightarrow> parse_digits (10 * acc + d) cs)"

lemma digit_val_char [simp]: "d < 10 \<Longrightarrow> digit_val (digit_char d) = Some d"
  by (simp add: digit_val_def digit_char_def Let_def)

lemma dec_nat_nonempty [simp]: "dec_nat n \<noteq> []"
  by (subst dec_nat.simps) simp

lemma parse_digits_append:
  "parse_digits acc (xs @ ys) = (case parse_digits acc xs of None \<Rightarrow> None | Some a \<Rightarrow> parse_digits a ys)"
  by (induction acc xs rule: parse_digits.induct) (auto split: option.splits)

lemma parse_dec_nat: "parse_digits 0 (dec_nat n) = Some n"
proof (induction n rule: dec_nat.induct)
  case (1 n)
  show ?case
  proof (cases "n < 10")
    case True
    then show ?thesis by (simp add: dec_nat.simps [of n])
  next
    case False
    with "1.IH" have "parse_digits 0 (dec_nat (n div 10)) = Some (n div 10)" by simp
    with False show ?thesis by (simp add: dec_nat.simps [of n] parse_digits_append)
  qed
qed

lemma dec_nat_inject [simp]: "dec_nat m = dec_nat n \<longleftrightarrow> m = n"
  using parse_dec_nat by (metis option.inject)

text \<open>\<open>str::parse\<close> of an unsigned type with maximum \<open>hi\<close> and \<open>from_str_radix(_, 16)\<close>: an
  optional plus sign, then at least one digit, then the range check.\<close>

definition hex_digit_val :: "char \<Rightarrow> nat option" where
  "hex_digit_val c =
     (let n = (of_char c :: nat) in
      if 48 \<le> n \<and> n \<le> 57 then Some (n - 48)
      else if 97 \<le> n \<and> n \<le> 102 then Some (n - 87)
      else if 65 \<le> n \<and> n \<le> 70 then Some (n - 55)
      else None)"

fun parse_hex_digits :: "nat \<Rightarrow> string \<Rightarrow> nat option" where
  "parse_hex_digits acc [] = Some acc"
| "parse_hex_digits acc (c # cs) =
     (case hex_digit_val c of None \<Rightarrow> None | Some d \<Rightarrow> parse_hex_digits (16 * acc + d) cs)"

definition strip_plus :: "string \<Rightarrow> string" where
  "strip_plus s = (case s of [] \<Rightarrow> [] | c # cs \<Rightarrow> if c = CHR ''+'' then cs else s)"

definition in_range :: "nat \<Rightarrow> nat option \<Rightarrow> nat option" where
  "in_range hi x = (case x of None \<Rightarrow> None | Some n \<Rightarrow> if n \<le> hi then Some n else None)"

definition parse_unsigned :: "nat \<Rightarrow> string \<Rightarrow> nat option" where
  "parse_unsigned hi s =
     (let d = strip_plus s in if d = [] then None else in_range hi (parse_digits 0 d))"

definition parse_hex_unsigned :: "nat \<Rightarrow> string \<Rightarrow> nat option" where
  "parse_hex_unsigned hi s =
     (let d = strip_plus s in if d = [] then None else in_range hi (parse_hex_digits 0 d))"

text \<open>\<open>{:04x}\<close> of a \<open>u16\<close>.\<close>

definition hex_char :: "nat \<Rightarrow> char" where
  "hex_char d = char_of (if d < 10 then 48 + d else 87 + d)"

definition hex4 :: "u16 \<Rightarrow> string" where
  "hex4 w = (let n = unat w in
     [hex_char (n div 4096), hex_char (n div 256 mod 16), hex_char (n div 16 mod 16), hex_char (n mod 16)])"

lemma of_char_hex_char: "d < 16 \<Longrightarrow> (of_char (hex_char d) :: nat) = (if d < 10 then 48 + d else 87 + d)"
  by (simp add: hex_char_def)

lemma hex_digit_val_hex_char [simp]: "d < 16 \<Longrightarrow> hex_digit_val (hex_char d) = Some d"
  by (simp add: hex_digit_val_def of_char_hex_char Let_def)

lemma hex_char_not_plus [simp]: "d < 16 \<Longrightarrow> hex_char d \<noteq> CHR ''+''"
  using of_char_hex_char [of d] by (auto split: if_splits)

lemma nibbles_16:
  "16 * (16 * (16 * (n div 4096) + n div 256 mod 16) + n div 16 mod 16) + n mod 16 = (n :: nat)"
proof -
  obtain a b c where abc: "a = n div 16" "b = a div 16" "c = b div 16" by blast
  then have "n div 256 = b" "n div 4096 = c"
    by (simp_all add: div_mult2_eq [of n 16 16, simplified] div_mult2_eq [of n 256 16, simplified])
  moreover have "16 * a + n mod 16 = n" "16 * b + a mod 16 = a" "16 * c + b mod 16 = b"
    by (simp_all add: abc)
  ultimately show ?thesis by (metis abc(1))
qed

lemma parse_hex4: "parse_hex_unsigned 65535 (hex4 w) = Some (unat w)"
proof -
  have w: "unat w < 65536" by simp
  then have hi: "unat w div 4096 < 16" by (intro less_mult_imp_div_less) simp
  have "parse_hex_digits 0 (hex4 w) = Some (unat w)"
    using nibbles_16 [of "unat w"] hex_digit_val_hex_char [OF hi] by (simp add: hex4_def Let_def)
  moreover have "strip_plus (hex4 w) = hex4 w" "hex4 w \<noteq> []"
    using hex_char_not_plus [OF hi] by (simp_all add: hex4_def strip_plus_def Let_def)
  ultimately show ?thesis
    using w by (simp add: parse_hex_unsigned_def in_range_def Let_def)
qed

lemma hex4_inject [simp]: "hex4 v = hex4 w \<longleftrightarrow> v = w"
  by (metis parse_hex4 option.inject word_unat_eq_iff)

section \<open>Lines and paths\<close>

function trim_start_matches :: "string \<Rightarrow> string \<Rightarrow> string" where
  "trim_start_matches p s =
     (if p \<noteq> [] \<and> starts_with s p then trim_start_matches p (drop (length p) s) else s)"
  by pat_completeness auto
termination
  by (relation "measure (\<lambda>(p, s). length s)") (auto simp: starts_with_iff)

declare trim_start_matches.simps [simp del]

lemma trim_start_matches_stop [simp]: "\<not> starts_with s p \<Longrightarrow> trim_start_matches p s = s"
  by (simp add: trim_start_matches.simps)

lemma trim_start_matches_prefix [simp]:
  "p \<noteq> [] \<Longrightarrow> trim_start_matches p (p @ s) = trim_start_matches p s"
  by (subst trim_start_matches.simps) simp

abbreviation newline :: char where "newline \<equiv> CHR 0x0A"
abbreviation carriage_return :: char where "carriage_return \<equiv> CHR 0x0D"

fun split_char :: "char \<Rightarrow> string \<Rightarrow> string list" where
  "split_char c [] = [[]]"
| "split_char c (x # xs) =
     (if x = c then [] # split_char c xs
      else case split_char c xs of [] \<Rightarrow> [[x]] | l # ls \<Rightarrow> (x # l) # ls)"

lemma split_char_nonempty [simp]: "split_char c s \<noteq> []"
  by (induction c s rule: split_char.induct) (auto split: list.splits)

lemma split_char_append: "split_char c (u @ c # v) = split_char c u @ split_char c v"
proof (induction u)
  case (Cons x u)
  then show ?case by (cases "split_char c u") auto
qed simp

lemma split_char_none: "c \<notin> set s \<Longrightarrow> split_char c s = [s]"
  by (induction s) auto

definition strip_cr :: "string \<Rightarrow> string" where
  "strip_cr l = (if l \<noteq> [] \<and> last l = carriage_return then butlast l else l)"

text \<open>\<open>str::lines\<close>: a terminator is a newline with an optional carriage return before it;
  an unterminated last line is kept as it is, an empty one is dropped.\<close>

definition lines :: "string \<Rightarrow> string list" where
  "lines s = (let ls = split_char newline s in
     map strip_cr (butlast ls) @ (if last ls = [] then [] else [last ls]))"

definition nl_terminated :: "string \<Rightarrow> bool" where
  "nl_terminated s \<longleftrightarrow> s = [] \<or> last s = newline"

lemma lines_append:
  assumes "nl_terminated u"
  shows "lines (u @ v) = lines u @ lines v"
proof (cases "u = []")
  case True
  then show ?thesis by (simp add: lines_def)
next
  case False
  with assms obtain w where u: "u = w @ [newline]"
    by (metis append_butlast_last_id nl_terminated_def)
  show ?thesis by (simp add: u lines_def split_char_append Let_def butlast_append)
qed

lemma lines_terminated:
  "newline \<notin> set l \<Longrightarrow> lines (l @ [newline]) = [strip_cr l]"
  using split_char_append [of newline l "[]"] by (simp add: lines_def split_char_none)

text \<open>\<open>Path::join\<close> on a relative or absolute second part.\<close>

definition path_join :: "string \<Rightarrow> string \<Rightarrow> string" where
  "path_join a b =
     (if starts_with b ''/'' \<or> a = [] then b
      else if last a = CHR ''/'' then a @ b else a @ ''/'' @ b)"

section \<open>Runs of an operation\<close>

text \<open>
  A component is a step function that answers each operation with an outcome. The client
  of a component relies on two laws: an invariant that every operation keeps, and an
  abstract step that describes what it does. Whole runs follow.
\<close>

fun run_ops :: "('s \<Rightarrow> 'op \<Rightarrow> 'r \<times> 's) \<Rightarrow> 's \<Rightarrow> 'op list \<Rightarrow> 'r list \<times> 's" where
  "run_ops step s [] = ([], s)"
| "run_ops step s (op # ops) =
     (let (r, s') = step s op; (rs, s'') = run_ops step s' ops in (r # rs, s''))"

lemma run_ops_append:
  "run_ops step s (xs @ ys) =
     (let (rs, s') = run_ops step s xs; (rs', s'') = run_ops step s' ys in (rs @ rs', s''))"
  by (induction step s xs rule: run_ops.induct) (auto split: prod.splits)

lemma length_run_ops: "length (fst (run_ops step s ops)) = length ops"
  by (induction step s ops rule: run_ops.induct) (auto split: prod.splits)

locale invariant_steps =
  fixes step :: "'s \<Rightarrow> 'op \<Rightarrow> 'r \<times> 's"
    and inv :: "'s \<Rightarrow> bool"
  assumes step_inv: "inv s \<Longrightarrow> step s op = (r, s') \<Longrightarrow> inv s'"
begin

lemma run_inv: "inv s \<Longrightarrow> run_ops step s ops = (rs, s') \<Longrightarrow> inv s'"
  by (induction ops arbitrary: s rs) (auto split: prod.splits dest: step_inv)

end

locale refined_steps = invariant_steps step inv
  for step :: "'s \<Rightarrow> 'op \<Rightarrow> 'r \<times> 's" and inv :: "'s \<Rightarrow> bool" +
  fixes abs_state :: "'s \<Rightarrow> 'a"
    and abs_step :: "'r \<Rightarrow> 'op \<Rightarrow> 'a \<Rightarrow> 'a"
  assumes step_abs: "inv s \<Longrightarrow> step s op = (r, s') \<Longrightarrow> abs_state s' = abs_step r op (abs_state s)"
begin

lemma run_abs:
  "inv s \<Longrightarrow> run_ops step s ops = (rs, s') \<Longrightarrow>
   abs_state s' = fold (\<lambda>(r, op). abs_step r op) (zip rs ops) (abs_state s)"
proof (induction ops arbitrary: s rs)
  case (Cons op ops)
  obtain r s1 where st: "step s op = (r, s1)" by (cases "step s op")
  obtain rs1 s2 where rn: "run_ops step s1 ops = (rs1, s2)" by (cases "run_ops step s1 ops")
  from Cons.prems(2) st rn have eqs: "rs = r # rs1" "s2 = s'" by simp_all
  from Cons.IH [OF step_inv [OF Cons.prems(1) st]] rn eqs(2)
  show ?case by (simp add: eqs(1) step_abs [OF Cons.prems(1) st])
qed simp

end

end
