(* ===== verification/Descriptor.thy ===== *)
theory Descriptor
  imports Prelude
begin

text \<open>
  The virtual wheel's identity, its input report and its HID report descriptor
  (\<open>logi-ffb/src/descriptor.rs\<close>), and a reference reading of a HID report descriptor:
  the item grammar of the HID 1.11 specification turned into a table of fields, each
  with its report, usage, bit offset and size. The reference reading is what a host
  stack does with the descriptor; it is used to check that the hand-written offsets of
  the decoder are the ones the descriptor announces.
\<close>

section \<open>Identity and input report\<close>

abbreviation VENDOR :: u16 where "VENDOR \<equiv> 0x046d"
abbreviation PRODUCT :: u16 where "PRODUCT \<equiv> 0xc276"
abbreviation VIRTUAL_PRODUCT :: u16 where "VIRTUAL_PRODUCT \<equiv> 0xc2dd"
abbreviation VIRTUAL_NAME :: string where "VIRTUAL_NAME \<equiv> ''logi-ffb Virtual Wheel''"
abbreviation INPUT_REPORT_ID :: u8 where "INPUT_REPORT_ID \<equiv> 0x01"
abbreviation INPUT_REPORT_LEN :: nat where "INPUT_REPORT_LEN \<equiv> 18"
abbreviation HAT_CENTERED :: u8 where "HAT_CENTERED \<equiv> 0x0F"

record InputReport =
  steering :: u16
  throttle :: u16
  brake :: u16
  clutch :: u16
  buttons :: u64
  hat :: u8
  hat_x :: i8
  hat_y :: i8

definition default_report :: InputReport where
  "default_report =
     \<lparr>steering = 0, throttle = 0, brake = 0, clutch = 0, buttons = 0, hat = HAT_CENTERED,
      hat_x = 0, hat_y = 0\<rparr>"

definition to_bytes :: "InputReport \<Rightarrow> u8 list" where
  "to_bytes r =
     [INPUT_REPORT_ID] @ to_le_bytes (steering r) @ to_le_bytes (throttle r) @
     to_le_bytes (brake r) @ to_le_bytes (clutch r) @ to_le_bytes (buttons r) @ [hat r]"

section \<open>The report descriptor\<close>

definition JOYSTICK_PREFIX :: "u8 list" where
  "JOYSTICK_PREFIX = [
    0x05, 0x01, 0x09, 0x04, 0xA1, 0x01, 0x85, 0x01, 0x09, 0x01, 0xA1, 0x00,
    0x09, 0x30, 0x09, 0x31, 0x09, 0x32, 0x09, 0x35, 0x15, 0x00, 0x27, 0xFF,
    0xFF, 0x00, 0x00, 0x75, 0x10, 0x95, 0x04, 0x81, 0x02, 0xC0, 0x05, 0x09,
    0x19, 0x01, 0x29, 0x40, 0x15, 0x00, 0x25, 0x01, 0x75, 0x01, 0x95, 0x40,
    0x81, 0x02, 0x05, 0x01, 0x09, 0x39, 0x15, 0x00, 0x25, 0x07, 0x75, 0x08,
    0x95, 0x01, 0x81, 0x42]"

text \<open>The driver's PID collection, one definition per report collection in the order of the
  source array.\<close>

definition pid_state_bytes :: "u8 list" where
  "pid_state_bytes = [
    0x35, 0x00, 0x45, 0x00, 0x05, 0x0F, 0x09, 0x92, 0xA1, 0x02, 0x85, 0x50,
    0x09, 0x9F, 0x09, 0xA0, 0x09, 0x94, 0x15, 0x00, 0x25, 0x01, 0x75, 0x01,
    0x95, 0x08, 0x81, 0x02, 0x09, 0x22, 0x15, 0x01, 0x25, 0x28, 0x75, 0x07,
    0x95, 0x01, 0x81, 0x02, 0xC0]"

definition pid_set_effect_bytes :: "u8 list" where
  "pid_set_effect_bytes = [
    0x09, 0x21, 0xA1, 0x02, 0x85, 0x51, 0x09, 0x22, 0x15, 0x01, 0x25, 0x28,
    0x75, 0x08, 0x95, 0x01, 0x91, 0x02, 0x09, 0x25, 0xA1, 0x02, 0x09, 0x26,
    0x09, 0x27, 0x09, 0x28, 0x09, 0x30, 0x09, 0x31, 0x09, 0x32, 0x09, 0x33,
    0x09, 0x34, 0x09, 0x40, 0x09, 0x41, 0x09, 0x42, 0x09, 0x43, 0x15, 0x01,
    0x25, 0x12, 0x75, 0x08, 0x95, 0x01, 0x91, 0x00, 0xC0, 0x09, 0x50, 0x09,
    0x54, 0x09, 0x51, 0x09, 0xA7, 0x15, 0x00, 0x26, 0xFF, 0x7F, 0x66, 0x03,
    0x10, 0x55, 0xFD, 0x75, 0x10, 0x95, 0x04, 0x91, 0x02, 0x55, 0x00, 0x66,
    0x00, 0x00, 0x09, 0x52, 0x15, 0x00, 0x26, 0x64, 0x00, 0x75, 0x08, 0x95,
    0x01, 0x91, 0x02, 0x09, 0x53, 0x15, 0x00, 0x26, 0xFF, 0x00, 0x75, 0x08,
    0x95, 0x01, 0x91, 0x02, 0x09, 0x55, 0xA1, 0x02, 0x0B, 0x30, 0x00, 0x01,
    0x00, 0x0B, 0x31, 0x00, 0x01, 0x00, 0x15, 0x00, 0x25, 0x01, 0x75, 0x01,
    0x95, 0x02, 0x91, 0x02, 0xC0, 0x09, 0x56, 0x75, 0x01, 0x95, 0x01, 0x91,
    0x02, 0x75, 0x05, 0x95, 0x01, 0x91, 0x03, 0x09, 0x57, 0xA1, 0x02, 0x0B,
    0x01, 0x00, 0x0A, 0x00, 0x0B, 0x02, 0x00, 0x0A, 0x00, 0x66, 0x14, 0x00,
    0x55, 0xFE, 0x15, 0x00, 0x27, 0x3C, 0x8C, 0x00, 0x00, 0x75, 0x10, 0x95,
    0x02, 0x91, 0x02, 0x55, 0x00, 0x66, 0x00, 0x00, 0xC0, 0xC0]"

definition pid_envelope_bytes :: "u8 list" where
  "pid_envelope_bytes = [
    0x05, 0x0F, 0x09, 0x5A, 0xA1, 0x02, 0x85, 0x52, 0x09, 0x22, 0x15, 0x01,
    0x25, 0x28, 0x75, 0x08, 0x95, 0x01, 0x91, 0x02, 0x09, 0x5B, 0x09, 0x5D,
    0x15, 0x00, 0x26, 0xFF, 0x7F, 0x46, 0x10, 0x27, 0x75, 0x10, 0x95, 0x02,
    0x91, 0x02, 0x09, 0x5C, 0x09, 0x5E, 0x66, 0x03, 0x10, 0x55, 0xFD, 0x26,
    0xFF, 0x7F, 0x75, 0x10, 0x95, 0x02, 0x91, 0x02, 0x45, 0x00, 0x66, 0x00,
    0x00, 0x55, 0x00, 0xC0]"

definition pid_condition_bytes :: "u8 list" where
  "pid_condition_bytes = [
    0x09, 0x5F, 0xA1, 0x02, 0x85, 0x53, 0x09, 0x22, 0x15, 0x01, 0x25, 0x28,
    0x75, 0x08, 0x95, 0x01, 0x91, 0x02, 0x09, 0x23, 0x15, 0x00, 0x25, 0x01,
    0x75, 0x08, 0x95, 0x01, 0x91, 0x02, 0x09, 0x60, 0x09, 0x61, 0x09, 0x62,
    0x16, 0x00, 0x80, 0x26, 0xFF, 0x7F, 0x36, 0xF0, 0xD8, 0x46, 0x10, 0x27,
    0x75, 0x10, 0x95, 0x03, 0x91, 0x02, 0x09, 0x63, 0x09, 0x64, 0x09, 0x65,
    0x15, 0x00, 0x27, 0xFF, 0xFF, 0x00, 0x00, 0x35, 0x00, 0x46, 0x10, 0x27,
    0x75, 0x10, 0x95, 0x03, 0x91, 0x02, 0x45, 0x00, 0xC0]"

definition pid_periodic_bytes :: "u8 list" where
  "pid_periodic_bytes = [
    0x09, 0x6E, 0xA1, 0x02, 0x85, 0x5D, 0x09, 0x22, 0x15, 0x01, 0x25, 0x28,
    0x75, 0x08, 0x95, 0x01, 0x91, 0x02, 0x09, 0x70, 0x15, 0x00, 0x26, 0xFF,
    0x7F, 0x35, 0x00, 0x46, 0x10, 0x27, 0x75, 0x10, 0x95, 0x01, 0x91, 0x02,
    0x09, 0x6F, 0x16, 0x00, 0x80, 0x26, 0xFF, 0x7F, 0x36, 0xF0, 0xD8, 0x46,
    0x10, 0x27, 0x75, 0x10, 0x95, 0x01, 0x91, 0x02, 0x35, 0x00, 0x45, 0x00,
    0x09, 0x71, 0x15, 0x00, 0x27, 0x3C, 0x8C, 0x00, 0x00, 0x66, 0x14, 0x00,
    0x55, 0xFE, 0x75, 0x10, 0x95, 0x01, 0x91, 0x02, 0x09, 0x72, 0x15, 0x00,
    0x26, 0xFF, 0x7F, 0x66, 0x03, 0x10, 0x55, 0xFD, 0x75, 0x10, 0x95, 0x01,
    0x91, 0x02, 0x65, 0x00, 0x55, 0x00, 0xC0]"

definition pid_constant_bytes :: "u8 list" where
  "pid_constant_bytes = [
    0x09, 0x73, 0xA1, 0x02, 0x85, 0x55, 0x09, 0x22, 0x15, 0x01, 0x25, 0x28,
    0x75, 0x08, 0x95, 0x01, 0x91, 0x02, 0x09, 0x70, 0x16, 0x00, 0x80, 0x26,
    0xFF, 0x7F, 0x36, 0xF0, 0xD8, 0x46, 0x10, 0x27, 0x75, 0x10, 0x95, 0x01,
    0x91, 0x02, 0x35, 0x00, 0x45, 0x00, 0xC0]"

definition pid_operation_bytes :: "u8 list" where
  "pid_operation_bytes = [
    0x05, 0x0F, 0x09, 0x77, 0xA1, 0x02, 0x85, 0x5A, 0x09, 0x22, 0x15, 0x01,
    0x25, 0x28, 0x35, 0x01, 0x45, 0x28, 0x75, 0x08, 0x95, 0x01, 0x91, 0x02,
    0x35, 0x00, 0x45, 0x00, 0x09, 0x78, 0xA1, 0x02, 0x09, 0x79, 0x09, 0x7A,
    0x09, 0x7B, 0x15, 0x01, 0x25, 0x03, 0x75, 0x08, 0x95, 0x01, 0x91, 0x00,
    0xC0, 0x09, 0x7C, 0x15, 0x00, 0x26, 0xFF, 0x00, 0x46, 0xFF, 0x00, 0x91,
    0x02, 0x45, 0x00, 0xC0]"

definition pid_control_bytes :: "u8 list" where
  "pid_control_bytes = [
    0x09, 0x96, 0xA1, 0x02, 0x85, 0x50, 0x09, 0x97, 0x09, 0x98, 0x09, 0x99,
    0x09, 0x9A, 0x09, 0x9B, 0x09, 0x9C, 0x15, 0x01, 0x25, 0x06, 0x75, 0x08,
    0x95, 0x01, 0x91, 0x00, 0xC0]"

definition pid_create_bytes :: "u8 list" where
  "pid_create_bytes = [
    0x09, 0xAB, 0xA1, 0x02, 0x85, 0x54, 0x09, 0x25, 0xA1, 0x02, 0x09, 0x26,
    0x09, 0x27, 0x09, 0x28, 0x09, 0x30, 0x09, 0x31, 0x09, 0x32, 0x09, 0x33,
    0x09, 0x34, 0x09, 0x40, 0x09, 0x41, 0x09, 0x42, 0x09, 0x43, 0x15, 0x01,
    0x25, 0x12, 0x75, 0x08, 0x95, 0x01, 0xB1, 0x00, 0xC0, 0x05, 0x01, 0x09,
    0x3B, 0x15, 0x00, 0x26, 0xFF, 0x01, 0x46, 0xFF, 0x01, 0x75, 0x0A, 0x95,
    0x01, 0xB1, 0x02, 0x75, 0x06, 0xB1, 0x01, 0x45, 0x00, 0xC0]"

definition pid_block_load_bytes :: "u8 list" where
  "pid_block_load_bytes = [
    0x05, 0x0F, 0x09, 0x89, 0xA1, 0x02, 0x85, 0x56, 0x09, 0x22, 0x25, 0x28,
    0x15, 0x01, 0x35, 0x01, 0x45, 0x28, 0x75, 0x08, 0x95, 0x01, 0xB1, 0x02,
    0x09, 0x8B, 0xA1, 0x02, 0x09, 0x8C, 0x09, 0x8D, 0x09, 0x8E, 0x25, 0x03,
    0x15, 0x01, 0x35, 0x01, 0x45, 0x03, 0x75, 0x08, 0x95, 0x01, 0xB1, 0x00,
    0xC0, 0x09, 0xAC, 0x15, 0x00, 0x27, 0xFF, 0xFF, 0x00, 0x00, 0x35, 0x00,
    0x47, 0xFF, 0xFF, 0x00, 0x00, 0x75, 0x10, 0x95, 0x01, 0xB1, 0x00, 0x45,
    0x00, 0xC0]"

definition pid_pool_bytes :: "u8 list" where
  "pid_pool_bytes = [
    0x09, 0x7F, 0xA1, 0x02, 0x85, 0x57, 0x09, 0x80, 0x75, 0x10, 0x95, 0x01,
    0x15, 0x00, 0x27, 0xFF, 0xFF, 0x00, 0x00, 0xB1, 0x02, 0x09, 0x83, 0x26,
    0xFF, 0x00, 0x75, 0x08, 0x95, 0x01, 0xB1, 0x02, 0x09, 0xA9, 0x09, 0xAA,
    0x75, 0x01, 0x95, 0x02, 0x15, 0x00, 0x25, 0x01, 0xB1, 0x02, 0x75, 0x06,
    0x95, 0x01, 0xB1, 0x03, 0xC0]"

definition pid_gain_bytes :: "u8 list" where
  "pid_gain_bytes = [
    0x09, 0x7D, 0xA1, 0x02, 0x85, 0x59, 0x09, 0x7E, 0x26, 0xFF, 0x00, 0x75,
    0x08, 0x95, 0x01, 0x91, 0x02, 0xC0]"

definition pid_ramp_bytes :: "u8 list" where
  "pid_ramp_bytes = [
    0x09, 0x74, 0xA1, 0x02, 0x85, 0x58, 0x09, 0x22, 0x15, 0x01, 0x25, 0x28,
    0x75, 0x08, 0x95, 0x01, 0x91, 0x02, 0x09, 0x75, 0x09, 0x76, 0x15, 0x00,
    0x26, 0xFF, 0x00, 0x75, 0x08, 0x95, 0x02, 0x91, 0x02, 0xC0]"

definition PID_COLLECTION :: "u8 list" where
  "PID_COLLECTION =
     pid_state_bytes @
     pid_set_effect_bytes @
     pid_envelope_bytes @
     pid_condition_bytes @
     pid_periodic_bytes @
     pid_constant_bytes @
     pid_operation_bytes @
     pid_control_bytes @
     pid_create_bytes @
     pid_block_load_bytes @
     pid_pool_bytes @
     pid_gain_bytes @
     pid_ramp_bytes"

definition BLOCK_FREE_COLLECTION :: "u8 list" where
  "BLOCK_FREE_COLLECTION = [
    0x05, 0x0F, 0x09, 0x90, 0xA1, 0x02, 0x85, 0x5B, 0x09, 0x22, 0x15, 0x01,
    0x25, 0x28, 0x75, 0x08, 0x95, 0x01, 0x91, 0x02, 0xC0]"

definition APP_END :: "u8 list" where
  "APP_END = [0xC0]"

definition report_descriptor :: "u8 list" where
  "report_descriptor = JOYSTICK_PREFIX @ PID_COLLECTION @ BLOCK_FREE_COLLECTION @ APP_END"

section \<open>Reference reading of a HID report descriptor\<close>

datatype report_kind = HInput | HOutput | HFeature

record hid_field =
  f_kind :: report_kind
  f_report :: int
  f_usages :: "int list"
  f_bit :: int
  f_size :: int

record hid_state =
  h_page :: int
  h_size :: int
  h_count :: int
  h_report :: int
  h_usages :: "int list"
  h_umin :: int
  h_depth :: nat
  h_used :: "((report_kind \<times> int) \<times> int) list"

definition hid_init :: hid_state where
  "hid_init = \<lparr>h_page = 0, h_size = 0, h_count = 0, h_report = 0, h_usages = [], h_umin = 0,
     h_depth = 0, h_used = []\<rparr>"

text \<open>One item: its tag (prefix without the size bits) and its little-endian payload.
  A report with an id starts after the id byte, at bit 8.\<close>

fun le_int :: "int list \<Rightarrow> int" where
  "le_int [] = 0"
| "le_int (b # bs) = b + 256 * le_int bs"

fun used_bits :: "((report_kind \<times> int) \<times> int) list \<Rightarrow> report_kind \<times> int \<Rightarrow> int" where
  "used_bits [] k = (if snd k = 0 then 0 else 8)"
| "used_bits ((k', n) # xs) k = (if k' = k then n else used_bits xs k)"

fun var_fields :: "report_kind \<Rightarrow> int \<Rightarrow> int \<Rightarrow> int \<Rightarrow> int list \<Rightarrow> nat \<Rightarrow> hid_field list" where
  "var_fields k r sz at us 0 = []"
| "var_fields k r sz at us (Suc n) =
     \<lparr>f_kind = k, f_report = r, f_usages = take 1 us, f_bit = at, f_size = sz\<rparr> #
     var_fields k r sz (at + sz) (if length us \<le> 1 then us else drop 1 us) n"

definition array_fields :: "report_kind \<Rightarrow> int \<Rightarrow> int \<Rightarrow> int \<Rightarrow> int list \<Rightarrow> nat \<Rightarrow> hid_field list" where
  "array_fields k r sz at us n =
     map (\<lambda>i. \<lparr>f_kind = k, f_report = r, f_usages = us, f_bit = at + int i * sz, f_size = sz\<rparr>) [0..<n]"

fun set_used :: "((report_kind \<times> int) \<times> int) list \<Rightarrow> report_kind \<times> int \<Rightarrow> int \<Rightarrow>
    ((report_kind \<times> int) \<times> int) list" where
  "set_used [] k n = [(k, n)]"
| "set_used ((k', m) # xs) k n = (if k' = k then (k, n) # xs else (k', m) # set_used xs k n)"

definition main_item :: "report_kind \<Rightarrow> int \<Rightarrow> hid_state \<Rightarrow> hid_field list \<times> hid_state" where
  "main_item k flags s =
     (let key = (k, h_report s); at = used_bits (h_used s) key
      in (if odd flags then []
          else if odd (flags div 2)
          then var_fields k (h_report s) (h_size s) at (h_usages s) (nat (h_count s))
          else array_fields k (h_report s) (h_size s) at (h_usages s) (nat (h_count s)),
          s\<lparr>h_used := set_used (h_used s) key (at + h_size s * h_count s), h_usages := [], h_umin := 0\<rparr>))"

definition state_item :: "int \<Rightarrow> int \<Rightarrow> int \<Rightarrow> hid_state \<Rightarrow> hid_state" where
  "state_item tag n v s =
     (let u = (if n = 4 then v else h_page s * 65536 + v) in
      if tag = 0x04 then s\<lparr>h_page := v\<rparr>
      else if tag = 0x74 then s\<lparr>h_size := v\<rparr>
      else if tag = 0x94 then s\<lparr>h_count := v\<rparr>
      else if tag = 0x84 then s\<lparr>h_report := v\<rparr>
      else if tag = 0x08 then s\<lparr>h_usages := h_usages s @ [u]\<rparr>
      else if tag = 0x18 then s\<lparr>h_umin := u\<rparr>
      else if tag = 0x28 then s\<lparr>h_usages := h_usages s @ [h_umin s..u]\<rparr>
      else if tag = 0xA0 then s\<lparr>h_depth := Suc (h_depth s), h_usages := [], h_umin := 0\<rparr>
      else if tag = 0xC0 then s\<lparr>h_depth := h_depth s - 1, h_usages := [], h_umin := 0\<rparr>
      else s)"

definition hid_item :: "int \<Rightarrow> int \<Rightarrow> int \<Rightarrow> hid_state \<Rightarrow> hid_field list \<times> hid_state" where
  "hid_item tag n v s =
     (if tag = 0x80 then main_item HInput v s
      else if tag = 0x90 then main_item HOutput v s
      else if tag = 0xB0 then main_item HFeature v s
      else ([], state_item tag n v s))"

definition item_width :: "int \<Rightarrow> nat" where
  "item_width p = (if p mod 4 = 3 then 4 else nat (p mod 4))"

text \<open>The fields in the order the items declare them, and the state after the last item.
  A truncated item is no descriptor, and neither is one with a collection left open.\<close>

fun hid_parse :: "int list \<Rightarrow> hid_state \<Rightarrow> hid_field list \<Rightarrow> (hid_field list \<times> hid_state) option" where
  "hid_parse [] s fs = Some (fs, s)"
| "hid_parse (p # bs) s fs =
     (if length bs < item_width p then None
      else hid_parse (drop (item_width p) bs)
             (snd (hid_item (p - p mod 4) (int (item_width p)) (le_int (take (item_width p) bs)) s))
             (fs @ fst (hid_item (p - p mod 4) (int (item_width p)) (le_int (take (item_width p) bs)) s)))"

definition hid_table :: "u8 list \<Rightarrow> hid_field list option" where
  "hid_table d = (case hid_parse (map uint d) hid_init [] of
     Some (fs, s) \<Rightarrow> if h_depth s = 0 then Some fs else None | None \<Rightarrow> None)"

text \<open>Where a usage sits in a report, and the unsigned value a host reads there.\<close>

definition field_at :: "hid_field list \<Rightarrow> report_kind \<Rightarrow> int \<Rightarrow> int \<Rightarrow> (nat \<times> nat) option" where
  "field_at fs k r u =
     map_option (\<lambda>f. (nat (f_bit f), nat (f_size f)))
       (find (\<lambda>f. f_kind f = k \<and> f_report f = r \<and> u \<in> set (f_usages f)) fs)"

definition read_bits :: "u8 list \<Rightarrow> nat \<Rightarrow> nat \<Rightarrow> int" where
  "read_bits rep at n = le_int (map uint rep) div 2 ^ at mod 2 ^ n"

definition host_reads :: "report_kind \<Rightarrow> int \<Rightarrow> int \<Rightarrow> u8 list \<Rightarrow> int option" where
  "host_reads k r u rep = do {
     fs \<leftarrow> hid_table report_descriptor;
     (at, n) \<leftarrow> field_at fs k r u;
     Some (read_bits rep at n) }"


section \<open>The fields of this descriptor\<close>

text \<open>The table is computed collection by collection: each lemma reads one collection of the
  descriptor from the state the previous one leaves.\<close>

definition mk_field :: "report_kind \<Rightarrow> int \<Rightarrow> int list \<Rightarrow> int \<Rightarrow> int \<Rightarrow> hid_field" where
  "mk_field k r us at sz = \<lparr>f_kind = k, f_report = r, f_usages = us, f_bit = at, f_size = sz\<rparr>"

definition hid_st :: "int \<Rightarrow> int \<Rightarrow> int \<Rightarrow> int \<Rightarrow> nat \<Rightarrow> ((report_kind \<times> int) \<times> int) list \<Rightarrow> hid_state" where
  "hid_st pg sz ct rid d used =
     \<lparr>h_page = pg, h_size = sz, h_count = ct, h_report = rid, h_usages = [], h_umin = 0,
      h_depth = d, h_used = used\<rparr>"

lemma hid_parse_prefix:
  "hid_parse bs s (fs @ gs) = map_option (\<lambda>(hs, t). (fs @ hs, t)) (hid_parse bs s gs)"
  by (induction bs s gs rule: hid_parse.induct) simp_all

lemma hid_parse_append:
  "hid_parse xs s fs = Some (gs, t) \<Longrightarrow> hid_parse (xs @ ys) s fs = hid_parse ys t gs"
  by (induction xs s fs rule: hid_parse.induct) (simp_all split: if_splits)

lemma hid_parse_chunk:
  assumes "hid_parse xs s [] = Some (gs, t)"
  shows "hid_parse (xs @ ys) s fs = hid_parse ys t (fs @ gs)"
    and "hid_parse xs s fs = Some (fs @ gs, t)"
  using assms hid_parse_prefix [of xs s fs "[]"] by (auto intro: hid_parse_append)

definition fields_joystick_prefix :: "hid_field list" where
  "fields_joystick_prefix =
      [mk_field HInput 1 [65584] 8 16] @
      [mk_field HInput 1 [65585] 24 16] @
      [mk_field HInput 1 [65586] 40 16] @
      [mk_field HInput 1 [65589] 56 16] @
      var_fields HInput 1 1 72 [589825..589888] 64 @
      [mk_field HInput 1 [65593] 136 8]"

lemma parse_joystick_prefix:
  "hid_parse (map uint JOYSTICK_PREFIX)
     (hid_st 0 0 0 0 0
      []) [] =
   Some (fields_joystick_prefix,
     hid_st 1 8 1 1 1
      [((HInput, 1), 144)])"
  by code_simp

definition fields_pid_state :: "hid_field list" where
  "fields_pid_state =
      [mk_field HInput 80 [983199] 8 1,
      mk_field HInput 80 [983200] 9 1,
      mk_field HInput 80 [983188] 10 1,
      mk_field HInput 80 [983188] 11 1,
      mk_field HInput 80 [983188] 12 1,
      mk_field HInput 80 [983188] 13 1,
      mk_field HInput 80 [983188] 14 1,
      mk_field HInput 80 [983188] 15 1,
      mk_field HInput 80 [983074] 16 7]"

lemma parse_pid_state:
  "hid_parse (map uint pid_state_bytes)
     (hid_st 1 8 1 1 1
      [((HInput, 1), 144)]) [] =
   Some (fields_pid_state,
     hid_st 15 7 1 80 1
      [((HInput, 1), 144), ((HInput, 80), 23)])"
  by code_simp

definition fields_pid_set_effect :: "hid_field list" where
  "fields_pid_set_effect =
      [mk_field HOutput 81 [983074] 8 8,
      mk_field HOutput 81 [983078, 983079, 983080, 983088, 983089, 983090, 983091, 983092, 983104, 983105, 983106, 983107] 16 8,
      mk_field HOutput 81 [983120] 24 16,
      mk_field HOutput 81 [983124] 40 16,
      mk_field HOutput 81 [983121] 56 16,
      mk_field HOutput 81 [983207] 72 16,
      mk_field HOutput 81 [983122] 88 8,
      mk_field HOutput 81 [983123] 96 8,
      mk_field HOutput 81 [65584] 104 1,
      mk_field HOutput 81 [65585] 105 1,
      mk_field HOutput 81 [983126] 106 1,
      mk_field HOutput 81 [655361] 112 16,
      mk_field HOutput 81 [655362] 128 16]"

lemma parse_pid_set_effect:
  "hid_parse (map uint pid_set_effect_bytes)
     (hid_st 15 7 1 80 1
      [((HInput, 1), 144), ((HInput, 80), 23)]) [] =
   Some (fields_pid_set_effect,
     hid_st 15 16 2 81 1
      [((HInput, 1), 144), ((HInput, 80), 23), ((HOutput, 81), 144)])"
  by code_simp

definition fields_pid_envelope :: "hid_field list" where
  "fields_pid_envelope =
      [mk_field HOutput 82 [983074] 8 8,
      mk_field HOutput 82 [983131] 16 16,
      mk_field HOutput 82 [983133] 32 16,
      mk_field HOutput 82 [983132] 48 16,
      mk_field HOutput 82 [983134] 64 16]"

lemma parse_pid_envelope:
  "hid_parse (map uint pid_envelope_bytes)
     (hid_st 15 16 2 81 1
      [((HInput, 1), 144), ((HInput, 80), 23), ((HOutput, 81), 144)]) [] =
   Some (fields_pid_envelope,
     hid_st 15 16 2 82 1
      [((HInput, 1), 144), ((HInput, 80), 23), ((HOutput, 81), 144), ((HOutput, 82), 80)])"
  by code_simp

definition fields_pid_condition :: "hid_field list" where
  "fields_pid_condition =
      [mk_field HOutput 83 [983074] 8 8,
      mk_field HOutput 83 [983075] 16 8,
      mk_field HOutput 83 [983136] 24 16,
      mk_field HOutput 83 [983137] 40 16,
      mk_field HOutput 83 [983138] 56 16,
      mk_field HOutput 83 [983139] 72 16,
      mk_field HOutput 83 [983140] 88 16,
      mk_field HOutput 83 [983141] 104 16]"

lemma parse_pid_condition:
  "hid_parse (map uint pid_condition_bytes)
     (hid_st 15 16 2 82 1
      [((HInput, 1), 144), ((HInput, 80), 23), ((HOutput, 81), 144), ((HOutput, 82), 80)]) [] =
   Some (fields_pid_condition,
     hid_st 15 16 3 83 1
      [((HInput, 1), 144), ((HInput, 80), 23), ((HOutput, 81), 144), ((HOutput, 82), 80), ((HOutput, 83), 120)])"
  by code_simp

definition fields_pid_periodic :: "hid_field list" where
  "fields_pid_periodic =
      [mk_field HOutput 93 [983074] 8 8,
      mk_field HOutput 93 [983152] 16 16,
      mk_field HOutput 93 [983151] 32 16,
      mk_field HOutput 93 [983153] 48 16,
      mk_field HOutput 93 [983154] 64 16]"

lemma parse_pid_periodic:
  "hid_parse (map uint pid_periodic_bytes)
     (hid_st 15 16 3 83 1
      [((HInput, 1), 144), ((HInput, 80), 23), ((HOutput, 81), 144), ((HOutput, 82), 80), ((HOutput, 83), 120)]) [] =
   Some (fields_pid_periodic,
     hid_st 15 16 1 93 1
      [((HInput, 1), 144), ((HInput, 80), 23), ((HOutput, 81), 144), ((HOutput, 82), 80), ((HOutput, 83), 120), ((HOutput, 93), 80)])"
  by code_simp

definition fields_pid_constant :: "hid_field list" where
  "fields_pid_constant =
      [mk_field HOutput 85 [983074] 8 8,
      mk_field HOutput 85 [983152] 16 16]"

lemma parse_pid_constant:
  "hid_parse (map uint pid_constant_bytes)
     (hid_st 15 16 1 93 1
      [((HInput, 1), 144), ((HInput, 80), 23), ((HOutput, 81), 144), ((HOutput, 82), 80), ((HOutput, 83), 120), ((HOutput, 93), 80)]) [] =
   Some (fields_pid_constant,
     hid_st 15 16 1 85 1
      [((HInput, 1), 144), ((HInput, 80), 23), ((HOutput, 81), 144), ((HOutput, 82), 80), ((HOutput, 83), 120), ((HOutput, 93), 80), ((HOutput, 85), 32)])"
  by code_simp

definition fields_pid_operation :: "hid_field list" where
  "fields_pid_operation =
      [mk_field HOutput 90 [983074] 8 8,
      mk_field HOutput 90 [983161, 983162, 983163] 16 8,
      mk_field HOutput 90 [983164] 24 8]"

lemma parse_pid_operation:
  "hid_parse (map uint pid_operation_bytes)
     (hid_st 15 16 1 85 1
      [((HInput, 1), 144), ((HInput, 80), 23), ((HOutput, 81), 144), ((HOutput, 82), 80), ((HOutput, 83), 120), ((HOutput, 93), 80), ((HOutput, 85), 32)]) [] =
   Some (fields_pid_operation,
     hid_st 15 8 1 90 1
      [((HInput, 1), 144), ((HInput, 80), 23), ((HOutput, 81), 144), ((HOutput, 82), 80), ((HOutput, 83), 120), ((HOutput, 93), 80), ((HOutput, 85), 32), ((HOutput, 90), 32)])"
  by code_simp

definition fields_pid_control :: "hid_field list" where
  "fields_pid_control =
      [mk_field HOutput 80 [983191, 983192, 983193, 983194, 983195, 983196] 8 8]"

lemma parse_pid_control:
  "hid_parse (map uint pid_control_bytes)
     (hid_st 15 8 1 90 1
      [((HInput, 1), 144), ((HInput, 80), 23), ((HOutput, 81), 144), ((HOutput, 82), 80), ((HOutput, 83), 120), ((HOutput, 93), 80), ((HOutput, 85), 32), ((HOutput, 90), 32)]) [] =
   Some (fields_pid_control,
     hid_st 15 8 1 80 1
      [((HInput, 1), 144), ((HInput, 80), 23), ((HOutput, 81), 144), ((HOutput, 82), 80), ((HOutput, 83), 120), ((HOutput, 93), 80), ((HOutput, 85), 32), ((HOutput, 90), 32), ((HOutput, 80), 16)])"
  by code_simp

definition fields_pid_create :: "hid_field list" where
  "fields_pid_create =
      [mk_field HFeature 84 [983078, 983079, 983080, 983088, 983089, 983090, 983091, 983092, 983104, 983105, 983106, 983107] 8 8,
      mk_field HFeature 84 [65595] 16 10]"

lemma parse_pid_create:
  "hid_parse (map uint pid_create_bytes)
     (hid_st 15 8 1 80 1
      [((HInput, 1), 144), ((HInput, 80), 23), ((HOutput, 81), 144), ((HOutput, 82), 80), ((HOutput, 83), 120), ((HOutput, 93), 80), ((HOutput, 85), 32), ((HOutput, 90), 32), ((HOutput, 80), 16)]) [] =
   Some (fields_pid_create,
     hid_st 1 6 1 84 1
      [((HInput, 1), 144), ((HInput, 80), 23), ((HOutput, 81), 144), ((HOutput, 82), 80), ((HOutput, 83), 120), ((HOutput, 93), 80), ((HOutput, 85), 32), ((HOutput, 90), 32), ((HOutput, 80), 16), ((HFeature, 84), 32)])"
  by code_simp

definition fields_pid_block_load :: "hid_field list" where
  "fields_pid_block_load =
      [mk_field HFeature 86 [983074] 8 8,
      mk_field HFeature 86 [983180, 983181, 983182] 16 8,
      mk_field HFeature 86 [983212] 24 16]"

lemma parse_pid_block_load:
  "hid_parse (map uint pid_block_load_bytes)
     (hid_st 1 6 1 84 1
      [((HInput, 1), 144), ((HInput, 80), 23), ((HOutput, 81), 144), ((HOutput, 82), 80), ((HOutput, 83), 120), ((HOutput, 93), 80), ((HOutput, 85), 32), ((HOutput, 90), 32), ((HOutput, 80), 16), ((HFeature, 84), 32)]) [] =
   Some (fields_pid_block_load,
     hid_st 15 16 1 86 1
      [((HInput, 1), 144), ((HInput, 80), 23), ((HOutput, 81), 144), ((HOutput, 82), 80), ((HOutput, 83), 120), ((HOutput, 93), 80), ((HOutput, 85), 32), ((HOutput, 90), 32), ((HOutput, 80), 16), ((HFeature, 84), 32), ((HFeature, 86), 40)])"
  by code_simp

definition fields_pid_pool :: "hid_field list" where
  "fields_pid_pool =
      [mk_field HFeature 87 [983168] 8 16,
      mk_field HFeature 87 [983171] 24 8,
      mk_field HFeature 87 [983209] 32 1,
      mk_field HFeature 87 [983210] 33 1]"

lemma parse_pid_pool:
  "hid_parse (map uint pid_pool_bytes)
     (hid_st 15 16 1 86 1
      [((HInput, 1), 144), ((HInput, 80), 23), ((HOutput, 81), 144), ((HOutput, 82), 80), ((HOutput, 83), 120), ((HOutput, 93), 80), ((HOutput, 85), 32), ((HOutput, 90), 32), ((HOutput, 80), 16), ((HFeature, 84), 32), ((HFeature, 86), 40)]) [] =
   Some (fields_pid_pool,
     hid_st 15 6 1 87 1
      [((HInput, 1), 144), ((HInput, 80), 23), ((HOutput, 81), 144), ((HOutput, 82), 80), ((HOutput, 83), 120), ((HOutput, 93), 80), ((HOutput, 85), 32), ((HOutput, 90), 32), ((HOutput, 80), 16), ((HFeature, 84), 32), ((HFeature, 86), 40), ((HFeature, 87), 40)])"
  by code_simp

definition fields_pid_gain :: "hid_field list" where
  "fields_pid_gain =
      [mk_field HOutput 89 [983166] 8 8]"

lemma parse_pid_gain:
  "hid_parse (map uint pid_gain_bytes)
     (hid_st 15 6 1 87 1
      [((HInput, 1), 144), ((HInput, 80), 23), ((HOutput, 81), 144), ((HOutput, 82), 80), ((HOutput, 83), 120), ((HOutput, 93), 80), ((HOutput, 85), 32), ((HOutput, 90), 32), ((HOutput, 80), 16), ((HFeature, 84), 32), ((HFeature, 86), 40), ((HFeature, 87), 40)]) [] =
   Some (fields_pid_gain,
     hid_st 15 8 1 89 1
      [((HInput, 1), 144), ((HInput, 80), 23), ((HOutput, 81), 144), ((HOutput, 82), 80), ((HOutput, 83), 120), ((HOutput, 93), 80), ((HOutput, 85), 32), ((HOutput, 90), 32), ((HOutput, 80), 16), ((HFeature, 84), 32), ((HFeature, 86), 40), ((HFeature, 87), 40), ((HOutput, 89), 16)])"
  by code_simp

definition fields_pid_ramp :: "hid_field list" where
  "fields_pid_ramp =
      [mk_field HOutput 88 [983074] 8 8,
      mk_field HOutput 88 [983157] 16 8,
      mk_field HOutput 88 [983158] 24 8]"

lemma parse_pid_ramp:
  "hid_parse (map uint pid_ramp_bytes)
     (hid_st 15 8 1 89 1
      [((HInput, 1), 144), ((HInput, 80), 23), ((HOutput, 81), 144), ((HOutput, 82), 80), ((HOutput, 83), 120), ((HOutput, 93), 80), ((HOutput, 85), 32), ((HOutput, 90), 32), ((HOutput, 80), 16), ((HFeature, 84), 32), ((HFeature, 86), 40), ((HFeature, 87), 40), ((HOutput, 89), 16)]) [] =
   Some (fields_pid_ramp,
     hid_st 15 8 2 88 1
      [((HInput, 1), 144), ((HInput, 80), 23), ((HOutput, 81), 144), ((HOutput, 82), 80), ((HOutput, 83), 120), ((HOutput, 93), 80), ((HOutput, 85), 32), ((HOutput, 90), 32), ((HOutput, 80), 16), ((HFeature, 84), 32), ((HFeature, 86), 40), ((HFeature, 87), 40), ((HOutput, 89), 16), ((HOutput, 88), 32)])"
  by code_simp

definition fields_block_free_collection :: "hid_field list" where
  "fields_block_free_collection =
      [mk_field HOutput 91 [983074] 8 8]"

lemma parse_block_free_collection:
  "hid_parse (map uint BLOCK_FREE_COLLECTION)
     (hid_st 15 8 2 88 1
      [((HInput, 1), 144), ((HInput, 80), 23), ((HOutput, 81), 144), ((HOutput, 82), 80), ((HOutput, 83), 120), ((HOutput, 93), 80), ((HOutput, 85), 32), ((HOutput, 90), 32), ((HOutput, 80), 16), ((HFeature, 84), 32), ((HFeature, 86), 40), ((HFeature, 87), 40), ((HOutput, 89), 16), ((HOutput, 88), 32)]) [] =
   Some (fields_block_free_collection,
     hid_st 15 8 1 91 1
      [((HInput, 1), 144), ((HInput, 80), 23), ((HOutput, 81), 144), ((HOutput, 82), 80), ((HOutput, 83), 120), ((HOutput, 93), 80), ((HOutput, 85), 32), ((HOutput, 90), 32), ((HOutput, 80), 16), ((HFeature, 84), 32), ((HFeature, 86), 40), ((HFeature, 87), 40), ((HOutput, 89), 16), ((HOutput, 88), 32), ((HOutput, 91), 16)])"
  by code_simp

definition fields_app_end :: "hid_field list" where
  "fields_app_end =
      []"

lemma parse_app_end:
  "hid_parse (map uint APP_END)
     (hid_st 15 8 1 91 1
      [((HInput, 1), 144), ((HInput, 80), 23), ((HOutput, 81), 144), ((HOutput, 82), 80), ((HOutput, 83), 120), ((HOutput, 93), 80), ((HOutput, 85), 32), ((HOutput, 90), 32), ((HOutput, 80), 16), ((HFeature, 84), 32), ((HFeature, 86), 40), ((HFeature, 87), 40), ((HOutput, 89), 16), ((HOutput, 88), 32), ((HOutput, 91), 16)]) [] =
   Some (fields_app_end,
     hid_st 15 8 1 91 0
      [((HInput, 1), 144), ((HInput, 80), 23), ((HOutput, 81), 144), ((HOutput, 82), 80), ((HOutput, 83), 120), ((HOutput, 93), 80), ((HOutput, 85), 32), ((HOutput, 90), 32), ((HOutput, 80), 16), ((HFeature, 84), 32), ((HFeature, 86), 40), ((HFeature, 87), 40), ((HOutput, 89), 16), ((HOutput, 88), 32), ((HOutput, 91), 16)])"
  by code_simp

definition descriptor_fields :: "hid_field list" where
  "descriptor_fields =
     fields_joystick_prefix @
     fields_pid_state @
     fields_pid_set_effect @
     fields_pid_envelope @
     fields_pid_condition @
     fields_pid_periodic @
     fields_pid_constant @
     fields_pid_operation @
     fields_pid_control @
     fields_pid_create @
     fields_pid_block_load @
     fields_pid_pool @
     fields_pid_gain @
     fields_pid_ramp @
     fields_block_free_collection @
     fields_app_end"

lemma hid_table_descriptor: "hid_table report_descriptor = Some descriptor_fields"
proof -
  have "hid_parse (map uint report_descriptor) (hid_st 0 0 0 0 0 []) [] =
      Some (descriptor_fields, hid_st 15 8 1 91 0 [((HInput, 1), 144), ((HInput, 80), 23), ((HOutput, 81), 144), ((HOutput, 82), 80), ((HOutput, 83), 120), ((HOutput, 93), 80), ((HOutput, 85), 32), ((HOutput, 90), 32), ((HOutput, 80), 16), ((HFeature, 84), 32), ((HFeature, 86), 40), ((HFeature, 87), 40), ((HOutput, 89), 16), ((HOutput, 88), 32), ((HOutput, 91), 16)])"
    unfolding report_descriptor_def PID_COLLECTION_def descriptor_fields_def map_append append_assoc
    by (simp only: parse_joystick_prefix [THEN hid_parse_chunk(1)]
        parse_pid_state [THEN hid_parse_chunk(1)]
        parse_pid_set_effect [THEN hid_parse_chunk(1)]
        parse_pid_envelope [THEN hid_parse_chunk(1)]
        parse_pid_condition [THEN hid_parse_chunk(1)]
        parse_pid_periodic [THEN hid_parse_chunk(1)]
        parse_pid_constant [THEN hid_parse_chunk(1)]
        parse_pid_operation [THEN hid_parse_chunk(1)]
        parse_pid_control [THEN hid_parse_chunk(1)]
        parse_pid_create [THEN hid_parse_chunk(1)]
        parse_pid_block_load [THEN hid_parse_chunk(1)]
        parse_pid_pool [THEN hid_parse_chunk(1)]
        parse_pid_gain [THEN hid_parse_chunk(1)]
        parse_pid_ramp [THEN hid_parse_chunk(1)]
        parse_block_free_collection [THEN hid_parse_chunk(1)]
        parse_app_end [THEN hid_parse_chunk(2)]
        append_Nil append_assoc)
  then show ?thesis by (simp add: hid_table_def hid_init_def hid_st_def)
qed

end
