(* ===== verification/Pidff.thy ===== *)
theory Pidff
  imports Descriptor
begin

text \<open>
  The PID output report decoder (\<open>logi-ffb/src/pidff.rs\<close>): raw report bytes to typed
  effect operations, the effect type byte of Create New Effect, and the two feature
  replies. The main results compare the decoder with the report descriptor: every
  field it extracts is the value a host reads at the position the descriptor declares.
\<close>

section \<open>Constants and types\<close>

abbreviation EFFECT_TYPE_CONSTANT :: u8 where "EFFECT_TYPE_CONSTANT \<equiv> 0x26"
abbreviation EFFECT_TYPE_RAMP :: u8 where "EFFECT_TYPE_RAMP \<equiv> 0x27"
abbreviation EFFECT_TYPE_SQUARE :: u8 where "EFFECT_TYPE_SQUARE \<equiv> 0x30"
abbreviation EFFECT_TYPE_SINE :: u8 where "EFFECT_TYPE_SINE \<equiv> 0x31"
abbreviation EFFECT_TYPE_TRIANGLE :: u8 where "EFFECT_TYPE_TRIANGLE \<equiv> 0x32"
abbreviation EFFECT_TYPE_SAWUP :: u8 where "EFFECT_TYPE_SAWUP \<equiv> 0x33"
abbreviation EFFECT_TYPE_SAWDOWN :: u8 where "EFFECT_TYPE_SAWDOWN \<equiv> 0x34"
abbreviation EFFECT_TYPE_SPRING :: u8 where "EFFECT_TYPE_SPRING \<equiv> 0x40"
abbreviation EFFECT_TYPE_DAMPER :: u8 where "EFFECT_TYPE_DAMPER \<equiv> 0x41"
abbreviation EFFECT_TYPE_INERTIA :: u8 where "EFFECT_TYPE_INERTIA \<equiv> 0x42"
abbreviation EFFECT_TYPE_FRICTION :: u8 where "EFFECT_TYPE_FRICTION \<equiv> 0x43"

abbreviation REPORT_DEVICE_CONTROL :: u8 where "REPORT_DEVICE_CONTROL \<equiv> 0x50"
abbreviation REPORT_SET_EFFECT :: u8 where "REPORT_SET_EFFECT \<equiv> 0x51"
abbreviation REPORT_SET_ENVELOPE :: u8 where "REPORT_SET_ENVELOPE \<equiv> 0x52"
abbreviation REPORT_SET_CONDITION :: u8 where "REPORT_SET_CONDITION \<equiv> 0x53"
abbreviation REPORT_CREATE_NEW_EFFECT :: u8 where "REPORT_CREATE_NEW_EFFECT \<equiv> 0x54"
abbreviation REPORT_SET_CONSTANT :: u8 where "REPORT_SET_CONSTANT \<equiv> 0x55"
abbreviation REPORT_SET_RAMP :: u8 where "REPORT_SET_RAMP \<equiv> 0x58"
abbreviation REPORT_DEVICE_GAIN :: u8 where "REPORT_DEVICE_GAIN \<equiv> 0x59"
abbreviation REPORT_EFFECT_OPERATION :: u8 where "REPORT_EFFECT_OPERATION \<equiv> 0x5A"
abbreviation REPORT_BLOCK_FREE :: u8 where "REPORT_BLOCK_FREE \<equiv> 0x5B"
abbreviation REPORT_SET_PERIODIC :: u8 where "REPORT_SET_PERIODIC \<equiv> 0x5D"

abbreviation PID_DURATION_INFINITE :: u16 where "PID_DURATION_INFINITE \<equiv> 0xFFFF"
abbreviation PID_POOL_RAM_SIZE :: u16 where "PID_POOL_RAM_SIZE \<equiv> 0xFFFF"
abbreviation PID_POOL_SIMULTANEOUS_MAX :: u8 where "PID_POOL_SIMULTANEOUS_MAX \<equiv> 40"
abbreviation FLAG_DEVICE_MANAGED_POOL :: u8 where "FLAG_DEVICE_MANAGED_POOL \<equiv> 0x01"

datatype EffectKind =
    Constant | Ramp | Square | Sine | Triangle | SawUp | SawDown | Spring | Damper | Inertia | Friction

datatype DeviceControlOp =
    EnableActuators | DisableActuators | StopAllEffects | Reset | Pause | Continue

text \<open>Field order as in the source: \<open>SetPeriodic\<close> is block, magnitude, offset, phase,
  period; \<open>SetCondition\<close> block, centre, positive and negative coefficient, positive and
  negative saturation; \<open>SetEnvelope\<close> block, attack time, attack level, fade time, fade
  level; \<open>Operation\<close> block, start, loop count.\<close>

datatype EffectOp =
    Create u8 EffectKind
  | SetEffect u8 u16 u16
  | SetConstant u8 i16
  | SetRamp u8 i16 i16
  | SetPeriodic u8 i16 i16 u16 u16
  | SetCondition u8 i16 i16 i16 u16 u16
  | SetEnvelope u8 u16 u16 u16 u16
  | Operation u8 bool u8
  | Destroy u8
  | Gain u8
  | DeviceControl DeviceControlOp

section \<open>Operations\<close>

definition effect_kind_from_type_byte :: "u8 \<Rightarrow> EffectKind option" where
  "effect_kind_from_type_byte b =
     (if b = 1 then Some Constant else if b = 2 then Some Ramp
      else if b = 4 then Some Square else if b = 5 then Some Sine
      else if b = 6 then Some Triangle else if b = 7 then Some SawUp
      else if b = 8 then Some SawDown else if b = 9 then Some Spring
      else if b = 10 then Some Damper else if b = 11 then Some Inertia
      else if b = 12 then Some Friction
      else if b = EFFECT_TYPE_CONSTANT then Some Constant
      else if b = EFFECT_TYPE_RAMP then Some Ramp
      else if b = EFFECT_TYPE_SQUARE then Some Square
      else if b = EFFECT_TYPE_SINE then Some Sine
      else if b = EFFECT_TYPE_TRIANGLE then Some Triangle
      else if b = EFFECT_TYPE_SAWUP then Some SawUp
      else if b = EFFECT_TYPE_SAWDOWN then Some SawDown
      else if b = EFFECT_TYPE_SPRING then Some Spring
      else if b = EFFECT_TYPE_DAMPER then Some Damper
      else if b = EFFECT_TYPE_INERTIA then Some Inertia
      else if b = EFFECT_TYPE_FRICTION then Some Friction
      else None)"

definition pid_block_load_reply :: "u8 \<Rightarrow> u8 list" where
  "pid_block_load_reply block =
     (let ram = to_le_bytes PID_POOL_RAM_SIZE in [0x56, block, 1, ram ! 0, ram ! 1])"

definition pid_pool_reply :: "u8 list" where
  "pid_pool_reply =
     (let ram = to_le_bytes PID_POOL_RAM_SIZE
      in [0x57, ram ! 0, ram ! 1, PID_POOL_SIMULTANEOUS_MAX, FLAG_DEVICE_MANAGED_POOL])"

definition from_wire :: "u8 \<Rightarrow> DeviceControlOp option" where
  "from_wire b =
     (if b = 0x01 then Some EnableActuators else if b = 0x02 then Some DisableActuators
      else if b = 0x03 then Some StopAllEffects else if b = 0x04 then Some Reset
      else if b = 0x05 then Some Pause else if b = 0x06 then Some Continue else None)"

definition u16_at :: "u8 list \<Rightarrow> nat \<Rightarrow> u16 option" where
  "u16_at report at = map_option from_le_bytes (get_range report at (at + 2))"

definition i16_at :: "u8 list \<Rightarrow> nat \<Rightarrow> i16 option" where
  "i16_at report at = u16_at report at"

text \<open>\<open>(byte as i32 * 32767 / 255) as i16\<close>; the operands are never negative, so the
  truncating division is \<open>div\<close>.\<close>

definition ramp_level :: "u8 \<Rightarrow> i16" where
  "ramp_level b = word_of_int (uint b * 32767 div 255)"

definition decode :: "u8 list \<Rightarrow> EffectOp option" where
  "decode report = do {
     id \<leftarrow> get_at report 0;
     if id = REPORT_DEVICE_CONTROL then do {
       b \<leftarrow> get_at report 1;
       op \<leftarrow> from_wire b;
       Some (DeviceControl op) }
     else if id = REPORT_SET_EFFECT then do {
       block \<leftarrow> get_at report 1;
       d \<leftarrow> u16_at report 3;
       let duration_ms = (if d = PID_DURATION_INFINITE then 0 else d);
       direction \<leftarrow> u16_at report 14;
       Some (SetEffect block duration_ms direction) }
     else if id = REPORT_SET_ENVELOPE then do {
       block \<leftarrow> get_at report 1;
       attack_level \<leftarrow> u16_at report 2;
       fade_level \<leftarrow> u16_at report 4;
       attack_ms \<leftarrow> u16_at report 6;
       fade_ms \<leftarrow> u16_at report 8;
       Some (SetEnvelope block attack_ms attack_level fade_ms fade_level) }
     else if id = REPORT_SET_CONDITION then do {
       block \<leftarrow> get_at report 1;
       center \<leftarrow> i16_at report 3;
       coeff_pos \<leftarrow> i16_at report 5;
       coeff_neg \<leftarrow> i16_at report 7;
       sat_pos \<leftarrow> u16_at report 9;
       sat_neg \<leftarrow> u16_at report 11;
       Some (SetCondition block center coeff_pos coeff_neg sat_pos sat_neg) }
     else if id = REPORT_CREATE_NEW_EFFECT then None
     else if id = REPORT_SET_CONSTANT then do {
       block \<leftarrow> get_at report 1;
       magnitude \<leftarrow> i16_at report 2;
       Some (SetConstant block magnitude) }
     else if id = REPORT_SET_RAMP then do {
       block \<leftarrow> get_at report 1;
       s \<leftarrow> get_at report 2;
       e \<leftarrow> get_at report 3;
       Some (SetRamp block (ramp_level s) (ramp_level e)) }
     else if id = REPORT_DEVICE_GAIN then do {
       value \<leftarrow> get_at report 1;
       Some (Gain value) }
     else if id = REPORT_BLOCK_FREE then do {
       block \<leftarrow> get_at report 1;
       Some (Destroy block) }
     else if id = REPORT_EFFECT_OPERATION then do {
       block \<leftarrow> get_at report 1;
       op \<leftarrow> get_at report 2;
       loop_count \<leftarrow> get_at report 3;
       let start = (op = 0x01 \<or> op = 0x02);
       Some (Operation block start loop_count) }
     else if id = REPORT_SET_PERIODIC then do {
       block \<leftarrow> get_at report 1;
       magnitude \<leftarrow> i16_at report 2;
       offset \<leftarrow> i16_at report 4;
       phase \<leftarrow> u16_at report 6;
       period_ms \<leftarrow> u16_at report 8;
       Some (SetPeriodic block magnitude offset phase period_ms) }
     else None }"

section \<open>What the readers return\<close>

lemma u16_at_Some [simp]:
  "u16_at r at = Some w \<longleftrightarrow> at + 2 \<le> length r \<and> w = from_le_bytes (window r at 2)"
  by (auto simp: u16_at_def get_range_def window_def)

lemma u16_at_None [simp]: "u16_at r at = None \<longleftrightarrow> length r < at + 2"
  by (auto simp: u16_at_def get_range_def)

lemma i16_at_eq [simp]: "i16_at = u16_at"
  by (simp add: i16_at_def fun_eq_iff)

text \<open>A closed report is decoded by evaluating the readers.\<close>

lemma get_at_eval [byte_simps]: "i < length r \<Longrightarrow> get_at r i = Some (r ! i)"
  by simp

lemma u16_at_eval [byte_simps]:
  "at + 2 \<le> length r \<Longrightarrow> u16_at r at = Some (from_le_bytes [r ! at, r ! Suc at])"
proof -
  assume "at + 2 \<le> length r"
  then have "window r at 2 = [r ! at, r ! Suc at]"
    by (intro nth_equalityI) (auto simp: nth_window less_Suc_eq numeral_2_eq_2)
  with \<open>at + 2 \<le> length r\<close> show ?thesis by simp
qed

lemma sint_ramp_level: "sint (ramp_level b) = uint b * 32767 div 255"
proof -
  have "uint b * 32767 div 255 \<le> 255 * 32767 div 255"
    by (intro zdiv_mono1 mult_right_mono) simp_all
  moreover have "0 \<le> uint b * 32767 div 255"
    by (simp add: div_int_pos_iff)
  ultimately show ?thesis
    by (simp add: ramp_level_def sint_word_of_int_16)
qed

lemma ramp_level_bounds: "0 \<le> sint (ramp_level b)" "sint (ramp_level b) \<le> 32767"
proof -
  have "uint b * 32767 div 255 \<le> 255 * 32767 div 255"
    by (intro zdiv_mono1 mult_right_mono) simp_all
  then show "sint (ramp_level b) \<le> 32767" by (simp add: sint_ramp_level)
  show "0 \<le> sint (ramp_level b)" by (simp add: sint_ramp_level div_int_pos_iff)
qed

lemma ramp_level_strict_mono: "sint (ramp_level a) < sint (ramp_level b) \<longleftrightarrow> a < b"
proof -
  have step: "uint x * 32767 div 255 < uint y * 32767 div 255" if "x < y" for x y :: u8
  proof -
    from that have "uint x + 1 \<le> uint y" by (simp add: word_less_def)
    then have "uint x * 32767 + 255 \<le> uint y * 32767" by simp
    then have "(uint x * 32767 + 255) div 255 \<le> uint y * 32767 div 255"
      by (rule zdiv_mono1) simp
    then show ?thesis by simp
  qed
  show ?thesis using step [of a b] step [of b a]
    by (cases a b rule: linorder_cases) (auto simp: sint_ramp_level)
qed

section \<open>Agreement with the report descriptor\<close>

text \<open>A byte-aligned field of the descriptor is a window of the report.\<close>

lemma le_int_nonneg: "0 \<le> le_int (map uint (bs :: u8 list))"
  by (induction bs) simp_all

lemma le_int_drop: "le_int (map uint (bs :: u8 list)) div 256 ^ n = le_int (map uint (drop n bs))"
proof (induction n arbitrary: bs)
  case 0
  then show ?case by simp
next
  case (Suc n)
  show ?case
  proof (cases bs)
    case Nil
    then show ?thesis by simp
  next
    case (Cons b bs')
    have "(uint b + 256 * le_int (map uint bs')) div 256 ^ Suc n
        = (uint b + 256 * le_int (map uint bs')) div 256 div 256 ^ n"
      by (simp add: zdiv_zmult2_eq mult.commute)
    also have "(uint b + 256 * le_int (map uint bs')) div 256 = le_int (map uint bs')"
      by simp
    finally show ?thesis using Cons Suc by simp
  qed
qed

lemma le_int_take: "le_int (map uint (bs :: u8 list)) mod 256 ^ n = le_int (map uint (take n bs))"
proof (induction n arbitrary: bs)
  case 0
  then show ?case by simp
next
  case (Suc n)
  show ?case
  proof (cases bs)
    case Nil
    then show ?thesis by simp
  next
    case (Cons b bs')
    have "(uint b + 256 * le_int (map uint bs')) mod (256 * 256 ^ n)
        = 256 * (le_int (map uint bs') mod 256 ^ n) + uint b"
      by (subst zmod_zmult2_eq) simp_all
    then show ?thesis using Cons Suc by simp
  qed
qed

lemma uint_from_le_bytes_2: "uint (from_le_bytes [a, b] :: u16) = uint a + 256 * uint b"
proof -
  have disj: "(ucast a :: u16) AND push_bit 8 (ucast b) = 0"
    by (rule bit_word_eqI) (auto simp: bit_simps dest: bit_imp_le_length)
  have "(from_le_bytes [a, b] :: u16) = ucast a + push_bit 8 (ucast b)"
    using disj by (simp add: disjunctive_add_eq_or)
  then have "uint (from_le_bytes [a, b] :: u16) = (uint a + 256 * uint b) mod 65536"
    by (simp add: push_bit_eq_mult uint_word_ariths unsigned_ucast_eq take_bit_eq_mod mod_simps
        mult.commute)
  also have "\<dots> = uint a + 256 * uint b"
    using uint_u8_bounds [of a] uint_u8_bounds [of b] by (intro mod_pos_pos_trivial) linarith+
  finally show ?thesis .
qed

lemma read_bits_byte:
  assumes "i < length r"
  shows "read_bits r (8 * i) 8 = uint (r ! i)"
proof -
  have "take 1 (drop i r) = [r ! i]" using assms by (simp add: take_Suc_conv_app_nth [of 0, simplified])
  then show ?thesis
    using le_int_drop [of r i] le_int_take [of "drop i r" 1] by (simp add: read_bits_def power_mult)
qed

lemma read_bits_u16:
  assumes "at + 2 \<le> length r"
  shows "read_bits r (8 * at) 16 = uint (from_le_bytes (window r at 2) :: u16)"
proof -
  have w: "window r at 2 = [r ! at, r ! Suc at]"
    using assms by (intro nth_equalityI) (auto simp: nth_window less_Suc_eq numeral_2_eq_2)
  have "read_bits r (8 * at) 16 = le_int (map uint (take 2 (drop at r)))"
    using le_int_drop [of r at] le_int_take [of "drop at r" 2] by (simp add: read_bits_def power_mult)
  then have "read_bits r (8 * at) 16 = uint (r ! at) + 256 * uint (r ! Suc at)"
    using w by (simp add: window_def)
  then show ?thesis by (simp only: w uint_from_le_bytes_2)
qed

text \<open>Usages of the Physical Interface Device page (\<open>0x0F\<close>) and the two ordinal usages
  the direction array is declared with.\<close>

abbreviation pid_usage :: "int \<Rightarrow> int" where "pid_usage u \<equiv> 0x0F0000 + u"
abbreviation ordinal_usage :: "int \<Rightarrow> int" where "ordinal_usage u \<equiv> 0x0A0000 + u"

lemma host_reads_eq:
  "host_reads k rid u r =
     map_option (\<lambda>(at, n). read_bits r at n) (field_at descriptor_fields k rid u)"
  by (cases "field_at descriptor_fields k rid u")
    (auto simp: host_reads_def hid_table_descriptor)

text \<open>The positions of the output fields, computed from the descriptor's table.\<close>

lemma output_field_positions:
  "field_at descriptor_fields HOutput 0x51 (pid_usage 0x22) = Some (8, 8)"
  "field_at descriptor_fields HOutput 0x51 (pid_usage 0x50) = Some (24, 16)"
  "field_at descriptor_fields HOutput 0x51 (ordinal_usage 1) = Some (112, 16)"
  "field_at descriptor_fields HOutput 0x52 (pid_usage 0x22) = Some (8, 8)"
  "field_at descriptor_fields HOutput 0x52 (pid_usage 0x5B) = Some (16, 16)"
  "field_at descriptor_fields HOutput 0x52 (pid_usage 0x5D) = Some (32, 16)"
  "field_at descriptor_fields HOutput 0x52 (pid_usage 0x5C) = Some (48, 16)"
  "field_at descriptor_fields HOutput 0x52 (pid_usage 0x5E) = Some (64, 16)"
  "field_at descriptor_fields HOutput 0x53 (pid_usage 0x22) = Some (8, 8)"
  "field_at descriptor_fields HOutput 0x53 (pid_usage 0x60) = Some (24, 16)"
  "field_at descriptor_fields HOutput 0x53 (pid_usage 0x61) = Some (40, 16)"
  "field_at descriptor_fields HOutput 0x53 (pid_usage 0x62) = Some (56, 16)"
  "field_at descriptor_fields HOutput 0x53 (pid_usage 0x63) = Some (72, 16)"
  "field_at descriptor_fields HOutput 0x53 (pid_usage 0x64) = Some (88, 16)"
  "field_at descriptor_fields HOutput 0x53 (pid_usage 0x65) = Some (104, 16)"
  "field_at descriptor_fields HOutput 0x55 (pid_usage 0x22) = Some (8, 8)"
  "field_at descriptor_fields HOutput 0x55 (pid_usage 0x70) = Some (16, 16)"
  "field_at descriptor_fields HOutput 0x58 (pid_usage 0x22) = Some (8, 8)"
  "field_at descriptor_fields HOutput 0x58 (pid_usage 0x75) = Some (16, 8)"
  "field_at descriptor_fields HOutput 0x58 (pid_usage 0x76) = Some (24, 8)"
  "field_at descriptor_fields HOutput 0x59 (pid_usage 0x7E) = Some (8, 8)"
  "field_at descriptor_fields HOutput 0x5A (pid_usage 0x22) = Some (8, 8)"
  "field_at descriptor_fields HOutput 0x5A (pid_usage 0x79) = Some (16, 8)"
  "field_at descriptor_fields HOutput 0x5A (pid_usage 0x7C) = Some (24, 8)"
  "field_at descriptor_fields HOutput 0x5B (pid_usage 0x22) = Some (8, 8)"
  "field_at descriptor_fields HOutput 0x5D (pid_usage 0x22) = Some (8, 8)"
  "field_at descriptor_fields HOutput 0x5D (pid_usage 0x70) = Some (16, 16)"
  "field_at descriptor_fields HOutput 0x5D (pid_usage 0x6F) = Some (32, 16)"
  "field_at descriptor_fields HOutput 0x5D (pid_usage 0x71) = Some (48, 16)"
  "field_at descriptor_fields HOutput 0x5D (pid_usage 0x72) = Some (64, 16)"
  "field_at descriptor_fields HOutput 0x50 (pid_usage 0x97) = Some (8, 8)"
  by code_simp+

lemma read_u16_positions:
  "4 \<le> length r \<Longrightarrow> read_bits r 16 16 = uint (from_le_bytes (window r 2 2) :: u16)"
  "5 \<le> length r \<Longrightarrow> read_bits r 24 16 = uint (from_le_bytes (window r 3 2) :: u16)"
  "6 \<le> length r \<Longrightarrow> read_bits r 32 16 = uint (from_le_bytes (window r 4 2) :: u16)"
  "7 \<le> length r \<Longrightarrow> read_bits r 40 16 = uint (from_le_bytes (window r 5 2) :: u16)"
  "8 \<le> length r \<Longrightarrow> read_bits r 48 16 = uint (from_le_bytes (window r 6 2) :: u16)"
  "9 \<le> length r \<Longrightarrow> read_bits r 56 16 = uint (from_le_bytes (window r 7 2) :: u16)"
  "10 \<le> length r \<Longrightarrow> read_bits r 64 16 = uint (from_le_bytes (window r 8 2) :: u16)"
  "11 \<le> length r \<Longrightarrow> read_bits r 72 16 = uint (from_le_bytes (window r 9 2) :: u16)"
  "13 \<le> length r \<Longrightarrow> read_bits r 88 16 = uint (from_le_bytes (window r 11 2) :: u16)"
  "16 \<le> length r \<Longrightarrow> read_bits r 112 16 = uint (from_le_bytes (window r 14 2) :: u16)"
  using read_bits_u16 [of 2 r] read_bits_u16 [of 3 r] read_bits_u16 [of 4 r] read_bits_u16 [of 5 r] read_bits_u16 [of 6 r] read_bits_u16 [of 7 r] read_bits_u16 [of 8 r] read_bits_u16 [of 9 r] read_bits_u16 [of 11 r] read_bits_u16 [of 14 r] by simp_all

lemma read_byte_positions:
  "1 < length r \<Longrightarrow> read_bits r 8 8 = uint (r ! 1)"
  "2 < length r \<Longrightarrow> read_bits r 16 8 = uint (r ! 2)"
  "3 < length r \<Longrightarrow> read_bits r 24 8 = uint (r ! 3)"
  using read_bits_byte [of 1 r] read_bits_byte [of 2 r] read_bits_byte [of 3 r] by simp_all

lemmas host_read_simps = host_reads_eq output_field_positions [simplified] read_u16_positions read_byte_positions

text \<open>What the descriptor says of a report, compared with a decoded operation.\<close>

fun descriptor_agrees :: "u8 list \<Rightarrow> EffectOp \<Rightarrow> bool" where
  "descriptor_agrees r (Create b k) = False"
| "descriptor_agrees r (SetEffect b d dir) =
     (host_reads HOutput 0x51 (pid_usage 0x22) r = Some (uint b) \<and>
      (\<exists>raw :: u16. host_reads HOutput 0x51 (pid_usage 0x50) r = Some (uint raw) \<and>
         d = (if raw = 0xFFFF then 0 else raw)) \<and>
      host_reads HOutput 0x51 (ordinal_usage 1) r = Some (uint dir))"
| "descriptor_agrees r (SetConstant b m) =
     (host_reads HOutput 0x55 (pid_usage 0x22) r = Some (uint b) \<and>
      host_reads HOutput 0x55 (pid_usage 0x70) r = Some (uint m))"
| "descriptor_agrees r (SetRamp b s e) =
     (host_reads HOutput 0x58 (pid_usage 0x22) r = Some (uint b) \<and>
      (\<exists>x :: u8. host_reads HOutput 0x58 (pid_usage 0x75) r = Some (uint x) \<and> s = ramp_level x) \<and>
      (\<exists>y :: u8. host_reads HOutput 0x58 (pid_usage 0x76) r = Some (uint y) \<and> e = ramp_level y))"
| "descriptor_agrees r (SetPeriodic b m off ph per) =
     (host_reads HOutput 0x5D (pid_usage 0x22) r = Some (uint b) \<and>
      host_reads HOutput 0x5D (pid_usage 0x70) r = Some (uint m) \<and>
      host_reads HOutput 0x5D (pid_usage 0x6F) r = Some (uint off) \<and>
      host_reads HOutput 0x5D (pid_usage 0x71) r = Some (uint ph) \<and>
      host_reads HOutput 0x5D (pid_usage 0x72) r = Some (uint per))"
| "descriptor_agrees r (SetCondition b c cp cn sp sn) =
     (host_reads HOutput 0x53 (pid_usage 0x22) r = Some (uint b) \<and>
      host_reads HOutput 0x53 (pid_usage 0x60) r = Some (uint c) \<and>
      host_reads HOutput 0x53 (pid_usage 0x61) r = Some (uint cp) \<and>
      host_reads HOutput 0x53 (pid_usage 0x62) r = Some (uint cn) \<and>
      host_reads HOutput 0x53 (pid_usage 0x63) r = Some (uint sp) \<and>
      host_reads HOutput 0x53 (pid_usage 0x64) r = Some (uint sn))"
| "descriptor_agrees r (SetEnvelope b at al ft fl) =
     (host_reads HOutput 0x52 (pid_usage 0x22) r = Some (uint b) \<and>
      host_reads HOutput 0x52 (pid_usage 0x5C) r = Some (uint at) \<and>
      host_reads HOutput 0x52 (pid_usage 0x5B) r = Some (uint al) \<and>
      host_reads HOutput 0x52 (pid_usage 0x5E) r = Some (uint ft) \<and>
      host_reads HOutput 0x52 (pid_usage 0x5D) r = Some (uint fl))"
| "descriptor_agrees r (Operation b start n) =
     (host_reads HOutput 0x5A (pid_usage 0x22) r = Some (uint b) \<and>
      (\<exists>sel :: u8. host_reads HOutput 0x5A (pid_usage 0x79) r = Some (uint sel) \<and>
         start = (sel = 1 \<or> sel = 2)) \<and>
      host_reads HOutput 0x5A (pid_usage 0x7C) r = Some (uint n))"
| "descriptor_agrees r (Destroy b) =
     (host_reads HOutput 0x5B (pid_usage 0x22) r = Some (uint b))"
| "descriptor_agrees r (Gain v) =
     (host_reads HOutput 0x59 (pid_usage 0x7E) r = Some (uint v))"
| "descriptor_agrees r (DeviceControl op) =
     (\<exists>sel :: u8. host_reads HOutput 0x50 (pid_usage 0x97) r = Some (uint sel) \<and>
        from_wire sel = Some op)"

lemma decode_descriptor_agrees: "decode r = Some op \<Longrightarrow> descriptor_agrees r op"
  by (auto simp: decode_def Let_def host_read_simps simp del: One_nat_def split: if_splits Option.bind_splits)

section \<open>Properties\<close>

text \<open>C1. The decoder reads every field where the report descriptor, parsed as a host parses it,
  puts that field: an operation it produces carries exactly the values the host wrote under the
  corresponding usages.\<close>

theorem decode_reads_the_declared_fields:
  assumes "decode r = Some op"
  shows "descriptor_agrees r op"
  using assms by (rule decode_descriptor_agrees)

theorem decode_reads_the_declared_fields_witness:
  "descriptor_agrees [0x5D, 3, 0x34, 0x12, 0xFF, 0xFF, 0, 0x40, 0x10, 0x27] (SetPeriodic 3 0x1234 0xFFFF 0x4000 10000)"
proof -
  have "decode [0x5D, 3, 0x34, 0x12, 0xFF, 0xFF, 0, 0x40, 0x10, 0x27] = Some (SetPeriodic 3 0x1234 0xFFFF 0x4000 10000)"
    by code_simp
  then show ?thesis by (rule decode_reads_the_declared_fields)
qed

text \<open>The bits an output report needs to hold every field the descriptor declares in it.\<close>

definition declared_bits :: "int \<Rightarrow> int" where
  "declared_bits rid = foldr max
     (map (\<lambda>f. f_bit f + f_size f)
       (filter (\<lambda>f. f_kind f = HOutput \<and> f_report f = rid) descriptor_fields)) 0"

lemma declared_bits_values:
  "declared_bits 0x51 = 144" "declared_bits 0x52 = 80" "declared_bits 0x53 = 120"
  "declared_bits 0x55 = 32" "declared_bits 0x58 = 32" "declared_bits 0x59 = 16"
  "declared_bits 0x5A = 32" "declared_bits 0x5B = 16" "declared_bits 0x5D = 80"
  by code_simp+

text \<open>An output report long enough to hold every field the descriptor declares in it is
  never dropped, except Device Control, whose selector must be one of the six defined ones, and
  Create New Effect, which is a feature report.\<close>

theorem decode_accepts_whole_reports:
  assumes "r \<noteq> []" "r ! 0 \<in> {0x51, 0x52, 0x53, 0x55, 0x58, 0x59, 0x5A, 0x5B, 0x5D}"
    and "declared_bits (uint (r ! 0)) \<le> 8 * int (length r)"
  shows "\<exists>op. decode r = Some op"
  using assms by (elim insertE) (auto simp: decode_def byte_simps declared_bits_values simp del: u16_at_Some get_at_eq_Some)

theorem decode_accepts_whole_reports_witness:
  "\<exists>op. decode [0x58, 1, 0, 255] = Some op"
  by (rule decode_accepts_whole_reports) (simp_all add: declared_bits_values)

text \<open>A Set Ramp level maps the byte scale 0..255 to 0..32767 with both ends met, in range and
  strictly increasing, so no two bytes collapse.\<close>

theorem ramp_level_scale:
  "ramp_level 0 = 0 \<and> ramp_level 255 = 32767 \<and>
   0 \<le> sint (ramp_level a) \<and> sint (ramp_level a) \<le> 32767 \<and>
   (sint (ramp_level a) < sint (ramp_level b) \<longleftrightarrow> a < b)"
  using ramp_level_bounds [of a] ramp_level_strict_mono [of a b] by (simp add: ramp_level_def)

text \<open>The Dead Band field of a Set Condition report (declared at bits 104 to 119) does not
  reach the decoded operation.\<close>

theorem condition_dead_band_ignored:
  assumes "r ! 0 = 0x53" "15 \<le> length r"
  shows "decode (r[13 := x, 14 := y]) = decode r \<and>
    field_at descriptor_fields HOutput 0x53 (pid_usage 0x65) = Some (104, 16)"
proof -
  have w: "window (r[13 := x, 14 := y]) at 2 = window r at 2" if "at + 2 \<le> 13" for at
    using that assms(2) by (intro nth_equalityI) (auto simp: nth_window nth_list_update)
  have u: "u16_at (r[13 := x, 14 := y]) at = u16_at r at" if "at + 2 \<le> 13" for at
    using that assms(2) w [OF that] by (simp add: u16_at_eval)
  show ?thesis
    using assms output_field_positions(15) u [of 3] u [of 5] u [of 7] u [of 9] u [of 11]
    by (simp add: decode_def get_at_def)
qed

theorem condition_dead_band_ignored_witness:
  "decode ([0x53, 1, 0, 1, 0, 2, 0, 3, 0, 4, 0, 5, 0, 0, 0][13 := 0x10, 14 := 0x27]) =
   decode [0x53, 1, 0, 1, 0, 2, 0, 3, 0, 4, 0, 5, 0, 0, 0]"
  using condition_dead_band_ignored [of "[0x53, 1, 0, 1, 0, 2, 0, 3, 0, 4, 0, 5, 0, 0, 0]" "0x10" "0x27"]
  by simp

section \<open>The input report\<close>

lemma length_to_bytes [simp]: "length (to_bytes r) = 18"
  by (simp add: to_bytes_def)

lemma input_field_positions:
  "field_at descriptor_fields HInput 1 0x10030 = Some (8, 16)"
  "field_at descriptor_fields HInput 1 0x10031 = Some (24, 16)"
  "field_at descriptor_fields HInput 1 0x10032 = Some (40, 16)"
  "field_at descriptor_fields HInput 1 0x10035 = Some (56, 16)"
  "field_at descriptor_fields HInput 1 0x10039 = Some (136, 8)"
  by code_simp+

lemma button_field_positions:
  "list_all (\<lambda>n. field_at descriptor_fields HInput 1 (0x90000 + int n + 1) = Some (72 + n, 1)) [0..<64]"
  by code_simp

lemma bit_le_int:
  "bit (le_int (map uint (bs :: u8 list))) n \<longleftrightarrow> n div 8 < length bs \<and> bit (bs ! (n div 8)) (n mod 8)"
proof (induction bs arbitrary: n)
  case (Cons b bs)
  have eq: "le_int (map uint (b # bs)) = uint b OR push_bit 8 (le_int (map uint bs))"
  proof (subst disjunctive_add_eq_or [symmetric])
    show "uint b AND push_bit 8 (le_int (map uint bs)) = 0"
      by (rule bit_eqI) (auto simp: bit_simps dest: bit_imp_le_length)
    show "le_int (map uint (b # bs)) = uint b + push_bit 8 (le_int (map uint bs))"
      by (simp add: push_bit_eq_mult)
  qed
  show ?case
  proof (cases "n < 8")
    case True
    then show ?thesis by (simp only: eq) (simp add: bit_simps)
  next
    case False
    then have "n div 8 = Suc ((n - 8) div 8)" "n mod 8 = (n - 8) mod 8"
      by (simp_all add: le_div_geq le_mod_geq not_less)
    with False show ?thesis
      by (simp only: eq) (auto simp: bit_simps Cons.IH dest: bit_imp_le_length)
  qed
qed simp

lemma read_bits_1: "read_bits r n 1 = of_bool (n div 8 < length r \<and> bit (r ! (n div 8)) (n mod 8))"
proof -
  have "read_bits r n 1 = of_bool (bit (le_int (map uint r)) n)"
    by (simp add: read_bits_def bit_iff_odd mod_2_eq_odd)
  then show ?thesis by (simp only: bit_le_int)
qed

lemma to_bytes_fields:
  "window (to_bytes r) 1 2 = to_le_bytes (steering r)" "window (to_bytes r) 3 2 = to_le_bytes (throttle r)"
  "window (to_bytes r) 5 2 = to_le_bytes (brake r)" "window (to_bytes r) 7 2 = to_le_bytes (clutch r)"
  "to_bytes r ! 17 = hat r"
  by (simp_all add: to_bytes_def window_def byte_simps to_le_bytes_def [of "buttons r"] upt_rec)

lemma to_bytes_button:
  assumes "n < 64"
  shows "to_bytes r ! ((72 + n) div 8) = to_le_bytes (buttons r) ! (n div 8)"
proof -
  have "(72 + n) div 8 = 9 + n div 8" by simp
  moreover have "n div 8 < 8" using assms by simp
  ultimately show ?thesis by (simp add: to_bytes_def nth_append)
qed

text \<open>A host that reads the input report by the descriptor finds the four axes, each of the 64
  buttons and the hat exactly as the proxy recorded them.\<close>

theorem host_reads_the_input_report:
  "host_reads HInput 1 0x10030 (to_bytes r) = Some (uint (steering r)) \<and>
   host_reads HInput 1 0x10031 (to_bytes r) = Some (uint (throttle r)) \<and>
   host_reads HInput 1 0x10032 (to_bytes r) = Some (uint (brake r)) \<and>
   host_reads HInput 1 0x10035 (to_bytes r) = Some (uint (clutch r)) \<and>
   host_reads HInput 1 0x10039 (to_bytes r) = Some (uint (hat r)) \<and>
   (\<forall>n < 64. host_reads HInput 1 (0x90000 + int n + 1) (to_bytes r) = Some (of_bool (bit (buttons r) n)))"
proof -
  have len: "length (to_bytes r) = 18" by simp
  have buttons: "host_reads HInput 1 (0x90000 + int n + 1) (to_bytes r) = Some (of_bool (bit (buttons r) n))"
    if "n < 64" for n
  proof -
    have "(72 + n) mod 8 = n mod 8" using mod_mult_self1 [of n 9 8] by (simp add: add.commute)
    moreover have "(72 + n) div 8 < 18" "n div 8 < 8" using that by simp_all
    ultimately show ?thesis
      using that button_field_positions
      by (simp add: host_reads_eq list_all_iff read_bits_1 [unfolded One_nat_def] to_bytes_button bit_nth_to_le_bytes)
  qed
  show ?thesis
    using buttons read_bits_u16 [of 1 "to_bytes r"] read_bits_u16 [of 3 "to_bytes r"]
      read_bits_u16 [of 5 "to_bytes r"] read_bits_u16 [of 7 "to_bytes r"] read_bits_byte [of 17 "to_bytes r"]
    by (simp add: host_reads_eq input_field_positions to_bytes_fields to_bytes_fields(1) [unfolded One_nat_def])
qed

theorem host_reads_the_input_report_witness:
  "host_reads HInput 1 (0x90000 + int 16 + 1) (to_bytes (default_report\<lparr>buttons := 0x10000\<rparr>)) = Some 1"
proof -
  have "host_reads HInput 1 (0x90000 + int 16 + 1) (to_bytes (default_report\<lparr>buttons := 0x10000\<rparr>)) =
      Some (of_bool (bit (0x10000 :: u64) 16))"
    by (subst host_reads_the_input_report [THEN conjunct2, THEN conjunct2, THEN conjunct2, THEN conjunct2,
        THEN conjunct2, rule_format]) simp_all
  moreover have "bit (0x10000 :: u64) 16" by code_simp
  ultimately show ?thesis by simp
qed

end
