(* ===== verification/Source.thy ===== *)
theory Source
  imports Pidff
begin

text \<open>
  The real wheel's evdev input source (\<open>logi-ffb/src/source.rs\<close>): kernel input events
  folded into an input report, frame by frame.
\<close>

section \<open>Events\<close>

abbreviation EV_SYN :: u16 where "EV_SYN \<equiv> 0x00"
abbreviation EV_KEY :: u16 where "EV_KEY \<equiv> 0x01"
abbreviation EV_ABS :: u16 where "EV_ABS \<equiv> 0x03"
abbreviation SYN_REPORT :: u16 where "SYN_REPORT \<equiv> 0x00"
abbreviation ABS_X :: u16 where "ABS_X \<equiv> 0x00"
abbreviation ABS_RX :: u16 where "ABS_RX \<equiv> 0x03"
abbreviation ABS_RY :: u16 where "ABS_RY \<equiv> 0x04"
abbreviation ABS_RZ :: u16 where "ABS_RZ \<equiv> 0x05"
abbreviation BTN_TRIGGER :: u16 where "BTN_TRIGGER \<equiv> 0x120"
abbreviation BTN_TRIGGER_HAPPY :: u16 where "BTN_TRIGGER_HAPPY \<equiv> 0x2c0"
abbreviation ABS_HAT0X :: u16 where "ABS_HAT0X \<equiv> 0x10"
abbreviation ABS_HAT0Y :: u16 where "ABS_HAT0Y \<equiv> 0x11"
abbreviation AXIS_STEERING :: u16 where "AXIS_STEERING \<equiv> ABS_X"
abbreviation AXIS_THROTTLE :: u16 where "AXIS_THROTTLE \<equiv> ABS_RX"
abbreviation AXIS_BRAKE :: u16 where "AXIS_BRAKE \<equiv> ABS_RY"
abbreviation AXIS_CLUTCH :: u16 where "AXIS_CLUTCH \<equiv> ABS_RZ"
abbreviation EXT_FIRST :: u16 where "EXT_FIRST \<equiv> BTN_TRIGGER_HAPPY + 5"

record input_event =
  tv_sec :: i64
  tv_usec :: i64
  ev_type :: u16
  ev_code :: u16
  ev_value :: i32

abbreviation TYPE_OFF :: nat where "TYPE_OFF \<equiv> 16"
abbreviation CODE_OFF :: nat where "CODE_OFF \<equiv> TYPE_OFF + 2"
abbreviation VALUE_OFF :: nat where "VALUE_OFF \<equiv> CODE_OFF + 2"
abbreviation EVDEV_EVENT_SIZE :: nat where "EVDEV_EVENT_SIZE \<equiv> VALUE_OFF + 4"

text \<open>\<open>None\<close> is the panic of a slice shorter than one record.\<close>

definition decode_event :: "u8 list \<Rightarrow> input_event option" where
  "decode_event b = do {
     s \<leftarrow> get_range b 0 8;
     us \<leftarrow> get_range b 8 16;
     t \<leftarrow> get_range b TYPE_OFF (TYPE_OFF + 2);
     c \<leftarrow> get_range b CODE_OFF (CODE_OFF + 2);
     v \<leftarrow> get_range b VALUE_OFF (VALUE_OFF + 4);
     Some \<lparr>tv_sec = from_le_bytes s, tv_usec = from_le_bytes us, ev_type = from_le_bytes t,
           ev_code = from_le_bytes c, ev_value = from_le_bytes v\<rparr> }"

section \<open>Folding events into a report\<close>

text \<open>The 8-way point-of-view value of the two hat axes; \<open>255\<close> is \<open>-1\<close> as an \<open>i8\<close>.\<close>

definition hat_value :: "i8 \<Rightarrow> i8 \<Rightarrow> u8" where
  "hat_value x y =
     (if x = 0 \<and> y = -1 then 0 else if x = 1 \<and> y = -1 then 1
      else if x = 1 \<and> y = 0 then 2 else if x = 1 \<and> y = 1 then 3
      else if x = 0 \<and> y = 1 then 4 else if x = -1 \<and> y = 1 then 5
      else if x = -1 \<and> y = 0 then 6 else if x = -1 \<and> y = -1 then 7
      else 0x0F)"

definition button_bit :: "u16 \<Rightarrow> nat" where
  "button_bit code =
     (if code < BTN_TRIGGER_HAPPY then unat (code - BTN_TRIGGER)
      else if EXT_FIRST \<le> code then
        (let n = unat (code - EXT_FIRST) in if n < 16 then 16 + n else 37 + (n - 16))
      else 32 + unat (code - BTN_TRIGGER_HAPPY))"

definition map_event :: "InputReport \<Rightarrow> input_event \<Rightarrow> InputReport \<times> bool" where
  "map_event report ev =
     (let v = sint (ev_value ev); code = ev_code ev;
          report' =
            (if ev_type ev = EV_ABS \<and> (code = ABS_HAT0X \<or> code = ABS_HAT0Y) then
               (let r1 = (if code = ABS_HAT0X
                          then report\<lparr>hat_x := word_of_int (clamp_int (-1) 1 v)\<rparr>
                          else report\<lparr>hat_y := word_of_int (clamp_int (-1) 1 v)\<rparr>)
                in r1\<lparr>hat := hat_value (hat_x r1) (hat_y r1)\<rparr>)
             else if ev_type ev = EV_ABS then
               (let w = word_of_int (clamp_int 0 0xFFFF v) in
                if code = AXIS_STEERING then report\<lparr>steering := w\<rparr>
                else if code = AXIS_THROTTLE then report\<lparr>throttle := w\<rparr>
                else if code = AXIS_BRAKE then report\<lparr>brake := w\<rparr>
                else if code = AXIS_CLUTCH then report\<lparr>clutch := w\<rparr>
                else report)
             else if ev_type ev = EV_KEY \<and> BTN_TRIGGER \<le> code then
               (let bit = button_bit code in
                if bit < 64 then
                  (if v \<noteq> 0 then report\<lparr>buttons := buttons report OR push_bit bit 1\<rparr>
                   else report\<lparr>buttons := buttons report AND NOT (push_bit bit 1)\<rparr>)
                else report)
             else report)
      in (report', ev_type ev = EV_SYN \<and> code = SYN_REPORT))"

text \<open>\<open>Source::read_into\<close> on the bytes one \<open>read\<close> returned: at most 64 records fit the
  buffer; whole records are folded, and a frame is complete when any of them was a
  \<open>SYN_REPORT\<close>. The \<open>read\<close> itself is a parameter of the proxy's loop.\<close>

fun fold_events :: "u8 list list \<Rightarrow> InputReport \<Rightarrow> bool \<Rightarrow> (InputReport \<times> bool) option" where
  "fold_events [] report complete = Some (report, complete)"
| "fold_events (c # cs) report complete =
     (case decode_event c of
        None \<Rightarrow> None
      | Some ev \<Rightarrow> (case map_event report ev of
          (report', syn) \<Rightarrow> fold_events cs report' (complete \<or> syn)))"

datatype read_outcome = ReadOk "u8 list" | ReadAgain | ReadErr errno

datatype ffb_error = WheelNotFound | Io string errno | Protocol string

definition read_into :: "read_outcome \<Rightarrow> InputReport \<Rightarrow> (ffb_error + bool \<times> InputReport) option" where
  "read_into rd report =
     (case rd of
        ReadAgain \<Rightarrow> Some (Inr (False, report))
      | ReadErr e \<Rightarrow> Some (Inl (Io ''read evdev'' e))
      | ReadOk bytes \<Rightarrow>
          (case fold_events (chunks_exact EVDEV_EVENT_SIZE bytes) report False of
             None \<Rightarrow> None
           | Some (report', complete) \<Rightarrow> Some (Inr (complete, report'))))"

section \<open>Reading never fails on whole records\<close>

lemma decode_event_some: "length b = 24 \<Longrightarrow> \<exists>ev. decode_event b = Some ev"
  by (simp add: decode_event_def get_range_def)

lemma fold_events_some:
  "(\<forall>c \<in> set cs. length c = 24) \<Longrightarrow> \<exists>p. fold_events cs r b = Some p"
proof (induction cs arbitrary: r b)
  case Nil
  then show ?case by simp
next
  case (Cons c cs)
  then obtain ev where "decode_event c = Some ev" using decode_event_some by fastforce
  with Cons show ?case by (auto split: prod.splits)
qed

lemma read_into_no_panic: "read_into rd report \<noteq> None"
proof (cases rd)
  case (ReadOk bytes)
  have "\<forall>c \<in> set (chunks_exact 24 bytes). length c = 24"
    by (auto dest: chunks_exact_width)
  then obtain p where "fold_events (chunks_exact 24 bytes) report False = Some p"
    using fold_events_some by blast
  with ReadOk show ?thesis by (auto simp: read_into_def split: prod.splits)
qed (simp_all add: read_into_def)

section \<open>The hat and the buttons\<close>

text \<open>The stored hat value is always the encoding of the stored axes, and the axes are
  always in \<open>{-1, 0, 1}\<close>.\<close>

definition hat_ok :: "InputReport \<Rightarrow> bool" where
  "hat_ok r \<longleftrightarrow> hat_x r \<in> {-1, 0, 1} \<and> hat_y r \<in> {-1, 0, 1} \<and> hat r = hat_value (hat_x r) (hat_y r)"

lemma clamp_unit: "word_of_int (clamp_int (-1) 1 v) \<in> ({-1, 0, 1} :: i8 set)"
proof -
  have "clamp_int (-1) 1 v \<in> {-1, 0, 1}"
    using clamp_int_bounds [of "-1" 1 v] by auto
  then show ?thesis by auto
qed

lemma hat_ok_default: "hat_ok default_report"
  by (simp add: hat_ok_def default_report_def hat_value_def)

lemma hat_ok_map_event: "hat_ok r \<Longrightarrow> hat_ok (fst (map_event r ev))"
  using clamp_unit [of "sint (ev_value ev)"]
  by (auto simp: hat_ok_def map_event_def Let_def)

lemma hat_value_inj:
  assumes "x \<in> {-1, 0, 1}" "y \<in> {-1, 0, 1}" "x' \<in> {-1, 0, 1}" "y' \<in> {-1, 0, 1}"
    and "hat_value x y = hat_value x' y'"
  shows "x = x' \<and> y = y'"
  using assms by (auto simp: hat_value_def)

lemma hat_value_range: "hat_value x y \<le> 7 \<or> hat_value x y = HAT_CENTERED"
  by (simp add: hat_value_def)

text \<open>Codes the kernel assigns to a joystick's buttons: sixteen from \<open>BTN_TRIGGER\<close> and the
  \<open>BTN_TRIGGER_HAPPY\<close> block.\<close>

definition joystick_code :: "u16 \<Rightarrow> bool" where
  "joystick_code c \<longleftrightarrow>
     (BTN_TRIGGER \<le> c \<and> c \<le> BTN_TRIGGER + 15) \<or>
     (BTN_TRIGGER_HAPPY \<le> c \<and> c \<le> BTN_TRIGGER_HAPPY + 39)"

lemma button_bit_nat:
  "button_bit c =
     (if unat c < 0x2c0 then unat (c - BTN_TRIGGER)
      else if 0x2c5 \<le> unat c then
        (if unat c - 0x2c5 < 16 then 16 + (unat c - 0x2c5) else 37 + (unat c - 0x2c5 - 16))
      else 32 + (unat c - 0x2c0))"
  by (auto simp: button_bit_def Let_def word_less_nat_alt word_le_nat_alt unat_sub_if_size)

lemma joystick_code_nat:
  "joystick_code c \<longleftrightarrow> (0x120 \<le> unat c \<and> unat c \<le> 0x12f) \<or> (0x2c0 \<le> unat c \<and> unat c \<le> 0x2e7)"
  by (auto simp: joystick_code_def word_le_nat_alt)

lemma button_bit_joystick: "joystick_code c \<Longrightarrow> button_bit c < 56"
  by (auto simp: joystick_code_nat button_bit_nat unat_sub_if_size)

lemma button_bit_inj: "joystick_code c \<Longrightarrow> joystick_code d \<Longrightarrow> button_bit c = button_bit d \<Longrightarrow> c = d"
  by (auto simp: joystick_code_nat button_bit_nat unat_sub_if_size word_unat_eq_iff split: if_splits)

lemma bit_buttons_map_event:
  assumes "ev_type ev = EV_KEY" "joystick_code (ev_code ev)" "n < 64"
  shows "bit (buttons (fst (map_event r ev))) n \<longleftrightarrow>
    (if n = button_bit (ev_code ev) then ev_value ev \<noteq> 0 else bit (buttons r) n)"
proof -
  have "BTN_TRIGGER \<le> ev_code ev" using assms(2) by (auto simp: joystick_code_nat word_le_nat_alt)
  moreover have "sint (ev_value ev) = 0 \<longleftrightarrow> ev_value ev = 0"
    by (rule signed_eq_0_iff)
  ultimately show ?thesis
    using assms button_bit_joystick [OF assms(2)]
    by (auto simp: map_event_def Let_def bit_simps)
qed

section \<open>Reading a stream of events\<close>

text \<open>What a batch of events means for the report: each one folded in, and whether a frame ended.\<close>

fun apply_events :: "input_event list \<Rightarrow> InputReport \<Rightarrow> InputReport \<times> bool" where
  "apply_events [] r = (r, False)"
| "apply_events (ev # evs) r =
     (case map_event r ev of (r', syn) \<Rightarrow> (case apply_events evs r' of (r'', c) \<Rightarrow> (r'', syn \<or> c)))"

lemma hat_ok_events: "hat_ok r \<Longrightarrow> hat_ok (fst (apply_events evs r))"
proof (induction evs arbitrary: r)
  case (Cons ev evs)
  have "hat_ok (fst (map_event r ev))" using Cons.prems by (rule hat_ok_map_event)
  then have "hat_ok (fst (apply_events evs (fst (map_event r ev))))" by (rule Cons.IH)
  then show ?case by (simp add: case_prod_beta)
qed simp

text \<open>The hat byte of the report always matches its two axes and is one of the eight
  directions or centred, after any sequence of events.\<close>

theorem hat_always_consistent:
  "hat_ok (fst (apply_events evs default_report)) \<and>
   (hat (fst (apply_events evs default_report)) \<le> 7 \<or> hat (fst (apply_events evs default_report)) = HAT_CENTERED)"
proof -
  have ok: "hat_ok (fst (apply_events evs default_report))" by (rule hat_ok_events [OF hat_ok_default])
  then show ?thesis using hat_value_range by (auto simp: hat_ok_def)
qed

text \<open>A key event of a wheel button sets or clears that button's bit and leaves every other
  button's bit as it was.\<close>

theorem button_event_isolated:
  assumes "joystick_code (ev_code ev)" "joystick_code c" "ev_type ev = EV_KEY"
  shows "bit (buttons (fst (map_event r ev))) (button_bit c) =
    (if c = ev_code ev then ev_value ev \<noteq> 0 else bit (buttons r) (button_bit c))"
  using assms button_bit_inj [OF assms(1,2)] button_bit_joystick [OF assms(2)]
  by (auto simp: bit_buttons_map_event)

theorem button_event_isolated_witness:
  "bit (buttons (fst (map_event default_report
      \<lparr>tv_sec = 0, tv_usec = 0, ev_type = EV_KEY, ev_code = 0x2c5, ev_value = 1\<rparr>))) (button_bit 0x2c5)"
  by (subst button_event_isolated) (simp_all add: joystick_code_def)

end
