(* ===== verification/Sink.thy ===== *)
theory Sink
  imports Source
begin

text \<open>
  The real wheel's force-feedback sink (\<open>logi-ffb/src/sink.rs\<close>): decoded PID operations
  turned into \<open>ff_effect\<close> records and \<open>EV_FF\<close> events for the kernel's force-feedback core.

  The evdev node is outside the program: its three system calls are the parameter \<open>N\<close>
  of the operations (\<open>ff_node\<close>), over an arbitrary kernel state. What the program relies
  on of the Linux input core is the predicate \<open>ff_core\<close>. The iteration order of a
  \<open>HashMap\<close> is unspecified in Rust; the parameter's \<open>key_order\<close> stands for it.
\<close>

section \<open>The kernel's effect record\<close>

abbreviation EV_FF :: u16 where "EV_FF \<equiv> 0x15"
abbreviation FF_PERIODIC :: u16 where "FF_PERIODIC \<equiv> 0x51"
abbreviation FF_CONSTANT :: u16 where "FF_CONSTANT \<equiv> 0x52"
abbreviation FF_SPRING :: u16 where "FF_SPRING \<equiv> 0x53"
abbreviation FF_FRICTION :: u16 where "FF_FRICTION \<equiv> 0x54"
abbreviation FF_DAMPER :: u16 where "FF_DAMPER \<equiv> 0x55"
abbreviation FF_INERTIA :: u16 where "FF_INERTIA \<equiv> 0x56"
abbreviation FF_RAMP :: u16 where "FF_RAMP \<equiv> 0x57"
abbreviation FF_SQUARE :: u16 where "FF_SQUARE \<equiv> 0x58"
abbreviation FF_TRIANGLE :: u16 where "FF_TRIANGLE \<equiv> 0x59"
abbreviation FF_SINE :: u16 where "FF_SINE \<equiv> 0x5a"
abbreviation FF_SAW_UP :: u16 where "FF_SAW_UP \<equiv> 0x5b"
abbreviation FF_SAW_DOWN :: u16 where "FF_SAW_DOWN \<equiv> 0x5c"
abbreviation FF_GAIN :: u16 where "FF_GAIN \<equiv> 0x60"
abbreviation FF_UNION_SIZE :: nat where "FF_UNION_SIZE \<equiv> 32"

record ff_trigger =
  trig_button :: u16
  trig_interval :: u16

record ff_replay =
  replay_length :: u16
  replay_delay :: u16

record ff_effect =
  ff_type :: u16
  ff_id :: i16
  ff_direction :: u16
  ff_trig :: ff_trigger
  ff_repl :: ff_replay
  ff_u :: "u8 list"

record EffectParams =
  duration_ms :: u16
  direction :: u16
  constant_level :: i16
  ramp_start :: i16
  ramp_end :: i16
  periodic_magnitude :: i16
  periodic_offset :: i16
  periodic_phase :: u16
  periodic_period_ms :: u16
  cond_center :: i16
  cond_coeff_pos :: i16
  cond_coeff_neg :: i16
  cond_sat_pos :: u16
  cond_sat_neg :: u16
  attack_ms :: u16
  attack_level :: u16
  fade_ms :: u16
  fade_level :: u16

definition default_params :: EffectParams where
  "default_params = \<lparr>duration_ms = 0, direction = 0, constant_level = 0, ramp_start = 0, ramp_end = 0,
     periodic_magnitude = 0, periodic_offset = 0, periodic_phase = 0, periodic_period_ms = 0,
     cond_center = 0, cond_coeff_pos = 0, cond_coeff_neg = 0, cond_sat_pos = 0, cond_sat_neg = 0,
     attack_ms = 0, attack_level = 0, fade_ms = 0, fade_level = 0\<rparr>"

fun effect_type_and_waveform :: "EffectKind \<Rightarrow> u16 \<times> u16 option" where
  "effect_type_and_waveform Constant = (FF_CONSTANT, None)"
| "effect_type_and_waveform Ramp = (FF_RAMP, None)"
| "effect_type_and_waveform Sine = (FF_PERIODIC, Some FF_SINE)"
| "effect_type_and_waveform Square = (FF_PERIODIC, Some FF_SQUARE)"
| "effect_type_and_waveform Triangle = (FF_PERIODIC, Some FF_TRIANGLE)"
| "effect_type_and_waveform SawUp = (FF_PERIODIC, Some FF_SAW_UP)"
| "effect_type_and_waveform SawDown = (FF_PERIODIC, Some FF_SAW_DOWN)"
| "effect_type_and_waveform Spring = (FF_SPRING, None)"
| "effect_type_and_waveform Damper = (FF_DAMPER, None)"
| "effect_type_and_waveform Inertia = (FF_INERTIA, None)"
| "effect_type_and_waveform Friction = (FF_FRICTION, None)"

text \<open>The union is a fixed array of 32 bytes and every slice written has constant bounds
  inside it, so the writes are total.\<close>

definition write_envelope :: "nat \<Rightarrow> EffectParams \<Rightarrow> u8 list \<Rightarrow> u8 list" where
  "write_envelope at p u =
     overwrite (at + 6) (to_le_bytes (fade_level p))
       (overwrite (at + 4) (to_le_bytes (fade_ms p))
         (overwrite (at + 2) (to_le_bytes (attack_level p))
           (overwrite at (to_le_bytes (attack_ms p)) u)))"

definition evdev_direction :: "u16 \<Rightarrow> u16" where
  "evdev_direction d =
     (if d = 0 then 0x4000
      else if d = 18000 then 0xC000
      else of_nat (min (unat d * 0x10000 div 36000) 0xFFFF))"

definition periodic_union :: "u16 \<Rightarrow> EffectParams \<Rightarrow> u8 list \<Rightarrow> u8 list" where
  "periodic_union w p u =
     write_envelope 10 p
       (overwrite 8 (to_le_bytes (periodic_phase p))
         (overwrite 6 (to_le_bytes (periodic_offset p))
           (overwrite 4 (to_le_bytes (periodic_magnitude p))
             (overwrite 2 (to_le_bytes (periodic_period_ms p))
               (overwrite 0 (to_le_bytes w) u)))))"

definition condition_union :: "EffectParams \<Rightarrow> u8 list \<Rightarrow> u8 list" where
  "condition_union p u =
     overwrite 10 (to_le_bytes (cond_center p))
       (overwrite 6 (to_le_bytes (cond_coeff_neg p))
         (overwrite 4 (to_le_bytes (cond_coeff_pos p))
           (overwrite 2 (to_le_bytes (cond_sat_neg p))
             (overwrite 0 (to_le_bytes (cond_sat_pos p)) u))))"

text \<open>\<open>None\<close> is the panic of \<open>waveform.expect\<close>.\<close>

definition to_ff_effect :: "EffectKind \<Rightarrow> EffectParams \<Rightarrow> i16 \<Rightarrow> ff_effect option" where
  "to_ff_effect kind p eid =
     (let u0 = replicate FF_UNION_SIZE 0; (ty, waveform) = effect_type_and_waveform kind in do {
       u \<leftarrow> (case kind of
          Constant \<Rightarrow> Some (write_envelope 2 p (overwrite 0 (to_le_bytes (constant_level p)) u0))
        | Ramp \<Rightarrow> Some (write_envelope 4 p (overwrite 2 (to_le_bytes (ramp_end p))
                    (overwrite 0 (to_le_bytes (ramp_start p)) u0)))
        | Spring \<Rightarrow> Some (condition_union p u0)
        | Damper \<Rightarrow> Some (condition_union p u0)
        | Inertia \<Rightarrow> Some (condition_union p u0)
        | Friction \<Rightarrow> Some (condition_union p u0)
        | _ \<Rightarrow> map_option (\<lambda>w. periodic_union w p u0) waveform);
       Some \<lparr>ff_type = ty, ff_id = eid, ff_direction = evdev_direction (direction p),
             ff_trig = \<lparr>trig_button = 0, trig_interval = 0\<rparr>,
             ff_repl = \<lparr>replay_length = duration_ms p, replay_delay = 0\<rparr>,
             ff_u = u\<rparr> })"

definition encode_event :: "input_event \<Rightarrow> u8 list" where
  "encode_event ev =
     overwrite 20 (to_le_bytes (ev_value ev))
       (overwrite 18 (to_le_bytes (ev_code ev))
         (overwrite 16 (to_le_bytes (ev_type ev))
           (overwrite 8 (to_le_bytes (tv_usec ev))
             (overwrite 0 (to_le_bytes (tv_sec ev)) (replicate EVDEV_EVENT_SIZE 0)))))"

section \<open>The sink and its operations\<close>

record 'k ff_node =
  eviocsff :: "'k \<Rightarrow> ff_effect \<Rightarrow> 'k \<times> (errno + i16)"
  eviocrmff :: "'k \<Rightarrow> u64 \<Rightarrow> 'k \<times> (errno + unit)"
  fd_write :: "'k \<Rightarrow> u8 list \<Rightarrow> 'k \<times> (errno + nat)"
  key_order :: "u8 list"

record Sink =
  effects :: "u8 \<Rightarrow> i16 option"
  kinds :: "u8 \<Rightarrow> EffectKind option"
  params :: "u8 \<Rightarrow> EffectParams option"

definition empty_sink :: Sink where
  "empty_sink = \<lparr>effects = Map.empty, kinds = Map.empty, params = Map.empty\<rparr>"

definition param_of :: "Sink \<Rightarrow> u8 \<Rightarrow> EffectParams" where
  "param_of s b = (case params s b of Some p \<Rightarrow> p | None \<Rightarrow> default_params)"

definition map_entries :: "'k ff_node \<Rightarrow> (u8 \<Rightarrow> 'v option) \<Rightarrow> (u8 \<times> 'v) list" where
  "map_entries N m = List.map_filter (\<lambda>b. map_option (Pair b) (m b)) (key_order N)"

definition write_ff_event :: "'k ff_node \<Rightarrow> 'k \<Rightarrow> u16 \<Rightarrow> i32 \<Rightarrow> 'k \<times> (ffb_error + unit)" where
  "write_ff_event N k code v =
     (case fd_write N k (encode_event
          \<lparr>tv_sec = 0, tv_usec = 0, ev_type = EV_FF, ev_code = code, ev_value = v\<rparr>) of
        (k', Inl e) \<Rightarrow> (k', Inl (Io ''write EV_FF'' e))
      | (k', Inr _) \<Rightarrow> (k', Inr ()))"

type_synonym 'k sink_result = "((ffb_error + unit) \<times> Sink \<times> 'k) option"

definition sink_open :: "'k ff_node \<Rightarrow> string \<Rightarrow> errno + 'k \<Rightarrow> ffb_error + Sink \<times> 'k" where
  "sink_open N path fd =
     (case fd of
        Inl e \<Rightarrow> Inl (Io (''open '' @ path) e)
      | Inr k \<Rightarrow> (case write_ff_event N k FF_GAIN 0xFFFF of
          (k', Inl e) \<Rightarrow> Inl e
        | (k', Inr _) \<Rightarrow> Inr (empty_sink, k')))"

definition upload :: "'k ff_node \<Rightarrow> Sink \<Rightarrow> 'k \<Rightarrow> u8 \<Rightarrow> 'k sink_result" where
  "upload N s k block =
     (case kinds s block of
        None \<Rightarrow> Some (Inl (Protocol (''effect block '' @ dec_nat (unat block) @ '' has no Create'')), s, k)
      | Some kind \<Rightarrow>
          (let eid = (case effects s block of Some i \<Rightarrow> i | None \<Rightarrow> -1);
               s1 = s\<lparr>params := (params s)(block \<mapsto> param_of s block)\<rparr>
           in case to_ff_effect kind (param_of s block) eid of
                None \<Rightarrow> None
              | Some effect \<Rightarrow> (case eviocsff N k effect of
                  (k', Inl e) \<Rightarrow> Some (Inl (Io ''EVIOCSFF'' e), s1, k')
                | (k', Inr i) \<Rightarrow> Some (Inr (), s1\<lparr>effects := (effects s1)(block \<mapsto> i)\<rparr>, k'))))"

text \<open>The \<open>Set*\<close> reports: update the block's parameters, then upload.\<close>

definition set_params :: "'k ff_node \<Rightarrow> Sink \<Rightarrow> 'k \<Rightarrow> u8 \<Rightarrow> (EffectParams \<Rightarrow> EffectParams) \<Rightarrow> 'k sink_result" where
  "set_params N s k block f =
     upload N (s\<lparr>params := (params s)(block \<mapsto> f (param_of s block))\<rparr>) k block"

text \<open>\<open>let _ = ...\<close> over a collection of kernel ids: errors are dropped.\<close>

fun erase_ids :: "'k ff_node \<Rightarrow> 'k \<Rightarrow> i16 list \<Rightarrow> 'k" where
  "erase_ids N k [] = k"
| "erase_ids N k (i # is) = erase_ids N (fst (eviocrmff N k (scast i))) is"

fun stop_ids :: "'k ff_node \<Rightarrow> 'k \<Rightarrow> i16 list \<Rightarrow> 'k" where
  "stop_ids N k [] = k"
| "stop_ids N k (i # is) = stop_ids N (fst (write_ff_event N k i 0)) is"

definition drain_ids :: "'k ff_node \<Rightarrow> Sink \<Rightarrow> i16 list" where
  "drain_ids N s = map snd (map_entries N (effects s))"

fun device_control :: "'k ff_node \<Rightarrow> Sink \<Rightarrow> 'k \<Rightarrow> DeviceControlOp \<Rightarrow> (ffb_error + unit) \<times> Sink \<times> 'k" where
  "device_control N s k EnableActuators =
     (case write_ff_event N k FF_GAIN 0xFFFF of (k', r) \<Rightarrow> (r, s, k'))"
| "device_control N s k DisableActuators =
     (case write_ff_event N k FF_GAIN 0 of (k', r) \<Rightarrow> (r, s, k'))"
| "device_control N s k StopAllEffects = (Inr (), s, stop_ids N k (drain_ids N s))"
| "device_control N s k Reset =
     (case write_ff_event N (erase_ids N k (drain_ids N s)) FF_GAIN 0xFFFF of
        (k', r) \<Rightarrow> (r, empty_sink, k'))"
| "device_control N s k Pause = (Inr (), s, k)"
| "device_control N s k Continue = (Inr (), s, k)"

fun sink_apply :: "'k ff_node \<Rightarrow> Sink \<Rightarrow> 'k \<Rightarrow> EffectOp \<Rightarrow> 'k sink_result" where
  "sink_apply N s k (Create block kind) =
     Some (Inr (), s\<lparr>kinds := (kinds s)(block \<mapsto> kind),
                     params := (params s)(block \<mapsto> param_of s block)\<rparr>, k)"
| "sink_apply N s k (SetEffect block d dir) =
     set_params N s k block (\<lambda>p. p\<lparr>duration_ms := d, direction := dir\<rparr>)"
| "sink_apply N s k (SetConstant block m) =
     set_params N s k block (\<lambda>p. p\<lparr>constant_level := m\<rparr>)"
| "sink_apply N s k (SetRamp block a e) =
     set_params N s k block (\<lambda>p. p\<lparr>ramp_start := a, ramp_end := e\<rparr>)"
| "sink_apply N s k (SetPeriodic block m off ph per) =
     set_params N s k block (\<lambda>p. p\<lparr>periodic_magnitude := m, periodic_offset := off,
       periodic_phase := ph, periodic_period_ms := per\<rparr>)"
| "sink_apply N s k (SetCondition block c cp cn sp sn) =
     set_params N s k block (\<lambda>p. p\<lparr>cond_center := c, cond_coeff_pos := cp, cond_coeff_neg := cn,
       cond_sat_pos := sp, cond_sat_neg := sn\<rparr>)"
| "sink_apply N s k (SetEnvelope block am al fm fl) =
     set_params N s k block (\<lambda>p. p\<lparr>attack_ms := am, attack_level := al, fade_ms := fm,
       fade_level := fl\<rparr>)"
| "sink_apply N s k (Operation block start n) =
     (case effects s block of
        None \<Rightarrow> Some (Inl (Protocol (''effect block '' @ dec_nat (unat block) @ '' was never uploaded'')), s, k)
      | Some i \<Rightarrow>
          (let v = (if start then ucast (max n 1) else 0) in
           case write_ff_event N k i v of (k', r) \<Rightarrow> Some (r, s, k')))"
| "sink_apply N s k (Destroy block) =
     (let s' = s\<lparr>kinds := (kinds s)(block := None), params := (params s)(block := None),
                 effects := (effects s)(block := None)\<rparr>
      in Some (Inr (), s',
           (case effects s block of Some i \<Rightarrow> fst (eviocrmff N k (scast i)) | None \<Rightarrow> k)))"
| "sink_apply N s k (Gain v) =
     (let scaled = word_of_int (uint v * 0xFFFF div 255) in
      case write_ff_event N k FF_GAIN scaled of (k', r) \<Rightarrow> Some (r, s, k'))"
| "sink_apply N s k (DeviceControl op) = Some (device_control N s k op)"

definition sink_shutdown :: "'k ff_node \<Rightarrow> Sink \<Rightarrow> 'k \<Rightarrow> Sink \<times> 'k" where
  "sink_shutdown N s k =
     (empty_sink, fst (write_ff_event N (erase_ids N k (drain_ids N s)) FF_GAIN 0xFFFF))"


section \<open>Event records and the effect union\<close>

definition env_bytes :: "EffectParams \<Rightarrow> u8 list" where
  "env_bytes p = to_le_bytes (attack_ms p) @ to_le_bytes (attack_level p) @
     to_le_bytes (fade_ms p) @ to_le_bytes (fade_level p)"

fun kernel_union :: "EffectKind \<Rightarrow> EffectParams \<Rightarrow> u8 list" where
  "kernel_union Constant p = to_le_bytes (constant_level p) @ env_bytes p @ replicate 22 0"
| "kernel_union Ramp p = to_le_bytes (ramp_start p) @ to_le_bytes (ramp_end p) @ env_bytes p @ replicate 20 0"
| "kernel_union kind p =
     (case snd (effect_type_and_waveform kind) of
        Some w \<Rightarrow> to_le_bytes w @ to_le_bytes (periodic_period_ms p) @ to_le_bytes (periodic_magnitude p) @
          to_le_bytes (periodic_offset p) @ to_le_bytes (periodic_phase p) @ env_bytes p @ replicate 14 0
      | None \<Rightarrow> to_le_bytes (cond_sat_pos p) @ to_le_bytes (cond_sat_neg p) @ to_le_bytes (cond_coeff_pos p) @
          to_le_bytes (cond_coeff_neg p) @ replicate 2 0 @ to_le_bytes (cond_center p) @ replicate 20 0)"

definition built_effect :: "EffectKind \<Rightarrow> EffectParams \<Rightarrow> i16 \<Rightarrow> ff_effect" where
  "built_effect kind p eid =
     \<lparr>ff_type = fst (effect_type_and_waveform kind), ff_id = eid,
      ff_direction = evdev_direction (direction p),
      ff_trig = \<lparr>trig_button = 0, trig_interval = 0\<rparr>,
      ff_repl = \<lparr>replay_length = duration_ms p, replay_delay = 0\<rparr>,
      ff_u = kernel_union kind p\<rparr>"

lemma constant_layout:
  "write_envelope 2 p (overwrite 0 (to_le_bytes (constant_level p)) (replicate 32 0)) = kernel_union Constant p"
  by (simp add: write_envelope_def overwrite_def env_bytes_def)

lemma ramp_layout:
  "write_envelope 4 p (overwrite 2 (to_le_bytes (ramp_end p)) (overwrite 0 (to_le_bytes (ramp_start p)) (replicate 32 0)))
     = kernel_union Ramp p"
  by (simp add: write_envelope_def overwrite_def env_bytes_def)

lemma periodic_layout:
  "snd (effect_type_and_waveform kind) = Some w \<Longrightarrow> periodic_union w p (replicate 32 0) = kernel_union kind p"
  by (cases kind) (simp_all add: periodic_union_def write_envelope_def overwrite_def env_bytes_def)

lemma condition_layout:
  "kind \<in> {Spring, Damper, Inertia, Friction} \<Longrightarrow> condition_union p (replicate 32 0) = kernel_union kind p"
  by (auto simp: condition_union_def overwrite_def )

lemma to_ff_effect_built [simp]: "to_ff_effect kind p eid = Some (built_effect kind p eid)"
  by (cases kind)
    (simp_all add: to_ff_effect_def built_effect_def constant_layout ramp_layout
      periodic_layout condition_layout del: kernel_union.simps)

lemma length_kernel_union: "length (kernel_union kind p) = 32"
  by (cases kind) (simp_all add: env_bytes_def)

lemma encode_event_layout:
  "encode_event ev = to_le_bytes (tv_sec ev) @ to_le_bytes (tv_usec ev) @ to_le_bytes (ev_type ev) @
     to_le_bytes (ev_code ev) @ to_le_bytes (ev_value ev)"
  by (simp add: encode_event_def overwrite_def)

lemma decode_encode_event: "decode_event (encode_event ev) = Some ev"
  by (simp add: decode_event_def encode_event_layout get_range_def)

lemma length_encode_event: "length (encode_event ev) = 24"
  by (simp add: encode_event_layout)

interpretation evdev: record_codec encode_event decode_event "24"
  by unfold_locales (rule length_encode_event decode_encode_event | simp)+

section \<open>No panic, and the bookkeeping invariant\<close>

definition sink_inv :: "Sink \<Rightarrow> bool" where
  "sink_inv s \<longleftrightarrow>
     (\<forall>b. effects s b \<noteq> None \<longrightarrow> kinds s b \<noteq> None) \<and> (\<forall>b. kinds s b \<noteq> None \<longrightarrow> params s b \<noteq> None)"

lemma upload_total [simp]: "upload N s k b \<noteq> None"
  by (auto simp: upload_def Let_def split: option.splits sum.splits prod.splits)

lemma sink_apply_total: "sink_apply N s k op \<noteq> None"
  by (cases op) (simp_all add: set_params_def Let_def del: not_None_eq split: option.splits prod.splits)

lemma sink_inv_empty [simp]: "sink_inv empty_sink"
  by (simp add: sink_inv_def empty_sink_def)

lemma upload_inv: "upload N s k b = Some (r, s', k') \<Longrightarrow> sink_inv s \<Longrightarrow> sink_inv s'"
  by (auto simp: upload_def sink_inv_def Let_def split: option.splits sum.splits prod.splits if_splits)

lemma set_params_inv: "set_params N s k b f = Some (r, s', k') \<Longrightarrow> sink_inv s \<Longrightarrow> sink_inv s'"
  unfolding set_params_def by (erule upload_inv) (auto simp: sink_inv_def)

lemma device_control_inv:
  "device_control N s k op = (r, s', k') \<Longrightarrow> sink_inv s \<Longrightarrow> sink_inv s'"
  by (cases op) (auto split: prod.splits)

lemma sink_apply_inv: "sink_apply N s k op = Some (r, s', k') \<Longrightarrow> sink_inv s \<Longrightarrow> sink_inv s'"
proof (cases op)
  case (Create b kd)
  assume "sink_apply N s k op = Some (r, s', k')" "sink_inv s"
  with Create show ?thesis by (auto simp: sink_inv_def)
next
  case (Destroy b)
  assume "sink_apply N s k op = Some (r, s', k')" "sink_inv s"
  with Destroy show ?thesis by (auto simp: sink_inv_def Let_def)
qed (auto intro: set_params_inv device_control_inv simp: Let_def split: option.splits prod.splits)

section \<open>What the sink keeps in the kernel\<close>

text \<open>The behaviour of the Linux force-feedback core that the sink relies on. \<open>live k\<close> maps
  the ids of the loaded effects to the effects. An upload with id \<open>-1\<close> gets a fresh,
  non-negative id; one with a loaded id replaces that effect; a failed call changes
  nothing; an erase that succeeds removes exactly its effect; event writes never load
  or remove an effect. Iterating a map visits every key once.\<close>

definition ff_core :: "'k ff_node \<Rightarrow> ('k \<Rightarrow> i16 \<Rightarrow> ff_effect option) \<Rightarrow> bool" where
  "ff_core N live \<longleftrightarrow>
     (\<forall>k e k' i. eviocsff N k e = (k', Inr i) \<longrightarrow>
        (if ff_id e = -1 then live k i = None \<and> 0 \<le> sint i else i = ff_id e) \<and>
        live k' = (live k)(i \<mapsto> e\<lparr>ff_id := i\<rparr>)) \<and>
     (\<forall>k e k' x. eviocsff N k e = (k', Inl x) \<longrightarrow> live k' = live k) \<and>
     (\<forall>k (i :: i16) k'. eviocrmff N k (scast i) = (k', Inr ()) \<longrightarrow> live k' = (live k)(i := None)) \<and>
     (\<forall>k (i :: i16) k' x. eviocrmff N k (scast i) = (k', Inl x) \<longrightarrow> live k' = live k) \<and>
     (\<forall>k b. live (fst (fd_write N k b)) = live k) \<and>
     set (key_order N) = UNIV \<and> distinct (key_order N)"

text \<open>Erasing a loaded effect of one's own succeeds.\<close>

definition ff_erases :: "'k ff_node \<Rightarrow> ('k \<Rightarrow> i16 \<Rightarrow> ff_effect option) \<Rightarrow> bool" where
  "ff_erases N live \<longleftrightarrow>
     (\<forall>k i. live k i \<noteq> None \<longrightarrow> (\<exists>k'. eviocrmff N k (scast i) = (k', Inr ())))"

lemma ff_core_upload:
  assumes "ff_core N live" "eviocsff N k e = (k', Inr i)"
  shows "(if ff_id e = -1 then live k i = None \<and> 0 \<le> sint i else i = ff_id e) \<and>
    live k' = (live k)(i \<mapsto> e\<lparr>ff_id := i\<rparr>)"
  using assms unfolding ff_core_def by blast

lemma ff_core_upload_err:
  "ff_core N live \<Longrightarrow> eviocsff N k e = (k', Inl x) \<Longrightarrow> live k' = live k"
  unfolding ff_core_def by blast

lemma ff_core_write: "ff_core N live \<Longrightarrow> live (fst (write_ff_event N k c v)) = live k"
proof -
  assume "ff_core N live"
  then have "live (fst (fd_write N k b)) = live k" for b unfolding ff_core_def by blast
  from this [of "encode_event \<lparr>tv_sec = 0, tv_usec = 0, ev_type = EV_FF, ev_code = c, ev_value = v\<rparr>"]
  show ?thesis by (auto simp: write_ff_event_def split: prod.splits sum.splits)
qed

lemma ff_core_write_run:
  "ff_core N live \<Longrightarrow> write_ff_event N k c v = (k', r) \<Longrightarrow> live k' = live k"
  using ff_core_write [of N live k c v] by simp

lemma ff_core_erase:
  assumes "ff_core N live" "eviocrmff N k (scast i) = (k', res)"
  shows "live k' = live k \<or> live k' = (live k)(i := None)"
proof (cases res)
  case (Inl x)
  with assms show ?thesis unfolding ff_core_def by blast
next
  case (Inr u)
  with assms show ?thesis unfolding ff_core_def by (cases u) blast
qed

lemma ff_core_erase_other:
  assumes "ff_core N live" "j \<noteq> i"
  shows "live (fst (eviocrmff N k (scast i))) j = live k j"
proof (cases "eviocrmff N k (scast i)")
  case (Pair k' res)
  then have "live k' = live k \<or> live k' = (live k)(i := None)" by (rule ff_core_erase [OF assms(1)])
  with Pair assms(2) show ?thesis by auto
qed

lemma ff_core_erase_same:
  assumes "ff_core N live" "ff_erases N live"
  shows "live (fst (eviocrmff N k (scast i))) i = None"
proof (cases "live k i")
  case None
  show ?thesis
  proof (cases "eviocrmff N k (scast i)")
    case (Pair k' res)
    then have "live k' = live k \<or> live k' = (live k)(i := None)" by (rule ff_core_erase [OF assms(1)])
    with Pair None show ?thesis by auto
  qed
next
  case (Some e)
  then obtain k' where k': "eviocrmff N k (scast i) = (k', Inr ())"
    using assms(2) unfolding ff_erases_def by blast
  with assms(1) have "live k' = (live k)(i := None)" unfolding ff_core_def by blast
  with k' show ?thesis by simp
qed

lemma erase_ids_other:
  "ff_core N live \<Longrightarrow> j \<notin> set is \<Longrightarrow> live (erase_ids N k is) j = live k j"
  by (induction "is" arbitrary: k) (simp_all add: ff_core_erase_other)

lemma erase_ids_gone:
  "ff_core N live \<Longrightarrow> ff_erases N live \<Longrightarrow> i \<in> set is \<Longrightarrow> live (erase_ids N k is) i = None"
proof (induction "is" arbitrary: k)
  case Nil
  then show ?case by simp
next
  case (Cons j js)
  show ?case
  proof (cases "i \<in> set js")
    case True
    with Cons show ?thesis by simp
  next
    case False
    with Cons.prems have "i = j" by simp
    with False Cons.prems(1,2) show ?thesis by (simp add: erase_ids_other ff_core_erase_same)
  qed
qed

lemma stop_ids_live: "ff_core N live \<Longrightarrow> live (stop_ids N k is) = live k"
  by (induction "is" arbitrary: k) (simp_all add: ff_core_write)

lemma set_map_entries:
  assumes "set (key_order N) = UNIV"
  shows "set (map_entries N m) = {(b, v). m b = Some v}"
proof -
  have "set (map_entries N m) = the ` {x. \<exists>b \<in> set (key_order N). x = map_option (Pair b) (m b) \<and> x \<noteq> None}"
    by (auto simp: map_entries_def List.map_filter_def)
  also have "\<dots> = {(b, v). m b = Some v}"
    using assms by (force simp: image_iff)
  finally show ?thesis .
qed

lemma ff_core_order: "ff_core N live \<Longrightarrow> set (key_order N) = UNIV"
  unfolding ff_core_def by blast

lemma set_drain_ids: "ff_core N live \<Longrightarrow> set (drain_ids N s) = ran (effects s)"
  by (auto simp: drain_ids_def set_map_entries [OF ff_core_order] ran_def image_iff)

section \<open>Ownership and refinement\<close>

text \<open>Every id the sink stores names an effect loaded in the kernel, and no two blocks
  share one.\<close>

definition owns :: "('k \<Rightarrow> i16 \<Rightarrow> ff_effect option) \<Rightarrow> Sink \<Rightarrow> 'k \<Rightarrow> bool" where
  "owns live s k \<longleftrightarrow>
     (\<forall>b i. effects s b = Some i \<longrightarrow> live k i \<noteq> None \<and> 0 \<le> sint i) \<and>
     (\<forall>b c i. effects s b = Some i \<longrightarrow> effects s c = Some i \<longrightarrow> b = c)"

text \<open>The abstract wheel: per block its kind, its accumulated parameters and the effect the
  kernel plays for it (without the kernel's id).\<close>

record wheel_view =
  w_kind :: "u8 \<Rightarrow> EffectKind option"
  w_param :: "u8 \<Rightarrow> EffectParams option"
  w_loaded :: "u8 \<Rightarrow> ff_effect option"

definition view :: "('k \<Rightarrow> i16 \<Rightarrow> ff_effect option) \<Rightarrow> Sink \<Rightarrow> 'k \<Rightarrow> wheel_view" where
  "view live s k = \<lparr>w_kind = kinds s, w_param = params s,
     w_loaded = (\<lambda>b. Option.bind (effects s b) (\<lambda>i. map_option (\<lambda>e. e\<lparr>ff_id := -1\<rparr>) (live k i)))\<rparr>"

definition w_params_of :: "wheel_view \<Rightarrow> u8 \<Rightarrow> EffectParams" where
  "w_params_of w b = (case w_param w b of Some p \<Rightarrow> p | None \<Rightarrow> default_params)"

definition w_set :: "bool \<Rightarrow> u8 \<Rightarrow> (EffectParams \<Rightarrow> EffectParams) \<Rightarrow> wheel_view \<Rightarrow> wheel_view" where
  "w_set ok b f w =
     (let p = f (w_params_of w b); w1 = w\<lparr>w_param := (w_param w)(b \<mapsto> p)\<rparr>
      in case w_kind w b of
           Some kind \<Rightarrow> if ok then w1\<lparr>w_loaded := (w_loaded w)(b \<mapsto> built_effect kind p (-1))\<rparr> else w1
         | None \<Rightarrow> w1)"

fun wheel_step :: "bool \<Rightarrow> EffectOp \<Rightarrow> wheel_view \<Rightarrow> wheel_view" where
  "wheel_step ok (Create b kind) w =
     w\<lparr>w_kind := (w_kind w)(b \<mapsto> kind), w_param := (w_param w)(b \<mapsto> w_params_of w b)\<rparr>"
| "wheel_step ok (SetEffect b d dir) w = w_set ok b (\<lambda>p. p\<lparr>duration_ms := d, direction := dir\<rparr>) w"
| "wheel_step ok (SetConstant b m) w = w_set ok b (\<lambda>p. p\<lparr>constant_level := m\<rparr>) w"
| "wheel_step ok (SetRamp b a e) w = w_set ok b (\<lambda>p. p\<lparr>ramp_start := a, ramp_end := e\<rparr>) w"
| "wheel_step ok (SetPeriodic b m off ph per) w =
     w_set ok b (\<lambda>p. p\<lparr>periodic_magnitude := m, periodic_offset := off, periodic_phase := ph,
       periodic_period_ms := per\<rparr>) w"
| "wheel_step ok (SetCondition b c cp cn sp sn) w =
     w_set ok b (\<lambda>p. p\<lparr>cond_center := c, cond_coeff_pos := cp, cond_coeff_neg := cn,
       cond_sat_pos := sp, cond_sat_neg := sn\<rparr>) w"
| "wheel_step ok (SetEnvelope b am al fm fl) w =
     w_set ok b (\<lambda>p. p\<lparr>attack_ms := am, attack_level := al, fade_ms := fm, fade_level := fl\<rparr>) w"
| "wheel_step ok (Destroy b) w =
     w\<lparr>w_kind := (w_kind w)(b := None), w_param := (w_param w)(b := None),
       w_loaded := (w_loaded w)(b := None)\<rparr>"
| "wheel_step ok (DeviceControl Reset) w = \<lparr>w_kind = Map.empty, w_param = Map.empty, w_loaded = Map.empty\<rparr>"
| "wheel_step ok (DeviceControl _) w = w"
| "wheel_step ok (Operation b start n) w = w"
| "wheel_step ok (Gain v) w = w"

lemma ownsD:
  assumes "owns live s k" "effects s b = Some i"
  shows "live k i \<noteq> None" "0 \<le> sint i" "effects s c = Some i \<Longrightarrow> c = b"
  using assms unfolding owns_def by blast+

lemma view_same_live: "live k' = live k \<Longrightarrow> view live s k' = view live s k"
  by (simp add: view_def)

lemma owns_same_live: "live k' = live k \<Longrightarrow> owns live s k' = owns live s k"
  by (simp add: owns_def)

lemma owns_empty [simp]: "owns live empty_sink k"
  by (simp add: owns_def empty_sink_def)

lemma built_effect_id [simp]: "ff_id (built_effect kind p i) = i"
  "(built_effect kind p i)\<lparr>ff_id := j\<rparr> = built_effect kind p j"
  by (simp_all add: built_effect_def)

lemma sint_neg_one_16: "0 \<le> sint i \<Longrightarrow> i \<noteq> (-1 :: i16)"
  by auto

lemma upload_refines:
  assumes core: "ff_core N live" and own: "owns live s k"
    and up: "upload N s k b = Some (r, s', k')" and p: "params s b = Some p"
  shows "owns live s' k' \<and> kinds s' = kinds s \<and> params s' = params s \<and>
    w_loaded (view live s' k') =
      (case kinds s b of
         Some kind \<Rightarrow> if r = Inr () then (w_loaded (view live s k))(b \<mapsto> built_effect kind p (-1))
                      else w_loaded (view live s k)
       | None \<Rightarrow> w_loaded (view live s k))"
proof (cases "kinds s b")
  case None
  with up own show ?thesis by (auto simp: upload_def)
next
  case (Some kind)
  define eid where "eid = (case effects s b of Some i \<Rightarrow> i | None \<Rightarrow> -1)"
  have po: "param_of s b = p" "(params s)(b \<mapsto> p) = params s"
    using p by (auto simp: param_of_def)
  obtain k1 res where sys: "eviocsff N k (built_effect kind p eid) = (k1, res)" by fastforce
  show ?thesis
  proof (cases res)
    case (Inl e)
    from ff_core_upload_err [OF core sys [unfolded Inl]] have same: "live k1 = live k" .
    from up Some sys Inl po have "r = Inl (Io ''EVIOCSFF'' e)" "s' = s" "k' = k1"
      by (auto simp: upload_def eid_def)
    then show ?thesis
      using own Some owns_same_live [where live = live, OF same] view_same_live [where live = live, OF same]
      by simp
  next
    case (Inr i)
    from up Some sys Inr po have res: "r = Inr ()" "s' = s\<lparr>effects := (effects s)(b \<mapsto> i)\<rparr>" "k' = k1"
      by (auto simp: upload_def eid_def)
    note law = ff_core_upload [OF core sys [unfolded Inr], simplified]
    have live1: "live k1 = (live k)(i \<mapsto> built_effect kind p i)" using law by simp
    have fresh: "0 \<le> sint i \<and> (\<forall>c. effects s c = Some i \<longrightarrow> c = b)"
    proof (cases "effects s b")
      case None
      then have "live k i = None \<and> 0 \<le> sint i" using law by (simp add: eid_def)
      with own show ?thesis by (auto dest: ownsD(1))
    next
      case (Some j)
      then have "0 \<le> sint j" using own by (simp add: ownsD(2))
      with Some law have "i = j" using sint_neg_one_16 by (simp add: eid_def)
      with Some own \<open>0 \<le> sint j\<close> show ?thesis by (auto dest: ownsD(3))
    qed
    have "owns live s' k'"
      using own live1 fresh res unfolding owns_def by (auto split: if_splits)
    moreover have "w_loaded (view live s' k') = (w_loaded (view live s k))(b \<mapsto> built_effect kind p (-1))"
    proof (rule ext)
      fix c
      show "w_loaded (view live s' k') c = ((w_loaded (view live s k))(b \<mapsto> built_effect kind p (-1))) c"
      proof (cases "c = b")
        case True
        with live1 res show ?thesis by (simp add: view_def)
      next
        case False
        with fresh have "effects s c \<noteq> Some i" by auto
        with False live1 res show ?thesis by (cases "effects s c") (auto simp: view_def)
      qed
    qed
    ultimately show ?thesis using res Some by simp
  qed
qed

lemma set_params_refines:
  assumes "ff_core N live" "owns live s k" "set_params N s k b f = Some (r, s', k')"
  shows "owns live s' k' \<and> view live s' k' = w_set (r = Inr ()) b f (view live s k)"
proof -
  let ?s = "s\<lparr>params := (params s)(b \<mapsto> f (param_of s b))\<rparr>"
  have "owns live ?s k" using assms(2) by (simp add: owns_def)
  moreover have "upload N ?s k b = Some (r, s', k')" using assms(3) by (simp add: set_params_def)
  moreover have "params ?s b = Some (f (param_of s b))" by simp
  ultimately have up: "owns live s' k' \<and> kinds s' = kinds ?s \<and> params s' = params ?s \<and>
    w_loaded (view live s' k') =
      (case kinds ?s b of
         Some kind \<Rightarrow> if r = Inr () then (w_loaded (view live ?s k))(b \<mapsto> built_effect kind (f (param_of s b)) (-1))
                      else w_loaded (view live ?s k)
       | None \<Rightarrow> w_loaded (view live ?s k))"
    by (rule upload_refines [OF assms(1)])
  have "w_params_of (view live s k) b = param_of s b"
    by (simp add: w_params_of_def view_def param_of_def)
  moreover have "w_loaded (view live ?s k) = w_loaded (view live s k)" by (simp add: view_def)
  ultimately have "w_loaded (view live s' k') = w_loaded (w_set (r = Inr ()) b f (view live s k))"
    "w_param (view live s' k') = w_param (w_set (r = Inr ()) b f (view live s k))"
    "w_kind (view live s' k') = w_kind (w_set (r = Inr ()) b f (view live s k))"
    using up by (auto simp: w_set_def view_def Let_def split: option.splits)
  with up show ?thesis by (intro conjI wheel_view.equality) simp_all
qed

lemma destroy_refines:
  assumes core: "ff_core N live" and own: "owns live s k"
    and s': "s' = s\<lparr>kinds := (kinds s)(b := None), params := (params s)(b := None),
      effects := (effects s)(b := None)\<rparr>"
    and k': "k' = (case effects s b of Some i \<Rightarrow> fst (eviocrmff N k (scast i)) | None \<Rightarrow> k)"
  shows "owns live s' k' \<and> view live s' k' = wheel_step ok (Destroy b) (view live s k)"
proof -
  have keep: "live k' i = live k i" if "effects s c = Some i" "c \<noteq> b" for c i
  proof (cases "effects s b")
    case (Some j)
    with that own have "i \<noteq> j" by (auto dest: ownsD(3))
    with Some k' core show ?thesis by (simp add: ff_core_erase_other)
  qed (simp add: k')
  have "owns live s' k'"
    using own keep s' unfolding owns_def by (auto split: if_splits)
  moreover have "w_loaded (view live s' k') = (w_loaded (view live s k))(b := None)"
  proof (rule ext)
    fix c show "w_loaded (view live s' k') c = ((w_loaded (view live s k))(b := None)) c"
      using s' keep [of c] by (cases "effects s c") (auto simp: view_def)
  qed
  ultimately show ?thesis using s' by (simp add: view_def)
qed

lemma device_control_refines:
  assumes core: "ff_core N live" and own: "owns live s k" and run: "device_control N s k op = (r, s', k')"
  shows "owns live s' k' \<and> view live s' k' = wheel_step (r = Inr ()) (DeviceControl op) (view live s k)"
proof (cases "op = Reset")
  case True
  with run have "s' = empty_sink" by (auto split: prod.splits)
  with True show ?thesis by (simp add: view_def empty_sink_def owns_def)
next
  case False
  then have "s' = s \<and> live k' = live k"
    using run stop_ids_live [OF core]
    by (cases op) (auto split: prod.splits dest: ff_core_write_run [OF core])
  then show ?thesis
    using own owns_same_live [of live k' k s] view_same_live [of live k' k s] False
    by (cases op) auto
qed

lemma sink_apply_refines:
  assumes core: "ff_core N live" and own: "owns live s k" and run: "sink_apply N s k op = Some (r, s', k')"
  shows "owns live s' k' \<and> view live s' k' = wheel_step (r = Inr ()) op (view live s k)"
proof -
  have same: ?thesis if "s' = s \<and> live k' = live k" "wheel_step (r = Inr ()) op (view live s k) = view live s k"
    using that own owns_same_live [of live k' k s] view_same_live [of live k' k s] by simp
  show ?thesis
  proof (cases op)
    case (Create b kd)
    with run own show ?thesis by (auto simp: owns_def view_def w_params_of_def param_of_def)
  next
    case (Operation b start n)
    then have "s' = s \<and> live k' = live k"
      using run by (auto simp: Let_def split: option.splits prod.splits dest: ff_core_write_run [OF core])
    then show ?thesis by (rule same) (simp add: Operation)
  next
    case (Gain v)
    then have "s' = s \<and> live k' = live k"
      using run by (auto simp: Let_def split: prod.splits dest: ff_core_write_run [OF core])
    then show ?thesis by (rule same) (simp add: Gain)
  next
    case (Destroy b)
    with run show ?thesis using destroy_refines [OF core own refl refl, where ok = "r = Inr ()" and b = b]
      by (auto simp: Let_def)
  next
    case (DeviceControl dop)
    with run device_control_refines [OF core own] show ?thesis by simp
  qed (use run set_params_refines [OF core own] in simp_all)
qed

text \<open>Effects of other owners are never touched.\<close>

lemma upload_frame:
  assumes "ff_core N live" "upload N s k b = Some (r, s', k')"
    and "i \<notin> ran (effects s')"
  shows "live k' i = live k i"
proof (cases "kinds s b")
  case None
  with assms show ?thesis by (auto simp: upload_def)
next
  case (Some kind)
  obtain k1 res where sys: "eviocsff N k (built_effect kind (param_of s b)
      (case effects s b of Some i \<Rightarrow> i | None \<Rightarrow> -1)) = (k1, res)" by fastforce
  show ?thesis
  proof (cases res)
    case (Inl e)
    with assms(2) Some sys ff_core_upload_err [OF assms(1) sys [unfolded Inl]] show ?thesis
      by (auto simp: upload_def)
  next
    case (Inr j)
    with assms(2) Some sys have "effects s' b = Some j" "k' = k1" by (auto simp: upload_def)
    with assms(3) have "i \<noteq> j" by (auto simp: ran_def)
    with ff_core_upload [OF assms(1) sys [unfolded Inr]] \<open>k' = k1\<close> show ?thesis by simp
  qed
qed

lemma sink_apply_frame:
  assumes core: "ff_core N live" and run: "sink_apply N s k op = Some (r, s', k')"
    and out: "i \<notin> ran (effects s)" "i \<notin> ran (effects s')"
  shows "live k' i = live k i"
proof -
  have set_case: "live k' i = live k i" if "set_params N s k b f = Some (r, s', k')" for b f
    using that upload_frame [OF core _ out(2)] by (simp add: set_params_def)
  have dc: "live k' i = live k i" if "device_control N s k dop = (r, s', k')" for dop
    using that out(1) stop_ids_live [OF core] erase_ids_other [OF core] set_drain_ids [OF core, of s]
    by (cases dop) (auto split: prod.splits dest: ff_core_write_run [OF core])
  show ?thesis
  proof (cases op)
    case (Destroy b)
    with run out(1) show ?thesis
      by (auto simp: Let_def ran_def intro!: ff_core_erase_other [OF core] split: option.splits)
  qed (use run set_case dc in \<open>auto simp: Let_def split: option.splits prod.splits dest: ff_core_write_run [OF core]\<close>)
qed

lemma sink_shutdown_live:
  assumes "ff_core N live" "ff_erases N live"
  shows "live (snd (sink_shutdown N s k)) i = (if i \<in> ran (effects s) then None else live k i)"
  using assms by (simp add: sink_shutdown_def ff_core_write erase_ids_gone erase_ids_other set_drain_ids)

section \<open>Scaling\<close>

lemma gain_scale: "uint (v :: u8) * 0xFFFF div 255 = uint v * 257"
proof -
  have "uint v * 0xFFFF = uint v * 257 * 255" by simp
  then show ?thesis by (simp only: nonzero_mult_div_cancel_right)
qed

lemma sint_gain_scale: "sint (word_of_int (uint (v :: u8) * 0xFFFF div 255) :: i32) = uint v * 257"
  using uint_u8_bounds [of v] by (simp only: gain_scale) (rule sint_word_of_int_32; linarith)

lemma unat_evdev_direction:
  assumes "d \<noteq> 0" "d \<noteq> 18000"
  shows "unat (evdev_direction d) = min (unat d * 65536 div 36000) 65535"
proof -
  have "unat (of_nat n :: u16) = n" if "n \<le> 65535" for n
    using that by (simp add: unat_of_nat)
  moreover have "min (unat d * 65536 div 36000) 65535 \<le> 65535" by simp
  ultimately show ?thesis using assms by (simp add: evdev_direction_def)
qed

lemma evdev_direction_off_axis: "evdev_direction d \<noteq> 0 \<and> evdev_direction d \<noteq> 0x8000"
proof (cases "d = 0 \<or> d = 18000")
  case True
  then show ?thesis by (auto simp: evdev_direction_def)
next
  case False
  have d: "unat d \<noteq> 0" "unat d \<noteq> 18000"
  proof -
    show "unat d \<noteq> 0" using False by (simp add: unat_eq_0)
    show "unat d \<noteq> 18000"
    proof
      assume "unat d = 18000"
      then have "(of_nat (unat d) :: u16) = of_nat 18000" by simp
      then show False using False by simp
    qed
  qed
  have "unat d * 65536 div 36000 \<noteq> 0" using d by (simp add: div_eq_0_iff)
  moreover have "unat d * 65536 div 36000 \<noteq> 32768"
  proof
    assume "unat d * 65536 div 36000 = 32768"
    then have "unat d * 65536 = 32768 * 36000 + unat d * 65536 mod 36000"
      using div_mult_mod_eq [of "unat d * 65536" 36000] by linarith
    moreover have "unat d * 65536 mod 36000 < 36000" by simp
    ultimately have "18000 \<le> unat d" "unat d < 18001" by linarith+
    with d show False by simp
  qed
  ultimately have "unat (evdev_direction d) \<noteq> 0" "unat (evdev_direction d) \<noteq> 32768"
    using False by (auto simp: unat_evdev_direction min_def)
  then show ?thesis by auto
qed

section \<open>Sessions\<close>

text \<open>The sink as a step function: an operation answers a \<open>Result\<close> and moves the pair of the
  sink's tables and the kernel.\<close>

definition sink_do :: "'k ff_node \<Rightarrow> Sink \<times> 'k \<Rightarrow> EffectOp \<Rightarrow> (ffb_error + unit) \<times> Sink \<times> 'k" where
  "sink_do N sk op = (case sink_apply N (fst sk) (snd sk) op of Some x \<Rightarrow> x | None \<Rightarrow> (Inr (), sk))"

lemma sink_do_apply: "sink_apply N s k op = Some (sink_do N (s, k) op)"
  using sink_apply_total [of N s k op] by (auto simp: sink_do_def)

interpretation tables: invariant_steps "sink_do N" "\<lambda>sk. sink_inv (fst sk)" for N
proof
  fix s op r s'
  assume "sink_inv (fst s)" "sink_do N s op = (r, s')"
  then show "sink_inv (fst s')"
    using sink_apply_inv [of N "fst s" "snd s" op r "fst s'" "snd s'"] sink_do_apply [of N "fst s" "snd s" op]
    by simp
qed

interpretation wheel: refined_steps "sink_do N" "\<lambda>sk. ff_core N live \<and> owns live (fst sk) (snd sk)"
  "\<lambda>sk. view live (fst sk) (snd sk)" "\<lambda>r. wheel_step (r = Inr ())" for N live
proof
  fix s op r s'
  assume *: "ff_core N live \<and> owns live (fst s) (snd s)" "sink_do N s op = (r, s')"
  then have run: "sink_apply N (fst s) (snd s) op = Some (r, fst s', snd s')"
    using sink_do_apply [of N "fst s" "snd s" op] by simp
  show "ff_core N live \<and> owns live (fst s') (snd s')"
    using * sink_apply_refines [OF _ _ run] by simp
  show "view live (fst s') (snd s') = wheel_step (r = Inr ()) op (view live (fst s) (snd s))"
    using * sink_apply_refines [OF _ _ run] by simp
qed

text \<open>What the wheel holds beside the sink's own effects.\<close>

definition foreign :: "('k \<Rightarrow> i16 \<Rightarrow> ff_effect option) \<Rightarrow> Sink \<Rightarrow> 'k \<Rightarrow> i16 \<Rightarrow> ff_effect option" where
  "foreign live s k i = (if i \<in> ran (effects s) then None else live k i)"

lemma foreign_same: "effects s' = effects s \<Longrightarrow> live k' = live k \<Longrightarrow> foreign live s' k' = foreign live s k"
  by (rule ext) (simp add: foreign_def)

lemma upload_cases:
  assumes core: "ff_core N live" and own: "owns live s k" and run: "upload N s k b = Some (r, s', k')"
  obtains "effects s' = effects s" "live k' = live k"
  | i e where "effects s' = (effects s)(b \<mapsto> i)" "live k' = (live k)(i \<mapsto> e)"
      "effects s b = Some i \<or> effects s b = None \<and> live k i = None"
proof (cases "kinds s b")
  case None
  with run that(1) show ?thesis by (auto simp: upload_def Let_def)
next
  case (Some kind)
  let ?e = "built_effect kind (param_of s b) (case effects s b of None \<Rightarrow> -1 | Some i \<Rightarrow> i)"
  obtain k1 res where ioctl: "eviocsff N k ?e = (k1, res)" by (cases "eviocsff N k ?e")
  show ?thesis
  proof (cases res)
    case (Inl x)
    with run Some ioctl that(1) ff_core_upload_err [OF core, of k ?e k1 x] show ?thesis
      by (auto simp: upload_def Let_def split: option.splits)
  next
    case (Inr i)
    note up = ff_core_upload [OF core ioctl [unfolded Inr]]
    have "effects s b = Some i \<or> effects s b = None \<and> live k i = None"
      using up ownsD [OF own] sint_neg_one_16 by (cases "effects s b") (auto split: if_splits)
    with run Some ioctl Inr up that(2) show ?thesis
      by (auto simp: upload_def Let_def split: option.splits)
  qed
qed

lemma ran_update_same: "m b = Some i \<or> m b = None \<Longrightarrow> ran (m(b \<mapsto> i)) = insert i (ran m)"
  by (cases "m b") (simp_all add: fun_upd_idem ranI insert_absorb)

lemma upload_foreign:
  assumes core: "ff_core N live" and own: "owns live s k" and run: "upload N s k b = Some (r, s', k')"
  shows "foreign live s' k' = foreign live s k"
proof (cases rule: upload_cases [OF assms])
  case 1
  then show ?thesis by (rule foreign_same)
next
  case (2 i e)
  then have "ran (effects s') = insert i (ran (effects s))"
    by (auto simp: ran_update_same)
  with 2 show ?thesis by (auto simp: foreign_def fun_eq_iff intro: ranI)
qed

lemma sink_apply_foreign:
  assumes core: "ff_core N live" and era: "ff_erases N live" and own: "owns live s k"
    and run: "sink_apply N s k op = Some (r, s', k')"
  shows "foreign live s' k' = foreign live s k"
proof -
  have same: "foreign live s' k' = foreign live s k" if "effects s' = effects s" "live k' = live k"
    using that by (rule foreign_same)
  have set_case: "foreign live s' k' = foreign live s k" if "set_params N s k b f = Some (r, s', k')" for b f
  proof -
    let ?s = "s\<lparr>params := (params s)(b \<mapsto> f (param_of s b))\<rparr>"
    have "owns live ?s k" using own by (simp add: owns_def)
    from upload_foreign [OF core this] that show ?thesis
      by (simp add: set_params_def foreign_def fun_eq_iff)
  qed
  have dc: "foreign live s' k' = foreign live s k" if "device_control N s k dop = (r, s', k')" for dop
  proof (cases "dop = Reset")
    case True
    with that have "effects s' = Map.empty" "live k' = live (erase_ids N k (drain_ids N s))"
      by (auto simp: empty_sink_def split: prod.splits dest: ff_core_write_run [OF core])
    with erase_ids_gone [OF core era] erase_ids_other [OF core] set_drain_ids [OF core, of s]
    show ?thesis by (intro ext) (simp add: foreign_def)
  next
    case False
    with that have "effects s' = effects s" "live k' = live k"
      using stop_ids_live [OF core] by (cases dop; auto split: prod.splits dest: ff_core_write_run [OF core])+
    then show ?thesis by (rule same)
  qed
  show ?thesis
  proof (cases op)
    case (Destroy b)
    show ?thesis
    proof (cases "effects s b")
      case None
      with Destroy run have "effects s' = effects s" "live k' = live k" by (auto simp: Let_def fun_upd_idem)
      then show ?thesis by (rule same)
    next
      case (Some i)
      with Destroy run have eqs: "effects s' = (effects s)(b := None)" "k' = fst (eviocrmff N k (scast i))"
        by (auto simp: Let_def)
      have "i \<notin> ran (effects s')"
        using ownsD(3) [OF own Some] by (auto simp: eqs(1) ran_def)
      moreover have "effects s = (effects s')(b \<mapsto> i)" "effects s' b = None"
        using Some by (auto simp: eqs(1))
      then have "ran (effects s) = insert i (ran (effects s'))"
        using ran_update_same [of "effects s'" b i] by simp
      ultimately show ?thesis
        using ff_core_erase_same [OF core era, of k i] ff_core_erase_other [OF core, of _ i k]
        by (auto simp: foreign_def fun_eq_iff eqs(2))
    qed
  next
    case (Operation b start n)
    then have "effects s' = effects s" "live k' = live k"
      using run by (auto simp: Let_def split: option.splits prod.splits dest: ff_core_write_run [OF core])
    then show ?thesis by (rule same)
  next
    case (Gain v)
    then have "effects s' = effects s" "live k' = live k"
      using run by (auto simp: Let_def split: prod.splits dest: ff_core_write_run [OF core])
    then show ?thesis by (rule same)
  next
    case (Create b kd)
    then have "effects s' = effects s" "live k' = live k" using run by auto
    then show ?thesis by (rule same)
  qed (use run set_case dc in simp_all)
qed

interpretation guest: refined_steps "sink_do N"
  "\<lambda>sk. ff_core N live \<and> ff_erases N live \<and> owns live (fst sk) (snd sk)"
  "\<lambda>sk. foreign live (fst sk) (snd sk)" "\<lambda>r op x. x" for N live
proof
  fix s op r s'
  assume *: "ff_core N live \<and> ff_erases N live \<and> owns live (fst s) (snd s)" "sink_do N s op = (r, s')"
  then have run: "sink_apply N (fst s) (snd s) op = Some (r, fst s', snd s')"
    using sink_do_apply [of N "fst s" "snd s" op] by simp
  show "ff_core N live \<and> ff_erases N live \<and> owns live (fst s') (snd s')"
    using * sink_apply_refines [OF _ _ run] by simp
  show "foreign live (fst s') (snd s') = foreign live (fst s) (snd s)"
    using * sink_apply_foreign [OF _ _ _ run] by simp
qed

lemma fold_id_step: "fold (\<lambda>(r, op) x. x) xs a = a"
  by (induction xs) auto

lemma session_leaves_no_trace:
  assumes "ff_core N live" "ff_erases N live" "run_ops (sink_do N) (empty_sink, k) ops = (rs, s, k')"
  shows "live (snd (sink_shutdown N s k')) = live k"
proof
  fix i
  have "foreign live s k' = foreign live empty_sink k"
    using guest.run_abs [where N = N and live = live, OF _ assms(3)] assms(1,2) by (simp add: fold_id_step)
  then have "foreign live s k' i = live k i" by (simp add: foreign_def empty_sink_def)
  with sink_shutdown_live [OF assms(1,2), of s k' i]
  show "live (snd (sink_shutdown N s k')) i = live k i" by (simp add: foreign_def)
qed

section \<open>Reading the wheel back\<close>

lemma fold_events_encoded:
  "fold_events (map encode_event evs) r c =
     Some (fst (apply_events evs r), c \<or> snd (apply_events evs r))"
  by (induction evs arbitrary: r c) (auto simp: decode_encode_event split: prod.splits)

lemma read_into_encoded:
  assumes "length tail < 24"
  shows "read_into (ReadOk (concat (map encode_event evs) @ tail)) r =
    Some (Inr (snd (apply_events evs r), fst (apply_events evs r)))"
  using assms by (simp add: read_into_def evdev.stream_chunks fold_events_encoded split: prod.splits)

text \<open>A read that delivers whole kernel records, with or without a torn one at the end, folds
  exactly those records into the report in order and reports a frame when one of them was a
  \<open>SYN_REPORT\<close>; the torn tail is dropped.\<close>

theorem read_into_folds_the_records:
  assumes "length tail < 24"
  shows "read_into (ReadOk (concat (map encode_event evs) @ tail)) r =
    Some (Inr (snd (apply_events evs r), fst (apply_events evs r)))"
  using assms by (rule read_into_encoded)

theorem read_into_folds_the_records_witness:
  "read_into (ReadOk (concat (map encode_event
      [\<lparr>tv_sec = 0, tv_usec = 0, ev_type = EV_ABS, ev_code = ABS_X, ev_value = 1000\<rparr>,
       \<lparr>tv_sec = 0, tv_usec = 0, ev_type = EV_SYN, ev_code = SYN_REPORT, ev_value = 0\<rparr>]) @ [1, 2])) default_report =
   Some (Inr (True, default_report\<lparr>steering := 1000\<rparr>))"
  by (subst read_into_folds_the_records) (simp_all add: map_event_def)


section \<open>A kernel that keeps its contract\<close>

text \<open>A force-feedback node in the manner of the kernel's \<open>ff-core\<close>: a table of loaded effects,
  the lowest free id for a new one, \<open>ENOSPC\<close> when sixteen are loaded and \<open>EINVAL\<close> for an id
  that is not. It shows that the hypotheses on the kernel can hold together.\<close>

definition table_upload :: "(i16 \<Rightarrow> ff_effect option) \<Rightarrow> ff_effect \<Rightarrow> (i16 \<Rightarrow> ff_effect option) \<times> (errno + i16)" where
  "table_upload k e =
     (if ff_id e = -1
      then case find (\<lambda>i. k i = None) (map of_nat [0..<16]) of
             None \<Rightarrow> (k, Inl 28)
           | Some i \<Rightarrow> (k(i \<mapsto> e\<lparr>ff_id := i\<rparr>), Inr i)
      else if k (ff_id e) = None then (k, Inl 22)
      else (k(ff_id e \<mapsto> e), Inr (ff_id e)))"

definition table_node :: "(i16 \<Rightarrow> ff_effect option) ff_node" where
  "table_node =
     \<lparr>eviocsff = table_upload,
      eviocrmff = (\<lambda>k x. if k (ucast x) = None then (k, Inl 22) else (k(ucast x := None), Inr ())),
      fd_write = (\<lambda>k b. (k, Inr (length b))),
      key_order = map of_nat [0..<256]\<rparr>"

lemma ucast_scast_16_64: "ucast (scast (i :: i16) :: u64) = i"
proof (rule bit_word_eqI)
  fix n assume "n < LENGTH(16)"
  then have "n = 15 \<or> n < 15" by auto
  then show "bit (ucast (scast i :: u64) :: i16) n = bit i n"
    by (auto simp: bit_simps min_def)
qed

lemma key_order_all: "set (map of_nat [0..<256] :: u8 list) = UNIV"
proof -
  have "(w :: u8) \<in> set (map of_nat [0..<256])" for w
  proof -
    have "w = of_nat (unat w)" "unat w \<in> set [0..<256]" by simp_all
    then show ?thesis unfolding set_map by (rule image_eqI)
  qed
  then show ?thesis by blast
qed

lemma key_order_distinct: "distinct (map of_nat [0..<256] :: u8 list)"
  unfolding distinct_map
proof
  show "inj_on (of_nat :: nat \<Rightarrow> u8) (set [0..<256])"
    by (rule inj_on_inverseI [where g = unat]) (simp add: unat_of_nat)
qed simp

lemma low_ids_nonneg: "i \<in> set (map of_nat [0..<16]) \<Longrightarrow> 0 \<le> sint (i :: i16)"
  by (auto simp: upt_rec)

lemma find_free: "find (\<lambda>i. k i = None) (map of_nat [0..<16]) = Some (i :: i16) \<Longrightarrow> k i = None \<and> 0 \<le> sint i"
  using low_ids_nonneg by (auto simp: find_Some_iff in_set_conv_nth simp del: list.map upt_Suc)

lemma table_upload_ok:
  assumes "table_upload k e = (k', Inr i)"
  shows "(if ff_id e = -1 then k i = None \<and> 0 \<le> sint i else i = ff_id e) \<and> k' = k(i \<mapsto> e\<lparr>ff_id := i\<rparr>)"
  using assms find_free [of k] by (auto simp: table_upload_def split: if_splits option.splits)

lemma table_upload_err: "table_upload k e = (k', Inl x) \<Longrightarrow> k' = k"
  by (auto simp: table_upload_def split: if_splits option.splits)

lemma table_core: "ff_core table_node (\<lambda>k. k)"
  unfolding ff_core_def
  using table_upload_ok table_upload_err key_order_all key_order_distinct
  by (auto simp: table_node_def ucast_scast_16_64 split: if_splits simp del: upt_Suc)

lemma table_erases: "ff_erases table_node (\<lambda>k. k)"
  by (auto simp: ff_erases_def table_node_def ucast_scast_16_64)

lemmas table_eval = table_node_def table_upload_def upt_rec

section \<open>Properties\<close>

text \<open>The start of a wheel's session in the reference kernel, and a short force-feedback session.\<close>

definition demo_ops :: "EffectOp list" where
  "demo_ops = [Create 1 Constant, SetConstant 1 100, SetEffect 1 500 0x4000, Operation 1 True 0]"

text \<open>C4. Over a kernel that keeps the \<open>EVIOCSFF\<close>/\<open>EVIOCRMFF\<close> contract, every sink operation does
  to the wheel what the abstract device does: per block the kind, the accumulated parameters and
  the effect actually loaded, whether the kernel accepts or refuses the upload.\<close>

theorem sink_refines_wheel:
  assumes "ff_core N live" "owns live s k" "sink_apply N s k op = Some (r, s', k')"
  shows "owns live s' k' \<and> view live s' k' = wheel_step (r = Inr ()) op (view live s k)"
  using assms by (rule sink_apply_refines)

theorem sink_refines_wheel_witness:
  "\<exists>r s' k'. sink_apply table_node empty_sink Map.empty (Create 1 Spring) = Some (r, s', k') \<and>
     view (\<lambda>k. k) s' k' = wheel_step True (Create 1 Spring) (view (\<lambda>k. k) empty_sink Map.empty)"
  using sink_refines_wheel [OF table_core owns_empty, of Map.empty "Create 1 Spring"] by auto

text \<open>A whole session of operations from an open sink acts on the wheel as the same sequence of
  abstract steps, each with the outcome the sink reported for it.\<close>

theorem sink_session_refines_wheel:
  assumes "ff_core N live" "run_ops (sink_do N) (empty_sink, k) ops = (rs, s, k')"
  shows "view live s k' =
    fold (\<lambda>(r, op). wheel_step (r = Inr ()) op) (zip rs ops) (view live empty_sink k)"
  using wheel.run_abs [where N = N and live = live, OF _ assms(2)] assms(1) by simp

theorem sink_session_refines_wheel_witness:
  "\<exists>rs s k'. run_ops (sink_do table_node) (empty_sink, Map.empty) demo_ops = (rs, s, k') \<and>
     view (\<lambda>k. k) s k' =
       fold (\<lambda>(r, op). wheel_step (r = Inr ()) op) (zip rs demo_ops) (view (\<lambda>k. k) empty_sink Map.empty)"
  using sink_session_refines_wheel [OF table_core, of Map.empty demo_ops] by (metis prod_cases3)

text \<open>C39. No operation panics, whatever the kernel answers, and the sink keeps a kind and parameters
  for every block it has an effect for.\<close>

theorem sink_never_panics:
  "\<exists>r s' k'. sink_apply N s k op = Some (r, s', k') \<and> (sink_inv s \<longrightarrow> sink_inv s')"
  using sink_do_apply [of N s k op] sink_apply_inv [of N s k op] by (metis prod_cases3)

theorem sink_never_panics_witness:
  "\<exists>r s' k'. sink_apply table_node empty_sink Map.empty (SetConstant 7 5) = Some (r, s', k') \<and> sink_inv s'"
  using sink_never_panics [of table_node empty_sink Map.empty "SetConstant 7 5"] by auto



text \<open>The 32-byte parameter union the sink builds is the kernel's layout for the effect type, for
  every kind and every parameter value, and building it never panics.\<close>

theorem union_layout:
  "to_ff_effect kind p eid = Some (built_effect kind p eid) \<and> length (kernel_union kind p) = 32"
  by (simp add: length_kernel_union)

text \<open>The direction given to the kernel is never one of the two values along the axis the wheel
  cannot render, for any host direction.\<close>

theorem direction_never_silent: "evdev_direction d \<noteq> 0 \<and> evdev_direction d \<noteq> 0x8000"
  by (rule evdev_direction_off_axis)

text \<open>Device gain maps the byte scale onto the kernel's 0..65535 exactly, with no rounding loss and
  no overflow.\<close>

theorem gain_exact: "sint (word_of_int (uint (v :: u8) * 0xFFFF div 255) :: i32) = uint v * 257 \<and>
   (\<exists>r k'. sink_apply N s k (Gain v) = Some (r, s, k') \<and>
      k' = fst (write_ff_event N k FF_GAIN (word_of_int (uint v * 257))))"
proof
  show "\<exists>r k'. sink_apply N s k (Gain v) = Some (r, s, k') \<and>
      k' = fst (write_ff_event N k FF_GAIN (word_of_int (uint v * 257)))"
    by (simp add: gain_scale split: prod.splits)
qed (rule sint_gain_scale)

text \<open>A whole session followed by the shutdown leaves the wheel's effect table as it was before:
  everything the proxy loaded is gone, everything else is still there.\<close>

theorem session_restores_the_wheel:
  assumes "ff_core N live" "ff_erases N live" "run_ops (sink_do N) (empty_sink, k) ops = (rs, s, k')"
  shows "live (snd (sink_shutdown N s k')) = live k"
  using assms by (rule session_leaves_no_trace)

theorem session_restores_the_wheel_witness:
  "\<exists>rs s k'. run_ops (sink_do table_node) (empty_sink, Map.empty) demo_ops = (rs, s, k') \<and>
     snd (sink_shutdown table_node s k') = Map.empty"
  using session_restores_the_wheel [OF table_core table_erases, of Map.empty demo_ops] by (metis prod_cases3)

end
