(* ===== verification/Uhid.thy ===== *)
theory Uhid
  imports Sink
begin

text \<open>
  The wire layout of \<open>/dev/uhid\<close> (\<open>logi-ffb/src/uhid.rs\<close>): the records written to the
  kernel and the parser for the records read from it. Encoders that assert a bound
  return \<open>None\<close> for the failed assertion; buffer writes use the checked \<open>put_slice\<close>.
\<close>

section \<open>Layout\<close>

abbreviation UHID_DESTROY :: u32 where "UHID_DESTROY \<equiv> 1"
abbreviation UHID_START :: u32 where "UHID_START \<equiv> 2"
abbreviation UHID_OPEN :: u32 where "UHID_OPEN \<equiv> 4"
abbreviation UHID_CLOSE :: u32 where "UHID_CLOSE \<equiv> 5"
abbreviation UHID_OUTPUT :: u32 where "UHID_OUTPUT \<equiv> 6"
abbreviation UHID_GET_REPORT :: u32 where "UHID_GET_REPORT \<equiv> 9"
abbreviation UHID_GET_REPORT_REPLY :: u32 where "UHID_GET_REPORT_REPLY \<equiv> 10"
abbreviation UHID_CREATE2 :: u32 where "UHID_CREATE2 \<equiv> 11"
abbreviation UHID_INPUT2 :: u32 where "UHID_INPUT2 \<equiv> 12"
abbreviation UHID_SET_REPORT :: u32 where "UHID_SET_REPORT \<equiv> 13"
abbreviation UHID_SET_REPORT_REPLY :: u32 where "UHID_SET_REPORT_REPLY \<equiv> 14"
abbreviation BUS_USB :: u16 where "BUS_USB \<equiv> 0x03"

definition NAME_LEN :: nat where "NAME_LEN = 128"
definition PHYS_LEN :: nat where "PHYS_LEN = 64"
definition UNIQ_LEN :: nat where "UNIQ_LEN = 64"
definition DATA_LEN :: nat where "DATA_LEN = 4096"

lemmas uhid_lens = NAME_LEN_def PHYS_LEN_def UNIQ_LEN_def DATA_LEN_def

text \<open>\<open>size_of::<Create2Req>()\<close> of the packed struct: name, phys, uniq, two \<open>u16\<close>, four
  \<open>u32\<close> and the descriptor slot.\<close>

definition CREATE2_REQ_SIZE :: nat where
  "CREATE2_REQ_SIZE = NAME_LEN + PHYS_LEN + UNIQ_LEN + 2 + 2 + 4 + 4 + 4 + 4 + DATA_LEN"

definition UHID_EVENT_SIZE :: nat where "UHID_EVENT_SIZE = 4 + CREATE2_REQ_SIZE"

definition create2_off_name :: nat where "create2_off_name = 0"
definition create2_off_phys :: nat where "create2_off_phys = create2_off_name + NAME_LEN"
definition create2_off_uniq :: nat where "create2_off_uniq = create2_off_phys + PHYS_LEN"
definition create2_off_rd_size :: nat where "create2_off_rd_size = create2_off_uniq + UNIQ_LEN"
definition create2_off_bus :: nat where "create2_off_bus = create2_off_rd_size + 2"
definition create2_off_vendor :: nat where "create2_off_vendor = create2_off_bus + 2"
definition create2_off_product :: nat where "create2_off_product = create2_off_vendor + 4"
definition create2_off_version :: nat where "create2_off_version = create2_off_product + 4"
definition create2_off_country :: nat where "create2_off_country = create2_off_version + 4"
definition create2_off_rd_data :: nat where "create2_off_rd_data = create2_off_country + 4"

lemmas create2_offs = create2_off_name_def create2_off_phys_def create2_off_uniq_def
  create2_off_rd_size_def create2_off_bus_def create2_off_vendor_def create2_off_product_def
  create2_off_version_def create2_off_country_def create2_off_rd_data_def

lemma uhid_event_size [simp]: "UHID_EVENT_SIZE = 4376"
  by (simp add: UHID_EVENT_SIZE_def CREATE2_REQ_SIZE_def uhid_lens)

datatype Event =
    Start | Open | Close
  | Output "u8 list"
  | GetReport u32 u8 u8
  | SetReport u32 u8 u8 "u8 list"
  | Other u32

section \<open>Encoders\<close>

definition encode_create2 :: "u8 list \<Rightarrow> u16 \<Rightarrow> u32 \<Rightarrow> u32 \<Rightarrow> u8 list \<Rightarrow> u8 list option" where
  "encode_create2 name_bytes bus vendor product rd_data =
     (if DATA_LEN < length rd_data then None
      else do {
        b0 \<leftarrow> put_slice 0 (to_le_bytes UHID_CREATE2) (replicate UHID_EVENT_SIZE 0);
        let copy_len = min (length name_bytes) (NAME_LEN - 1);
        b1 \<leftarrow> put_slice (4 + create2_off_name) (take copy_len name_bytes) b0;
        b2 \<leftarrow> put_slice (4 + create2_off_rd_size) (to_le_bytes (of_nat (length rd_data) :: u16)) b1;
        b3 \<leftarrow> put_slice (4 + create2_off_bus) (to_le_bytes bus) b2;
        b4 \<leftarrow> put_slice (4 + create2_off_vendor) (to_le_bytes vendor) b3;
        b5 \<leftarrow> put_slice (4 + create2_off_product) (to_le_bytes product) b4;
        put_slice (4 + create2_off_rd_data) rd_data b5 })"

definition encode_input2 :: "u8 list \<Rightarrow> u8 list option" where
  "encode_input2 report =
     (if DATA_LEN < length report then None
      else do {
        b0 \<leftarrow> put_slice 0 (to_le_bytes UHID_INPUT2) (replicate UHID_EVENT_SIZE 0);
        b1 \<leftarrow> put_slice (4 + 0) (to_le_bytes (of_nat (length report) :: u16)) b0;
        put_slice (4 + 2) report b1 })"

definition encode_bare :: "u32 \<Rightarrow> u8 list option" where
  "encode_bare event_type = put_slice 0 (to_le_bytes event_type) (replicate UHID_EVENT_SIZE 0)"

definition encode_get_report_reply :: "u32 \<Rightarrow> u16 \<Rightarrow> u8 list \<Rightarrow> u8 list option" where
  "encode_get_report_reply rid err body =
     (if DATA_LEN < length body then None
      else do {
        b0 \<leftarrow> put_slice 0 (to_le_bytes UHID_GET_REPORT_REPLY) (replicate UHID_EVENT_SIZE 0);
        b1 \<leftarrow> put_slice (4 + 0) (to_le_bytes rid) b0;
        b2 \<leftarrow> put_slice (4 + 4) (to_le_bytes err) b1;
        b3 \<leftarrow> put_slice (4 + 6) (to_le_bytes (of_nat (length body) :: u16)) b2;
        put_slice (4 + 8) body b3 })"

definition encode_set_report_reply :: "u32 \<Rightarrow> u16 \<Rightarrow> u8 list option" where
  "encode_set_report_reply rid err = do {
     b0 \<leftarrow> put_slice 0 (to_le_bytes UHID_SET_REPORT_REPLY) (replicate UHID_EVENT_SIZE 0);
     b1 \<leftarrow> put_slice (4 + 0) (to_le_bytes rid) b0;
     put_slice (4 + 4) (to_le_bytes err) b1 }"

section \<open>The parser\<close>

text \<open>The outer \<open>None\<close> is the panic of an indexing or \<open>unwrap\<close>; the length checks make it
  unreachable.\<close>

definition parse_output :: "u8 list \<Rightarrow> (ffb_error + Event) option" where
  "parse_output buf =
     (let size_off = 4 + DATA_LEN; data_off = 4 + 0 in
      if length buf < size_off + 2
      then Some (Inl (Protocol ''uhid output event truncated before size field''))
      else do {
        sz \<leftarrow> get_range buf size_off (size_off + 2);
        let size = unat (from_le_bytes sz :: u16);
        if length buf < data_off + size
        then Some (Inl (Protocol ''uhid output event truncated before report data''))
        else do {
          body \<leftarrow> get_range buf data_off (data_off + size);
          Some (Inr (Output body)) } })"

definition parse_get_report :: "u8 list \<Rightarrow> (ffb_error + Event) option" where
  "parse_get_report buf =
     (let rtype_off = 4 + 5; id_off = 4 + 0 in
      if length buf < rtype_off + 1
      then Some (Inl (Protocol ''uhid get-report event truncated before rtype field''))
      else do {
        idb \<leftarrow> get_range buf id_off (id_off + 4);
        rnum \<leftarrow> get_at buf (4 + 4);
        rtype \<leftarrow> get_at buf rtype_off;
        Some (Inr (GetReport (from_le_bytes idb) rnum rtype)) })"

definition parse_set_report :: "u8 list \<Rightarrow> (ffb_error + Event) option" where
  "parse_set_report buf =
     (let size_off = 4 + 6; id_off = 4 + 0; data_off = 4 + 8 in
      if length buf < size_off + 2
      then Some (Inl (Protocol ''uhid set-report event truncated before size field''))
      else do {
        idb \<leftarrow> get_range buf id_off (id_off + 4);
        rnum \<leftarrow> get_at buf (4 + 4);
        rtype \<leftarrow> get_at buf (4 + 5);
        sz \<leftarrow> get_range buf size_off (size_off + 2);
        let size = unat (from_le_bytes sz :: u16);
        if length buf < data_off + size
        then Some (Inl (Protocol ''uhid set-report event truncated before report data''))
        else do {
          body \<leftarrow> get_range buf data_off (data_off + size);
          Some (Inr (SetReport (from_le_bytes idb) rnum rtype body)) } })"

definition parse_event :: "u8 list \<Rightarrow> (ffb_error + Event) option" where
  "parse_event buf =
     (if length buf < 4
      then Some (Inl (Protocol ''uhid event buffer shorter than the type field''))
      else do {
        ty \<leftarrow> get_range buf 0 4;
        let event_type = (from_le_bytes ty :: u32);
        if event_type = UHID_START then Some (Inr Start)
        else if event_type = UHID_OPEN then Some (Inr Open)
        else if event_type = UHID_CLOSE then Some (Inr Close)
        else if event_type = UHID_OUTPUT then parse_output buf
        else if event_type = UHID_GET_REPORT then parse_get_report buf
        else if event_type = UHID_SET_REPORT then parse_set_report buf
        else Some (Inr (Other event_type)) })"

section \<open>The device\<close>

text \<open>\<open>uhid::Device\<close> owns a descriptor of \<open>/dev/uhid\<close>. The kernel behind it is a parameter:
  what a \<open>read\<close> delivers and what a \<open>write\<close> answers, as functions of its state \<open>'d\<close>. Each
  operation returns the outer \<open>None\<close> for a panic, then Rust's \<open>Result\<close> and the new state.\<close>

record 'd uhid_node =
  uhid_write :: "'d \<Rightarrow> u8 list \<Rightarrow> 'd \<times> (errno + nat)"
  uhid_read :: "'d \<Rightarrow> 'd \<times> (errno + u8 list)"

type_synonym ('d, 'a) dev_result = "('d \<times> (ffb_error + 'a)) option"

abbreviation EPERM :: errno where "EPERM \<equiv> 1"
abbreviation ENOENT :: errno where "ENOENT \<equiv> 2"
abbreviation EINTR :: errno where "EINTR \<equiv> 4"
abbreviation EACCES :: errno where "EACCES \<equiv> 13"

definition uhid_open_hint :: "errno \<Rightarrow> string" where
  "uhid_open_hint e =
     (if e = EACCES \<or> e = EPERM
      then '' (the uhid module is not loaded, so its udev rule never applied: run `sudo modprobe uhid`, and put `uhid` in /etc/modules-load.d/ for the next boot)''
      else if e = ENOENT then '' (this kernel has no uhid support)''
      else [])"

definition ascii_bytes :: "string \<Rightarrow> u8 list" where
  "ascii_bytes s = map of_char s"

definition dev_write :: "'d uhid_node \<Rightarrow> 'd \<Rightarrow> string \<Rightarrow> u8 list option \<Rightarrow> ('d, unit) dev_result" where
  "dev_write U d ctx enc = do {
     event \<leftarrow> enc;
     Some (case uhid_write U d event of
       (d', Inl e) \<Rightarrow> (d', Inl (Io ctx e))
     | (d', Inr _) \<Rightarrow> (d', Inr ())) }"

definition device_create :: "'d uhid_node \<Rightarrow> errno + 'd \<Rightarrow> (ffb_error + 'd) option" where
  "device_create U fd =
     (case fd of
        Inl e \<Rightarrow> Some (Inl (Io (''open /dev/uhid'' @ uhid_open_hint e) e))
      | Inr d \<Rightarrow> do {
          (d', r) \<leftarrow> dev_write U d ''write UHID_CREATE2''
            (encode_create2 (ascii_bytes VIRTUAL_NAME) BUS_USB (ucast VENDOR) (ucast VIRTUAL_PRODUCT)
               report_descriptor);
          Some (case r of Inl e \<Rightarrow> Inl e | Inr _ \<Rightarrow> Inr d') })"

definition read_event :: "'d uhid_node \<Rightarrow> 'd \<Rightarrow> ('d, Event) dev_result" where
  "read_event U d =
     (case uhid_read U d of
        (d', Inl e) \<Rightarrow> Some (d', Inl (Io ''read uhid event'' e))
      | (d', Inr bytes) \<Rightarrow> do { r \<leftarrow> parse_event (take UHID_EVENT_SIZE bytes); Some (d', r) })"

definition send_input :: "'d uhid_node \<Rightarrow> 'd \<Rightarrow> u8 list \<Rightarrow> ('d, unit) dev_result" where
  "send_input U d report = dev_write U d ''write UHID_INPUT2'' (encode_input2 report)"

definition send_get_report_reply ::
  "'d uhid_node \<Rightarrow> 'd \<Rightarrow> u32 \<Rightarrow> u16 \<Rightarrow> u8 list \<Rightarrow> ('d, unit) dev_result" where
  "send_get_report_reply U d rid err body =
     dev_write U d ''write UHID_GET_REPORT_REPLY'' (encode_get_report_reply rid err body)"

definition send_set_report_reply :: "'d uhid_node \<Rightarrow> 'd \<Rightarrow> u32 \<Rightarrow> u16 \<Rightarrow> ('d, unit) dev_result" where
  "send_set_report_reply U d rid err =
     dev_write U d ''write UHID_SET_REPORT_REPLY'' (encode_set_report_reply rid err)"

definition device_drop :: "'d uhid_node \<Rightarrow> 'd \<Rightarrow> 'd option" where
  "device_drop U d = do { event \<leftarrow> encode_bare UHID_DESTROY; Some (fst (uhid_write U d event)) }"

section \<open>The kernel's side of the records\<close>

text \<open>A record as \<open>linux/uhid.h\<close> lays it out, zero-padded to the fixed size. The round-trip
  theorems read the encoders back through these layouts, and build the kernel's requests
  with them.\<close>

definition padded :: "u8 list \<Rightarrow> u8 list" where
  "padded xs = xs @ replicate (UHID_EVENT_SIZE - length xs) 0"

definition kernel_output :: "u8 list \<Rightarrow> u8 \<Rightarrow> u8 list" where
  "kernel_output body rtype =
     padded (to_le_bytes UHID_OUTPUT @ body @ replicate (DATA_LEN - length body) 0 @
       to_le_bytes (of_nat (length body) :: u16) @ [rtype])"

definition kernel_get_report :: "u32 \<Rightarrow> u8 \<Rightarrow> u8 \<Rightarrow> u8 list" where
  "kernel_get_report rid rnum rtype = padded (to_le_bytes UHID_GET_REPORT @ to_le_bytes rid @ [rnum, rtype])"

definition kernel_set_report :: "u32 \<Rightarrow> u8 \<Rightarrow> u8 \<Rightarrow> u8 list \<Rightarrow> u8 list" where
  "kernel_set_report rid rnum rtype body =
     padded (to_le_bytes UHID_SET_REPORT @ to_le_bytes rid @ [rnum, rtype] @
       to_le_bytes (of_nat (length body) :: u16) @ body)"

lemma unat_of_nat_u16: "n < 65536 \<Longrightarrow> unat (of_nat n :: u16) = n"
  by (simp add: unat_of_nat)

lemma parse_kernel_output:
  assumes "length body \<le> DATA_LEN"
  shows "parse_event (kernel_output body rtype) = Some (Inr (Output body))"
proof -
  let ?buf = "kernel_output body rtype"
  let ?pad = "replicate (DATA_LEN - length body) 0 :: u8 list"
  let ?sz = "to_le_bytes (of_nat (length body) :: u16)"
  have len: "length ?buf = 4376" using assms by (simp add: kernel_output_def padded_def DATA_LEN_def)
  obtain tl where buf: "?buf = to_le_bytes UHID_OUTPUT @ body @ ?pad @ ?sz @ tl"
    by (simp add: kernel_output_def padded_def)
  have ty: "get_range ?buf 0 4 = Some (to_le_bytes UHID_OUTPUT)"
    using get_range_mid [of "[]" 0 4 "to_le_bytes UHID_OUTPUT" "body @ ?pad @ ?sz @ tl"] by (simp add: buf)
  have sz: "get_range ?buf 4100 4102 = Some ?sz"
    using assms get_range_mid [of "to_le_bytes UHID_OUTPUT @ body @ ?pad" 4100 4102 ?sz tl]
    by (simp add: buf DATA_LEN_def)
  have data: "get_range ?buf 4 (4 + length body) = Some body"
    unfolding buf by (rule get_range_mid) simp_all
  show ?thesis
    using assms len ty sz data
    by (simp add: parse_event_def parse_output_def DATA_LEN_def unat_of_nat_u16 Let_def)
qed

lemma parse_kernel_get_report:
  "parse_event (kernel_get_report rid rnum rtype) = Some (Inr (GetReport rid rnum rtype))"
proof -
  let ?buf = "kernel_get_report rid rnum rtype"
  have len: "length ?buf = 4376" by (simp add: kernel_get_report_def padded_def)
  obtain tl where buf: "?buf = to_le_bytes UHID_GET_REPORT @ to_le_bytes rid @ [rnum, rtype] @ tl"
    by (simp add: kernel_get_report_def padded_def)
  have ty: "get_range ?buf 0 4 = Some (to_le_bytes UHID_GET_REPORT)"
    using get_range_mid [of "[]" 0 4 "to_le_bytes UHID_GET_REPORT" "to_le_bytes rid @ [rnum, rtype] @ tl"] by (simp add: buf)
  have idb: "get_range ?buf 4 8 = Some (to_le_bytes rid)"
    unfolding buf by (rule get_range_mid) simp_all
  have rn: "?buf ! 8 = rnum" "?buf ! 9 = rtype"
    by (simp_all add: buf nth_append)
  show ?thesis
    using len ty idb rn by (simp add: parse_event_def parse_get_report_def Let_def get_at_def)
qed

lemma parse_kernel_set_report:
  assumes "length body \<le> DATA_LEN"
  shows "parse_event (kernel_set_report rid rnum rtype body) = Some (Inr (SetReport rid rnum rtype body))"
proof -
  let ?buf = "kernel_set_report rid rnum rtype body"
  let ?sz = "to_le_bytes (of_nat (length body) :: u16)"
  have len: "length ?buf = 4376" using assms by (simp add: kernel_set_report_def padded_def DATA_LEN_def)
  obtain tl where buf: "?buf = to_le_bytes UHID_SET_REPORT @ to_le_bytes rid @ [rnum, rtype] @ ?sz @ body @ tl"
    by (simp add: kernel_set_report_def padded_def)
  have ty: "get_range ?buf 0 4 = Some (to_le_bytes UHID_SET_REPORT)"
    using get_range_mid [of "[]" 0 4 "to_le_bytes UHID_SET_REPORT" "to_le_bytes rid @ [rnum, rtype] @ ?sz @ body @ tl"] by (simp add: buf)
  have idb: "get_range ?buf 4 8 = Some (to_le_bytes rid)"
    unfolding buf by (rule get_range_mid) simp_all
  have rn: "?buf ! 8 = rnum" "?buf ! 9 = rtype"
    by (simp_all add: buf nth_append)
  have sz: "get_range ?buf 10 12 = Some ?sz"
    using get_range_mid [of "to_le_bytes UHID_SET_REPORT @ to_le_bytes rid @ [rnum, rtype]" 10 12 ?sz "body @ tl"]
    by (simp add: buf)
  have data: "get_range ?buf 12 (12 + length body) = Some body"
    using get_range_mid [of "to_le_bytes UHID_SET_REPORT @ to_le_bytes rid @ [rnum, rtype] @ ?sz" 12
        "12 + length body" body tl]
    by (simp add: buf)
  show ?thesis
    using assms len ty idb rn sz data
    by (simp add: parse_event_def parse_set_report_def DATA_LEN_def unat_of_nat_u16 Let_def get_at_def)
qed

section \<open>Panics and encodings\<close>

lemma get_range_not_None: "a \<le> b \<Longrightarrow> b \<le> length xs \<Longrightarrow> \<exists>ys. get_range xs a b = Some ys"
  by (simp add: get_range_def)

lemma get_at_not_None: "i < length xs \<Longrightarrow> \<exists>y. get_at xs i = Some y"
  by (simp add: get_at_def)

lemma parse_output_no_panic: "\<exists>r. parse_output buf = Some r"
proof (cases "length buf < 4102")
  case True
  then show ?thesis by (simp add: parse_output_def DATA_LEN_def)
next
  case False
  then obtain sz where sz: "get_range buf 4100 4102 = Some sz"
    using get_range_not_None [of 4100 4102 buf] by auto
  show ?thesis
  proof (cases "length buf < 4 + unat (from_le_bytes sz :: u16)")
    case True
    with False sz show ?thesis by (simp add: parse_output_def DATA_LEN_def)
  next
    case fits: False
    then show ?thesis
      using False sz get_range_not_None [of 4 "4 + unat (from_le_bytes sz :: u16)" buf]
      by (auto simp: parse_output_def DATA_LEN_def)
  qed
qed

lemma parse_get_report_no_panic: "\<exists>r. parse_get_report buf = Some r"
  using get_range_not_None [of 4 8 buf] get_at_not_None [of 8 buf] get_at_not_None [of 9 buf]
  by (cases "length buf < 10") (auto simp: parse_get_report_def simp del: get_at_eq_Some)

lemma parse_set_report_no_panic: "\<exists>r. parse_set_report buf = Some r"
proof (cases "length buf < 12")
  case True
  then show ?thesis by (simp add: parse_set_report_def)
next
  case False
  then obtain idb sz where parts: "get_range buf 4 8 = Some idb" "get_range buf 10 12 = Some sz"
      "get_at buf 8 = Some (buf ! 8)" "get_at buf 9 = Some (buf ! 9)"
    using get_range_not_None [of 4 8 buf] get_range_not_None [of 10 12 buf] by auto
  show ?thesis
  proof (cases "length buf < 12 + unat (from_le_bytes sz :: u16)")
    case True
    with False parts show ?thesis by (simp add: parse_set_report_def del: get_at_eq_Some)
  next
    case fits: False
    then show ?thesis
      using False parts get_range_not_None [of 12 "12 + unat (from_le_bytes sz :: u16)" buf]
      by (auto simp: parse_set_report_def simp del: get_at_eq_Some)
  qed
qed

lemma parse_event_no_panic: "\<exists>r. parse_event buf = Some r"
proof (cases "length buf < 4")
  case True
  then show ?thesis by (simp add: parse_event_def)
next
  case False
  then obtain ty where "get_range buf 0 4 = Some ty"
    using get_range_not_None [of 0 4 buf] by auto
  with False show ?thesis
    using parse_output_no_panic [of buf] parse_get_report_no_panic [of buf]
      parse_set_report_no_panic [of buf]
    by (simp add: parse_event_def Let_def)
qed

lemma take_min_len: "take (min (length xs) n) xs = take n xs"
  by (simp add: min_def)

text \<open>The encoders fail only on an oversized payload, and the record they build is the
  kernel's layout.\<close>

lemma encode_bare_layout: "encode_bare ty = Some (padded (to_le_bytes ty))"
  using put_slice_replicate [of "[]" 0 "to_le_bytes ty" 4376 0]
  by (simp add: encode_bare_def padded_def)

lemma encode_input2_layout:
  assumes "length report \<le> DATA_LEN"
  shows "encode_input2 report =
     Some (padded (to_le_bytes UHID_INPUT2 @ to_le_bytes (of_nat (length report) :: u16) @ report))"
  using assms put_slice_replicate [of "[]" 0 "to_le_bytes UHID_INPUT2" 4376 0]
  by (simp add: encode_input2_def padded_def DATA_LEN_def put_slice_replicate del: append_assoc)

lemma encode_get_report_reply_layout:
  assumes "length body \<le> DATA_LEN"
  shows "encode_get_report_reply rid err body =
     Some (padded (to_le_bytes UHID_GET_REPORT_REPLY @ to_le_bytes rid @ to_le_bytes err @
       to_le_bytes (of_nat (length body) :: u16) @ body))"
  using assms put_slice_replicate [of "[]" 0 "to_le_bytes UHID_GET_REPORT_REPLY" 4376 0]
  by (simp add: encode_get_report_reply_def padded_def DATA_LEN_def put_slice_replicate del: append_assoc)

lemma encode_set_report_reply_layout:
  "encode_set_report_reply rid err =
     Some (padded (to_le_bytes UHID_SET_REPORT_REPLY @ to_le_bytes rid @ to_le_bytes err))"
  using put_slice_replicate [of "[]" 0 "to_le_bytes UHID_SET_REPORT_REPLY" 4376 0]
  by (simp add: encode_set_report_reply_def padded_def put_slice_replicate del: append_assoc)

lemma encode_create2_layout:
  assumes "length rd \<le> DATA_LEN"
  shows "encode_create2 nm bus vendor product rd =
     Some (padded (to_le_bytes UHID_CREATE2 @
       take 127 nm @ replicate (256 - min 127 (length nm)) 0 @
       to_le_bytes (of_nat (length rd) :: u16) @ to_le_bytes bus @
       to_le_bytes vendor @ to_le_bytes product @ replicate 8 0 @ rd))"
  using assms put_slice_replicate [of "[]" 0 "to_le_bytes UHID_CREATE2" 4376 0]
  by (simp add: encode_create2_def padded_def uhid_lens create2_offs put_slice_replicate del: append_assoc)
    (simp add: min.commute [of 127] take_min_len)

section \<open>Device operations\<close>

lemma length_report_descriptor: "length report_descriptor \<le> DATA_LEN"
  by (simp add: report_descriptor_def JOYSTICK_PREFIX_def PID_COLLECTION_def BLOCK_FREE_COLLECTION_def
      APP_END_def DATA_LEN_def pid_state_bytes_def pid_set_effect_bytes_def pid_envelope_bytes_def
      pid_condition_bytes_def pid_periodic_bytes_def pid_constant_bytes_def pid_operation_bytes_def
      pid_control_bytes_def pid_create_bytes_def pid_block_load_bytes_def pid_pool_bytes_def
      pid_gain_bytes_def pid_ramp_bytes_def)

lemma dev_write_encoded [simp]:
  "dev_write U d ctx (Some ev) =
     Some (fst (uhid_write U d ev), case snd (uhid_write U d ev) of Inl e \<Rightarrow> Inl (Io ctx e) | Inr _ \<Rightarrow> Inr ())"
  by (simp add: dev_write_def split: prod.splits sum.splits)

lemma send_input_report:
  "send_input U d (to_bytes r) \<noteq> None"
  by (simp add: send_input_def encode_input2_layout DATA_LEN_def)

lemma read_event_total: "\<exists>x. read_event U d = Some x"
proof (cases "uhid_read U d")
  case (Pair d' res)
  show ?thesis
  proof (cases res)
    case (Inr bytes)
    obtain r where "parse_event (take UHID_EVENT_SIZE bytes) = Some r" using parse_event_no_panic by blast
    with Pair Inr show ?thesis by (simp add: read_event_def)
  qed (simp add: read_event_def Pair)
qed

lemma device_create_total: "\<exists>x. device_create U fd = Some x"
  by (cases fd) (auto simp: device_create_def encode_create2_layout length_report_descriptor)

section \<open>Properties\<close>

text \<open>Parsing never panics, whatever bytes a read returned, however short.\<close>

theorem parse_event_total: "\<exists>r. parse_event buf = Some r"
  by (rule parse_event_no_panic)

text \<open>Every request the kernel lays out as \<open>linux/uhid.h\<close> does parses back to the request: an
  output report, a get-report and a set-report, the last two with the id to echo.\<close>

theorem kernel_requests_parse:
  assumes "length body \<le> DATA_LEN"
  shows "parse_event (kernel_output body rtype) = Some (Inr (Output body)) \<and>
    parse_event (kernel_get_report rid rnum rtype) = Some (Inr (GetReport rid rnum rtype)) \<and>
    parse_event (kernel_set_report rid rnum rtype body) = Some (Inr (SetReport rid rnum rtype body))"
  using assms by (simp add: parse_kernel_output parse_kernel_get_report parse_kernel_set_report)

theorem kernel_requests_parse_witness:
  "parse_event (kernel_set_report 7 0x54 0 [0x54, 1, 0]) = Some (Inr (SetReport 7 0x54 0 [0x54, 1, 0]))"
  using kernel_requests_parse [of "[0x54, 1, 0]" 0 7 "0x54"] by (simp add: DATA_LEN_def)

text \<open>Bringing up the device writes one creation record, of the fixed event size: the virtual
  name, the USB bus, the virtual identity and the whole report descriptor with its length.\<close>

theorem device_create_record:
  "\<exists>ev. length ev = UHID_EVENT_SIZE \<and>
     ev = padded (to_le_bytes UHID_CREATE2 @ take 127 (ascii_bytes VIRTUAL_NAME) @
       replicate (256 - min 127 (length (ascii_bytes VIRTUAL_NAME))) 0 @
       to_le_bytes (of_nat (length report_descriptor) :: u16) @ to_le_bytes BUS_USB @
       to_le_bytes (0x046d :: u32) @ to_le_bytes (0xc2dd :: u32) @ replicate 8 0 @ report_descriptor) \<and>
     device_create U (Inr d) = Some (case uhid_write U d ev of
       (d', Inl e) \<Rightarrow> Inl (Io ''write UHID_CREATE2'' e) | (d', Inr _) \<Rightarrow> Inr d')"
proof (intro exI conjI)
  show "device_create U (Inr d) = Some (case uhid_write U d
      (padded (to_le_bytes UHID_CREATE2 @ take 127 (ascii_bytes VIRTUAL_NAME) @
       replicate (256 - min 127 (length (ascii_bytes VIRTUAL_NAME))) 0 @
       to_le_bytes (of_nat (length report_descriptor) :: u16) @ to_le_bytes BUS_USB @
       to_le_bytes (0x046d :: u32) @ to_le_bytes (0xc2dd :: u32) @ replicate 8 0 @ report_descriptor)) of
       (d', Inl e) \<Rightarrow> Inl (Io ''write UHID_CREATE2'' e) | (d', Inr _) \<Rightarrow> Inr d')"
    by (simp add: device_create_def encode_create2_layout length_report_descriptor split: prod.splits sum.splits)
  show "length (padded (to_le_bytes UHID_CREATE2 @ take 127 (ascii_bytes VIRTUAL_NAME) @
       replicate (256 - min 127 (length (ascii_bytes VIRTUAL_NAME))) 0 @
       to_le_bytes (of_nat (length report_descriptor) :: u16) @ to_le_bytes BUS_USB @
       to_le_bytes (0x046d :: u32) @ to_le_bytes (0xc2dd :: u32) @ replicate 8 0 @ report_descriptor)) = UHID_EVENT_SIZE"
    using length_report_descriptor by (simp add: padded_def ascii_bytes_def DATA_LEN_def)
qed simp

end
