(* ===== verification/Proxy.thy ===== *)
theory Proxy
  imports Uhid
begin

text \<open>
  Wheel discovery and the poll loop of \<open>logi-ffb/src/proxy.rs\<close>: input flows from the real
  wheel to the virtual device, force feedback from the virtual device to the sink worker
  over a channel, and every report request of the kernel is answered. The file system and
  the environment are parameters. The poll loop and the worker thread interleave in the
  step relation \<open>sys_step\<close>.
\<close>

section \<open>Discovery\<close>

record fs =
  read_to_string :: "string \<Rightarrow> string option"
  read_dir :: "string \<Rightarrow> errno + string list"
  path_exists :: "string \<Rightarrow> bool"
  env_var :: "string \<Rightarrow> string option"
  access_rw :: "string \<Rightarrow> bool"

abbreviation SYSFS_INPUT :: string where "SYSFS_INPUT \<equiv> ''/sys/class/input''"
abbreviation SYSFS_HID_DEVICES :: string where "SYSFS_HID_DEVICES \<equiv> ''/sys/bus/hid/devices''"
abbreviation HIDRAW_PROBE_ATTEMPTS :: nat where "HIDRAW_PROBE_ATTEMPTS \<equiv> 5"

record WheelPaths =
  evdev_path :: string
  wheel_vendor :: u16
  wheel_product :: u16
  wheel_name :: string

definition is_wheel :: "string \<Rightarrow> bool" where
  "is_wheel nm =
     (let upper = to_upper nm;
          looks_like_wheel = contains_sub upper ''RS50'' \<or> contains_sub upper ''PRO RACING WHEEL'' \<or>
            contains_sub upper ''G PRO'';
          excluded = contains_sub upper ''CONSUMER CONTROL'' \<or> contains_sub upper ''KEYBOARD'' \<or>
            contains_sub upper ''MOUSE''
      in looks_like_wheel \<and> \<not> excluded)"

definition read_hex_u16 :: "fs \<Rightarrow> string \<Rightarrow> u16 option" where
  "read_hex_u16 F path = do {
     raw \<leftarrow> read_to_string F path;
     let trimmed = trim_start_matches ''0X'' (trim_start_matches ''0x'' (trim raw));
     map_option of_nat (parse_hex_unsigned 65535 trimmed) }"

definition event_index :: "string \<Rightarrow> nat" where
  "event_index file_name =
     (case parse_unsigned 4294967295 (trim_start_matches ''event'' file_name) of
        Some n \<Rightarrow> n | None \<Rightarrow> 4294967295)"

definition wheel_paths_for :: "fs \<Rightarrow> string \<Rightarrow> string \<Rightarrow> WheelPaths" where
  "wheel_paths_for F event_name device_dir =
     \<lparr>evdev_path = ''/dev/input/'' @ event_name,
      wheel_vendor = (case read_hex_u16 F (path_join device_dir ''id/vendor'') of Some v \<Rightarrow> v | None \<Rightarrow> VENDOR),
      wheel_product = (case read_hex_u16 F (path_join device_dir ''id/product'') of Some p \<Rightarrow> p | None \<Rightarrow> PRODUCT),
      wheel_name = (case read_to_string F (path_join device_dir ''name'') of Some s \<Rightarrow> trim s | None \<Rightarrow> [])\<rparr>"

text \<open>\<open>rsplit('/').next()\<close>: the part after the last slash.\<close>

definition after_last_slash :: "string \<Rightarrow> string" where
  "after_last_slash s = last (split_char (CHR ''/'') s)"

definition wheel_candidate :: "fs \<Rightarrow> string \<Rightarrow> bool" where
  "wheel_candidate F event_name =
     (let device_dir = path_join (path_join SYSFS_INPUT event_name) ''device''
      in case read_to_string F (path_join device_dir ''name'') of
           None \<Rightarrow> False
         | Some s \<Rightarrow> is_wheel (trim s) \<and>
             (let ff = trim (case read_to_string F (path_join device_dir ''capabilities/ff'') of
                        Some t \<Rightarrow> t | None \<Rightarrow> [])
              in ff \<noteq> [] \<and> ff \<noteq> ''0''))"

fun first_wheel :: "fs \<Rightarrow> string list \<Rightarrow> ffb_error + WheelPaths" where
  "first_wheel F [] = Inl WheelNotFound"
| "first_wheel F (event_name # es) =
     (if wheel_candidate F event_name
      then Inr (wheel_paths_for F event_name (path_join (path_join SYSFS_INPUT event_name) ''device''))
      else first_wheel F es)"

definition discover_wheel :: "fs \<Rightarrow> ffb_error + WheelPaths" where
  "discover_wheel F =
     (case env_var F ''LOGI_FFB_DEVICE'' of
        Some forced \<Rightarrow>
          (let event_name = after_last_slash forced;
               device_dir = path_join (path_join SYSFS_INPUT event_name) ''device''
           in if path_exists F device_dir then Inr (wheel_paths_for F event_name device_dir)
              else Inl WheelNotFound)
      | None \<Rightarrow>
          (case read_dir F SYSFS_INPUT of
             Inl e \<Rightarrow> Inl (Io ''read /sys/class/input'' e)
           | Inr names \<Rightarrow>
               first_wheel F (sort_key event_index (filter (\<lambda>n. starts_with n ''event'') names))))"

section \<open>The hidraw probe\<close>

definition hidraw_wanted :: string where
  "hidraw_wanted = to_upper (hex4 VENDOR) @ '':'' @ to_upper (hex4 VIRTUAL_PRODUCT)"

fun hidraw_in :: "fs \<Rightarrow> string list \<Rightarrow> string option" where
  "hidraw_in F [] = None"
| "hidraw_in F (dev # ds) =
     (if \<not> contains_sub (to_upper dev) hidraw_wanted then hidraw_in F ds
      else case read_dir F (path_join (path_join SYSFS_HID_DEVICES dev) ''hidraw'') of
             Inl _ \<Rightarrow> hidraw_in F ds
           | Inr nodes \<Rightarrow>
               (case find (\<lambda>n. starts_with n ''hidraw'') nodes of
                  Some n \<Rightarrow> Some n | None \<Rightarrow> hidraw_in F ds))"

definition find_virtual_wheel_hidraw_node :: "fs \<Rightarrow> string option" where
  "find_virtual_wheel_hidraw_node F =
     (case read_dir F SYSFS_HID_DEVICES of Inl _ \<Rightarrow> None | Inr devices \<Rightarrow> hidraw_in F devices)"

text \<open>The retry loop sees the file system afresh at each attempt. The result is the device
  path warned about, if any, and the number of sleeps.\<close>

fun probe_attempts :: "(nat \<Rightarrow> fs) \<Rightarrow> nat \<Rightarrow> nat \<Rightarrow> string option \<times> nat" where
  "probe_attempts F attempt 0 = (None, 0)"
| "probe_attempts F attempt (Suc left) =
     (case find_virtual_wheel_hidraw_node (F attempt) of
        Some node \<Rightarrow> ((if access_rw (F attempt) (''/dev/'' @ node) then None else Some (''/dev/'' @ node)), 0)
      | None \<Rightarrow>
          (let (w, sleeps) = probe_attempts F (attempt + 1) left
           in (w, if attempt + 1 < HIDRAW_PROBE_ATTEMPTS then sleeps + 1 else sleeps)))"

definition warn_if_virtual_wheel_hidraw_inaccessible :: "(nat \<Rightarrow> fs) \<Rightarrow> string option \<times> nat" where
  "warn_if_virtual_wheel_hidraw_inaccessible F = probe_attempts F 0 HIDRAW_PROBE_ATTEMPTS"

section \<open>The poll loop\<close>

record Proxy =
  next_block :: u8
  last_created_block :: u8
  sink_tx :: bool

definition new_proxy :: Proxy where
  "new_proxy = \<lparr>next_block = 1, last_created_block = 0, sink_tx = True\<rparr>"

definition assign_block :: "u8 \<Rightarrow> u8 \<times> u8" where
  "assign_block next = (next, next + 1)"

text \<open>\<open>dispatch\<close> returns the proxy and what it put on the channel.\<close>

definition dispatch :: "Proxy \<Rightarrow> EffectOp \<Rightarrow> Proxy \<times> EffectOp list" where
  "dispatch p op =
     (let p' = (if op = DeviceControl Reset then p\<lparr>next_block := 1, last_created_block := 0\<rparr> else p)
      in (p', if sink_tx p' then [op] else []))"

definition dispatch_decoded :: "Proxy \<Rightarrow> u8 list \<Rightarrow> Proxy \<times> EffectOp list" where
  "dispatch_decoded p bytes = (case decode bytes of Some op \<Rightarrow> dispatch p op | None \<Rightarrow> (p, []))"

definition create_effect :: "Proxy \<Rightarrow> u8 list \<Rightarrow> Proxy \<times> EffectOp list" where
  "create_effect p body =
     (case Option.bind (get_at body 1) effect_kind_from_type_byte of
        Some kind \<Rightarrow>
          (let (block, nxt) = assign_block (next_block p)
           in dispatch (p\<lparr>next_block := nxt, last_created_block := block\<rparr>) (Create block kind))
      | None \<Rightarrow> (p, []))"

text \<open>The body of \<open>match self.device.read_event()\<close>: an \<open>Inl\<close> result is \<open>break Err(e)\<close>.\<close>

type_synonym 'd handled = "((ffb_error + unit) \<times> Proxy \<times> 'd \<times> EffectOp list) option"

fun handle_event :: "'d uhid_node \<Rightarrow> Proxy \<Rightarrow> 'd \<Rightarrow> Event \<Rightarrow> 'd handled" where
  "handle_event U p d (Output bytes) =
     (let (p', ops) = dispatch_decoded p bytes in Some (Inr (), p', d, ops))"
| "handle_event U p d (SetReport rid rnum rtype body) =
     (let (p', ops) = (if rnum = 0x54 then create_effect p body else dispatch_decoded p body)
      in do { (d', r) \<leftarrow> send_set_report_reply U d rid 0; Some (r, p', d', ops) })"
| "handle_event U p d (GetReport rid rnum rtype) =
     (let reply = (if rnum = 0x56 then pid_block_load_reply (last_created_block p)
                   else if rnum = 0x57 then pid_pool_reply else [rnum])
      in do { (d', r) \<leftarrow> send_get_report_reply U d rid 0 reply; Some (r, p, d', []) })"
| "handle_event U p d Open = Some (Inr (), p, d, [])"
| "handle_event U p d Close = Some (Inr (), p, d, [])"
| "handle_event U p d Start = Some (Inr (), p, d, [])"
| "handle_event U p d (Other t) = Some (Inr (), p, d, [])"

text \<open>One pass of the loop. The environment supplies the stop flag, what \<open>poll\<close> returned and
  what a \<open>read\<close> of the wheel's node would deliver.\<close>

record revents =
  pollin :: bool
  pollhup :: bool
  pollerr :: bool

record tick =
  stop_flag :: bool
  polled :: "errno + revents \<times> revents"
  source_read :: read_outcome

record 'd loop_state =
  px :: Proxy
  rep :: InputReport
  dev :: 'd

datatype flow = Again | Leave "ffb_error + unit"

type_synonym 'd iter_result = "(flow \<times> 'd loop_state \<times> EffectOp list) option"

definition source_pass :: "'d uhid_node \<Rightarrow> 'd loop_state \<Rightarrow> revents \<Rightarrow> read_outcome \<Rightarrow> (flow \<times> 'd loop_state) option" where
  "source_pass U l rv rd =
     (if \<not> pollin rv then Some (Again, l)
      else do {
        r \<leftarrow> read_into rd (rep l);
        case r of
          Inl e \<Rightarrow> Some (Leave (Inl e), l)
        | Inr (complete, report) \<Rightarrow>
            if complete
            then do {
              (d', w) \<leftarrow> send_input U (dev l) (to_bytes report);
              Some (case w of Inl e \<Rightarrow> Leave (Inl e) | Inr _ \<Rightarrow> Again, l\<lparr>rep := report, dev := d'\<rparr>) }
            else Some (Again, l\<lparr>rep := report\<rparr>) })"

definition device_pass :: "'d uhid_node \<Rightarrow> 'd loop_state \<Rightarrow> revents \<Rightarrow> 'd iter_result" where
  "device_pass U l rv =
     (if \<not> pollin rv then Some (Again, l, [])
      else do {
        (d', r) \<leftarrow> read_event U (dev l);
        case r of
          Inl e \<Rightarrow> Some (Leave (Inl e), l\<lparr>dev := d'\<rparr>, [])
        | Inr ev \<Rightarrow> do {
            (h, p', d'', ops) \<leftarrow> handle_event U (px l) d' ev;
            Some (case h of Inl e \<Rightarrow> Leave (Inl e) | Inr _ \<Rightarrow> Again, l\<lparr>px := p', dev := d''\<rparr>, ops) } })"

definition poll_iter :: "'d uhid_node \<Rightarrow> 'd loop_state \<Rightarrow> tick \<Rightarrow> 'd iter_result" where
  "poll_iter U l t =
     (if stop_flag t then Some (Leave (Inr ()), l, [])
      else case polled t of
        Inl e \<Rightarrow> Some (if e = EINTR then Again else Leave (Inl (Io ''poll'' e)), l, [])
      | Inr (src, dv) \<Rightarrow>
          if pollhup src \<or> pollerr src then Some (Leave (Inr ()), l, [])
          else do {
            (f, l') \<leftarrow> source_pass U l src (source_read t);
            if f = Again then device_pass U l' dv else Some (f, l', []) })"

section \<open>The sink worker\<close>

text \<open>\<open>run_sink_worker\<close> over a closed channel that still holds \<open>ops\<close>: the errors it logs, and
  the sink and kernel after \<open>Sink::shutdown\<close>.\<close>

fun run_sink_worker :: "'k ff_node \<Rightarrow> Sink \<Rightarrow> 'k \<Rightarrow> EffectOp list \<Rightarrow> (ffb_error list \<times> Sink \<times> 'k) option" where
  "run_sink_worker N s k [] = Some ([], sink_shutdown N s k)"
| "run_sink_worker N s k (op # ops) = do {
     (r, s', k') \<leftarrow> sink_apply N s k op;
     (notes, s'', k'') \<leftarrow> run_sink_worker N s' k' ops;
     Some ((case r of Inl e \<Rightarrow> e # notes | Inr _ \<Rightarrow> notes), s'', k'') }"

section \<open>The two threads\<close>

datatype 'k worker = Working Sink 'k | Exited Sink 'k

datatype phase = Polling | Joining "ffb_error + unit" | Returned "ffb_error + unit"

record ('d, 'k) system =
  lp :: "'d loop_state"
  chan :: "EffectOp list"
  wk :: "'k worker"
  ph :: phase

text \<open>A step is labelled with what the poll loop puts on the channel.\<close>

inductive sys_step :: "'d uhid_node \<Rightarrow> 'k ff_node \<Rightarrow> ('d, 'k) system \<Rightarrow> EffectOp list \<Rightarrow> ('d, 'k) system \<Rightarrow> bool"
  for U N where
  iter: "ph s = Polling \<Longrightarrow> poll_iter U (lp s) t = Some (Again, l, ops) \<Longrightarrow>
    sys_step U N s ops (s\<lparr>lp := l, chan := chan s @ ops\<rparr>)"
| leave: "ph s = Polling \<Longrightarrow> poll_iter U (lp s) t = Some (Leave r, l, ops) \<Longrightarrow>
    sys_step U N s ops
      (s\<lparr>lp := l\<lparr>px := (px l)\<lparr>sink_tx := False\<rparr>\<rparr>, chan := chan s @ ops, ph := Joining r\<rparr>)"
| apply_op: "wk s = Working sk k \<Longrightarrow> chan s = op # rest \<Longrightarrow> sink_apply N sk k op = Some (r, sk', k') \<Longrightarrow>
    sys_step U N s [] (s\<lparr>chan := rest, wk := Working sk' k'\<rparr>)"
| finish: "wk s = Working sk k \<Longrightarrow> chan s = [] \<Longrightarrow> \<not> sink_tx (px (lp s)) \<Longrightarrow> sink_shutdown N sk k = (sk', k') \<Longrightarrow>
    sys_step U N s [] (s\<lparr>wk := Exited sk' k'\<rparr>)"
| join: "ph s = Joining r \<Longrightarrow> wk s = Exited sk k \<Longrightarrow> sys_step U N s [] (s\<lparr>ph := Returned r\<rparr>)"

inductive sys_run :: "'d uhid_node \<Rightarrow> 'k ff_node \<Rightarrow> ('d, 'k) system \<Rightarrow> EffectOp list \<Rightarrow> ('d, 'k) system \<Rightarrow> bool"
  for U N where
  run_nil: "sys_run U N s [] s"
| run_snoc: "sys_run U N s ops s' \<Longrightarrow> sys_step U N s' ops' s'' \<Longrightarrow> sys_run U N s (ops @ ops') s''"

text \<open>\<open>Proxy::new\<close> after the device, source and sink came up, with the loop's fresh report.\<close>

definition sys_init :: "'d \<Rightarrow> Sink \<Rightarrow> 'k \<Rightarrow> ('d, 'k) system" where
  "sys_init d s k =
     \<lparr>lp = \<lparr>px = new_proxy, rep = default_report, dev = d\<rparr>, chan = [], wk = Working s k, ph = Polling\<rparr>"

text \<open>\<open>Proxy::new\<close>: the device, the source, the sink and the worker thread, in that order. A
  failure after the device came up drops it, which destroys the virtual wheel; the error
  carries the state of \<open>/dev/uhid\<close> after that.\<close>

definition proxy_new ::
  "'d uhid_node \<Rightarrow> 'k ff_node \<Rightarrow> WheelPaths \<Rightarrow> errno + 'd \<Rightarrow> errno + unit \<Rightarrow> errno + 'k \<Rightarrow> errno + unit \<Rightarrow>
   (ffb_error \<times> 'd option + ('d, 'k) system) option" where
  "proxy_new U N paths uhid_fd source_fd sink_fd spawned = do {
     c \<leftarrow> device_create U uhid_fd;
     case c of
       Inl e \<Rightarrow> Some (Inl (e, None))
     | Inr d \<Rightarrow> (case source_fd of
         Inl e \<Rightarrow> do { d' \<leftarrow> device_drop U d; Some (Inl (Io (''open '' @ evdev_path paths) e, Some d')) }
       | Inr _ \<Rightarrow> (case sink_open N (evdev_path paths) sink_fd of
           Inl e \<Rightarrow> do { d' \<leftarrow> device_drop U d; Some (Inl (e, Some d')) }
         | Inr (s, k) \<Rightarrow> (case spawned of
             Inl e \<Rightarrow> do { d' \<leftarrow> device_drop U d; Some (Inl (Io ''spawn sink worker'' e, Some d')) }
           | Inr _ \<Rightarrow> Some (Inr (sys_init d s k))))) }"


section \<open>Requests are answered\<close>

text \<open>The reply the kernel waits for, as a record on \<open>/dev/uhid\<close>.\<close>

fun expected_reply :: "Proxy \<Rightarrow> Event \<Rightarrow> u8 list option" where
  "expected_reply p (SetReport rid rnum rtype body) =
     Some (padded (to_le_bytes UHID_SET_REPORT_REPLY @ to_le_bytes rid @ to_le_bytes (0 :: u16)))"
| "expected_reply p (GetReport rid rnum rtype) =
     (let reply = (if rnum = 0x56 then pid_block_load_reply (last_created_block p)
                   else if rnum = 0x57 then pid_pool_reply else [rnum])
      in Some (padded (to_le_bytes UHID_GET_REPORT_REPLY @ to_le_bytes rid @ to_le_bytes (0 :: u16) @
           to_le_bytes (of_nat (length reply) :: u16) @ reply)))"
| "expected_reply p _ = None"

lemma length_pid_replies [simp]:
  "length (pid_block_load_reply b) = 5" "length pid_pool_reply = 5"
  by (simp_all add: pid_block_load_reply_def pid_pool_reply_def Let_def)

lemma handle_event_device:
  "\<exists>r p' ops. handle_event U p d ev =
     Some (r, p', (case expected_reply p ev of None \<Rightarrow> d | Some w \<Rightarrow> fst (uhid_write U d w)), ops) \<and>
     (r = Inr () \<longleftrightarrow> (case expected_reply p ev of None \<Rightarrow> True | Some w \<Rightarrow> \<exists>n. snd (uhid_write U d w) = Inr n))"
proof (cases ev)
  case (SetReport rid rnum rtype body)
  then show ?thesis
    by (auto simp: send_set_report_reply_def encode_set_report_reply_layout Let_def split: prod.splits sum.splits)
next
  case (GetReport rid rnum rtype)
  then show ?thesis
    by (auto simp: send_get_report_reply_def encode_get_report_reply_layout DATA_LEN_def Let_def split: sum.splits)
qed (auto split: prod.splits)

section \<open>Block numbers\<close>

text \<open>The number of blocks handed out since the last reset, from what went over the channel.\<close>

fun creates_since_reset :: "nat \<Rightarrow> EffectOp list \<Rightarrow> nat" where
  "creates_since_reset n [] = n"
| "creates_since_reset n (Create b k # ops) = creates_since_reset (Suc n) ops"
| "creates_since_reset n (DeviceControl Reset # ops) = creates_since_reset 0 ops"
| "creates_since_reset n (_ # ops) = creates_since_reset n ops"

text \<open>Each \<open>Create\<close> carries the number that follows its predecessors'.\<close>

fun numbered :: "nat \<Rightarrow> EffectOp list \<Rightarrow> bool" where
  "numbered n [] = True"
| "numbered n (Create b k # ops) = (b = of_nat (Suc n) \<and> numbered (Suc n) ops)"
| "numbered n (DeviceControl Reset # ops) = numbered 0 ops"
| "numbered n (_ # ops) = numbered n ops"

definition blocks_inv :: "Proxy \<Rightarrow> nat \<Rightarrow> bool" where
  "blocks_inv p n \<longleftrightarrow> next_block p = of_nat (Suc n) \<and> last_created_block p = of_nat n"

lemma creates_append:
  "creates_since_reset n (xs @ ys) = creates_since_reset (creates_since_reset n xs) ys"
  by (induction n xs rule: creates_since_reset.induct) auto

lemma numbered_append:
  "numbered n (xs @ ys) \<longleftrightarrow> numbered n xs \<and> numbered (creates_since_reset n xs) ys"
  by (induction n xs rule: numbered.induct) auto

lemma decode_not_Create: "decode r \<noteq> Some (Create b k)"
  using decode_descriptor_agrees [of r "Create b k"] by auto

lemma numbered_other: "(\<forall>b k. op \<noteq> Create b k) \<Longrightarrow> numbered n [op]"
  by (cases "(n, [op])" rule: numbered.cases) auto

lemma creates_other:
  "(\<forall>b k. op \<noteq> Create b k) \<Longrightarrow> creates_since_reset n [op] = (if op = DeviceControl Reset then 0 else n)"
  by (cases "(n, [op])" rule: creates_since_reset.cases) auto

definition blocks_step :: "nat \<Rightarrow> Proxy \<Rightarrow> EffectOp list \<Rightarrow> bool" where
  "blocks_step n p ops \<longleftrightarrow> sink_tx p \<and> numbered n ops \<and> blocks_inv p (creates_since_reset n ops)"

lemma dispatch_decoded_blocks:
  assumes "sink_tx p" "blocks_inv p n" "dispatch_decoded p body = (p', ops)"
  shows "blocks_step n p' ops"
proof (cases "decode body")
  case None
  with assms show ?thesis by (simp add: dispatch_decoded_def blocks_step_def)
next
  case (Some op)
  then have "\<forall>b k. op \<noteq> Create b k" using decode_not_Create by blast
  with assms Some show ?thesis
    by (auto simp: dispatch_decoded_def dispatch_def blocks_step_def blocks_inv_def
        numbered_other creates_other Let_def split: if_splits)
qed

lemma create_effect_blocks:
  assumes "sink_tx p" "blocks_inv p n" "create_effect p body = (p', ops)"
  shows "blocks_step n p' ops"
  using assms
  by (auto simp: create_effect_def assign_block_def dispatch_def blocks_step_def blocks_inv_def Let_def
      split: option.splits)

lemma handle_event_blocks:
  assumes "sink_tx p" "blocks_inv p n" "handle_event U p d ev = Some (r, p', d', ops)"
  shows "blocks_step n p' ops"
proof (cases ev)
  case (Output bytes)
  with assms dispatch_decoded_blocks [OF assms(1,2)] show ?thesis by (auto split: prod.splits)
next
  case (SetReport rid rnum rtype body)
  with assms dispatch_decoded_blocks [OF assms(1,2)] create_effect_blocks [OF assms(1,2)] show ?thesis
    by (auto split: prod.splits if_splits Option.bind_splits)
next
  case (GetReport rid rnum rtype)
  with assms have "p' = p" "ops = []" by (auto split: Option.bind_splits)
  with assms(1,2) show ?thesis by (simp add: blocks_step_def)
qed (use assms in \<open>simp_all add: blocks_step_def\<close>)


section \<open>The loop never panics\<close>

lemma handle_event_total: "\<exists>x. handle_event U p d ev = Some x"
  using handle_event_device [of U p d ev] by blast

lemma source_pass_total: "\<exists>x. source_pass U l rv rd = Some x"
proof (cases "pollin rv")
  case True
  obtain r where r: "read_into rd (rep l) = Some r" using read_into_no_panic [of rd "rep l"] by blast
  show ?thesis
  proof (cases r)
    case (Inl e)
    with True r show ?thesis by (simp add: source_pass_def)
  next
    case (Inr c)
    obtain complete report where c: "c = (complete, report)" by (cases c)
    obtain d' w where "send_input U (dev l) (to_bytes report) = Some (d', w)"
      using send_input_report [of U "dev l" report] by auto
    with True r Inr c show ?thesis by (simp add: source_pass_def)
  qed
qed (simp add: source_pass_def)

lemma device_pass_total: "\<exists>x. device_pass U l rv = Some x"
proof (cases "pollin rv")
  case True
  obtain d' r where r: "read_event U (dev l) = Some (d', r)" using read_event_total [of U "dev l"] by auto
  show ?thesis
  proof (cases r)
    case (Inl e)
    with True r show ?thesis by (simp add: device_pass_def)
  next
    case (Inr ev)
    obtain h p' d'' ops where "handle_event U (px l) d' ev = Some (h, p', d'', ops)"
      using handle_event_total [of U "px l" d' ev] by auto
    with True r Inr show ?thesis by (simp add: device_pass_def)
  qed
qed (simp add: device_pass_def)

lemma poll_iter_total: "\<exists>x. poll_iter U l t = Some x"
proof (cases "stop_flag t")
  case False
  show ?thesis
  proof (cases "polled t")
    case (Inr rvs)
    obtain src dv where rvs: "rvs = (src, dv)" by (cases rvs)
    obtain f l' where "source_pass U l src (source_read t) = Some (f, l')"
      using source_pass_total [of U l src "source_read t"] by auto
    with Inr False rvs show ?thesis
      using device_pass_total [of U l' dv] by (auto simp: poll_iter_def)
  qed (auto simp: poll_iter_def)
qed (simp add: poll_iter_def)

section \<open>What a pass sends\<close>

lemma source_pass_px: "source_pass U l rv rd = Some (f, l') \<Longrightarrow> px l' = px l"
  by (auto simp: source_pass_def split: if_splits Option.bind_splits sum.splits prod.splits)

lemma device_pass_blocks:
  assumes "device_pass U l rv = Some (f, l', ops)" "sink_tx (px l)" "blocks_inv (px l) n"
  shows "blocks_step n (px l') ops"
proof (cases "pollin rv")
  case True
  obtain d' r where r: "read_event U (dev l) = Some (d', r)" using read_event_total [of U "dev l"] by auto
  show ?thesis
  proof (cases r)
    case (Inr ev)
    obtain h p' d'' ops' where h: "handle_event U (px l) d' ev = Some (h, p', d'', ops')"
      using handle_event_total [of U "px l" d' ev] by auto
    with True r Inr assms(1) have "px l' = p'" "ops = ops'" by (auto simp: device_pass_def)
    with handle_event_blocks [OF assms(2,3) h] show ?thesis by simp
  qed (use True r assms in \<open>auto simp: device_pass_def blocks_step_def\<close>)
qed (use assms in \<open>auto simp: device_pass_def blocks_step_def\<close>)

lemma poll_iter_blocks:
  assumes run: "poll_iter U l t = Some (f, l', ops)" and inv: "sink_tx (px l)" "blocks_inv (px l) n"
  shows "blocks_step n (px l') ops"
proof -
  have idle: ?thesis if "px l' = px l" "ops = []" using that inv by (simp add: blocks_step_def)
  show ?thesis
  proof (cases "stop_flag t \<or> (\<exists>e. polled t = Inl e)")
    case True
    with run have "px l' = px l" "ops = []" by (auto simp: poll_iter_def split: if_splits)
    then show ?thesis by (rule idle)
  next
    case False
    then obtain src dv where rv: "polled t = Inr (src, dv)" by (cases "polled t") auto
    obtain g l1 where src: "source_pass U l src (source_read t) = Some (g, l1)"
      using source_pass_total [of U l src "source_read t"] by auto
    then have px: "px l1 = px l" by (rule source_pass_px)
    show ?thesis
    proof (cases "\<not> pollhup src \<and> \<not> pollerr src \<and> g = Again")
      case True
      with run False rv src have "device_pass U l1 dv = Some (f, l', ops)" by (simp add: poll_iter_def)
      with inv px show ?thesis using device_pass_blocks [of U l1 dv f l' ops n] by simp
    next
      case off: False
      with run False rv src px have "px l' = px l" "ops = []" by (auto simp: poll_iter_def split: if_splits)
      then show ?thesis by (rule idle)
    qed
  qed
qed

section \<open>Runs of the two threads\<close>

inductive_cases sys_stepE: "sys_step U N s ops s'"

text \<open>The worker has consumed a prefix of what was sent; the rest is on the channel.\<close>

definition worker_done :: "'k ff_node \<Rightarrow> Sink \<times> 'k \<Rightarrow> EffectOp list \<Rightarrow> 'k worker \<Rightarrow> EffectOp list \<Rightarrow> bool" where
  "worker_done N sk0 ops w queue \<longleftrightarrow>
     (case w of
        Working s k \<Rightarrow> (\<exists>before rs. ops = before @ queue \<and> run_ops (sink_do N) sk0 before = (rs, s, k))
      | Exited s k \<Rightarrow> queue = [] \<and> (\<exists>rs s1 k1. run_ops (sink_do N) sk0 ops = (rs, s1, k1) \<and>
          sink_shutdown N s1 k1 = (s, k)))"

definition sys_inv :: "'k ff_node \<Rightarrow> Sink \<times> 'k \<Rightarrow> EffectOp list \<Rightarrow> ('d, 'k) system \<Rightarrow> bool" where
  "sys_inv N sk0 ops s \<longleftrightarrow>
     worker_done N sk0 ops (wk s) (chan s) \<and>
     (ph s = Polling \<longleftrightarrow> sink_tx (px (lp s))) \<and>
     ((\<exists>sk k. wk s = Exited sk k) \<longrightarrow> ph s \<noteq> Polling) \<and>
     ((\<exists>r. ph s = Returned r) \<longrightarrow> (\<exists>sk k. wk s = Exited sk k)) \<and>
     numbered 0 ops \<and> blocks_inv (px (lp s)) (creates_since_reset 0 ops)"

lemma worker_done_send:
  assumes "worker_done N sk0 ops w queue" "\<not> (\<exists>sk k. w = Exited sk k)"
  shows "worker_done N sk0 (ops @ new) w (queue @ new)"
  using assms by (cases w) (auto simp: worker_done_def)

lemma worker_done_apply:
  assumes "worker_done N sk0 ops (Working sk k) (op # rest)" "sink_apply N sk k op = Some (r, sk', k')"
  shows "worker_done N sk0 ops (Working sk' k') rest"
proof -
  from assms(1) obtain before rs where *: "ops = before @ op # rest" "run_ops (sink_do N) sk0 before = (rs, sk, k)"
    by (auto simp: worker_done_def)
  have "sink_do N (sk, k) op = (r, sk', k')" using assms(2) sink_do_apply [of N sk k op] by simp
  with * have "run_ops (sink_do N) sk0 (before @ [op]) = (rs @ [r], sk', k')" by (simp add: run_ops_append)
  with *(1) show ?thesis by (auto simp: worker_done_def)
qed

lemma blocks_inv_close [simp]: "blocks_inv (p\<lparr>sink_tx := x\<rparr>) n = blocks_inv p n"
  by (simp add: blocks_inv_def)

lemma sys_step_inv:
  assumes "sys_step U N s new s'" "sys_inv N sk0 ops s"
  shows "sys_inv N sk0 (ops @ new) s'"
  using assms(1)
proof cases
  case (iter t l)
  then have "sink_tx (px (lp s))" "blocks_inv (px (lp s)) (creates_since_reset 0 ops)"
    using assms(2) by (auto simp: sys_inv_def)
  from poll_iter_blocks [OF iter(3) this] iter assms(2) show ?thesis
    by (auto simp: sys_inv_def blocks_step_def numbered_append creates_append worker_done_send)
next
  case (leave t r l)
  then have "sink_tx (px (lp s))" "blocks_inv (px (lp s)) (creates_since_reset 0 ops)"
    using assms(2) by (auto simp: sys_inv_def)
  from poll_iter_blocks [OF leave(3) this] leave assms(2) show ?thesis
    by (auto simp: sys_inv_def blocks_step_def numbered_append creates_append worker_done_send)
next
  case (apply_op sk k op rest r sk' k')
  with assms(2) show ?thesis by (auto simp: sys_inv_def intro: worker_done_apply)
next
  case (finish sk k sk' k')
  with assms(2) show ?thesis by (auto simp: sys_inv_def worker_done_def)
next
  case (join r sk k)
  with assms(2) show ?thesis by (auto simp: sys_inv_def)
qed

lemma sys_run_inv:
  assumes "sys_run U N (sys_init d s k) ops s'"
  shows "sys_inv N (s, k) ops s'"
  using assms
proof (induction "sys_init d s k" ops s' rule: sys_run.induct)
  case run_nil
  then show ?case by (simp add: sys_inv_def sys_init_def worker_done_def new_proxy_def blocks_inv_def)
next
  case (run_snoc ops s' ops' s'')
  then show ?case using sys_step_inv by blast
qed

lemma run_ops_empty_prefix: "worker_done N sk0 ops (Exited s k) queue \<Longrightarrow>
   (s, k) = (let (rs, sk) = run_ops (sink_do N) sk0 ops in sink_shutdown N (fst sk) (snd sk))"
  by (auto simp: worker_done_def)

text \<open>The worker's own loop computes the same.\<close>

lemma run_sink_worker_eq:
  "run_sink_worker N s k ops =
     (let (rs, s', k') = run_ops (sink_do N) (s, k) ops
      in Some (List.map_filter (case_sum Some (\<lambda>_. None)) rs, sink_shutdown N s' k'))"
proof (induction ops arbitrary: s k)
  case Nil
  then show ?case by (simp add: map_filter_def)
next
  case (Cons op ops)
  obtain r s1 k1 where "sink_do N (s, k) op = (r, s1, k1)" by (cases "sink_do N (s, k) op") auto
  then show ?case
    using sink_do_apply [of N s k op] Cons.IH [of s1 k1]
    by (cases r) (auto simp: map_filter_def split: prod.splits)
qed

section \<open>The shutdown ends\<close>

definition shutdown_left :: "('d, 'k) system \<Rightarrow> nat" where
  "shutdown_left s = length (chan s) +
     (case wk s of Working _ _ \<Rightarrow> 1 | Exited _ _ \<Rightarrow> 0) + (case ph s of Returned _ \<Rightarrow> 0 | _ \<Rightarrow> 1)"

lemma joining_step_decreases:
  assumes "sys_step U N s ops s'" "ph s \<noteq> Polling"
  shows "ph s' \<noteq> Polling \<and> shutdown_left s' < shutdown_left s"
  using assms(1) by cases (use assms(2) in \<open>auto simp: shutdown_left_def split: phase.splits\<close>)

lemma joining_not_stuck:
  assumes "sys_inv N sk0 ops s" "ph s = Joining r"
  shows "\<exists>s'. sys_step U N s [] s'"
proof (cases "wk s")
  case (Exited sk k)
  with assms(2) show ?thesis by (blast intro: sys_step.join)
next
  case (Working sk k)
  show ?thesis
  proof (cases "chan s")
    case Nil
    moreover have "\<not> sink_tx (px (lp s))" using assms by (auto simp: sys_inv_def)
    ultimately show ?thesis using Working sys_step.finish [OF Working] by (metis surj_pair)
  next
    case (Cons op rest)
    obtain r sk' k' where "sink_apply N sk k op = Some (r, sk', k')"
      using sink_do_apply [of N sk k op] by (metis prod_cases3)
    with Working Cons show ?thesis by (blast intro: sys_step.apply_op)
  qed
qed

section \<open>Discovery\<close>

lemma first_wheel_find:
  "first_wheel F es =
     (case find (wheel_candidate F) es of
        None \<Rightarrow> Inl WheelNotFound
      | Some e \<Rightarrow> Inr (wheel_paths_for F e (path_join (path_join SYSFS_INPUT e) ''device'')))"
  by (induction es) auto

lemma find_member: "find P xs = Some x \<Longrightarrow> x \<in> set xs \<and> P x"
  by (induction xs) (auto split: if_splits)

lemma find_sorted_least:
  assumes "find P xs = Some x" "sorted (map f xs)" "y \<in> set xs" "P y"
  shows "f x \<le> f y"
  using assms by (induction xs) (auto split: if_splits)

lemma virtual_name_not_wheel: "\<not> is_wheel VIRTUAL_NAME"
  by code_simp

lemma sys_run_trans: "sys_run U N s1 b s2 \<Longrightarrow> sys_run U N s a s1 \<Longrightarrow> sys_run U N s (a @ b) s2"
  by (induction rule: sys_run.induct) (auto simp flip: append_assoc intro: sys_run.run_snoc)

lemma joining_step_phase: "sys_step U N s ops s' \<Longrightarrow> ph s = Joining r \<Longrightarrow> ph s' = Joining r \<or> ph s' = Returned r"
  by (erule sys_step.cases) auto

lemma joining_step_silent: "sys_step U N s ops s' \<Longrightarrow> ph s = Joining r \<Longrightarrow> ops = []"
  by (erule sys_step.cases) auto

lemma joining_returns:
  "sys_inv N sk0 ops s \<Longrightarrow> ph s = Joining r \<Longrightarrow> \<exists>s'. sys_run U N s [] s' \<and> ph s' = Returned r"
proof (induction "shutdown_left s" arbitrary: s rule: less_induct)
  case less
  obtain s1 where step: "sys_step U N s [] s1" using joining_not_stuck [OF less.prems] by blast
  then have one: "sys_run U N s [] s1" using sys_run.run_snoc [OF sys_run.run_nil step] by simp
  have inv: "sys_inv N sk0 ops s1" using sys_step_inv [OF step less.prems(1)] by simp
  from joining_step_phase [OF step less.prems(2)] show ?case
  proof
    assume "ph s1 = Joining r"
    moreover have "shutdown_left s1 < shutdown_left s"
      using joining_step_decreases [OF step] less.prems(2) by simp
    ultimately obtain s' where "sys_run U N s1 [] s'" "ph s' = Returned r" using less.hyps inv by blast
    with sys_run_trans [OF _ one] show ?thesis by fastforce
  qed (use one in blast)
qed

section \<open>Properties\<close>

text \<open>A device file that accepts every write and logs it, and always delivers the same record.\<close>

definition log_node :: "u8 list \<Rightarrow> u8 list list uhid_node" where
  "log_node bytes = \<lparr>uhid_write = (\<lambda>d w. (d @ [w], Inr (length w))), uhid_read = (\<lambda>d. (d, Inr bytes))\<rparr>"

definition idle_tick :: tick where
  "idle_tick = \<lparr>stop_flag = True, polled = Inl EINTR, source_read = ReadAgain\<rparr>"

lemma stop_iter: "stop_flag t \<Longrightarrow> poll_iter U l t = Some (Leave (Inr ()), l, [])"
  by (simp add: poll_iter_def)

text \<open>A host that creates a constant effect, then a stop: the loop leaves after one Create.\<close>

abbreviation create_request :: "u8 list" where "create_request \<equiv> kernel_set_report 7 0x54 0 [0x54, 1, 0]"

definition busy_tick :: tick where
  "busy_tick = \<lparr>stop_flag = False,
     polled = Inr (\<lparr>pollin = False, pollhup = False, pollerr = False\<rparr>, \<lparr>pollin = True, pollhup = False, pollerr = False\<rparr>),
     source_read = ReadAgain\<rparr>"

lemma length_create_request: "length create_request = 4376"
  by (simp add: kernel_set_report_def padded_def)

lemma read_create_request:
  "read_event (log_node create_request) d = Some (d, Inr (SetReport 7 0x54 0 [0x54, 1, 0]))"
  using parse_kernel_set_report [of "[0x54, 1, 0]" 7 "0x54" 0] length_create_request
  by (simp add: read_event_def log_node_def DATA_LEN_def)

lemma busy_iter:
  "\<exists>l. poll_iter (log_node create_request) (lp (sys_init d sk k)) busy_tick = Some (Again, l, [Create 1 Constant])"
  by (simp add: poll_iter_def busy_tick_def source_pass_def device_pass_def sys_init_def read_create_request
      create_effect_def get_at_def effect_kind_from_type_byte_def assign_block_def new_proxy_def dispatch_def
      send_set_report_reply_def encode_set_report_reply_layout, simp add: log_node_def)

lemma demo_run:
  "\<exists>s. sys_run (log_node create_request) N (sys_init d sk k) [Create 1 Constant] s \<and> ph s = Joining (Inr ())"
proof -
  let ?U = "log_node create_request"
  let ?s0 = "sys_init d sk k"
  obtain l where it: "poll_iter ?U (lp ?s0) busy_tick = Some (Again, l, [Create 1 Constant])"
    using busy_iter [of d sk k] by blast
  let ?s1 = "?s0\<lparr>lp := l, chan := chan ?s0 @ [Create 1 Constant]\<rparr>"
  have p0: "ph ?s0 = Polling" "ph ?s1 = Polling" by (simp_all add: sys_init_def)
  have "sys_run ?U N ?s0 [Create 1 Constant] ?s1"
    using sys_run.run_snoc [OF sys_run.run_nil sys_step.iter [OF p0(1) it]] by simp
  moreover have "sys_step ?U N ?s1 [] (?s1\<lparr>lp := (lp ?s1)\<lparr>px := (px (lp ?s1))\<lparr>sink_tx := False\<rparr>\<rparr>,
      chan := chan ?s1 @ [], ph := Joining (Inr ())\<rparr>)"
    by (rule sys_step.leave [OF p0(2), where t = idle_tick]) (simp add: stop_iter idle_tick_def)
  ultimately show ?thesis using sys_run.run_snoc by fastforce
qed

text \<open>C34. The proxy answers every request of the kernel exactly once, with a record that echoes the
  request's id: the assigned block for a Block Load, the pool for a Pool request, an
  acknowledgement for every Set Report, known or not. Anything else writes nothing. Only a failed
  write ends the loop.\<close>

theorem requests_answered_once:
  "\<exists>r p' ops. handle_event U p d ev =
     Some (r, p', (case expected_reply p ev of None \<Rightarrow> d | Some w \<Rightarrow> fst (uhid_write U d w)), ops) \<and>
     (r = Inr () \<longleftrightarrow> (case expected_reply p ev of None \<Rightarrow> True | Some w \<Rightarrow> \<exists>n. snd (uhid_write U d w) = Inr n))"
  by (rule handle_event_device)

text \<open>C36. In every reachable state of the two threads, the blocks handed to the host are numbered
  1, 2, 3 and so on since the last Device Reset (modulo 256), and a Block Load reports the last one.\<close>

theorem blocks_numbered:
  assumes "sys_run U N (sys_init d s k) ops s'"
  shows "numbered 0 ops \<and> last_created_block (px (lp s')) = of_nat (creates_since_reset 0 ops)"
  using sys_run_inv [OF assms] by (auto simp: sys_inv_def blocks_inv_def)

theorem blocks_numbered_witness:
  "\<exists>s'. sys_run (log_node create_request) table_node (sys_init [] empty_sink Map.empty) [Create 1 Constant] s' \<and>
     last_created_block (px (lp s')) = 1"
proof -
  obtain s' where run: "sys_run (log_node create_request) table_node (sys_init [] empty_sink Map.empty) [Create 1 Constant] s'"
    using demo_run [of table_node "[]" empty_sink Map.empty] by blast
  from blocks_numbered [OF run] run show ?thesis by auto
qed

text \<open>C8. However the poll loop and the sink worker interleave, when \<open>run\<close> returns the worker has
  applied exactly the operations sent, in the order they were sent, and then shut the sink down.\<close>

theorem threads_act_in_order:
  assumes "sys_run U N (sys_init d s k) ops s'" "ph s' = Returned r"
  shows "\<exists>notes sk k'. run_sink_worker N s k ops = Some (notes, sk, k') \<and> wk s' = Exited sk k'"
proof -
  have inv: "sys_inv N (s, k) ops s'" by (rule sys_run_inv [OF assms(1)])
  with assms(2) obtain sk k' where w: "wk s' = Exited sk k'" unfolding sys_inv_def by blast
  with inv have "worker_done N (s, k) ops (Exited sk k') (chan s')" unfolding sys_inv_def by simp
  then show ?thesis using w by (auto simp: worker_done_def run_sink_worker_eq)
qed

theorem threads_act_in_order_witness:
  "\<exists>s' sk k'. sys_run (log_node create_request) table_node (sys_init [] empty_sink Map.empty) [Create 1 Constant] s' \<and>
     wk s' = Exited sk k' \<and> k' = Map.empty"
proof -
  let ?U = "log_node create_request" let ?s0 = "sys_init [] empty_sink (Map.empty :: i16 \<Rightarrow> ff_effect option)"
  obtain s where s: "sys_run ?U table_node ?s0 [Create 1 Constant] s" "ph s = Joining (Inr ())"
    using demo_run [of table_node "[]" empty_sink Map.empty] by blast
  obtain s' where s': "sys_run ?U table_node s [] s'" "ph s' = Returned (Inr ())"
    using joining_returns [OF sys_run_inv [OF s(1)] s(2)] by blast
  have run: "sys_run ?U table_node ?s0 [Create 1 Constant] s'" using sys_run_trans [OF s'(1) s(1)] by simp
  from threads_act_in_order [OF run s'(2)] obtain msgs sk k' where
    w: "run_sink_worker table_node empty_sink Map.empty [Create 1 Constant] = Some (msgs, sk, k')" "wk s' = Exited sk k'"
    by blast
  have "k' = Map.empty"
    using w(1) by (simp add: sink_shutdown_def write_ff_event_def table_node_def empty_sink_def drain_ids_def
        map_entries_def map_filter_def)
  with run w(2) show ?thesis by blast
qed

text \<open>C13. Once the loop has left, shutdown cannot hang: the system reaches the return, and every
  step of either thread on the way decreases the work left.\<close>

theorem shutdown_completes:
  assumes "sys_run U N (sys_init d s k) ops s'" "ph s' = Joining r"
  shows "(\<exists>s''. sys_run U N s' [] s'' \<and> ph s'' = Returned r) \<and>
    (\<forall>new s''. sys_step U N s' new s'' \<longrightarrow> shutdown_left s'' < shutdown_left s')"
  using joining_returns [OF sys_run_inv [OF assms(1)] assms(2)] joining_step_decreases assms(2) by fastforce

theorem shutdown_completes_witness:
  "\<exists>s' s''. sys_run (log_node create_request) table_node (sys_init [] empty_sink Map.empty) [Create 1 Constant] s' \<and>
     sys_run (log_node create_request) table_node s' [] s'' \<and> ph s'' = Returned (Inr ())"
proof -
  obtain s' where s': "sys_run (log_node create_request) table_node (sys_init [] empty_sink Map.empty) [Create 1 Constant] s'"
      "ph s' = Joining (Inr ())"
    using demo_run [of table_node "[]" empty_sink Map.empty] by blast
  from shutdown_completes [OF s'] s'(1) show ?thesis by blast
qed

text \<open>C10. A session of the whole proxy, whatever the game sends and however the threads interleave,
  leaves the wheel's effect table as it found it.\<close>

theorem proxy_session_restores_the_wheel:
  assumes "ff_core N live" "ff_erases N live"
    and "sys_run U N (sys_init d empty_sink k) ops s'" "ph s' = Returned r"
  shows "\<exists>sk k'. wk s' = Exited sk k' \<and> live k' = live k"
proof -
  have inv: "sys_inv N (empty_sink, k) ops s'" by (rule sys_run_inv [OF assms(3)])
  with assms(4) obtain sk k' where w: "wk s' = Exited sk k'" unfolding sys_inv_def by blast
  with inv obtain rs s1 k1 where "run_ops (sink_do N) (empty_sink, k) ops = (rs, s1, k1)"
      "sink_shutdown N s1 k1 = (sk, k')"
    unfolding sys_inv_def worker_done_def by auto
  with session_leaves_no_trace [OF assms(1,2)] w show ?thesis by fastforce
qed

theorem proxy_session_restores_the_wheel_witness:
  "\<exists>s' sk. wk s' = Exited sk (Map.empty :: i16 \<Rightarrow> ff_effect option) \<and>
     sys_run (log_node create_request) table_node (sys_init [] empty_sink Map.empty) [Create 1 Constant] s'"
proof -
  let ?U = "log_node create_request" let ?s0 = "sys_init [] empty_sink (Map.empty :: i16 \<Rightarrow> ff_effect option)"
  obtain s where s: "sys_run ?U table_node ?s0 [Create 1 Constant] s" "ph s = Joining (Inr ())"
    using demo_run [of table_node "[]" empty_sink Map.empty] by blast
  obtain s' where s': "sys_run ?U table_node s [] s'" "ph s' = Returned (Inr ())"
    using joining_returns [OF sys_run_inv [OF s(1)] s(2)] by blast
  have run: "sys_run ?U table_node ?s0 [Create 1 Constant] s'" using sys_run_trans [OF s'(1) s(1)] by simp
  from proxy_session_restores_the_wheel [OF table_core table_erases run s'(2)] run show ?thesis by blast
qed

text \<open>No pass of the poll loop panics, for any proxy state, descriptor state and poll result.\<close>

theorem poll_loop_never_panics: "\<exists>flow l' ops. poll_iter U l t = Some (flow, l', ops)"
  using poll_iter_total [of U l t] by auto

text \<open>When the wheel delivers a batch of events, the virtual device gets the folded report as one
  input record exactly when the batch ended a frame, and the loop goes on unless that write fails.\<close>

theorem frames_forwarded:
  assumes "pollin rv" "length tail < 24"
  shows "source_pass U l rv (ReadOk (concat (map encode_event evs) @ tail)) =
    (let report = fst (apply_events evs (rep l));
         w = padded (to_le_bytes UHID_INPUT2 @ to_le_bytes (18 :: u16) @ to_bytes report)
     in Some (if snd (apply_events evs (rep l))
        then (case snd (uhid_write U (dev l) w) of
                Inl e \<Rightarrow> Leave (Inl (Io ''write UHID_INPUT2'' e)) | Inr _ \<Rightarrow> Again,
              l\<lparr>rep := report, dev := fst (uhid_write U (dev l) w)\<rparr>)
        else (Again, l\<lparr>rep := report\<rparr>)))"
  using assms
  by (simp add: source_pass_def read_into_encoded send_input_def encode_input2_layout DATA_LEN_def Let_def
      split: sum.splits)

theorem frames_forwarded_witness:
  "source_pass (log_node []) \<lparr>px = new_proxy, rep = default_report, dev = []\<rparr>
     \<lparr>pollin = True, pollhup = False, pollerr = False\<rparr>
     (ReadOk (concat (map encode_event [\<lparr>tv_sec = 0, tv_usec = 0, ev_type = EV_SYN, ev_code = SYN_REPORT, ev_value = 0\<rparr>]) @ [])) =
   Some (Again, \<lparr>px = new_proxy, rep = default_report,
     dev = [padded (to_le_bytes UHID_INPUT2 @ to_le_bytes (18 :: u16) @ to_bytes default_report)]\<rparr>)"
  by (subst frames_forwarded) (simp_all add: log_node_def map_event_def)

text \<open>Without an override, discovery returns the wheel with the lowest event number among the nodes
  that look like a wheel and advertise force feedback, or no wheel when there is none; the
  proxy's own virtual wheel never qualifies by name.\<close>

theorem discovery_picks_first_wheel:
  assumes "env_var F ''LOGI_FFB_DEVICE'' = None" "read_dir F SYSFS_INPUT = Inr names"
  shows "\<not> is_wheel VIRTUAL_NAME \<and>
    (case discover_wheel F of
       Inl e \<Rightarrow> e = WheelNotFound \<and> (\<forall>n \<in> set names. starts_with n ''event'' \<longrightarrow> \<not> wheel_candidate F n)
     | Inr w \<Rightarrow> \<exists>n \<in> set names. starts_with n ''event'' \<and> wheel_candidate F n \<and> evdev_path w = ''/dev/input/'' @ n \<and>
         (\<forall>m \<in> set names. starts_with m ''event'' \<and> wheel_candidate F m \<longrightarrow> event_index n \<le> event_index m))"
proof -
  let ?es = "sort_key event_index (filter (\<lambda>n. starts_with n ''event'') names)"
  have eq: "discover_wheel F = first_wheel F ?es" using assms by (simp add: discover_wheel_def)
  show ?thesis
  proof (cases "find (wheel_candidate F) ?es")
    case None
    then show ?thesis
      using virtual_name_not_wheel by (simp add: eq first_wheel_find) (auto simp: find_None_iff)
  next
    case (Some e)
    then have "e \<in> set ?es" "wheel_candidate F e" using find_member [OF Some] by simp_all
    moreover have "event_index e \<le> event_index m" if "m \<in> set ?es" "wheel_candidate F m" for m
      using find_sorted_least [OF Some _ that(1) that(2), of event_index] by simp
    moreover have "discover_wheel F =
        Inr (wheel_paths_for F e (path_join (path_join SYSFS_INPUT e) ''device''))"
      by (simp add: eq first_wheel_find Some)
    moreover have "evdev_path (wheel_paths_for F e dir) = ''/dev/input/'' @ e" for dir
      by (simp add: wheel_paths_for_def)
    ultimately show ?thesis
      using virtual_name_not_wheel by (simp del: append_Cons append_Nil)
  qed
qed

definition demo_fs :: fs where
  "demo_fs =
     \<lparr>read_to_string = (\<lambda>p. if p = ''/sys/class/input/event9/device/name'' then Some ''Logitech RS50 Base''
        else if p = ''/sys/class/input/event9/device/capabilities/ff'' then Some ''1 7'' else None),
      read_dir = (\<lambda>p. Inr [''event10'', ''mouse0'', ''event9'']), path_exists = (\<lambda>p. False),
      env_var = Map.empty, access_rw = (\<lambda>p. False)\<rparr>"

lemma demo_indices: "event_index ''event10'' = 10" "event_index ''event9'' = 9"
  by (simp_all add: event_index_def trim_start_matches.simps [of "''event''"] parse_unsigned_def strip_plus_def in_range_def digit_val_def)

lemma demo_candidates: "wheel_candidate demo_fs ''event9''" "\<not> wheel_candidate demo_fs ''event10''"
  by code_simp+

theorem discovery_picks_first_wheel_witness:
  "\<exists>w. discover_wheel demo_fs = Inr w \<and> evdev_path w = ''/dev/input/event9''"
proof -
  have "env_var demo_fs ''LOGI_FFB_DEVICE'' = None"
      "read_dir demo_fs SYSFS_INPUT = Inr [''event10'', ''mouse0'', ''event9'']"
    by (simp_all add: demo_fs_def)
  from discovery_picks_first_wheel [OF this] show ?thesis
    using demo_candidates by (cases "discover_wheel demo_fs") auto
qed

end
