(* ===== verification/Steering.thy ===== *)
theory Steering
  imports Proxy
begin

text \<open>
  Enumeration steering (\<open>logi-ffb/src/steering.rs\<close>), the command line (\<open>cli.rs\<close>) and the
  launch log (\<open>lib.rs\<close>): which environment and which registry line hide the real wheel from a
  game, and the order in which a launch does things. File contents and the environment are
  arguments; the outcome of a file operation is a value.
\<close>

section \<open>The plan\<close>

record Plan =
  plan_env :: "(string \<times> string) list"
  reg_disable_name :: string

definition WINE_DINPUT_JOYSTICKS_SECTION :: string where
  "WINE_DINPUT_JOYSTICKS_SECTION = ''[Software'' @ [CHR 0x5C, CHR 0x5C] @ ''Wine'' @ [CHR 0x5C, CHR 0x5C] @
     ''DirectInput'' @ [CHR 0x5C, CHR 0x5C] @ ''Joysticks]''"

definition plan_for :: "u16 \<Rightarrow> u16 \<Rightarrow> string \<Rightarrow> Plan" where
  "plan_for real_vendor real_product real_name =
     \<lparr>plan_env = [(''SDL_GAMECONTROLLER_IGNORE_DEVICES'', ''0x'' @ hex4 real_vendor @ ''/0x'' @ hex4 real_product)],
      reg_disable_name = real_name\<rparr>"

definition child_env :: "Plan \<Rightarrow> (string \<times> string) list" where
  "child_env plan = plan_env plan"

definition quote :: char where "quote = CHR 0x22"

definition disable_line :: "string \<Rightarrow> string" where
  "disable_line nm = [quote] @ nm @ [quote] @ ''='' @ [quote] @ ''disabled'' @ [quote]"

definition trim_end_slashes :: "string \<Rightarrow> string" where
  "trim_end_slashes s = rev (dropWhile (\<lambda>c. c = CHR ''/'') (rev s))"

definition wine_prefix_from :: "string option \<Rightarrow> string option \<Rightarrow> string option" where
  "wine_prefix_from wineprefix compat_data_path =
     (case wineprefix of
        Some (c # cs) \<Rightarrow> Some (c # cs)
      | _ \<Rightarrow> (case compat_data_path of
          Some (c # cs) \<Rightarrow> Some (trim_end_slashes (c # cs) @ ''/pfx'')
        | _ \<Rightarrow> None))"

text \<open>\<open>apply\<close>: the read of \<open>user.reg\<close> and the write back are the environment's; the result says
  what was written, if anything.\<close>

datatype reg_read = RegText string | RegMissing | RegError errno

definition updated_reg :: "string \<Rightarrow> string \<Rightarrow> string" where
  "updated_reg existing line =
     (if existing \<noteq> [] \<and> last existing \<noteq> newline then existing @ [newline] else existing) @
     WINE_DINPUT_JOYSTICKS_SECTION @ [newline] @ line @ [newline]"

definition apply_steering ::
  "Plan \<Rightarrow> string option \<Rightarrow> reg_read \<Rightarrow> errno option \<Rightarrow> (ffb_error + unit) \<times> string option" where
  "apply_steering plan wineprefix rd write_err =
     (case wineprefix of
        None \<Rightarrow> (Inr (), None)
      | Some prefix \<Rightarrow>
          (let reg_path = path_join prefix ''user.reg''; line = disable_line (reg_disable_name plan)
           in case rd of
                RegMissing \<Rightarrow> (Inr (), None)
              | RegError e \<Rightarrow> (Inl (Io (''read '' @ reg_path) e), None)
              | RegText existing \<Rightarrow>
                  if list_ex (\<lambda>l. l = line) (lines existing) then (Inr (), None)
                  else (case write_err of
                          Some e \<Rightarrow> (Inl (Io (''write '' @ reg_path) e), None)
                        | None \<Rightarrow> (Inr (), Some (updated_reg existing line)))))"

section \<open>The command line\<close>

abbreviation OUR_HIDRAW_DEVICE :: string where "OUR_HIDRAW_DEVICE \<equiv> ''0x046D/0xC2DD''"

definition hidraw_env_value :: "string option \<Rightarrow> string" where
  "hidraw_env_value existing =
     (case existing of
        None \<Rightarrow> OUR_HIDRAW_DEVICE
      | Some v \<Rightarrow>
          if trim v = [] then OUR_HIDRAW_DEVICE
          else if trim v = ''1'' then v
          else if contains_sub (to_upper v) (to_upper OUR_HIDRAW_DEVICE) then v
          else v @ '','' @ OUR_HIDRAW_DEVICE)"

datatype Parsed = Run "string list" | Daemon | Usage

definition parse_args :: "string list \<Rightarrow> Parsed" where
  "parse_args args =
     (case get_at args 1 of
        None \<Rightarrow> Usage
      | Some a \<Rightarrow>
          if a = ''-h'' \<or> a = ''--help'' then Usage
          else if a = ''--daemon'' then Daemon
          else Run (drop 1 args))"

text \<open>\<open>note_to\<close> on the contents of the log file it could open.\<close>

definition note_to :: "string \<Rightarrow> string \<Rightarrow> string" where
  "note_to contents msg = contents @ msg @ [newline]"

text \<open>\<open>main\<close> and \<open>dispatch\<close>: what the process ends up doing for its arguments.\<close>

datatype start = PrintBanner | PrintUsage bool | RunDaemon | RunGame "string list"

definition start_of :: "string list \<Rightarrow> start" where
  "start_of args =
     (if list_ex (\<lambda>a. a = ''--version'' \<or> a = ''-V'') args then PrintBanner
      else case parse_args args of
        Usage \<Rightarrow> PrintUsage (1 < length args)
      | Daemon \<Rightarrow> RunDaemon
      | Run cmd \<Rightarrow> RunGame cmd)"

text \<open>\<open>run_game\<close> as the sequence of its effects. Each effectful call has its outcome as an
  argument; the trace ends where the function returns.\<close>

datatype launch_event =
    Discovered WheelPaths
  | Steered string
  | ProxyUp
  | Spawned "string list" "(string \<times> string) list"
  | StopSet
  | ProxyJoined

record launch_env =
  le_discover :: "ffb_error + WheelPaths"
  le_wineprefix :: "string option"
  le_compat :: "string option"
  le_reg :: reg_read
  le_reg_write :: "errno option"
  le_proxy :: "ffb_error + unit"
  le_hidraw :: "string option"
  le_child :: "errno + nat option"

definition run_game :: "launch_env \<Rightarrow> string list \<Rightarrow> (launch_event list \<times> (ffb_error + nat)) option" where
  "run_game E cmd =
     (case le_discover E of
        Inl e \<Rightarrow> Some ([], Inl e)
      | Inr paths \<Rightarrow>
          (let plan = plan_for (wheel_vendor paths) (wheel_product paths) (wheel_name paths);
               prefix = wine_prefix_from (le_wineprefix E) (le_compat E);
               (steered, written) = apply_steering plan prefix (le_reg E) (le_reg_write E);
               t1 = Discovered paths # (case written of Some s \<Rightarrow> [Steered s] | None \<Rightarrow> [])
           in case steered of
                Inl e \<Rightarrow> Some (t1, Inl e)
              | Inr _ \<Rightarrow> (case le_proxy E of
                  Inl e \<Rightarrow> Some (t1, Inl e)
                | Inr _ \<Rightarrow> do {
                    prog \<leftarrow> get_at cmd 0;
                    let env = child_env plan @ [(''PROTON_ENABLE_HIDRAW'', hidraw_env_value (le_hidraw E))];
                    let t2 = t1 @ [ProxyUp, Spawned cmd env, StopSet, ProxyJoined];
                    Some (t2, case le_child E of
                      Inl e \<Rightarrow> Inl (Io (''spawn '' @ prog) e)
                    | Inr code \<Rightarrow> Inr (case code of None \<Rightarrow> 0 | Some c \<Rightarrow> c mod 256)) })))"

section \<open>Lines and trimming\<close>

lemma strip_cr_disable_line [simp]: "strip_cr (disable_line nm) = disable_line nm"
  by (simp add: strip_cr_def disable_line_def quote_def)

lemma nl_free_lines: "newline \<notin> set nm \<Longrightarrow> newline \<notin> set (disable_line nm)"
  "newline \<notin> set WINE_DINPUT_JOYSTICKS_SECTION"
  by (simp_all add: disable_line_def quote_def WINE_DINPUT_JOYSTICKS_SECTION_def)

lemma lines_updated_reg:
  assumes "newline \<notin> set nm"
  shows "\<exists>u. nl_terminated u \<and> starts_with u existing \<and>
    updated_reg existing (disable_line nm) = u @ WINE_DINPUT_JOYSTICKS_SECTION @ [newline] @ disable_line nm @ [newline] \<and>
    lines (updated_reg existing (disable_line nm)) = lines u @ [WINE_DINPUT_JOYSTICKS_SECTION, disable_line nm]"
proof -
  let ?u = "if existing \<noteq> [] \<and> last existing \<noteq> newline then existing @ [newline] else existing"
  have u: "nl_terminated ?u" by (auto simp: nl_terminated_def)
  have sec: "nl_terminated (WINE_DINPUT_JOYSTICKS_SECTION @ [newline])" by (simp add: nl_terminated_def)
  have "lines (WINE_DINPUT_JOYSTICKS_SECTION @ [newline]) = [WINE_DINPUT_JOYSTICKS_SECTION]"
    using lines_terminated [OF nl_free_lines(2)] by (simp add: strip_cr_def WINE_DINPUT_JOYSTICKS_SECTION_def)
  then have "lines (WINE_DINPUT_JOYSTICKS_SECTION @ [newline] @ disable_line nm @ [newline]) =
      [WINE_DINPUT_JOYSTICKS_SECTION, disable_line nm]"
    using lines_append [OF sec, of "disable_line nm @ [newline]"] lines_terminated [OF nl_free_lines(1) [OF assms]]
    by simp
  then have "lines (updated_reg existing (disable_line nm)) = lines ?u @ [WINE_DINPUT_JOYSTICKS_SECTION, disable_line nm]"
    using lines_append [OF u] by (simp add: updated_reg_def)
  moreover have "starts_with ?u existing" by (auto simp: starts_with_iff)
  ultimately show ?thesis using u unfolding updated_reg_def by blast
qed

lemma trim_start_nil: "trim_start s = [] \<longleftrightarrow> list_all is_space s"
  by (simp add: trim_start_def dropWhile_eq_Nil_conv list_all_iff)

lemma trim_nonempty: "c \<in> set s \<Longrightarrow> \<not> is_space c \<Longrightarrow> trim s \<noteq> []"
proof -
  assume c: "c \<in> set s" "\<not> is_space c"
  then have "trim_start s \<noteq> []" by (auto simp: trim_start_nil list_all_iff)
  then have "\<not> is_space (hd (trim_start s))" unfolding trim_start_def by (rule hd_dropWhile)
  with \<open>trim_start s \<noteq> []\<close> show "trim s \<noteq> []"
    by (auto simp: trim_def trim_end_def dropWhile_eq_Nil_conv)
qed

lemma contains_upper_suffix: "contains_sub (to_upper (v @ w)) (to_upper w)"
  using contains_sub_append [of "to_upper v" "to_upper w" "[]"] by (simp add: to_upper_def)

lemma hidraw_fixed:
  assumes "trim v \<noteq> []" "trim v = ''1'' \<or> contains_sub (to_upper v) (to_upper OUR_HIDRAW_DEVICE)"
  shows "hidraw_env_value (Some v) = v"
  using assms by (auto simp: hidraw_env_value_def)

section \<open>Properties\<close>

text \<open>Steering a Wine prefix keeps every byte of the registry file, adds the line that disables the
  real wheel under the DirectInput section, and is idempotent: the next launch writes nothing.\<close>

theorem steering_idempotent:
  assumes "newline \<notin> set (reg_disable_name plan)"
    and "apply_steering plan (Some prefix) (RegText existing) None = (Inr (), Some updated)"
  shows "starts_with updated existing \<and>
    disable_line (reg_disable_name plan) \<in> set (lines updated) \<and>
    apply_steering plan (Some prefix) (RegText updated) werr = (Inr (), None)"
proof -
  let ?l = "disable_line (reg_disable_name plan)"
  from assms(2) have upd: "updated = updated_reg existing ?l"
    by (auto simp: apply_steering_def Let_def split: if_splits)
  obtain u where u: "starts_with u existing" "lines updated = lines u @ [WINE_DINPUT_JOYSTICKS_SECTION, ?l]"
      "updated = u @ WINE_DINPUT_JOYSTICKS_SECTION @ [newline] @ ?l @ [newline]"
    using lines_updated_reg [OF assms(1), of existing] unfolding upd by blast
  then have "starts_with updated existing" by (auto simp: starts_with_iff)
  with u(2) show ?thesis by (simp add: apply_steering_def list_ex_iff)
qed

theorem steering_idempotent_witness:
  "\<exists>updated. apply_steering (plan_for 0x046d 0xc276 ''RS50'') (Some ''/p'') (RegText ''WINE REGISTRY'') None = (Inr (), Some updated) \<and>
     apply_steering (plan_for 0x046d 0xc276 ''RS50'') (Some ''/p'') (RegText updated) None = (Inr (), None)"
proof -
  let ?plan = "plan_for 0x046d 0xc276 ''RS50''"
  have "disable_line ''RS50'' \<notin> set (lines ''WINE REGISTRY'')" by code_simp
  then have "apply_steering ?plan (Some ''/p'') (RegText ''WINE REGISTRY'') None =
      (Inr (), Some (updated_reg ''WINE REGISTRY'' (disable_line ''RS50'')))"
    by (auto simp: apply_steering_def plan_for_def list_ex_iff)
  moreover from steering_idempotent [OF _ this, where werr = None]
  have "apply_steering ?plan (Some ''/p'') (RegText (updated_reg ''WINE REGISTRY'' (disable_line ''RS50''))) None = (Inr (), None)"
    by (simp add: plan_for_def)
  ultimately show ?thesis by blast
qed

text \<open>The \<open>PROTON_ENABLE_HIDRAW\<close> value given to the game always enables the virtual wheel, keeps
  whatever the user had set at its front, and is stable: computing it again changes nothing.\<close>

theorem hidraw_value_covers_us:
  "(trim (hidraw_env_value e) = ''1'' \<or> contains_sub (to_upper (hidraw_env_value e)) (to_upper OUR_HIDRAW_DEVICE)) \<and>
   hidraw_env_value (Some (hidraw_env_value e)) = hidraw_env_value e \<and>
   (\<forall>v. e = Some v \<and> trim v \<noteq> [] \<longrightarrow> starts_with (hidraw_env_value e) v)"
proof -
  let ?h = "hidraw_env_value e"
  have cover: "trim ?h = ''1'' \<or> contains_sub (to_upper ?h) (to_upper OUR_HIDRAW_DEVICE)"
  proof (cases "\<exists>v. e = Some v \<and> trim v \<noteq> []")
    case True
    then obtain v where v: "e = Some v" "trim v \<noteq> []" by blast
    have "contains_sub (to_upper ((v @ '','') @ OUR_HIDRAW_DEVICE)) (to_upper OUR_HIDRAW_DEVICE)"
      by (rule contains_upper_suffix)
    with v show ?thesis by (simp add: hidraw_env_value_def)
  next
    case False
    then have "?h = OUR_HIDRAW_DEVICE" by (cases e) (auto simp: hidraw_env_value_def)
    then show ?thesis using contains_upper_suffix [of "[]" OUR_HIDRAW_DEVICE] by simp
  qed
  have "trim ?h \<noteq> []"
  proof (cases "\<exists>v. e = Some v \<and> trim v \<noteq> [] \<and> (trim v = ''1'' \<or> contains_sub (to_upper v) (to_upper OUR_HIDRAW_DEVICE))")
    case True
    then show ?thesis using hidraw_fixed by auto
  next
    case False
    then have "CHR ''x'' \<in> set ?h" by (cases e) (auto simp: hidraw_env_value_def)
    then show ?thesis by (rule trim_nonempty) (simp add: is_space_def)
  qed
  then have "hidraw_env_value (Some ?h) = ?h" using cover by (rule hidraw_fixed)
  moreover have "starts_with ?h v" if "e = Some v" "trim v \<noteq> []" for v
    using that by (auto simp: hidraw_env_value_def starts_with_iff)
  ultimately show ?thesis using cover by blast
qed

theorem hidraw_value_covers_us_witness:
  "starts_with (hidraw_env_value (Some ''0x1234/0x5678'')) ''0x1234/0x5678''"
proof -
  have "trim ''0x1234/0x5678'' \<noteq> []" by code_simp
  with hidraw_value_covers_us [of "Some ''0x1234/0x5678''"] show ?thesis by blast
qed

text \<open>Steering hides the wheel discovery chose and never the virtual one: neither the ignored
  vendor/product pair nor the disabled name of a recognised wheel is the virtual wheel's.\<close>

theorem steering_spares_the_virtual_wheel:
  assumes "is_wheel nm" "(vendor, product) \<noteq> (VENDOR, VIRTUAL_PRODUCT)"
  shows "reg_disable_name (plan_for vendor product nm) \<noteq> VIRTUAL_NAME \<and>
    plan_env (plan_for vendor product nm) \<noteq> plan_env (plan_for VENDOR VIRTUAL_PRODUCT VIRTUAL_NAME)"
proof -
  have "nm \<noteq> VIRTUAL_NAME" using assms(1) virtual_name_not_wheel by metis
  moreover have "hex4 vendor @ ''/0x'' @ hex4 product \<noteq> hex4 VENDOR @ ''/0x'' @ hex4 VIRTUAL_PRODUCT"
  proof
    have len: "length (hex4 vendor) = length (hex4 VENDOR)" by (simp add: hex4_def Let_def)
    assume "hex4 vendor @ ''/0x'' @ hex4 product = hex4 VENDOR @ ''/0x'' @ hex4 VIRTUAL_PRODUCT"
    then have "hex4 vendor = hex4 VENDOR" "hex4 product = hex4 VIRTUAL_PRODUCT"
      unfolding append_eq_append_conv [OF disjI1 [OF len]] by simp_all
    with assms(2) show False by simp
  qed
  ultimately show ?thesis by (simp add: plan_for_def)
qed

theorem steering_spares_the_virtual_wheel_witness:
  "reg_disable_name (plan_for 0x046d 0xc276 ''Logitech RS50 Base'') \<noteq> VIRTUAL_NAME"
proof -
  have "is_wheel ''Logitech RS50 Base''" by code_simp
  from steering_spares_the_virtual_wheel [OF this, of "0x046d" "0xc276"] show ?thesis by simp
qed

text \<open>A launch never panics on the arguments the command line accepts, steers before it brings the
  proxy up, and always stops and joins a proxy it brought up, whether or not the game started.\<close>

theorem launch_always_tears_down:
  assumes "start_of args = RunGame cmd"
  shows "\<exists>tr r. run_game E cmd = Some (tr, r) \<and>
    (ProxyUp \<in> set tr \<longrightarrow> (\<exists>pre env. tr = pre @ [ProxyUp, Spawned cmd env, StopSet, ProxyJoined] \<and>
       ProxyUp \<notin> set pre \<and> (\<forall>s. Steered s \<in> set tr \<longrightarrow> Steered s \<in> set pre)))"
proof -
  from assms obtain prog rest where cmd: "cmd = prog # rest"
    by (cases cmd) (auto simp: start_of_def parse_args_def get_at_def split: if_splits option.splits Parsed.splits)
  show ?thesis
  proof (cases "le_discover E")
    case (Inr paths)
    let ?plan = "plan_for (wheel_vendor paths) (wheel_product paths) (wheel_name paths)"
    obtain st wr where ap: "apply_steering ?plan (wine_prefix_from (le_wineprefix E) (le_compat E)) (le_reg E) (le_reg_write E) = (st, wr)"
      by (cases "apply_steering ?plan (wine_prefix_from (le_wineprefix E) (le_compat E)) (le_reg E) (le_reg_write E)")
    show ?thesis
    proof (cases "\<exists>u v. st = Inr u \<and> le_proxy E = Inr v")
      case True
      then show ?thesis using Inr ap cmd by (cases wr) (auto simp: run_game_def get_at_def Let_def)
    next
      case False
      then show ?thesis using Inr ap by (cases st; cases "le_proxy E"; cases wr) (auto simp: run_game_def Let_def)
    qed
  qed (simp add: run_game_def)
qed

definition demo_launch :: launch_env where
  "demo_launch = \<lparr>le_discover = Inr \<lparr>evdev_path = ''/dev/input/event9'', wheel_vendor = VENDOR,
      wheel_product = PRODUCT, wheel_name = ''Logitech RS50 Base''\<rparr>, le_wineprefix = None, le_compat = None,
     le_reg = RegMissing, le_reg_write = None, le_proxy = Inr (), le_hidraw = None, le_child = Inl 2\<rparr>"

theorem launch_always_tears_down_witness:
  "\<exists>tr r. run_game demo_launch [''game''] = Some (tr, r) \<and> last tr = ProxyJoined"
proof -
  have "start_of [''logi-ffb'', ''game''] = RunGame [''game'']" by code_simp
  from launch_always_tears_down [OF this, of demo_launch] obtain tr r where
    run: "run_game demo_launch [''game''] = Some (tr, r)"
    and up: "ProxyUp \<in> set tr \<longrightarrow> (\<exists>pre env. tr = pre @ [ProxyUp, Spawned [''game''] env, StopSet, ProxyJoined])"
    by blast
  have "ProxyUp \<in> set tr"
    using run by (auto simp: run_game_def demo_launch_def apply_steering_def wine_prefix_from_def get_at_def)
  with up run show ?thesis by force
qed

end
