(* ===== verification/Curve.thy ===== *)
theory Curve
  imports Prelude
begin

text \<open>
  The response-curve model of \<open>logi-wheel-core/src/curve.rs\<close>: a list of control points with
  two deadzones, its editing operations and \<open>compose\<close>, which builds the point list the driver
  uploads. A \<open>u16\<close> or \<open>u8\<close> is a natural number with its bound in the invariant; casts that
  narrow are written out, a subtraction that could wrap is checked, and indexing outside the
  list is the \<open>None\<close> of a panic.
\<close>

definition FULL :: nat where "FULL = 65535"

type_synonym point = "nat \<times> nat"

record Curve =
  pts :: "point list"
  lower_dz :: nat
  upper_dz :: nat

definition to_pct :: "nat \<Rightarrow> nat" where
  "to_pct v = (v * 100 + FULL div 2) div FULL"

text \<open>\<open>Curve::from_value\<close> on the points of a \<open>Value::Curve\<close> (\<open>None\<close> for any other value).\<close>

definition from_value :: "point list option \<Rightarrow> Curve" where
  "from_value v =
     \<lparr>pts = (case v of Some p \<Rightarrow> if 2 \<le> length p then p else [(0, 0), (FULL, FULL)]
             | None \<Rightarrow> [(0, 0), (FULL, FULL)]),
      lower_dz = 0, upper_dz = 0\<rparr>"

definition set_lower_deadzone :: "nat \<Rightarrow> Curve \<Rightarrow> Curve" where
  "set_lower_deadzone v c = c\<lparr>lower_dz := min v (99 - upper_dz c)\<rparr>"

definition set_upper_deadzone :: "nat \<Rightarrow> Curve \<Rightarrow> Curve" where
  "set_upper_deadzone v c = c\<lparr>upper_dz := min v (99 - lower_dz c)\<rparr>"

definition push_pt :: "point list \<Rightarrow> nat \<Rightarrow> nat \<Rightarrow> point list" where
  "push_pt out inp outp =
     (if out \<noteq> [] \<and> inp \<le> fst (last out)
      then (if snd (last out) < outp then out[length out - 1 := (fst (last out), outp)] else out)
      else out @ [(inp, outp)])"

text \<open>\<open>compose\<close>: the deadzone band, the remapped control points, then the pinned ends. The
  outer subtraction of the upper deadzone is checked.\<close>

definition map_input :: "nat \<Rightarrow> nat \<Rightarrow> nat \<Rightarrow> nat" where
  "map_input lo span inp = (lo + inp * span div FULL) mod 65536"

definition compose_points :: "Curve \<Rightarrow> nat \<Rightarrow> nat \<Rightarrow> point list" where
  "compose_points c lo span =
     (let out0 = (if 0 < lower_dz c then push_pt [] 0 0 else []);
          out1 = foldl (\<lambda>out p. push_pt out (map_input lo span (fst p)) (snd p)) out0 (pts c)
      in if 0 < upper_dz c then push_pt out1 FULL FULL else out1)"

definition pin_ends :: "point list \<Rightarrow> point list" where
  "pin_ends out =
     (let out1 = (if map fst (take 1 out) \<noteq> [0] then (0, 0) # out else out);
          out2 = (if fst (last out1) \<noteq> FULL then push_pt out1 FULL FULL else out1);
          out3 = out2[0 := (fst (out2 ! 0), 0)]
      in out3[length out3 - 1 := (fst (out3 ! (length out3 - 1)), FULL)])"

definition compose :: "Curve \<Rightarrow> point list option" where
  "compose c =
     (if 100 < upper_dz c then None
      else
        (let lo = (lower_dz c * FULL div 100) mod 65536;
             hi = ((100 - upper_dz c) * FULL div 100) mod 65536;
             span = hi - lo
         in Some (pin_ends (compose_points c lo span))))"

text \<open>Linear interpolation over the windows of two points; the \<open>u32\<close> subtraction of the outputs
  is checked.\<close>

fun interp_windows :: "point list \<Rightarrow> nat \<Rightarrow> nat option" where
  "interp_windows ((x0, y0) # (x1, y1) # ps) x =
     (if x \<le> x1
      then (if x1 = x0 then Some y1
            else if y1 < y0 \<or> x < x0 then None
            else Some ((y0 + (x - x0) * (y1 - y0) div (x1 - x0)) mod 65536))
      else interp_windows ((x1, y1) # ps) x)"
| "interp_windows [(x0, y0)] x = Some y0"
| "interp_windows [] x = None"

definition interp :: "point list \<Rightarrow> nat \<Rightarrow> nat option" where
  "interp curve x =
     (if curve = [] then Some x
      else if x \<le> fst (curve ! 0) then Some (snd (curve ! 0))
      else interp_windows curve x)"

text \<open>On a list sorted by input, \<open>binary_search_by_key\<close> finds a point with that input or the
  place to insert one.\<close>

definition insert_place :: "point list \<Rightarrow> nat \<Rightarrow> nat" where
  "insert_place ps input = length (takeWhile (\<lambda>p. fst p < input) ps)"

definition add_point :: "nat \<Rightarrow> Curve \<Rightarrow> Curve option" where
  "add_point input c =
     (if input \<in> fst ` set (pts c) then Some c
      else do {
        output \<leftarrow> interp (pts c) input;
        let i = insert_place (pts c) input;
        Some (c\<lparr>pts := take i (pts c) @ [(input, output)] @ drop i (pts c)\<rparr>) })"

definition remove_point :: "nat \<Rightarrow> Curve \<Rightarrow> Curve option" where
  "remove_point i c =
     (if pts c = [] then None
      else let last_i = length (pts c) - 1 in
        if i = 0 \<or> i = last_i \<or> length (pts c) \<le> 2 then Some c
        else if length (pts c) \<le> i then None
        else Some (c\<lparr>pts := take i (pts c) @ drop (Suc i) (pts c)\<rparr>))"

definition clamp_nat :: "nat \<Rightarrow> nat \<Rightarrow> nat \<Rightarrow> nat" where
  "clamp_nat lo hi x = (if x < lo then lo else if hi < x then hi else x)"

definition move_point :: "nat \<Rightarrow> nat \<Rightarrow> nat \<Rightarrow> Curve \<Rightarrow> Curve option" where
  "move_point i input output c =
     (if pts c = [] then None
      else let last_i = length (pts c) - 1 in
        if i = 0 \<or> i = last_i then Some c
        else if last_i < i then None
        else
          (let prev = pts c ! (i - 1); nxt = pts c ! (i + 1);
               in_lo = fst prev + 1; in_hi = int (fst nxt) - 1;
               new_in = (if int in_lo \<le> in_hi then clamp_nat in_lo (nat in_hi) input else fst (pts c ! i))
           in if snd nxt < snd prev then None
              else Some (c\<lparr>pts := (pts c)[i := (new_in, clamp_nat (snd prev) (snd nxt) output)]\<rparr>)))"

section \<open>Well-formed curves\<close>

text \<open>Inputs strictly increase, outputs never decrease, and the ends are \<open>0:0\<close> and
  \<open>FULL:FULL\<close>: what the driver's uploader demands, and the invariant of the control points.\<close>

definition rising :: "point list \<Rightarrow> bool" where
  "rising ps \<longleftrightarrow> sorted_wrt (\<lambda>p q. fst p < fst q \<and> snd p \<le> snd q) ps"

definition pinned :: "point list \<Rightarrow> bool" where
  "pinned ps \<longleftrightarrow> ps \<noteq> [] \<and> hd ps = (0, 0) \<and> last ps = (FULL, FULL)"

definition driver_valid :: "point list \<Rightarrow> bool" where
  "driver_valid ps \<longleftrightarrow> rising ps \<and> pinned ps"

definition curve_ok :: "Curve \<Rightarrow> bool" where
  "curve_ok c \<longleftrightarrow> driver_valid (pts c) \<and> lower_dz c + upper_dz c \<le> 99"

lemma rising_append:
  "rising (xs @ ys) \<longleftrightarrow> rising xs \<and> rising ys \<and> (\<forall>x\<in>set xs. \<forall>y\<in>set ys. fst x < fst y \<and> snd x \<le> snd y)"
  by (simp add: rising_def sorted_wrt_append)

lemma rising_Nil [simp]: "rising []" by (simp add: rising_def)
lemma rising_single [simp]: "rising [p]" by (simp add: rising_def)

lemma rising_Cons: "rising (p # ps) \<longleftrightarrow> (\<forall>q\<in>set ps. fst p < fst q \<and> snd p \<le> snd q) \<and> rising ps"
  by (simp add: rising_def)

lemma rising_nth:
  assumes "rising ps" "i < j" "j < length ps"
  shows "fst (ps ! i) < fst (ps ! j) \<and> snd (ps ! i) \<le> snd (ps ! j)"
  using assms by (simp add: rising_def sorted_wrt_iff_nth_less)

lemma rising_last:
  assumes "rising ps" "p \<in> set ps"
  shows "fst p \<le> fst (last ps) \<and> snd p \<le> snd (last ps)"
proof -
  obtain b where b: "ps = b @ [last ps]" using assms(2) by (metis append_butlast_last_id empty_iff list.set(1))
  then have "p \<in> set b \<or> p = last ps" using assms(2) by (metis Un_iff empty_iff empty_set insert_iff list.simps(15) set_append)
  with assms(1) b show ?thesis by (metis (no_types, lifting) less_imp_le list.set_intros(1) order_refl rising_append)
qed

lemma rising_hd:
  assumes "rising ps" "p \<in> set ps"
  shows "fst (hd ps) \<le> fst p \<and> snd (hd ps) \<le> snd p"
  using assms by (cases ps) (auto simp: rising_Cons)

section \<open>Composing\<close>

text \<open>Pushing a point that is not below the last one makes it the last one.\<close>

definition above :: "point list \<Rightarrow> nat \<Rightarrow> nat \<Rightarrow> bool" where
  "above out a b \<longleftrightarrow> (out \<noteq> [] \<longrightarrow> fst (last out) \<le> a \<and> snd (last out) \<le> b)"

lemma push_pt_above:
  assumes "rising out" "above out a b"
  shows "rising (push_pt out a b)" "push_pt out a b \<noteq> []" "last (push_pt out a b) = (a, b)"
    "out \<noteq> [] \<Longrightarrow> fst (hd (push_pt out a b)) = fst (hd out)"
    "out = [] \<Longrightarrow> push_pt out a b = [(a, b)]"
proof -
  have all: "rising (push_pt out a b) \<and> push_pt out a b \<noteq> [] \<and> last (push_pt out a b) = (a, b) \<and>
      (out \<noteq> [] \<longrightarrow> fst (hd (push_pt out a b)) = fst (hd out)) \<and> (out = [] \<longrightarrow> push_pt out a b = [(a, b)])"
  proof (cases "out = []")
    case True
    then show ?thesis by (simp add: push_pt_def)
  next
    case False
    then obtain xs l where out: "out = xs @ [l]" by (metis append_butlast_last_id)
    show ?thesis
    proof (cases "a \<le> fst l")
      case True
      with assms(2) out have l: "fst l = a" "snd l \<le> b" by (auto simp: above_def)
      then have "push_pt out a b = xs @ [(a, b)]"
        using out by (cases l) (auto simp: push_pt_def list_update_append)
      moreover have "rising (xs @ [(a, b)])"
        using assms(1) l unfolding out rising_append by fastforce
      ultimately show ?thesis using out l by (cases xs) auto
    next
      case above: False
      then have "push_pt out a b = out @ [(a, b)]" using out by (simp add: push_pt_def)
      moreover have "fst p < a \<and> snd p \<le> b" if "p \<in> set out" for p
        using rising_last [OF assms(1) that] assms(2) above out by (auto simp: above_def)
      then have "rising (out @ [(a, b)])" using assms(1) unfolding rising_append by simp
      ultimately show ?thesis using False by simp
    qed
  qed
  then show "rising (push_pt out a b)" "push_pt out a b \<noteq> []" "last (push_pt out a b) = (a, b)"
    "out \<noteq> [] \<Longrightarrow> fst (hd (push_pt out a b)) = fst (hd out)"
    "out = [] \<Longrightarrow> push_pt out a b = [(a, b)]" by blast+
qed

definition weakly_rising :: "point list \<Rightarrow> bool" where
  "weakly_rising ps \<longleftrightarrow> sorted_wrt (\<lambda>p q. fst p \<le> fst q \<and> snd p \<le> snd q) ps"

abbreviation push_all :: "point list \<Rightarrow> point list \<Rightarrow> point list" where
  "push_all out ps \<equiv> foldl (\<lambda>out p. push_pt out (fst p) (snd p)) out ps"

lemma push_all_rising:
  assumes "weakly_rising ps" "rising out" "ps \<noteq> [] \<Longrightarrow> above out (fst (hd ps)) (snd (hd ps))"
  shows "rising (push_all out ps) \<and>
    (ps \<noteq> [] \<longrightarrow> last (push_all out ps) = last ps) \<and>
    (out \<noteq> [] \<longrightarrow> push_all out ps \<noteq> [] \<and> fst (hd (push_all out ps)) = fst (hd out))"
  using assms
proof (induction ps arbitrary: out)
  case (Cons p ps)
  let ?o = "push_pt out (fst p) (snd p)"
  note push = push_pt_above [OF Cons.prems(2), of "fst p" "snd p"]
  have ab: "above out (fst p) (snd p)" using Cons.prems(3) by simp
  have "above ?o (fst (hd ps)) (snd (hd ps))" if "ps \<noteq> []"
    using Cons.prems(1) push(3) [OF ab] that by (cases ps) (auto simp: above_def weakly_rising_def)
  moreover have "weakly_rising ps" using Cons.prems(1) by (simp add: weakly_rising_def)
  ultimately have IH: "rising (push_all ?o ps) \<and> (ps \<noteq> [] \<longrightarrow> last (push_all ?o ps) = last ps) \<and>
      push_all ?o ps \<noteq> [] \<and> fst (hd (push_all ?o ps)) = fst (hd ?o)"
    using Cons.IH [of ?o] push(1,2) [OF ab] by blast
  have "ps = [] \<Longrightarrow> last (push_all ?o ps) = p" using push(3) [OF ab] by simp
  with IH push(4) [OF ab] show ?case by auto
qed simp

lemma map_input_bound:
  assumes "lo + span \<le> FULL" "x \<le> FULL"
  shows "map_input lo span x = lo + x * span div FULL" "map_input lo span FULL = lo + span"
proof -
  have "x * span div FULL \<le> span"
    using assms(2) by (metis div_le_mono div_mult_self_is_m mult.commute mult_le_mono2 FULL_def zero_less_numeral)
  with assms(1) have "lo + x * span div FULL < 65536" by (simp add: FULL_def)
  then show "map_input lo span x = lo + x * span div FULL" by (simp add: map_input_def)
  show "map_input lo span FULL = lo + span" using assms(1) by (simp add: map_input_def FULL_def)
qed

lemma pin_ends_ends:
  assumes "rising out" "out \<noteq> []" "fst (hd out) = 0" "last out = (FULL, FULL)"
  shows "pin_ends out = (0, 0) # tl out" "driver_valid (pin_ends out)"
proof -
  obtain b rest where out: "out = (0, b) # rest" using assms(2,3) by (cases out) auto
  with assms(4) have ne: "rest \<noteq> []" by (auto simp: FULL_def)
  then obtain mid where rest: "rest = mid @ [(FULL, FULL)]"
    using assms(4) out by (metis append_butlast_last_id last.simps)
  show pin: "pin_ends out = (0, 0) # tl out"
    by (simp add: pin_ends_def out rest FULL_def Let_def nth_append list_update_append)
  moreover have "rising ((0, 0) # rest)" using assms(1) by (auto simp: out rising_Cons)
  ultimately show "driver_valid (pin_ends out)" using ne rest by (simp add: out driver_valid_def pinned_def)
qed

text \<open>The live band of a well-formed curve, and the control points remapped into it.\<close>

definition band_lo :: "Curve \<Rightarrow> nat" where "band_lo c = lower_dz c * FULL div 100"
definition band_hi :: "Curve \<Rightarrow> nat" where "band_hi c = (100 - upper_dz c) * FULL div 100"

definition band_pts :: "Curve \<Rightarrow> point list" where
  "band_pts c = map (\<lambda>p. (map_input (band_lo c) (band_hi c - band_lo c) (fst p), snd p)) (pts c)"

definition pre_pin :: "Curve \<Rightarrow> point list" where
  "pre_pin c =
     (let out = push_all (if 0 < lower_dz c then [(0, 0)] else []) (band_pts c)
      in if 0 < upper_dz c then push_pt out FULL FULL else out)"

lemma band_bounds:
  assumes "curve_ok c"
  shows "band_lo c \<le> band_hi c" "band_hi c \<le> FULL"
proof -
  have "lower_dz c \<le> 100 - upper_dz c" using assms by (auto simp: curve_ok_def)
  then show "band_lo c \<le> band_hi c" unfolding band_lo_def band_hi_def by (intro div_le_mono mult_le_mono1)
  show "band_hi c \<le> FULL" unfolding band_hi_def FULL_def by (simp add: div_le_mono [of _ "6553500" 100, simplified])
qed

lemma compose_eq:
  assumes "curve_ok c"
  shows "compose c = Some (pin_ends (pre_pin c))"
proof -
  note b = band_bounds [OF assms]
  have "band_lo c mod 65536 = band_lo c" "band_hi c mod 65536 = band_hi c" using b by (simp_all add: FULL_def)
  moreover have "upper_dz c \<le> 100" using assms by (simp add: curve_ok_def)
  ultimately have "compose c = Some (pin_ends (compose_points c (band_lo c) (band_hi c - band_lo c)))"
    unfolding compose_def band_lo_def band_hi_def by (simp add: Let_def)
  then show ?thesis by (simp add: compose_points_def pre_pin_def band_pts_def foldl_map push_pt_def [of "[]"])
qed

lemma band_pts_weak:
  assumes "curve_ok c"
  shows "weakly_rising (band_pts c)" "hd (band_pts c) = (band_lo c, 0)" "last (band_pts c) = (band_hi c, FULL)"
    "\<exists>p q rest. band_pts c = p # q # rest"
proof -
  note b = band_bounds [OF assms]
  have ok: "rising (pts c)" "pinned (pts c)" using assms by (auto simp: curve_ok_def driver_valid_def)
  let ?f = "map_input (band_lo c) (band_hi c - band_lo c)"
  have f: "?f x = band_lo c + x * (band_hi c - band_lo c) div FULL" if "x \<le> FULL" for x
    using map_input_bound(1) [of "band_lo c" "band_hi c - band_lo c" x] b that by simp
  have fFULL: "?f FULL = band_hi c" using map_input_bound(2) [of "band_lo c" "band_hi c - band_lo c"] b by simp
  have bound: "fst p \<le> FULL" if "p \<in> set (pts c)" for p
    using rising_last [OF ok(1) that] ok(2) by (auto simp: pinned_def)
  have mono: "?f (fst p) \<le> ?f (fst q)" if "p \<in> set (pts c)" "q \<in> set (pts c)" "fst p < fst q" for p q
    using f bound that by (simp add: div_le_mono mult_le_mono1)
  show "weakly_rising (band_pts c)"
    unfolding weakly_rising_def band_pts_def sorted_wrt_map
    by (rule sorted_wrt_mono_rel [OF _ ok(1) [unfolded rising_def]]) (use mono in auto)
  have ne: "pts c \<noteq> []" "hd (pts c) = (0, 0)" "last (pts c) = (FULL, FULL)" using ok(2) by (simp_all add: pinned_def)
  show "hd (band_pts c) = (band_lo c, 0)" "last (band_pts c) = (band_hi c, FULL)"
    using ne f [of 0] fFULL by (simp_all add: band_pts_def hd_map last_map)
  show "\<exists>p q rest. band_pts c = p # q # rest"
  proof (cases "pts c")
    case (Cons p rest)
    with ne show ?thesis by (cases rest) (auto simp: band_pts_def FULL_def)
  qed (use ne in simp)
qed

lemma pre_pin_ends:
  assumes "curve_ok c"
  shows "rising (pre_pin c)" "pre_pin c \<noteq> []" "fst (hd (pre_pin c)) = 0" "last (pre_pin c) = (FULL, FULL)"
proof -
  note ps = band_pts_weak [OF assms]
  let ?o0 = "if 0 < lower_dz c then [(0, 0)] else [] :: point list"
  let ?o1 = "push_all ?o0 (band_pts c)"
  obtain p rest where cons: "band_pts c = p # rest" "rest \<noteq> []" using ps(4) by auto
  have o0: "rising ?o0" "above ?o0 (fst (hd (band_pts c))) (snd (hd (band_pts c)))" by (simp_all add: above_def)
  have o1: "rising ?o1" "last ?o1 = (band_hi c, FULL)"
    using push_all_rising [OF ps(1) o0(1) o0(2)] ps(3) cons by auto
  have hd1: "?o1 \<noteq> [] \<and> fst (hd ?o1) = 0"
  proof (cases "0 < lower_dz c")
    case True
    then show ?thesis using push_all_rising [OF ps(1) o0(1) o0(2)] by simp
  next
    case False
    then have "p = (0, 0)" using ps(2) cons by (simp add: band_lo_def)
    then have "?o1 = push_all [(0, 0)] rest" using False cons by (simp add: push_pt_def)
    moreover have "weakly_rising rest" "above [(0, 0)] (fst (hd rest)) (snd (hd rest))"
      using ps(1) cons by (simp_all add: weakly_rising_def above_def)
    ultimately show ?thesis using push_all_rising [of rest "[(0, 0)]"] by simp
  qed
  have ab: "above ?o1 FULL FULL" using o1(2) band_bounds [OF assms] by (simp add: above_def)
  show "rising (pre_pin c)" "pre_pin c \<noteq> []" "fst (hd (pre_pin c)) = 0" "last (pre_pin c) = (FULL, FULL)"
    using push_pt_above [OF o1(1) ab] hd1 o1 by (auto simp: pre_pin_def Let_def band_hi_def)
qed

lemma compose_valid:
  assumes "curve_ok c"
  shows "\<exists>out. compose c = Some out \<and> driver_valid out"
  using compose_eq [OF assms] pin_ends_ends(2) [OF pre_pin_ends [OF assms]] by blast

text \<open>The lower deadzone is flat, unless a later control point folds onto its edge.\<close>

lemma push_pt_keep: "out \<noteq> [] \<Longrightarrow> push_pt (us @ out) a b = us @ push_pt out a b"
  by (cases out rule: rev_cases) (simp_all add: push_pt_def list_update_append)

lemma push_pt_nonempty [simp]: "push_pt out a b \<noteq> []"
  by (simp add: push_pt_def)

lemma push_all_keep: "out \<noteq> [] \<Longrightarrow> push_all (us @ out) ps = us @ push_all out ps \<and> push_all out ps \<noteq> []"
  by (induction ps arbitrary: out) (simp_all add: push_pt_keep)

lemma compose_lower_flat:
  assumes ok: "curve_ok c" and dz: "0 < lower_dz c"
    and clear: "band_lo c < fst (band_pts c ! 1)"
  shows "\<exists>rest. compose c = Some ((0, 0) # (band_lo c, 0) # rest)"
proof -
  obtain q rest where ps: "band_pts c = (band_lo c, 0) # q # rest"
    using band_pts_weak(2,4) [OF ok] by (metis list.sel(1))
  have lo: "0 < band_lo c" using dz by (simp add: band_lo_def FULL_def div_greater_zero_iff)
  have "push_all [(0, 0)] (band_pts c) = push_all ([(0, 0), (band_lo c, 0)] @ [q]) rest"
    using lo clear by (simp add: ps push_pt_def)
  then obtain more where more: "push_all [(0, 0)] (band_pts c) = [(0, 0), (band_lo c, 0)] @ more" "more \<noteq> []"
    using push_all_keep [of "[q]" "[(0, 0), (band_lo c, 0)]" rest] by auto
  have "\<exists>rest. pre_pin c = [(0, 0), (band_lo c, 0)] @ rest"
    using more(2) dz push_pt_keep [OF more(2), of "[(0, 0), (band_lo c, 0)]" FULL FULL]
    by (simp add: pre_pin_def Let_def more(1))
  then show ?thesis using compose_eq [OF ok] pin_ends_ends(1) [OF pre_pin_ends [OF ok]] by auto
qed

section \<open>Editing keeps the invariant\<close>

definition outputs_ok :: "point list \<Rightarrow> bool" where
  "outputs_ok ps \<longleftrightarrow> (\<forall>p\<in>set ps. snd p \<le> 65535)"

lemma curve_ok_outputs: "curve_ok c \<Longrightarrow> outputs_ok (pts c)"
  using rising_last [of "pts c"] by (fastforce simp: curve_ok_def driver_valid_def pinned_def outputs_ok_def FULL_def)

lemma scaled_part: "(a :: nat) \<le> b \<Longrightarrow> 0 < b \<Longrightarrow> a * d div b \<le> d"
  by (metis div_le_mono div_mult_self_is_m mult.commute mult_le_mono2)

lemma interp_windows_between:
  assumes "rising (p # ps)" "fst p \<le> x" "outputs_ok (p # ps)"
  shows "\<exists>y. interp_windows (p # ps) x = Some y \<and>
    (\<forall>q\<in>set (p # ps). (fst q \<le> x \<longrightarrow> snd q \<le> y) \<and> (x \<le> fst q \<longrightarrow> y \<le> snd q))"
  using assms
proof (induction ps arbitrary: p)
  case Nil
  then show ?case by (cases p) auto
next
  case (Cons q ps)
  obtain x0 y0 where p: "p = (x0, y0)" by (cases p)
  obtain x1 y1 where q: "q = (x1, y1)" by (cases q)
  have r: "x0 < x1" "y0 \<le> y1" "rising (q # ps)" "x0 \<le> x" "y1 \<le> 65535"
    using Cons.prems by (auto simp: p q rising_Cons outputs_ok_def)
  show ?case
  proof (cases "x \<le> x1")
    case True
    let ?t = "(x - x0) * (y1 - y0) div (x1 - x0)"
    have t: "?t \<le> y1 - y0" using True r by (intro scaled_part) simp_all
    have ends: "x = x0 \<Longrightarrow> ?t = 0" "x = x1 \<Longrightarrow> ?t = y1 - y0" using r(1) by simp_all
    have "interp_windows (p # q # ps) x = Some (y0 + ?t)"
      using True r t by (simp add: p q)
    moreover have "(fst a \<le> x \<longrightarrow> snd a \<le> y0 + ?t) \<and> (x \<le> fst a \<longrightarrow> y0 + ?t \<le> snd a)"
      if "a \<in> set (p # q # ps)" for a
    proof -
      have "a = p \<or> a = q \<or> (x1 < fst a \<and> y1 \<le> snd a)"
        using that r(3) by (auto simp: q rising_Cons)
      then show ?thesis using True r t ends by (auto simp: p q)
    qed
    ultimately show ?thesis by blast
  next
    case False
    with Cons.IH [of q] r(3) Cons.prems(3) obtain y where y: "interp_windows (q # ps) x = Some y"
      "\<forall>a\<in>set (q # ps). (fst a \<le> x \<longrightarrow> snd a \<le> y) \<and> (x \<le> fst a \<longrightarrow> y \<le> snd a)"
      by (auto simp: q outputs_ok_def)
    with False r show ?thesis by (auto simp: p q)
  qed
qed

lemma interp_between:
  assumes "rising ps" "ps \<noteq> []" "outputs_ok ps" "fst (hd ps) \<le> x"
  shows "\<exists>y. interp ps x = Some y \<and>
    (\<forall>q\<in>set ps. (fst q \<le> x \<longrightarrow> snd q \<le> y) \<and> (x \<le> fst q \<longrightarrow> y \<le> snd q))"
proof (cases "x = fst (hd ps)")
  case True
  obtain p qs where ps: "ps = p # qs" using assms(2) by (cases ps) auto
  have "interp ps x = Some (snd p)" using True by (simp add: interp_def ps)
  moreover have "\<forall>q\<in>set ps. (fst q \<le> x \<longrightarrow> snd q \<le> snd p) \<and> (x \<le> fst q \<longrightarrow> snd p \<le> snd q)"
    using assms(1) True by (auto simp: ps rising_Cons)
  ultimately show ?thesis by blast
next
  case False
  obtain p qs where ps: "ps = p # qs" using assms(2) by (cases ps) auto
  then show ?thesis
    using False assms interp_windows_between [of p qs x] by (auto simp: interp_def)
qed

lemma pinned_insert:
  assumes "pinned (us @ vs)" "us \<noteq> []" "vs \<noteq> []"
  shows "pinned (us @ ws @ vs)"
  using assms by (simp add: pinned_def)

lemma add_point_ok:
  assumes "curve_ok c" "input \<le> FULL"
  shows "\<exists>c'. add_point input c = Some c' \<and> curve_ok c'"
proof (cases "input \<in> fst ` set (pts c)")
  case True
  with assms show ?thesis by (simp add: add_point_def)
next
  case False
  have ok: "rising (pts c)" "pinned (pts c)" using assms by (simp_all add: curve_ok_def driver_valid_def)
  then have ne: "pts c \<noteq> []" "hd (pts c) = (0, 0)" "last (pts c) = (FULL, FULL)" by (simp_all add: pinned_def)
  obtain y where y: "interp (pts c) input = Some y"
      "\<forall>q\<in>set (pts c). (fst q \<le> input \<longrightarrow> snd q \<le> y) \<and> (input \<le> fst q \<longrightarrow> y \<le> snd q)"
    using interp_between [OF ok(1) ne(1) curve_ok_outputs [OF assms(1)], of input] ne(2) by auto
  define us vs where "us = takeWhile (\<lambda>p. fst p < input) (pts c)" and "vs = dropWhile (\<lambda>p. fst p < input) (pts c)"
  have split: "pts c = us @ vs" by (simp add: us_def vs_def)
  have us: "\<forall>p\<in>set us. fst p < input" by (auto simp: us_def dest: set_takeWhileD)
  have "hd (pts c) \<in> set (pts c)" "last (pts c) \<in> set (pts c)" using ne(1) by simp_all
  with False ne have "input \<noteq> 0" "input \<noteq> FULL" by force+
  then have "us \<noteq> []" using ne(1,2) by (cases "pts c") (auto simp: us_def)
  have "vs \<noteq> []"
  proof
    assume "vs = []"
    then have "FULL < input" using us ne split by (metis append_Nil2 fst_conv last_in_set)
    with assms(2) show False by simp
  qed
  have vs: "\<forall>p\<in>set vs. input < fst p"
  proof
    fix p assume "p \<in> set vs"
    obtain v rest where v: "vs = v # rest" using \<open>vs \<noteq> []\<close> by (cases vs) auto
    have "\<not> fst v < input" using v vs_def by (metis hd_dropWhile list.distinct(1) list.sel(1))
    moreover have "fst v \<noteq> input" using False split v by force
    ultimately have "input < fst v" by simp
    moreover have "fst v \<le> fst p" using ok(1) \<open>p \<in> set vs\<close> by (auto simp: split v rising_append rising_Cons)
    ultimately show "input < fst p" by simp
  qed
  let ?ps = "us @ [(input, y)] @ vs"
  have "fst p < input \<and> snd p \<le> y" if "p \<in> set us" for p
    using us y(2) that split by (auto intro: less_imp_le)
  moreover have "input < fst p \<and> y \<le> snd p" if "p \<in> set vs" for p
    using vs y(2) that split by (auto intro: less_imp_le)
  ultimately have "rising ?ps" using ok(1) [unfolded split] by (auto simp: rising_append rising_Cons)
  moreover have "pinned ?ps" using pinned_insert [OF ok(2) [unfolded split] \<open>us \<noteq> []\<close> \<open>vs \<noteq> []\<close>] .
  moreover have "add_point input c = Some (c\<lparr>pts := ?ps\<rparr>)"
  proof -
    have "insert_place (pts c) input = length us" by (simp add: insert_place_def us_def)
    then show ?thesis using False y(1) by (simp add: add_point_def split)
  qed
  ultimately show ?thesis using assms(1) by (simp add: curve_ok_def driver_valid_def)
qed

lemma remove_point_ok:
  assumes "curve_ok c" "i < length (pts c)"
  shows "\<exists>c'. remove_point i c = Some c' \<and> curve_ok c'"
proof (cases "i = 0 \<or> i = length (pts c) - 1 \<or> length (pts c) \<le> 2")
  case True
  with assms show ?thesis by (auto simp: remove_point_def)
next
  case False
  have ok: "rising (pts c)" "pinned (pts c)" using assms by (simp_all add: curve_ok_def driver_valid_def)
  let ?us = "take i (pts c)" and ?vs = "drop (Suc i) (pts c)"
  have split: "pts c = ?us @ [pts c ! i] @ ?vs" using assms(2) by (simp add: id_take_nth_drop)
  have ne: "?us \<noteq> []" "?vs \<noteq> []" using False assms(2) by auto
  have "rising (?us @ ?vs)" using ok(1) by (subst (asm) split) (auto simp: rising_append rising_Cons)
  moreover have "pinned (?us @ ?vs)" using ok(2) ne by (subst (asm) split) (simp add: pinned_def)
  ultimately show ?thesis
    using False assms by (auto simp: remove_point_def curve_ok_def driver_valid_def)
qed

lemma clamp_nat_bounds: "lo \<le> hi \<Longrightarrow> lo \<le> clamp_nat lo hi x \<and> clamp_nat lo hi x \<le> hi"
  by (simp add: clamp_nat_def)

lemma rising_update:
  assumes "rising (us @ [a, b, d] @ vs)" "fst a < fst b'" "fst b' < fst d" "snd a \<le> snd b'" "snd b' \<le> snd d"
  shows "rising (us @ [a, b', d] @ vs)"
  using assms unfolding rising_append by (fastforce simp: rising_Cons)

lemma split3:
  assumes "0 < i" "i < length xs - 1"
  shows "xs = take (i - 1) xs @ [xs ! (i - 1), xs ! i, xs ! (i + 1)] @ drop (i + 2) xs"
proof -
  have "drop (i - 1) xs = xs ! (i - 1) # xs ! i # xs ! (i + 1) # drop (i + 2) xs"
    using assms Cons_nth_drop_Suc [of "i - 1" xs] Cons_nth_drop_Suc [of i xs] Cons_nth_drop_Suc [of "i + 1" xs]
    by simp
  then show ?thesis using append_take_drop_id [of "i - 1" xs] by simp
qed

lemma move_point_ok:
  assumes "curve_ok c" "i < length (pts c)"
  shows "\<exists>c'. move_point i input output c = Some c' \<and> curve_ok c'"
proof (cases "i = 0 \<or> i = length (pts c) - 1")
  case True
  with assms show ?thesis by (auto simp: move_point_def curve_ok_def driver_valid_def pinned_def)
next
  case False
  have ok: "rising (pts c)" "pinned (pts c)" using assms by (simp_all add: curve_ok_def driver_valid_def)
  have i: "0 < i" "i < length (pts c) - 1" using False assms(2) by auto
  define us a b d vs where "us = take (i - 1) (pts c)" and "a = pts c ! (i - 1)" and "b = pts c ! i"
    and "d = pts c ! (i + 1)" and "vs = drop (i + 2) (pts c)"
  have split: "pts c = us @ [a, b, d] @ vs" using split3 [OF i] by (simp add: us_def a_def b_def d_def vs_def)
  have len: "length us = i - 1" using i by (simp add: us_def)
  have ab: "fst a < fst b" "fst b < fst d" "snd a \<le> snd d"
    using ok(1) unfolding split rising_append by (auto simp: rising_Cons)
  let ?in = "clamp_nat (fst a + 1) (nat (int (fst d) - 1)) input"
  let ?out = "clamp_nat (snd a) (snd d) output"
  have in_b: "fst a + 1 \<le> ?in \<and> ?in \<le> fst d - 1"
    using clamp_nat_bounds [of "fst a + 1" "nat (int (fst d) - 1)" input] ab by (simp add: nat_diff_distrib)
  have out_b: "snd a \<le> ?out \<and> ?out \<le> snd d" by (rule clamp_nat_bounds [OF ab(3)])
  obtain j where j: "i = Suc j" using i(1) gr0_conv_Suc by blast
  have upd: "(pts c)[i := p] = us @ [a, p, d] @ vs" for p
    using len by (simp add: split j list_update_append)
  have "rising ((pts c)[i := (?in, ?out)])"
    unfolding upd by (rule rising_update [OF ok(1) [unfolded split]]) (use in_b out_b ab in auto)
  moreover have "pinned (us @ [a, p, d] @ vs)" for p
    using ok(2) [unfolded split] by (cases us) (simp_all add: pinned_def)
  then have "pinned ((pts c)[i := (?in, ?out)])" unfolding upd .
  moreover have "move_point i input output c = Some (c\<lparr>pts := (pts c)[i := (?in, ?out)]\<rparr>)"
    using False i ab by (auto simp: move_point_def Let_def a_def b_def d_def)
  ultimately show ?thesis using assms(1) by (simp add: curve_ok_def driver_valid_def)
qed

lemma deadzones_ok:
  assumes "curve_ok c"
  shows "curve_ok (set_lower_deadzone v c)" "curve_ok (set_upper_deadzone v c)"
  using assms by (auto simp: curve_ok_def set_lower_deadzone_def set_upper_deadzone_def)

lemma linear_ok: "curve_ok (from_value None)"
  by (simp add: curve_ok_def from_value_def driver_valid_def pinned_def rising_def FULL_def)

section \<open>An editing session\<close>

text \<open>The edits a frontend makes. A refused (panicking) edit ends the session, so it leaves the
  curve as it was.\<close>

datatype curve_edit = AddPoint u16 | RemovePoint nat | MovePoint nat u16 u16 | LowerDz u8 | UpperDz u8

fun apply_edit :: "curve_edit \<Rightarrow> Curve \<Rightarrow> Curve option" where
  "apply_edit (AddPoint x) c = add_point (unat x) c"
| "apply_edit (RemovePoint i) c = remove_point i c"
| "apply_edit (MovePoint i x y) c = move_point i (unat x) (unat y) c"
| "apply_edit (LowerDz v) c = Some (set_lower_deadzone (unat v) c)"
| "apply_edit (UpperDz v) c = Some (set_upper_deadzone (unat v) c)"

definition edit_step :: "Curve \<Rightarrow> curve_edit \<Rightarrow> bool \<times> Curve" where
  "edit_step c e = (case apply_edit e c of None \<Rightarrow> (False, c) | Some c' \<Rightarrow> (True, c'))"

fun edit_in_range :: "curve_edit \<Rightarrow> Curve \<Rightarrow> bool" where
  "edit_in_range (RemovePoint i) c = (i < length (pts c))"
| "edit_in_range (MovePoint i x y) c = (i < length (pts c))"
| "edit_in_range _ c = True"

lemma apply_edit_ok:
  assumes "curve_ok c" "edit_in_range e c"
  shows "\<exists>c'. apply_edit e c = Some c' \<and> curve_ok c'"
  using assms add_point_ok remove_point_ok move_point_ok deadzones_ok
  by (cases e) (simp_all add: FULL_def)

lemma apply_edit_refused:
  assumes "curve_ok c" "\<not> edit_in_range e c"
  shows "apply_edit e c = Some c \<or> apply_edit e c = None"
  using assms by (cases e) (auto simp: remove_point_def move_point_def Let_def)

interpretation edits: invariant_steps edit_step curve_ok
proof
  fix c e r c'
  assume "curve_ok c" "edit_step c e = (r, c')"
  then show "curve_ok c'"
    using apply_edit_ok [of c e] apply_edit_refused [of c e]
    by (cases "edit_in_range e c") (auto simp: edit_step_def split: option.splits)
qed


definition demo_edits :: "curve_edit list" where
  "demo_edits = [LowerDz 10, UpperDz 5, AddPoint 32768, MovePoint 1 20000 50000]"


text \<open>While the first inner control point does not fold onto the edge of the lower deadzone,
  the uploaded curve answers zero over the whole deadzone.\<close>

theorem lower_deadzone_is_flat:
  assumes "curve_ok c" "0 < lower_dz c" "band_lo c < fst (band_pts c ! 1)"
    "compose c = Some out" "x \<le> band_lo c"
  shows "interp out x = Some 0"
proof -
  obtain rest where "out = (0, 0) # (band_lo c, 0) # rest" using compose_lower_flat [OF assms(1-3)] assms(4) by auto
  then show ?thesis using assms(5) by (simp add: interp_def)
qed

text \<open>The bounded curve of the witnesses: a lower deadzone of ten percent and one inner point.\<close>

definition demo_curve :: "nat \<Rightarrow> Curve" where
  "demo_curve x = \<lparr>pts = [(0, 0), (x, 60000), (65535, 65535)], lower_dz = 10, upper_dz = 0\<rparr>"

lemma demo_curve_ok: "0 < x \<Longrightarrow> x < 65535 \<Longrightarrow> curve_ok (demo_curve x)"
  by (simp add: curve_ok_def demo_curve_def driver_valid_def pinned_def rising_def FULL_def)

lemma demo_curve_points:
  "compose_points (demo_curve 32650) 6553 58982 = [(0, 0), (6553, 0), (35938, 60000), (65535, 65535)]"
  "compose_points (demo_curve 1) 6553 58982 = [(0, 0), (6553, 60000), (65535, 65535)]"
  by (simp_all add: compose_points_def demo_curve_def map_input_def FULL_def) (simp_all add: push_pt_def)

lemma demo_curve_compose:
  "compose (demo_curve x) = Some (pin_ends (compose_points (demo_curve x) 6553 58982))"
  by (simp add: compose_def demo_curve_def FULL_def)

theorem lower_deadzone_is_flat_witness:
  "interp [(0, 0), (6553, 0), (35938, 60000), (65535, 65535)] 6000 = Some 0"
proof (rule lower_deadzone_is_flat [OF demo_curve_ok [of 32650]])
  show "compose (demo_curve 32650) = Some [(0, 0), (6553, 0), (35938, 60000), (65535, 65535)]"
    by (simp add: demo_curve_compose demo_curve_points pin_ends_def push_pt_def FULL_def)
qed (simp_all add: demo_curve_def band_lo_def band_hi_def band_pts_def map_input_def FULL_def)

text \<open>Where it folds, the deadzone is lost: a control point one step from the origin lifts the
  edge of the deadzone to its own output, and half way into the deadzone the axis already
  answers half of that.\<close>

theorem folded_point_lifts_the_deadzone:
  "curve_ok (demo_curve 1) \<and> band_lo (demo_curve 1) = 6553 \<and>
   compose (demo_curve 1) = Some [(0, 0), (6553, 60000), (65535, 65535)] \<and>
   interp [(0, 0), (6553, 60000), (65535, 65535)] 3276 = Some 29995"
  by (simp add: demo_curve_ok demo_curve_compose demo_curve_points [unfolded One_nat_def] pin_ends_def interp_def FULL_def)
    (simp add: demo_curve_def band_lo_def FULL_def)

text \<open>Points read back by \<open>from_value\<close> are not checked: a list whose outputs fall composes to a
  list whose outputs fall, which the driver refuses.\<close>

theorem unchecked_points_reach_the_driver:
  "compose (from_value (Some [(0, 0), (100, 50000), (200, 10), (65535, 65535)])) =
     Some [(0, 0), (100, 50000), (200, 10), (65535, 65535)] \<and>
   \<not> driver_valid [(0, 0), (100, 50000), (200, 10), (65535, 65535)]"
proof -
  have "compose_points (from_value (Some [(0, 0), (100, 50000), (200, 10), (65535, 65535)])) 0 65535 =
      [(0, 0), (100, 50000), (200, 10), (65535, 65535)]"
    by (simp add: compose_points_def from_value_def map_input_def FULL_def) (simp add: push_pt_def)
  then show ?thesis
    by (simp add: compose_def from_value_def FULL_def driver_valid_def rising_def)
      (simp add: pin_ends_def FULL_def)
qed

end
