(* ===== verification/Text.thy ===== *)
theory Text
  imports Prelude
begin

text \<open>
  Rust's text functions that the settings library of \<open>logi-wheel-core\<close> uses: splitting at
  white space and at a separator, joining, signed decimal numbers, two-digit hexadecimal
  bytes and the count of characters of a UTF-8 byte string, with the round trips between
  printing and reading. Results are sums with the error on the left; \<open>and_then\<close> is
  \<open>Result::and_then\<close> (the question mark of a Rust body) and \<open>ok_or\<close> is \<open>Option::ok_or\<close>.
\<close>

section \<open>Results\<close>

definition and_then :: "'e + 'a \<Rightarrow> ('a \<Rightarrow> 'e + 'b) \<Rightarrow> 'e + 'b" where
  "and_then r f = (case r of Inl e \<Rightarrow> Inl e | Inr x \<Rightarrow> f x)"

definition ok_or :: "'e \<Rightarrow> 'a option \<Rightarrow> 'e + 'a" where
  "ok_or e x = (case x of None \<Rightarrow> Inl e | Some y \<Rightarrow> Inr y)"

definition to_ok :: "'e + 'a \<Rightarrow> 'a option" where
  "to_ok r = (case r of Inl e \<Rightarrow> None | Inr x \<Rightarrow> Some x)"

lemma and_then_simps [simp]: "and_then (Inl e) f = Inl e" "and_then (Inr x) f = f x"
  by (simp_all add: and_then_def)

lemma ok_or_simps [simp]: "ok_or e None = Inl e" "ok_or e (Some x) = Inr x"
  by (simp_all add: ok_or_def)

lemma to_ok_simps [simp]: "to_ok (Inl e) = None" "to_ok (Inr x) = Some x"
  by (simp_all add: to_ok_def)

lemma and_then_eq_Inr: "and_then r f = Inr y \<longleftrightarrow> (\<exists>x. r = Inr x \<and> f x = Inr y)"
  by (cases r) simp_all

lemma ok_or_eq_Inr [simp]: "ok_or e x = Inr y \<longleftrightarrow> x = Some y"
  by (cases x) simp_all

text \<open>\<open>iter.map(f).collect::<Result<Vec<_>, _>>()\<close>: the first error wins.\<close>

fun collect_results :: "('a \<Rightarrow> 'e + 'b) \<Rightarrow> 'a list \<Rightarrow> 'e + 'b list" where
  "collect_results f [] = Inr []"
| "collect_results f (x # xs) = and_then (f x) (\<lambda>y. and_then (collect_results f xs) (\<lambda>ys. Inr (y # ys)))"

lemma collect_results_map: "(\<And>x. x \<in> set xs \<Longrightarrow> f (g x) = Inr x) \<Longrightarrow> collect_results f (map g xs) = Inr xs"
  by (induction xs) simp_all

lemma collect_results_length: "collect_results f xs = Inr ys \<Longrightarrow> length ys = length xs"
  by (induction xs arbitrary: ys) (auto simp: and_then_eq_Inr)

section \<open>White space, splitting and joining\<close>

lemma trim_ends:
  assumes "s \<noteq> [] \<Longrightarrow> \<not> is_space (hd s) \<and> \<not> is_space (last s)"
  shows "trim s = s"
proof (cases "s = []")
  case True
  then show ?thesis by (simp add: trim_def trim_start_def trim_end_def)
next
  case False
  then have "dropWhile is_space s = s" "dropWhile is_space (rev s) = rev s"
    using assms by (simp_all add: dropWhile_eq_self_iff hd_rev)
  then show ?thesis by (simp add: trim_def trim_start_def trim_end_def)
qed

definition plain :: "string \<Rightarrow> bool" where
  "plain s \<longleftrightarrow> s \<noteq> [] \<and> (\<forall>c\<in>set s. \<not> is_space c)"

lemma plain_trim [simp]: "plain s \<Longrightarrow> trim s = s"
  by (rule trim_ends) (simp add: plain_def)

lemma plain_append [simp]: "plain a \<Longrightarrow> plain b \<Longrightarrow> plain (a @ b)"
  by (auto simp: plain_def)

lemma trim_hd_last:
  assumes "trim s = t" "t \<noteq> []"
  shows "\<not> is_space (hd t)" "\<not> is_space (last t)"
proof -
  let ?u = "dropWhile is_space s" and ?v = "dropWhile is_space (rev (dropWhile is_space s))"
  have t: "t = rev ?v" using assms by (simp add: trim_def trim_start_def trim_end_def)
  then have "?v \<noteq> []" using assms(2) by simp
  then show "\<not> is_space (last t)" using t hd_dropWhile by (metis last_rev)
  have "?u \<noteq> []" using \<open>?v \<noteq> []\<close> by (metis dropWhile.simps(1) rev.simps(1))
  have "rev ?u = takeWhile is_space (rev ?u) @ ?v" by simp
  then have "?u = t @ rev (takeWhile is_space (rev ?u))" using t by (metis rev_append rev_rev_ident)
  then have "hd t = hd ?u" using assms(2) by (metis hd_append2)
  with \<open>?u \<noteq> []\<close> show "\<not> is_space (hd t)" using hd_dropWhile by metis
qed

lemma trim_trim [simp]: "trim (trim s) = trim s"
  by (rule trim_ends) (use trim_hd_last [OF refl, of s] in simp)

lemma trim_newline [simp]: "trim (trim s @ [newline]) = trim s"
proof -
  have sp: "is_space newline" by (simp add: is_space_def)
  show ?thesis
  proof (cases "trim s = []")
    case True
    then show ?thesis using sp by (simp add: trim_def [of "[newline]"] trim_start_def trim_end_def)
  next
    case False
    have "\<not> is_space (hd (trim s))" "\<not> is_space (last (trim s))" using trim_hd_last [OF refl False] .
    then have "dropWhile is_space (trim s @ [newline]) = trim s @ [newline]"
      "dropWhile is_space (rev (trim s)) = rev (trim s)"
      using False by (simp_all add: dropWhile_eq_self_iff hd_rev hd_append)
    then show ?thesis using sp by (simp add: trim_def [of "trim s @ [newline]"] trim_start_def trim_end_def)
  qed
qed

fun split_on :: "(char \<Rightarrow> bool) \<Rightarrow> string \<Rightarrow> string list" where
  "split_on P [] = [[]]"
| "split_on P (x # xs) =
     (if P x then [] # split_on P xs
      else case split_on P xs of [] \<Rightarrow> [[x]] | l # ls \<Rightarrow> (x # l) # ls)"

definition split_whitespace :: "string \<Rightarrow> string list" where
  "split_whitespace s = filter (\<lambda>t. t \<noteq> []) (split_on is_space s)"

fun join :: "string \<Rightarrow> string list \<Rightarrow> string" where
  "join sep [] = []"
| "join sep [x] = x"
| "join sep (x # y # zs) = x @ sep @ join sep (y # zs)"

lemma split_on_nonempty [simp]: "split_on P s \<noteq> []"
  by (induction P s rule: split_on.induct) (auto split: list.splits)

lemma split_on_none: "\<forall>c\<in>set s. \<not> P c \<Longrightarrow> split_on P s = [s]"
  by (induction s) auto

lemma split_on_append: "P c \<Longrightarrow> split_on P (u @ c # v) = split_on P u @ split_on P v"
proof (induction u)
  case (Cons x u)
  then show ?case by (cases "split_on P u") auto
qed simp

lemma split_whitespace_join: "\<forall>t\<in>set ts. plain t \<Longrightarrow> split_whitespace (join '' '' ts) = ts"
proof (induction ts rule: induct_list012)
qed (auto simp: split_whitespace_def plain_def split_on_none split_on_append is_space_def)

lemma join_plain_ends:
  "\<forall>t\<in>set ts. plain t \<Longrightarrow> ts \<noteq> [] \<Longrightarrow>
   join sep ts \<noteq> [] \<and> hd (join sep ts) = hd (hd ts) \<and> last (join sep ts) = last (last ts)"
  by (induction sep ts rule: join.induct) (auto simp: plain_def)

lemma trim_join: "\<forall>t\<in>set ts. plain t \<Longrightarrow> trim (join sep ts) = join sep ts"
proof (rule trim_ends)
  assume ts: "\<forall>t\<in>set ts. plain t" and ne: "join sep ts \<noteq> []"
  then have "ts \<noteq> []" by auto
  with ts have "plain (hd ts)" "plain (last ts)" by simp_all
  then show "\<not> is_space (hd (join sep ts)) \<and> \<not> is_space (last (join sep ts))"
    using join_plain_ends [OF ts \<open>ts \<noteq> []\<close>, of sep] by (simp add: plain_def)
qed

fun split_once :: "char \<Rightarrow> string \<Rightarrow> (string \<times> string) option" where
  "split_once c [] = None"
| "split_once c (x # xs) =
     (if x = c then Some ([], xs) else map_option (\<lambda>(a, b). (x # a, b)) (split_once c xs))"

lemma split_once_append [simp]: "c \<notin> set a \<Longrightarrow> split_once c (a @ c # b) = Some (a, b)"
  by (induction a) auto

lemma split_once_none [simp]: "c \<notin> set s \<Longrightarrow> split_once c s = None"
  by (induction s) auto

lemma split_once_SomeD: "split_once c s = Some (a, b) \<Longrightarrow> s = a @ c # b \<and> c \<notin> set a"
  by (induction c s arbitrary: a rule: split_once.induct) (auto split: if_splits)

section \<open>Numbers\<close>

definition is_digit :: "char \<Rightarrow> bool" where
  "is_digit c \<longleftrightarrow> digit_val c \<noteq> None"

lemma is_digit_code: "is_digit c \<longleftrightarrow> 48 \<le> (of_char c :: nat) \<and> (of_char c :: nat) \<le> 57"
  by (simp add: is_digit_def digit_val_def Let_def)

lemma is_digit_not_space: "is_digit c \<Longrightarrow> \<not> is_space c"
  by (auto simp: is_digit_code is_space_def Let_def)

lemma dec_nat_digits: "c \<in> set (dec_nat n) \<Longrightarrow> is_digit c"
proof (induction n rule: dec_nat.induct)
  case (1 n)
  have d: "is_digit (digit_char k)" if "k < 10" for k using that by (simp add: is_digit_def)
  show ?case
  proof (cases "n < 10")
    case True
    with 1 d [of n] show ?thesis by (simp add: dec_nat.simps [of n])
  next
    case False
    with 1 d [of "n mod 10"] show ?thesis by (auto simp: dec_nat.simps [of n])
  qed
qed

lemma plain_dec_nat [simp]: "plain (dec_nat n)"
  using dec_nat_digits is_digit_not_space by (auto simp: plain_def)

lemma dec_nat_no [simp]:
  "CHR '':'' \<notin> set (dec_nat n)" "CHR ''/'' \<notin> set (dec_nat n)" "CHR ''='' \<notin> set (dec_nat n)"
  "newline \<notin> set (dec_nat n)" "CHR ''+'' \<notin> set (dec_nat n)" "CHR ''-'' \<notin> set (dec_nat n)"
  using dec_nat_digits by (force simp: is_digit_code)+

lemma strip_plus_dec_nat [simp]: "strip_plus (dec_nat n) = dec_nat n"
proof -
  have "hd (dec_nat n) \<noteq> CHR ''+''" using dec_nat_no(5) [of n] by (metis dec_nat_nonempty hd_in_set)
  then show ?thesis by (cases "dec_nat n") (auto simp: strip_plus_def)
qed

lemma parse_unsigned_dec_nat [simp]:
  "parse_unsigned hi (dec_nat n) = (if n \<le> hi then Some n else None)"
  by (simp add: parse_unsigned_def parse_dec_nat in_range_def)

lemma parse_unsigned_bound: "parse_unsigned hi s = Some n \<Longrightarrow> n \<le> hi"
  by (auto simp: parse_unsigned_def in_range_def Let_def split: if_splits option.splits)

text \<open>\<open>str::parse\<close> of a signed type: one optional sign, at least one digit, then the range.\<close>

definition dec_int :: "int \<Rightarrow> string" where
  "dec_int i = (if i < 0 then CHR ''-'' # dec_nat (nat (- i)) else dec_nat (nat i))"

definition parse_signed :: "int \<Rightarrow> int \<Rightarrow> string \<Rightarrow> int option" where
  "parse_signed lo hi s =
     (let neg = (s \<noteq> [] \<and> hd s = CHR ''-''); d = (if neg then tl s else strip_plus s)
      in if d = [] then None
         else case parse_digits 0 d of None \<Rightarrow> None
           | Some n \<Rightarrow> let i = (if neg then - int n else int n) in if lo \<le> i \<and> i \<le> hi then Some i else None)"

lemma plain_dec_int [simp]: "plain (dec_int i)"
  using plain_dec_nat by (auto simp: dec_int_def plain_def is_space_def)

lemma parse_signed_dec_int [simp]:
  "parse_signed lo hi (dec_int i) = (if lo \<le> i \<and> i \<le> hi then Some i else None)"
proof (cases "i < 0")
  case True
  then show ?thesis by (simp add: parse_signed_def dec_int_def parse_dec_nat)
next
  case False
  have "hd (dec_nat (nat i)) \<noteq> CHR ''-''" using dec_nat_no(6) [of "nat i"] by (metis dec_nat_nonempty hd_in_set)
  with False show ?thesis by (simp add: parse_signed_def dec_int_def parse_dec_nat)
qed

lemma parse_signed_dec_nat [simp]:
  "parse_signed lo hi (dec_nat n) = (if lo \<le> int n \<and> int n \<le> hi then Some (int n) else None)"
  using parse_signed_dec_int [of lo hi "int n"] by (simp add: dec_int_def)

lemma parse_signed_bound: "parse_signed lo hi s = Some i \<Longrightarrow> lo \<le> i \<and> i \<le> hi"
  by (auto simp: parse_signed_def Let_def split: if_splits option.splits)

text \<open>\<open>{:02x}\<close> of a byte.\<close>

definition hex2 :: "u8 \<Rightarrow> string" where
  "hex2 b = (let n = unat b in [hex_char (n div 16), hex_char (n mod 16)])"

lemma length_hex2 [simp]: "length (hex2 b) = 2"
  by (simp add: hex2_def Let_def)

lemma hex2_nibbles: "unat (b :: u8) div 16 < 16" "unat (b :: u8) mod 16 < 16"
  using unat_u8_less [of b] by (auto intro: less_mult_imp_div_less)

lemma parse_hex2 [simp]: "parse_hex_unsigned 255 (hex2 b) = Some (unat b)"
proof -
  note n = hex2_nibbles [of b]
  have "parse_hex_digits 0 (hex2 b) = Some (unat b)" using n by (simp add: hex2_def Let_def)
  moreover have "strip_plus (hex2 b) = hex2 b" "hex2 b \<noteq> []"
    using hex_char_not_plus [OF n(1)] by (simp_all add: hex2_def strip_plus_def Let_def)
  moreover have "unat b \<le> 255" using unat_u8_less [of b] by linarith
  ultimately show ?thesis by (simp add: parse_hex_unsigned_def in_range_def Let_def)
qed

lemma hex2_chars: "c \<in> set (hex2 b) \<Longrightarrow> \<not> is_space c \<and> (of_char c :: nat) < 128"
  using hex2_nibbles [of b] by (auto simp: hex2_def Let_def is_space_def of_char_hex_char split: if_splits)

text \<open>\<open>str::is_ascii\<close>, and \<open>s.chars().count()\<close> of a UTF-8 byte string: continuation bytes do
  not start a character.\<close>

definition is_ascii :: "string \<Rightarrow> bool" where
  "is_ascii s \<longleftrightarrow> (\<forall>c\<in>set s. (of_char c :: nat) < 128)"

definition chars_count :: "string \<Rightarrow> nat" where
  "chars_count s = length (filter (\<lambda>c. \<not> (128 \<le> (of_char c :: nat) \<and> (of_char c :: nat) < 192)) s)"

lemma chars_count_ascii: "is_ascii s \<Longrightarrow> chars_count s = length s"
  by (auto simp: chars_count_def is_ascii_def intro!: arg_cong [where f = length] filter_True)

lemma chars_count_le: "chars_count s \<le> length s"
  by (simp add: chars_count_def)

fun replace_char :: "char \<Rightarrow> string \<Rightarrow> string \<Rightarrow> string" where
  "replace_char c r [] = []"
| "replace_char c r (x # xs) = (if x = c then r @ replace_char c r xs else x # replace_char c r xs)"

lemma replace_char_removes: "c \<notin> set r \<Longrightarrow> c \<notin> set (replace_char c r s)"
  by (induction s) auto

end
