(* ===== verification/Values.thy ===== *)
theory Values
  imports Text
begin

text \<open>
  Setting values and their kinds: \<open>value.rs\<close>, \<open>kind.rs\<close> and \<open>error.rs\<close> of
  \<open>logi-wheel-core\<close>. A kind reads an attribute's text into a value, writes a value as text,
  checks a value and renders it. Kind constructors carry a \<open>K\<close>, value constructors a \<open>V\<close>.
  An operating-system error is its raw number, if it has one, and its message.
\<close>

section \<open>Errors\<close>

datatype Mode = Desktop | Onboard

datatype Error = NoWheel | Io string | WrongMode Mode | Unsupported | OutOfRange | Invalid | Parse string

datatype io_error = IoError (raw_os_error: "int option") (io_message: string)

definition mode_debug :: "Mode \<Rightarrow> string" where
  "mode_debug m = (case m of Desktop \<Rightarrow> ''Desktop'' | Onboard \<Rightarrow> ''Onboard'')"

definition error_display :: "Error \<Rightarrow> string" where
  "error_display e = (case e of
       NoWheel \<Rightarrow> ''no wheel found (driver loaded and bound?)''
     | Io s \<Rightarrow> ''sysfs error: '' @ s
     | WrongMode needed \<Rightarrow> ''needs '' @ mode_debug needed @ '' mode''
     | Unsupported \<Rightarrow> ''not supported on this wheel/firmware''
     | OutOfRange \<Rightarrow> ''value out of range''
     | Invalid \<Rightarrow> ''invalid value''
     | Parse s \<Rightarrow> ''could not read value: '' @ s)"

definition onboard_only :: "string \<Rightarrow> bool" where
  "onboard_only attr \<longleftrightarrow> attr = ''wheel_brake_force''"

definition map_io_error :: "io_error \<Rightarrow> string \<Rightarrow> Error" where
  "map_io_error e attr =
     (if raw_os_error e = Some 1 then WrongMode (if onboard_only attr then Onboard else Desktop)
      else if raw_os_error e = Some 95 then Unsupported
      else if raw_os_error e = Some 34 then OutOfRange
      else if raw_os_error e = Some 22 then Invalid
      else Io (io_message e))"

section \<open>Values\<close>

record Color =
  col_r :: u8
  col_g :: u8
  col_b :: u8

definition to_hex :: "Color \<Rightarrow> string" where
  "to_hex c = hex2 (col_r c) @ hex2 (col_g c) @ hex2 (col_b c)"

definition hex_byte :: "string \<Rightarrow> nat \<Rightarrow> Error + u8" where
  "hex_byte s i = ok_or Invalid (map_option word_of_nat (parse_hex_unsigned 255 (take 2 (drop i s))))"

definition from_hex :: "string \<Rightarrow> Error + Color" where
  "from_hex s0 =
     (let s = trim s0 in
      if length s \<noteq> 6 \<or> \<not> is_ascii s then Inl Invalid
      else and_then (hex_byte s 0) (\<lambda>r0. and_then (hex_byte s 2) (\<lambda>g0. and_then (hex_byte s 4) (\<lambda>b0.
        Inr \<lparr>col_r = r0, col_g = g0, col_b = b0\<rparr>))))"

datatype Value =
    VPercent u8
  | VInt i32
  | VEnum u8
  | VBool bool
  | VText string
  | VRgb "Color list"
  | VCurve "(u16 \<times> u16) list"
  | VCurveLoaded u16
  | VPair u8 u8
  | VTrigger
  | VSlotNames "string list"
  | VSlotName u8 string
  | VRpmFeed u32 u32 u32

datatype Kind =
    KPercent
  | KIntRange int int int string
  | KEnum "string list"
  | KScaledPercent u32
  | KToggle string string
  | KTextField nat
  | KRgbStrip nat
  | KCurve
  | KPair u8
  | KAction
  | KSlotText u8 nat
  | KRpmFeed

abbreviation parse_u8 :: "string \<Rightarrow> u8 option" where
  "parse_u8 s \<equiv> map_option word_of_nat (parse_unsigned 255 s)"
abbreviation parse_u16 :: "string \<Rightarrow> u16 option" where
  "parse_u16 s \<equiv> map_option word_of_nat (parse_unsigned 65535 s)"
abbreviation parse_u32 :: "string \<Rightarrow> u32 option" where
  "parse_u32 s \<equiv> map_option word_of_nat (parse_unsigned 4294967295 s)"
abbreviation parse_usize :: "string \<Rightarrow> nat option" where
  "parse_usize s \<equiv> parse_unsigned 18446744073709551615 s"
abbreviation parse_i32 :: "string \<Rightarrow> int option" where
  "parse_i32 s \<equiv> parse_signed (- 2147483648) 2147483647 s"
abbreviation parse_i64 :: "string \<Rightarrow> int option" where
  "parse_i64 s \<equiv> parse_signed (- 9223372036854775808) 9223372036854775807 s"

section \<open>Reading\<close>

definition parse_points_loaded :: "string \<Rightarrow> (u16 \<times> u16) option" where
  "parse_points_loaded raw =
     (case split_whitespace raw of [] \<Rightarrow> None
      | head # _ \<Rightarrow> do {
          (loaded, total) \<leftarrow> split_once (CHR ''/'') head;
          l \<leftarrow> parse_u16 (trim loaded);
          m \<leftarrow> parse_u16 (trim total);
          Some (l, m) })"

definition parse_point :: "string \<Rightarrow> Error + (u16 \<times> u16)" where
  "parse_point tok =
     and_then (ok_or (Parse tok) (split_once (CHR '':'') tok)) (\<lambda>(a, b).
     and_then (ok_or (Parse tok) (parse_u16 a)) (\<lambda>inp.
     and_then (ok_or (Parse tok) (parse_u16 b)) (\<lambda>out. Inr (inp, out))))"

definition parse_curve :: "string \<Rightarrow> Error + Value" where
  "parse_curve raw =
     (case parse_points_loaded raw of
        Some (loaded, _) \<Rightarrow> Inr (if loaded = 0 then VCurve [] else VCurveLoaded loaded)
      | None \<Rightarrow>
          if raw = ''reset'' \<or> raw = [] then Inr (VCurve [])
          else and_then (collect_results parse_point (split_whitespace raw)) (\<lambda>pts. Inr (VCurve pts)))"

definition parse_pair :: "u8 \<Rightarrow> string \<Rightarrow> Error + Value" where
  "parse_pair mx raw =
     (case split_whitespace raw of
        [lower, upper] \<Rightarrow>
          and_then (ok_or (Parse raw) (parse_u8 lower)) (\<lambda>lo.
          and_then (ok_or (Parse raw) (parse_u8 upper)) (\<lambda>up.
            if unat mx < unat lo + unat up then Inl OutOfRange else Inr (VPair lo up)))
      | _ \<Rightarrow> Inl (Parse raw))"

definition slot_line :: "nat \<Rightarrow> string list \<Rightarrow> string \<Rightarrow> Error + string list" where
  "slot_line slots names line0 =
     (let line = trim line0 in
      if line = [] then Inr names
      else and_then (ok_or (Parse line) (split_once (CHR '':'') line)) (\<lambda>(n, rest).
        and_then (ok_or (Parse line) (parse_usize (trim n))) (\<lambda>idx.
          Inr (if 1 \<le> idx \<and> idx \<le> slots then names[idx - 1 := trim rest] else names))))"

fun slot_lines :: "nat \<Rightarrow> string list \<Rightarrow> string list \<Rightarrow> Error + string list" where
  "slot_lines slots names [] = Inr names"
| "slot_lines slots names (l # ls) = and_then (slot_line slots names l) (\<lambda>names'. slot_lines slots names' ls)"

definition rpm_field :: "string \<Rightarrow> string list \<Rightarrow> Error + (u32 \<times> string list)" where
  "rpm_field raw it =
     (case it of [] \<Rightarrow> Inl (Parse raw) | t # rest \<Rightarrow> ok_or (Parse raw) (map_option (\<lambda>n. (n, rest)) (parse_u32 t)))"

definition parse_rpm :: "string \<Rightarrow> Error + Value" where
  "parse_rpm raw =
     and_then (rpm_field raw (split_whitespace raw)) (\<lambda>(rpm, it1).
     and_then (rpm_field raw it1) (\<lambda>(max_rpm, it2).
     and_then (rpm_field raw it2) (\<lambda>(age_ms, _). Inr (VRpmFeed rpm max_rpm age_ms))))"

definition kind_parse :: "Kind \<Rightarrow> string \<Rightarrow> Error + Value" where
  "kind_parse k raw0 =
     (let raw = trim raw0 in
      case k of
        KPercent \<Rightarrow> and_then (ok_or (Parse raw) (parse_i32 raw)) (\<lambda>n.
          if 0 \<le> n \<and> n \<le> 100 then Inr (VPercent (word_of_int n)) else Inl OutOfRange)
      | KIntRange lo hi _ _ \<Rightarrow> and_then (ok_or (Parse raw) (parse_i32 raw)) (\<lambda>n.
          if n < lo \<or> hi < n then Inl OutOfRange else Inr (VInt (word_of_int n)))
      | KEnum variants \<Rightarrow> and_then (ok_or (Parse raw) (parse_usize raw)) (\<lambda>n.
          if length variants \<le> n then Inl OutOfRange else Inr (VEnum (word_of_nat n)))
      | KScaledPercent raw_max \<Rightarrow>
          if raw_max = 0 then Inl Invalid
          else and_then (ok_or (Parse raw) (parse_i64 raw)) (\<lambda>n.
            if n < 0 \<or> uint raw_max < n then Inl OutOfRange
            else Inr (VPercent (word_of_nat ((nat n * 100 + unat raw_max div 2) div unat raw_max))))
      | KToggle _ _ \<Rightarrow> if raw = ''0'' then Inr (VBool False) else if raw = ''1'' then Inr (VBool True) else Inl (Parse raw)
      | KTextField max_len \<Rightarrow> if max_len < chars_count raw then Inl Invalid else Inr (VText raw)
      | KRgbStrip leds \<Rightarrow> and_then (collect_results from_hex (split_whitespace raw)) (\<lambda>cs.
          if length cs \<noteq> leds then Inl Invalid else Inr (VRgb cs))
      | KCurve \<Rightarrow> parse_curve raw
      | KPair mx \<Rightarrow> parse_pair mx raw
      | KAction \<Rightarrow> Inr VTrigger
      | KSlotText slots _ \<Rightarrow> and_then (slot_lines (unat slots) (replicate (unat slots) []) (lines raw)) (\<lambda>names.
          Inr (VSlotNames names))
      | KRpmFeed \<Rightarrow> parse_rpm raw)"

section \<open>Writing, checking and rendering\<close>

definition format_point :: "u16 \<times> u16 \<Rightarrow> string" where
  "format_point p = dec_nat (unat (fst p)) @ '':'' @ dec_nat (unat (snd p))"

definition curve_loaded_message :: "u16 \<Rightarrow> string" where
  "curve_loaded_message n = dec_nat (unat n) @
     '' curve points are loaded on the wheel but the attribute cannot read them back, so this curve cannot be reproduced''"

definition kind_format :: "Kind \<Rightarrow> Value \<Rightarrow> Error + string" where
  "kind_format k v =
     (case k of
        KPercent \<Rightarrow>
          (case v of VPercent n \<Rightarrow> Inr (dec_nat (unat n))
           | _ \<Rightarrow> Inl Invalid)
      | KScaledPercent raw_max \<Rightarrow>
          (case v of VPercent n \<Rightarrow> Inr (dec_nat ((unat n * unat raw_max + 50) div 100))
           | _ \<Rightarrow> Inl Invalid)
      | KIntRange _ _ _ _ \<Rightarrow>
          (case v of VInt n \<Rightarrow> Inr (dec_int (sint n))
           | _ \<Rightarrow> Inl Invalid)
      | KEnum _ \<Rightarrow>
          (case v of VEnum n \<Rightarrow> Inr (dec_nat (unat n))
           | _ \<Rightarrow> Inl Invalid)
      | KToggle _ _ \<Rightarrow>
          (case v of VBool x \<Rightarrow> Inr (if x then ''1'' else ''0'')
           | _ \<Rightarrow> Inl Invalid)
      | KTextField _ \<Rightarrow>
          (case v of VText s \<Rightarrow> Inr s
           | _ \<Rightarrow> Inl Invalid)
      | KRgbStrip _ \<Rightarrow>
          (case v of VRgb cs \<Rightarrow> Inr (join '' '' (map to_hex cs))
           | _ \<Rightarrow> Inl Invalid)
      | KCurve \<Rightarrow>
          (case v of VCurveLoaded n \<Rightarrow> Inl (Parse (curve_loaded_message n))
           | VCurve pts \<Rightarrow> Inr (if pts = [] then ''reset'' else join '' '' (map format_point pts))
           | _ \<Rightarrow> Inl Invalid)
      | KPair _ \<Rightarrow>
          (case v of VPair lo hi \<Rightarrow> Inr (dec_nat (unat lo) @ '' '' @ dec_nat (unat hi))
           | _ \<Rightarrow> Inl Invalid)
      | KAction \<Rightarrow>
          (case v of VTrigger \<Rightarrow> Inr ''1''
           | _ \<Rightarrow> Inl Invalid)
      | KSlotText _ _ \<Rightarrow>
          (case v of VSlotName slot name \<Rightarrow> Inr (dec_nat (unat slot) @ '':'' @ name)
           | _ \<Rightarrow> Inl Invalid)
      | KRpmFeed \<Rightarrow>
          (case v of VRpmFeed rpm max_rpm age_ms \<Rightarrow> Inr (dec_nat (unat rpm) @ '' '' @ dec_nat (unat max_rpm) @ '' '' @ dec_nat (unat age_ms))
           | _ \<Rightarrow> Inl Invalid))"

definition slot_name_ok :: "u8 \<Rightarrow> nat \<Rightarrow> u8 \<Rightarrow> string \<Rightarrow> bool" where
  "slot_name_ok slots max_len slot name \<longleftrightarrow>
     (let len = chars_count name in 1 \<le> slot \<and> slot \<le> slots \<and> 1 \<le> len \<and> len \<le> max_len \<and> newline \<notin> set name)"

definition kind_validate :: "Kind \<Rightarrow> Value \<Rightarrow> Error + unit" where
  "kind_validate k v =
     (case k of
        KSlotText slots max_len \<Rightarrow>
          (case v of VSlotName slot name \<Rightarrow>
             if slot_name_ok slots max_len slot name then Inr () else Inl Invalid
           | _ \<Rightarrow> Inl Invalid)
      | _ \<Rightarrow> and_then (kind_format k v) (\<lambda>s.
          if k = KAction then Inr () else and_then (kind_parse k s) (\<lambda>_. Inr ())))"

definition slot_display :: "nat \<Rightarrow> string \<Rightarrow> string" where
  "slot_display i n = dec_nat (i + 1) @ '': '' @ n"

definition kind_display :: "Kind \<Rightarrow> Value \<Rightarrow> string" where
  "kind_display k v =
     (case k of
        KPercent \<Rightarrow>
          (case v of VPercent n \<Rightarrow> dec_nat (unat n) @ ''%''
           | _ \<Rightarrow> ''?'')
      | KScaledPercent _ \<Rightarrow>
          (case v of VPercent n \<Rightarrow> dec_nat (unat n) @ ''%''
           | _ \<Rightarrow> ''?'')
      | KIntRange _ _ _ unit \<Rightarrow>
          (case v of VInt n \<Rightarrow> dec_int (sint n) @ '' '' @ unit
           | _ \<Rightarrow> ''?'')
      | KEnum variants \<Rightarrow>
          (case v of VEnum n \<Rightarrow> (case get_at variants (unat n) of Some s \<Rightarrow> s | None \<Rightarrow> dec_nat (unat n))
           | _ \<Rightarrow> ''?'')
      | KToggle off on \<Rightarrow>
          (case v of VBool x \<Rightarrow> (if x then on else off)
           | _ \<Rightarrow> ''?'')
      | KTextField _ \<Rightarrow>
          (case v of VText s \<Rightarrow> replace_char newline '' / '' s
           | _ \<Rightarrow> ''?'')
      | KRgbStrip _ \<Rightarrow>
          (case v of VRgb cs \<Rightarrow> dec_nat (length cs) @ '' LEDs''
           | _ \<Rightarrow> ''?'')
      | KCurve \<Rightarrow>
          (case v of VCurveLoaded n \<Rightarrow> dec_nat (unat n) @ '' points''
           | VCurve p \<Rightarrow> (if p = [] then ''built-in'' else dec_nat (length p) @ '' points'')
           | _ \<Rightarrow> ''?'')
      | KPair _ \<Rightarrow>
          (case v of VPair lo hi \<Rightarrow> (if lo = 0 \<and> hi = 0 then ''none'' else dec_nat (unat lo) @ ''% / '' @ dec_nat (unat hi) @ ''%'')
           | _ \<Rightarrow> ''?'')
      | KAction \<Rightarrow> ''[trigger]''
      | KSlotText _ _ \<Rightarrow>
          (case v of VSlotNames names \<Rightarrow> join ''  '' (map (\<lambda>(i, n). slot_display i n) (enumerate 0 names))
           | VSlotName slot name \<Rightarrow> dec_nat (unat slot) @ '': '' @ name
           | _ \<Rightarrow> ''?'')
      | KRpmFeed \<Rightarrow>
          (case v of VRpmFeed rpm max_rpm age_ms \<Rightarrow> (if rpm = 0 \<and> max_rpm = 0 \<and> age_ms = 0 then ''no telemetry''
      else if unat age_ms < 1000 then dec_nat (unat rpm) @ '' rpm'' else ''no telemetry'')
           | _ \<Rightarrow> ''?''))"

section \<open>Text that reads back\<close>

lemma unat_word_bounds:
  "unat (a :: u8) \<le> 255" "unat (c :: u16) \<le> 65535" "unat (d :: u32) \<le> 4294967295"
  using unsigned_less [where w = a, where ?'a = nat] unsigned_less [where w = c, where ?'a = nat]
    unsigned_less [where w = d, where ?'a = nat] by (simp_all add: less_Suc_eq_le [symmetric])

lemma to_hex_plain: "plain (to_hex c)"
proof -
  have "hex2 (col_r c) \<noteq> []" by (simp add: hex2_def Let_def)
  then show ?thesis using hex2_chars by (auto simp: plain_def to_hex_def)
qed

lemma from_hex_to_hex: "from_hex (to_hex c) = Inr c"
proof -
  have "is_ascii (to_hex c)" using hex2_chars by (auto simp: is_ascii_def to_hex_def)
  moreover have "length (to_hex c) = 6" by (simp add: to_hex_def)
  moreover have "take 2 (drop 0 (to_hex c)) = hex2 (col_r c)" "take 2 (drop 2 (to_hex c)) = hex2 (col_g c)"
    "take 2 (drop 4 (to_hex c)) = hex2 (col_b c)" by (simp_all add: to_hex_def)
  ultimately show ?thesis using to_hex_plain [of c] by (simp add: from_hex_def hex_byte_def Let_def)
qed

lemma format_point_plain: "plain (format_point p)"
  unfolding format_point_def by (intro plain_append plain_dec_nat) (simp add: plain_def is_space_def)

lemma parse_format_point: "parse_point (format_point p) = Inr p"
proof -
  have "split_once (CHR '':'') (format_point p) = Some (dec_nat (unat (fst p)), dec_nat (unat (snd p)))"
    by (simp add: format_point_def)
  then show ?thesis by (simp add: parse_point_def unat_word_bounds)
qed

lemma format_points_parse:
  assumes "pts \<noteq> []"
  shows "parse_curve (join '' '' (map format_point pts)) = Inr (VCurve pts)"
proof -
  let ?raw = "join '' '' (map format_point pts)"
  have plain: "\<forall>t\<in>set (map format_point pts). plain t" using format_point_plain by auto
  have ws: "split_whitespace ?raw = map format_point pts" by (rule split_whitespace_join [OF plain])
  obtain p ps where pts: "pts = p # ps" using assms by (cases pts) auto
  have no: "CHR ''/'' \<notin> set (format_point p)" by (simp add: format_point_def)
  have "parse_points_loaded ?raw = None" using ws no by (simp add: parse_points_loaded_def pts)
  moreover have "?raw \<noteq> []" "hd ?raw = hd (format_point p)"
    using join_plain_ends [OF plain, of "'' ''"] by (simp_all add: pts)
  moreover have "hd (format_point p) \<noteq> CHR ''r''"
  proof -
    have "hd (format_point p) = hd (dec_nat (unat (fst p)))" by (simp add: format_point_def)
    moreover have "is_digit (hd (dec_nat (unat (fst p))))" by (rule dec_nat_digits [of _ "unat (fst p)"]) simp
    ultimately show ?thesis by (auto simp: is_digit_code)
  qed
  ultimately have "?raw \<noteq> ''reset''" by (metis list.sel(1))
  then show ?thesis
    using \<open>parse_points_loaded ?raw = None\<close> \<open>?raw \<noteq> []\<close> ws collect_results_map [of pts parse_point format_point] parse_format_point
    by (simp add: parse_curve_def)
qed

text \<open>Integer rounding both ways returns the percent it started from.\<close>

lemma scaled_percent_round_trip:
  fixes n m :: nat
  assumes "100 < m"
  shows "((n * m + 50) div 100 * 100 + m div 2) div m = n"
proof -
  define q where "q = (n * m + 50) div 100"
  have "n * m + 50 = q * 100 + (n * m + 50) mod 100" "(n * m + 50) mod 100 < 100"
    unfolding q_def by simp_all
  then have "q * 100 \<le> n * m + 50" "n * m + 50 < q * 100 + 100" by linarith+
  then have "n * m \<le> q * 100 + m div 2" "q * 100 + m div 2 < n * m + m" using assms by linarith+
  then have "(q * 100 + m div 2) div m = n"
    by (intro div_nat_eqI) (simp_all add: mult.commute)
  then show ?thesis by (simp add: q_def)
qed

lemma scaled_percent_in_range:
  fixes n m :: nat
  assumes "(n * m + 50) div 100 \<le> m" "100 < m"
  shows "n \<le> 100"
proof (rule ccontr)
  assume "\<not> n \<le> 100"
  then have "101 * m \<le> n * m" by (intro mult_le_mono1) simp
  then have "(101 * m + 50) div 100 \<le> (n * m + 50) div 100" by (intro div_le_mono) simp
  moreover have "m < (101 * m + 50) div 100" using assms(2) by simp
  ultimately show False using assms(1) by simp
qed

text \<open>The values whose written text stands for the value itself: a text field is trimmed on the
  way back, a slot rename reads back as the list, and a percent scaled onto fewer than a
  hundred steps cannot be told from its neighbours.\<close>

definition reproducible :: "Kind \<Rightarrow> Value \<Rightarrow> bool" where
  "reproducible k v =
     (case k of KTextField _ \<Rightarrow> (case v of VText s \<Rightarrow> trim s = s | _ \<Rightarrow> True)
      | KSlotText _ _ \<Rightarrow> False
      | KScaledPercent raw_max \<Rightarrow> 100 < unat raw_max
      | _ \<Rightarrow> True)"

lemmas kind_ops = kind_format_def kind_validate_def kind_parse_def reproducible_def Let_def

lemma plain_literals [simp]: "plain ''0''" "plain ''1''" "plain ''reset''"
  by (simp_all add: plain_def is_space_def)

lemma parse_format_percent:
  "kind_validate KPercent (VPercent n) = Inr () \<Longrightarrow> kind_parse KPercent (dec_nat (unat n)) = Inr (VPercent n)"
  by (auto simp: kind_ops split: if_splits)

lemma parse_format_scaled:
  assumes "kind_validate (KScaledPercent m) (VPercent n) = Inr ()" "100 < unat m"
  shows "kind_parse (KScaledPercent m) (dec_nat ((unat n * unat m + 50) div 100)) = Inr (VPercent n)"
proof -
  let ?q = "(unat n * unat m + 50) div 100"
  have nq: "\<not> uint m < int ?q" using assms by (auto simp: kind_ops split: if_splits)
  then have q: "?q \<le> unat m" by (metis not_less of_nat_le_iff uint_nat)
  have "int ?q \<le> 9223372036854775807" using q unat_word_bounds(3) [of m] by linarith
  moreover have "m \<noteq> 0" using assms(2) by auto
  ultimately show ?thesis
    using nq scaled_percent_round_trip [OF assms(2), of "unat n"] by (simp add: kind_parse_def Let_def)
qed

lemma parse_format_int:
  assumes "kind_validate (KIntRange lo hi st u) (VInt n) = Inr ()"
  shows "kind_parse (KIntRange lo hi st u) (dec_int (sint n)) = Inr (VInt n)"
proof -
  have "- 2147483648 \<le> sint n" "sint n \<le> 2147483647"
    using sint_greater_eq [of n] sint_less [of n] by simp_all
  then show ?thesis using assms by (auto simp: kind_ops split: if_splits)
qed

lemma parse_format_enum:
  assumes "kind_validate (KEnum vs) (VEnum n) = Inr ()"
  shows "kind_parse (KEnum vs) (dec_nat (unat n)) = Inr (VEnum n)"
proof -
  have "unat n \<le> 18446744073709551615" using unat_word_bounds(1) [of n] by linarith
  then show ?thesis using assms by (auto simp: kind_ops split: if_splits)
qed

lemma parse_format_rgb:
  assumes "kind_validate (KRgbStrip leds) (VRgb cs) = Inr ()"
  shows "kind_parse (KRgbStrip leds) (join '' '' (map to_hex cs)) = Inr (VRgb cs)"
proof -
  have plain: "\<forall>t\<in>set (map to_hex cs). plain t" using to_hex_plain by auto
  show ?thesis
    using assms split_whitespace_join [OF plain] trim_join [OF plain, of "'' ''"]
      collect_results_map [of cs from_hex to_hex] from_hex_to_hex
    by (auto simp: kind_ops split: if_splits)
qed

lemma parse_format_curve:
  "kind_parse KCurve (if pts = [] then ''reset'' else join '' '' (map format_point pts)) = Inr (VCurve pts)"
proof (cases "pts = []")
  case True
  have "parse_points_loaded ''reset'' = None"
    by (simp add: parse_points_loaded_def split_whitespace_def is_space_def)
  with True show ?thesis by (simp add: kind_parse_def parse_curve_def)
next
  case False
  have "\<forall>t\<in>set (map format_point pts). plain t" using format_point_plain by auto
  from trim_join [OF this, of "'' ''"] show ?thesis
    using False format_points_parse [OF False] by (simp add: kind_parse_def)
qed

lemma parse_format_pair:
  assumes "kind_validate (KPair m) (VPair lo hi) = Inr ()"
  shows "kind_parse (KPair m) (dec_nat (unat lo) @ '' '' @ dec_nat (unat hi)) = Inr (VPair lo hi)"
proof -
  let ?ts = "[dec_nat (unat lo), dec_nat (unat hi)]"
  have p: "\<forall>t\<in>set ?ts. plain t" by simp
  show ?thesis using assms split_whitespace_join [OF p] trim_join [OF p, of "'' ''"]
    by (simp add: kind_ops parse_pair_def unat_word_bounds split: if_splits)
qed

lemma parse_format_rpm:
  "kind_parse KRpmFeed (dec_nat (unat a) @ '' '' @ dec_nat (unat m) @ '' '' @ dec_nat (unat c)) = Inr (VRpmFeed a m c)"
proof -
  let ?ts = "[dec_nat (unat a), dec_nat (unat m), dec_nat (unat c)]"
  have p: "\<forall>t\<in>set ?ts. plain t" by simp
  show ?thesis using split_whitespace_join [OF p] trim_join [OF p, of "'' ''"]
    by (simp add: kind_parse_def parse_rpm_def rpm_field_def unat_word_bounds)
qed

lemmas parse_format_kinds =
  parse_format_percent parse_format_scaled parse_format_int parse_format_enum parse_format_rgb
  parse_format_curve parse_format_pair parse_format_rpm

lemma parse_format_value:
  assumes "kind_format k v = Inr s" "kind_validate k v = Inr ()" "reproducible k v"
  shows "kind_parse k s = Inr v"
proof (cases k)
  case (KTextField m)
  with assms show ?thesis by (cases v) (auto simp: kind_ops split: if_splits)
next
  case KToggle
  with assms show ?thesis by (cases v) (auto simp: kind_ops split: if_splits)
next
  case (KSlotText slots m)
  with assms(3) show ?thesis by (simp add: reproducible_def)
next
  case KAction
  with assms show ?thesis by (cases v) (auto simp: kind_ops)
next
  case KCurve
  with assms(1) parse_format_curve show ?thesis by (cases v) (auto simp: kind_format_def)
qed (use assms parse_format_kinds in \<open>cases v; auto simp: kind_format_def reproducible_def\<close>)+

text \<open>A value that passes \<open>validate\<close> is written as a text that reads back as the same value, for
  every kind of setting: percents (also those stored on a raw scale of more than a hundred
  steps), ranges, enumerations, toggles, trimmed texts, colours, curves, deadzone pairs, the
  trigger and the engine-speed line.\<close>

theorem validated_value_reads_back:
  assumes "kind_validate k v = Inr ()" "reproducible k v"
  shows "\<exists>s. kind_format k v = Inr s \<and> kind_parse k s = Inr v"
proof -
  have "\<exists>s. kind_format k v = Inr s"
    using assms by (cases k) (auto simp: kind_validate_def reproducible_def and_then_eq_Inr)
  then show ?thesis using parse_format_value assms by blast
qed

theorem validated_value_reads_back_witness:
  "\<exists>s. kind_format (KScaledPercent 65535) (VPercent 65) = Inr s \<and> kind_parse (KScaledPercent 65535) s = Inr (VPercent 65)"
proof (rule validated_value_reads_back)
  show "kind_validate (KScaledPercent 65535) (VPercent 65) = Inr ()" by (simp add: kind_ops)
  show "reproducible (KScaledPercent 65535) (VPercent 65)" by (simp add: reproducible_def)
qed

text \<open>A curve that is loaded on the wheel but cannot be read back is a value of its own, and it is
  never written: neither \<open>format\<close> nor \<open>validate\<close> accepts it, for any kind.\<close>

theorem loaded_curve_never_written:
  fixes n m :: u16
  assumes "0 < unat n"
  shows "kind_parse KCurve (dec_nat (unat n) @ ''/'' @ dec_nat (unat m) @ '' points loaded (0 = built-in curve)'') =
      Inr (VCurveLoaded n) \<and>
    (\<forall>k. (\<exists>e. kind_format k (VCurveLoaded n) = Inl e) \<and> (\<exists>e. kind_validate k (VCurveLoaded n) = Inl e))"
proof
  let ?head = "dec_nat (unat n) @ ''/'' @ dec_nat (unat m)"
  let ?ts = "[?head, ''points'', ''loaded'', ''(0'', ''='', ''built-in'', ''curve)'']"
  have "plain ?head" by (intro plain_append plain_dec_nat) (simp add: plain_def is_space_def)
  then have p: "\<forall>t\<in>set ?ts. plain t" by (simp add: plain_def is_space_def)
  have "parse_points_loaded (join '' '' ?ts) = Some (n, m)"
    unfolding parse_points_loaded_def split_whitespace_join [OF p] by (simp add: unat_word_bounds)
  moreover have "n \<noteq> 0" using assms by auto
  moreover have "trim (join '' '' ?ts) = join '' '' ?ts" by (rule trim_join [OF p])
  ultimately have "kind_parse KCurve (join '' '' ?ts) = Inr (VCurveLoaded n)" by (simp only: kind_parse_def parse_curve_def) simp
  then show "kind_parse KCurve (dec_nat (unat n) @ ''/'' @ dec_nat (unat m) @ '' points loaded (0 = built-in curve)'') =
      Inr (VCurveLoaded n)" by simp
  show "\<forall>k. (\<exists>e. kind_format k (VCurveLoaded n) = Inl e) \<and> (\<exists>e. kind_validate k (VCurveLoaded n) = Inl e)"
  proof
    fix k show "(\<exists>e. kind_format k (VCurveLoaded n) = Inl e) \<and> (\<exists>e. kind_validate k (VCurveLoaded n) = Inl e)"
      by (cases k) (simp_all add: kind_format_def kind_validate_def)
  qed
qed

theorem loaded_curve_never_written_witness:
  "kind_parse KCurve (dec_nat (unat (17 :: u16)) @ ''/'' @ dec_nat (unat (64 :: u16)) @ '' points loaded (0 = built-in curve)'') =
      Inr (VCurveLoaded 17) \<and>
    (\<forall>k. (\<exists>e. kind_format k (VCurveLoaded 17) = Inl e) \<and> (\<exists>e. kind_validate k (VCurveLoaded 17) = Inl e))"
  by (rule loaded_curve_never_written) simp

end
