(* ===== verification/Registry.thy ===== *)
theory Registry
  imports Values
begin

text \<open>
  The settings tables: \<open>setting.rs\<close> and \<open>registry.rs\<close> of \<open>logi-wheel-core\<close>. A row names a
  sysfs attribute, its label, page, kind, access and the mode it needs; the help text of a
  row is display text and is left out. The direct-drive table is written in the sections of
  the source. \<open>role_of\<close> says which attributes constrain the order of a replay.
\<close>

datatype Category = Info | Ffb | Steering | Pedals | Leds | Profiles

definition all_categories :: "Category list" where
  "all_categories = [Info, Ffb, Steering, Pedals, Leds, Profiles]"

definition category_label :: "Category \<Rightarrow> string" where
  "category_label c = (case c of
       Ffb \<Rightarrow> ''Force feedback'' | Steering \<Rightarrow> ''Steering'' | Pedals \<Rightarrow> ''Pedals'' | Leds \<Rightarrow> ''LIGHTSYNC''
     | Profiles \<Rightarrow> ''Profiles / mode'' | Info \<Rightarrow> ''Info / Testing'')"

datatype Access = ReadWrite | ReadOnly | ActionAccess

datatype ModeReq = Any | DesktopOnly | OnboardOnly

datatype Role = Setting | StoreSelector | SlotContent | DisplaySelector | Transient

record SettingSpec =
  s_attr :: string
  s_label :: string
  s_category :: Category
  s_kind :: Kind
  s_access :: Access
  s_mode_req :: ModeReq

definition setting :: "string \<Rightarrow> string \<Rightarrow> Category \<Rightarrow> Kind \<Rightarrow> Access \<Rightarrow> ModeReq \<Rightarrow> SettingSpec" where
  "setting a l c k x m = \<lparr>s_attr = a, s_label = l, s_category = c, s_kind = k, s_access = x, s_mode_req = m\<rparr>"

lemma setting_sel [simp]:
  "s_attr (setting a l c k x m) = a" "s_category (setting a l c k x m) = c" "s_kind (setting a l c k x m) = k"
  "s_access (setting a l c k x m) = x" "s_mode_req (setting a l c k x m) = m" "s_label (setting a l c k x m) = l"
  by (simp_all add: setting_def)

section \<open>The tables\<close>

definition ffb_settings :: "SettingSpec list" where
  "ffb_settings = [
     setting ''wheel_strength'' ''FFB strength'' Ffb KPercent ReadWrite Any,
     setting ''wheel_ffb_filter'' ''FFB filter'' Ffb (KIntRange 1 15 1 []) ReadWrite Any,
     setting ''wheel_ffb_filter_auto'' ''Auto FFB filter'' Ffb (KToggle ''manual'' ''auto'') ReadWrite Any,
     setting ''wheel_damping'' ''Damping'' Ffb KPercent ReadWrite Any,
     setting ''wheel_spring_damping'' ''Spring damping'' Ffb KPercent ReadWrite Any,
     setting ''wheel_trueforce'' ''TrueForce intensity'' Ffb KPercent ReadWrite Any,
     setting ''wheel_texture_route'' ''Texture routing'' Ffb (KEnum [''kf'', ''tf'']) ReadWrite Any,
     setting ''wheel_texture_intensity'' ''Texture intensity'' Ffb (KIntRange 0 200 1 ''%'') ReadWrite Any,
     setting ''wheel_texture_cylinders'' ''Engine cylinders (texture pitch)'' Ffb (KIntRange 1 16 1 []) ReadWrite Any,
     setting ''wheel_texture_rpm'' ''Texture RPM feed'' Ffb KRpmFeed ReadOnly Any,
     setting ''wheel_tf_merge'' ''Texture merge'' Ffb (KToggle ''off'' ''on'') ReadOnly Any,
     setting ''wheel_ffb_constant_sign'' ''Invert constant force'' Ffb (KToggle ''normal'' ''inverted'') ReadWrite Any]"

definition steering_settings :: "SettingSpec list" where
  "steering_settings = [
     setting ''wheel_range'' ''Rotation range'' Steering (KIntRange 90 2700 10 ''deg'') ReadWrite Any,
     setting ''wheel_range_restore'' ''Auto range restore'' Steering (KToggle ''off'' ''on'') ReadWrite Any,
     setting ''wheel_sensitivity'' ''Sensitivity'' Steering KPercent ReadWrite DesktopOnly,
     setting ''wheel_response_curve'' ''Response curve'' Steering KCurve ReadWrite Any,
     setting ''wheel_calibrate_here'' ''Calibrate centre here'' Steering KAction ActionAccess Any,
     setting ''wheel_oled'' ''Screen'' Leds (KTextField 96) ReadWrite Any,
     setting ''wheel_oled_layouts'' ''Screen layouts'' Leds (KTextField 512) ReadOnly Any,
     setting ''wheel_rev_level'' ''Rev lights'' Steering (KIntRange 0 10 1 []) ReadOnly Any]"

definition pedal_settings :: "SettingSpec list" where
  "pedal_settings = [
     setting ''wheel_combined_pedals'' ''Combined pedals'' Pedals (KToggle ''separate'' ''combined'') ReadWrite DesktopOnly,
     setting ''wheel_brake_force'' ''Brake force'' Pedals KPercent ReadWrite OnboardOnly,
     setting ''wheel_throttle_sensitivity'' ''Throttle sensitivity'' Pedals KPercent ReadWrite Any,
     setting ''wheel_throttle_curve'' ''Throttle curve'' Pedals KCurve ReadWrite Any,
     setting ''wheel_throttle_deadzone'' ''Throttle deadzone'' Pedals (KPair 99) ReadWrite Any,
     setting ''wheel_brake_sensitivity'' ''Brake sensitivity'' Pedals KPercent ReadWrite Any,
     setting ''wheel_brake_curve'' ''Brake curve'' Pedals KCurve ReadWrite Any,
     setting ''wheel_brake_deadzone'' ''Brake deadzone'' Pedals (KPair 99) ReadWrite Any,
     setting ''wheel_clutch_sensitivity'' ''Clutch sensitivity'' Pedals KPercent ReadWrite Any,
     setting ''wheel_clutch_curve'' ''Clutch curve'' Pedals KCurve ReadWrite Any,
     setting ''wheel_clutch_deadzone'' ''Clutch deadzone'' Pedals (KPair 99) ReadWrite Any,
     setting ''wheel_accessory_mode'' ''Accessory mode'' Pedals (KTextField 24) ReadOnly Any,
     setting ''wheel_handbrake_sensitivity'' ''Handbrake sensitivity'' Pedals KPercent ReadWrite Any,
     setting ''wheel_handbrake_curve'' ''Handbrake curve'' Pedals KCurve ReadWrite Any,
     setting ''wheel_shift_actuation'' ''Shift actuation'' Pedals (KIntRange 1 100 1 ''%'') ReadWrite Any,
     setting ''wheel_handbrake_actuation'' ''Handbrake actuation'' Pedals (KIntRange 1 100 1 ''%'') ReadWrite Any]"

definition led_settings :: "SettingSpec list" where
  "led_settings = [
     setting ''wheel_led_effect'' ''Effect'' Leds (KIntRange 1 9 1 []) ReadWrite Any,
     setting ''wheel_led_brightness'' ''Brightness'' Leds KPercent ReadWrite Any,
     setting ''wheel_led_slot'' ''Active slot'' Leds (KIntRange 0 4 1 []) ReadWrite Any,
     setting ''wheel_led_slot_name'' ''Slot name'' Leds (KTextField 8) ReadWrite Any,
     setting ''wheel_led_colors'' ''Colors'' Leds (KRgbStrip 10) ReadWrite Any,
     setting ''wheel_led_direction'' ''Direction'' Leds (KEnum [''R to L'', ''L to R'', ''inside-out'', ''outside-in'']) ReadWrite Any,
     setting ''wheel_led_slot_brightness'' ''Slot brightness'' Leds KPercent ReadWrite Any,
     setting ''wheel_led_apply'' ''Apply'' Leds KAction ActionAccess Any]"

definition profile_settings :: "SettingSpec list" where
  "profile_settings = [
     setting ''wheel_mode'' ''Mode'' Profiles (KEnum [''desktop'', ''onboard'']) ReadWrite Any,
     setting ''wheel_profile'' ''Profile'' Profiles (KIntRange 0 5 1 []) ReadWrite Any,
     setting ''wheel_profile_names'' ''Profile names'' Profiles (KSlotText 5 9) ReadWrite Any]"

definition info_settings :: "SettingSpec list" where
  "info_settings = [
     setting ''wheel_serial'' ''Serial'' Info (KTextField 32) ReadOnly Any,
     setting ''wheel_firmware'' ''Firmware'' Info (KTextField 128) ReadOnly Any]"

definition REGISTRY :: "SettingSpec list" where
  "REGISTRY = ffb_settings @ steering_settings @ pedal_settings @ led_settings @ profile_settings @ info_settings"

definition CLASSIC_REGISTRY :: "SettingSpec list" where
  "CLASSIC_REGISTRY = [
     setting ''range'' ''Rotation range'' Steering (KIntRange 40 900 10 ''deg'') ReadWrite Any,
     setting ''gain'' ''Overall gain'' Ffb (KScaledPercent 65535) ReadWrite Any,
     setting ''autocenter'' ''Autocenter'' Ffb (KScaledPercent 65535) ReadWrite Any,
     setting ''combine_pedals'' ''Combine pedals'' Pedals (KEnum [''separate'', ''gas + brake'', ''gas + clutch'']) ReadWrite Any]"

definition role_of :: "string \<Rightarrow> Role" where
  "role_of attr =
     (if attr \<in> {''wheel_mode'', ''wheel_profile''} then StoreSelector
      else if attr \<in> {''wheel_led_slot'', ''wheel_led_colors'', ''wheel_led_direction'',
                       ''wheel_led_slot_brightness'', ''wheel_led_slot_name''} then SlotContent
      else if attr = ''wheel_led_effect'' then DisplaySelector
      else if attr = ''wheel_oled'' then Transient
      else Setting)"

definition spec_role :: "SettingSpec \<Rightarrow> Role" where
  "spec_role s = role_of (s_attr s)"

lemmas registry_tables = REGISTRY_def CLASSIC_REGISTRY_def
ffb_settings_def steering_settings_def pedal_settings_def led_settings_def profile_settings_def info_settings_def

section \<open>Coherence of the tables\<close>

text \<open>\<open>Device::spec\<close>: the direct-drive table first, then the classic one.\<close>

definition spec :: "string \<Rightarrow> SettingSpec option" where
  "spec attr =
     (case find (\<lambda>s. s_attr s = attr) REGISTRY of Some s \<Rightarrow> Some s
      | None \<Rightarrow> find (\<lambda>s. s_attr s = attr) CLASSIC_REGISTRY)"

lemma attrs_distinct: "distinct (map s_attr (REGISTRY @ CLASSIC_REGISTRY))"
  by code_simp

text \<open>A word is written for two enumerations only; every other kind is as its constructor says.\<close>

definition spec_ok :: "SettingSpec \<Rightarrow> bool" where
  "spec_ok s \<longleftrightarrow>
     (s_access s = ActionAccess \<longleftrightarrow> s_kind s = KAction) \<and>
     newline \<notin> set (s_attr s) \<and> CHR ''='' \<notin> set (s_attr s) \<and> plain (s_attr s) \<and> hd (s_attr s) \<noteq> CHR ''#'' \<and>
     (case s_kind s of KEnum vs \<Rightarrow> distinct vs \<and> list_all (\<lambda>v. plain v \<or> \<not> s_attr s \<in> {''wheel_mode'', ''wheel_texture_route''}) vs
        \<and> list_all (\<lambda>v. v \<noteq> [] \<and> \<not> is_digit (hd v)) vs
      | KScaledPercent m \<Rightarrow> m = 65535
      | KIntRange lo hi _ _ \<Rightarrow> lo \<le> hi
      | _ \<Rightarrow> True)"

lemma registry_ok: "list_all spec_ok (REGISTRY @ CLASSIC_REGISTRY)"
  by code_simp

end
