(* ===== verification/Device.thy ===== *)
theory Device
  imports Registry "HOL-Library.List_Lexorder" "HOL-Library.Char_ord"
begin

text \<open>
  The wheel behind its sysfs directory: \<open>sysfs.rs\<close> and \<open>device.rs\<close> of \<open>logi-wheel-core\<close>. The
  trait \<open>SysfsIo\<close> is a record of operations on a store; \<open>FakeSysfs\<close> is the in-memory store of
  the crate, and the locale \<open>settings_store\<close> states what the device relies on of the attributes
  that keep what is written to them. A device's operations take the store and return it.
  Paths are lists of components; the file system that discovery scans is a record of answers.
\<close>

section \<open>Sysfs\<close>

record 'w sysfs =
  io_read :: "'w \<Rightarrow> string \<Rightarrow> io_error + string"
  io_write :: "'w \<Rightarrow> string \<Rightarrow> string \<Rightarrow> (io_error + unit) \<times> 'w"
  io_exists :: "'w \<Rightarrow> string \<Rightarrow> bool"

record FakeSysfs =
  vals :: "string \<rightharpoonup> string"
  errnos :: "string \<rightharpoonup> int"
  read_errno :: "string \<rightharpoonup> int"
  write_log :: "(string \<times> string) list"

definition fake_new :: FakeSysfs where
  "fake_new = \<lparr>vals = Map.empty, errnos = Map.empty, read_errno = Map.empty, write_log = []\<rparr>"

definition fake_set :: "string \<Rightarrow> string \<Rightarrow> FakeSysfs \<Rightarrow> FakeSysfs" where
  "fake_set attr v f = f\<lparr>vals := (vals f)(attr \<mapsto> v)\<rparr>"

definition fake_set_absent :: "string \<Rightarrow> FakeSysfs \<Rightarrow> FakeSysfs" where
  "fake_set_absent attr f = f\<lparr>vals := (vals f)(attr := None)\<rparr>"

definition fake_set_errno :: "string \<Rightarrow> int \<Rightarrow> FakeSysfs \<Rightarrow> FakeSysfs" where
  "fake_set_errno attr e f = f\<lparr>errnos := (errnos f)(attr \<mapsto> e)\<rparr>"

definition fake_set_read_errno :: "string \<Rightarrow> int \<Rightarrow> FakeSysfs \<Rightarrow> FakeSysfs" where
  "fake_set_read_errno attr e f = f\<lparr>read_errno := (read_errno f)(attr \<mapsto> e)\<rparr>"

text \<open>The message of an operating-system error is the C library's: \<open>strerror\<close>.\<close>

definition fake_read :: "(int \<Rightarrow> string) \<Rightarrow> FakeSysfs \<Rightarrow> string \<Rightarrow> io_error + string" where
  "fake_read strerror f attr =
     (case read_errno f attr of Some e \<Rightarrow> Inl (IoError (Some e) (strerror e))
      | None \<Rightarrow> (case vals f attr of Some s \<Rightarrow> Inr (s @ [newline])
                | None \<Rightarrow> Inl (IoError None ''entity not found'')))"

definition fake_write :: "(int \<Rightarrow> string) \<Rightarrow> FakeSysfs \<Rightarrow> string \<Rightarrow> string \<Rightarrow> (io_error + unit) \<times> FakeSysfs" where
  "fake_write strerror f attr v =
     (case errnos f attr of Some e \<Rightarrow> (Inl (IoError (Some e) (strerror e)), f)
      | None \<Rightarrow> (Inr (), f\<lparr>vals := (vals f)(attr \<mapsto> trim v), write_log := write_log f @ [(attr, trim v)]\<rparr>))"

definition fake_exists :: "FakeSysfs \<Rightarrow> string \<Rightarrow> bool" where
  "fake_exists f attr \<longleftrightarrow> vals f attr \<noteq> None \<or> read_errno f attr \<noteq> None"

definition fake_sysfs :: "(int \<Rightarrow> string) \<Rightarrow> FakeSysfs sysfs" where
  "fake_sysfs strerror = \<lparr>io_read = fake_read strerror, io_write = fake_write strerror, io_exists = fake_exists\<rparr>"

section \<open>Models and names\<close>

type_synonym path = "string list"

definition parent :: "path \<Rightarrow> path option" where
  "parent p = (if p = [] then None else Some (butlast p))"

definition file_name :: "path \<Rightarrow> string option" where
  "file_name p = (if p = [] \<or> last p = ''..'' then None else Some (last p))"

datatype WheelModel = UnknownWheel | Rs50 | GPro | G923

definition model_settings :: "WheelModel \<Rightarrow> SettingSpec list" where
  "model_settings m = (if m = G923 then CLASSIC_REGISTRY else REGISTRY)"

definition category_has_content :: "WheelModel \<Rightarrow> Category \<Rightarrow> bool" where
  "category_has_content m cat \<longleftrightarrow>
     cat \<in> {Info, Profiles} \<or> list_ex (\<lambda>s. s_category s = cat) (model_settings m)"

definition ACCESSORY_ATTRS :: "string list" where
  "ACCESSORY_ATTRS = [''wheel_handbrake_sensitivity'', ''wheel_handbrake_curve'',
     ''wheel_shift_actuation'', ''wheel_handbrake_actuation'']"

definition requires_accessory :: "string \<Rightarrow> bool" where
  "requires_accessory attr \<longleftrightarrow> attr \<in> set ACCESSORY_ATTRS"

definition required_mode :: "string \<Rightarrow> string option" where
  "required_mode attr =
     (if attr = ''wheel_shift_actuation'' then Some ''shifter''
      else if attr = ''wheel_handbrake_actuation'' then Some ''digital-handbrake''
      else if attr = ''wheel_handbrake_sensitivity'' \<or> attr = ''wheel_handbrake_curve'' then Some ''analog-handbrake''
      else None)"

definition generic_wheel_name :: "WheelModel \<Rightarrow> string" where
  "generic_wheel_name m = (case m of
       Rs50 \<Rightarrow> ''Logitech RS50 Racing Wheel'' | GPro \<Rightarrow> ''Logitech G PRO Racing Wheel''
     | G923 \<Rightarrow> ''Logitech G923 Racing Wheel'' | UnknownWheel \<Rightarrow> ''Logitech Racing Wheel'')"

definition short_model_label :: "WheelModel \<Rightarrow> string" where
  "short_model_label m = (case m of
       Rs50 \<Rightarrow> ''RS50'' | GPro \<Rightarrow> ''G PRO'' | G923 \<Rightarrow> ''G923'' | UnknownWheel \<Rightarrow> ''Wheel'')"

definition short_label_at :: "WheelModel list \<Rightarrow> nat \<Rightarrow> string" where
  "short_label_at models i =
     (let m = models ! i; base = short_model_label m; repeats = length (filter (\<lambda>x. x = m) models)
      in if repeats \<le> 1 then base
         else base @ '' '' @ dec_nat (length (filter (\<lambda>x. x = m) (take i models)) + 1))"

definition short_labels :: "WheelModel list \<Rightarrow> string list" where
  "short_labels models = map (short_label_at models) [0..<length models]"

definition G923_PIDS :: "u16 list" where "G923_PIDS = [0xc266, 0xc267, 0xc26e]"
definition DD_PIDS :: "u16 list" where "DD_PIDS = [0xc276, 0xc272, 0xc268]"

definition is_g923_pid :: "u16 \<Rightarrow> bool" where
  "is_g923_pid pid \<longleftrightarrow> pid \<in> set G923_PIDS"

definition model_from_pid :: "u16 \<Rightarrow> WheelModel" where
  "model_from_pid pid =
     (if pid = 0xc276 then Rs50
      else if pid = 0xc272 \<or> pid = 0xc268 then GPro
      else if is_g923_pid pid then G923
      else UnknownWheel)"

definition model_from_name :: "string \<Rightarrow> WheelModel" where
  "model_from_name name =
     (let upper = to_upper name in
      if contains_sub upper ''RS50'' then Rs50
      else if contains_sub upper ''G923'' then G923
      else if contains_sub upper ''PRO RACING WHEEL'' \<or> contains_sub upper ''G PRO'' then GPro
      else UnknownWheel)"

definition model_for :: "u16 option \<Rightarrow> string \<Rightarrow> WheelModel" where
  "model_for pid name =
     (let by_pid = (case pid of None \<Rightarrow> UnknownWheel | Some p \<Rightarrow> model_from_pid p)
      in if by_pid = GPro \<and> model_from_name name \<noteq> UnknownWheel then model_from_name name
         else if by_pid = UnknownWheel then model_from_name name
         else by_pid)"

definition usb_device_dir :: "path \<Rightarrow> path option" where
  "usb_device_dir sysfs_key = do {
     iface \<leftarrow> parent sysfs_key;
     usb \<leftarrow> parent iface;
     n \<leftarrow> file_name usb;
     if CHR '':'' \<in> set n then None else Some usb }"

section \<open>Discovery\<close>

text \<open>What the scan sees: the environment override, the \<open>device\<close> links under
  \<open>/sys/class/hidraw\<close>, where a path really leads, which attribute files a directory has, and
  the event nodes under \<open>/sys/class/input\<close> with their real path and name.\<close>

record wheel_fs =
  override_dir :: "path option"
  hidraw_devices :: "path list option"
  canonicalize :: "path \<Rightarrow> path option"
  has_file :: "path \<Rightarrow> string \<Rightarrow> bool"
  input_entries :: "string list option"
  input_real :: "string \<Rightarrow> path option"
  input_device_name :: "string \<Rightarrow> string option"

definition pid_from_name :: "string \<Rightarrow> u16 option" where
  "pid_from_name name =
     (case split_char (CHR '':'') name of
        _ # _ # pid_part # _ \<Rightarrow>
          map_option word_of_nat (parse_hex_unsigned 65535 (hd (split_char (CHR ''.'') pid_part)))
      | _ \<Rightarrow> None)"

definition pid_from_hid_dir :: "wheel_fs \<Rightarrow> path \<Rightarrow> u16 option" where
  "pid_from_hid_dir fs dir = do {
     real \<leftarrow> canonicalize fs dir;
     name \<leftarrow> file_name real;
     pid_from_name name }"

definition classic_attrs_present :: "wheel_fs \<Rightarrow> path \<Rightarrow> bool" where
  "classic_attrs_present fs dir \<longleftrightarrow> has_file fs dir ''range'' \<and> has_file fs dir ''gain'' \<and> has_file fs dir ''autocenter''"

definition classic_ffb_present :: "wheel_fs \<Rightarrow> path \<Rightarrow> bool" where
  "classic_ffb_present fs dir \<longleftrightarrow> has_file fs dir ''range''"

fun first_name_under :: "wheel_fs \<Rightarrow> path \<Rightarrow> string list \<Rightarrow> string option" where
  "first_name_under fs usb [] = None"
| "first_name_under fs usb (e # es) =
     (case input_real fs e of None \<Rightarrow> first_name_under fs usb es
      | Some real \<Rightarrow>
          if \<not> starts_with real usb then first_name_under fs usb es
          else case input_device_name fs e of None \<Rightarrow> first_name_under fs usb es
            | Some s \<Rightarrow> if trim s \<noteq> [] then Some (trim s) else first_name_under fs usb es)"

definition input_name_under :: "wheel_fs \<Rightarrow> path \<Rightarrow> string option" where
  "input_name_under fs usb =
     (case input_entries fs of None \<Rightarrow> None
      | Some es \<Rightarrow> first_name_under fs usb (sort (filter (\<lambda>e. starts_with e ''event'') es)))"

record Found =
  f_dir :: path
  f_model :: WheelModel
  f_key :: path

definition dir_key :: "wheel_fs \<Rightarrow> path \<Rightarrow> path" where
  "dir_key fs dir = (case canonicalize fs dir of Some k \<Rightarrow> k | None \<Rightarrow> dir)"

definition discovered_model :: "wheel_fs \<Rightarrow> path \<Rightarrow> WheelModel" where
  "discovered_model fs dir =
     (let name = (case usb_device_dir (dir_key fs dir) of None \<Rightarrow> None | Some usb \<Rightarrow> input_name_under fs usb)
      in model_for (pid_from_hid_dir fs dir) (case name of None \<Rightarrow> [] | Some n \<Rightarrow> n))"

fun discover_dirs :: "wheel_fs \<Rightarrow> Found list \<Rightarrow> path list \<Rightarrow> Found list" where
  "discover_dirs fs found [] = found"
| "discover_dirs fs found (dir # dirs) =
     (let key = dir_key fs dir in
      if list_ex (\<lambda>d. f_key d = key) found then discover_dirs fs found dirs
      else if has_file fs dir ''wheel_range''
      then discover_dirs fs (found @ [\<lparr>f_dir = dir, f_model = discovered_model fs dir, f_key = key\<rparr>]) dirs
      else if classic_ffb_present fs dir \<and> map_option model_from_pid (pid_from_hid_dir fs dir) = Some G923
      then discover_dirs fs (found @ [\<lparr>f_dir = dir, f_model = G923, f_key = key\<rparr>]) dirs
      else discover_dirs fs found dirs)"

definition discover_overridden :: "wheel_fs \<Rightarrow> Found option" where
  "discover_overridden fs = do {
     dir \<leftarrow> override_dir fs;
     if has_file fs dir ''wheel_range'' then Some \<lparr>f_dir = dir, f_model = UnknownWheel, f_key = dir\<rparr>
     else if classic_attrs_present fs dir then Some \<lparr>f_dir = dir, f_model = G923, f_key = dir\<rparr>
     else None }"

definition discover_all :: "wheel_fs \<Rightarrow> Found list" where
  "discover_all fs =
     (if override_dir fs \<noteq> None then (case discover_overridden fs of None \<Rightarrow> [] | Some d \<Rightarrow> [d])
      else case hidraw_devices fs of None \<Rightarrow> [] | Some dirs \<Rightarrow> discover_dirs fs [] (sort dirs))"

definition discover :: "wheel_fs \<Rightarrow> Error + Found" where
  "discover fs = (case discover_all fs of [] \<Rightarrow> Inl NoWheel | d # _ \<Rightarrow> Inr d)"

section \<open>Device operations\<close>

record 'w Device =
  dev_io :: "'w sysfs"
  dev_model :: WheelModel
  dev_key :: "path option"

definition with_io_and_model :: "'w sysfs \<Rightarrow> WheelModel \<Rightarrow> 'w Device" where
  "with_io_and_model io m = \<lparr>dev_io = io, dev_model = m, dev_key = None\<rparr>"

definition hid_id :: "'w Device \<Rightarrow> string option" where
  "hid_id d = do {
     key \<leftarrow> dev_key d;
     name \<leftarrow> file_name key;
     if length (filter (\<lambda>c. c = CHR '':'') name) = 2 \<and> CHR ''.'' \<in> set name then Some name else None }"

definition settings :: "'w Device \<Rightarrow> SettingSpec list" where
  "settings d = model_settings (dev_model d)"

definition accessory_mode :: "'w Device \<Rightarrow> 'w \<Rightarrow> string option" where
  "accessory_mode d w =
     (if \<not> io_exists (dev_io d) w ''wheel_accessory_mode'' then None
      else case io_read (dev_io d) w ''wheel_accessory_mode'' of Inl _ \<Rightarrow> None
        | Inr raw \<Rightarrow> let t = trim raw in if t = [] \<or> starts_with t ''unknown'' then None else Some t)"

definition wrong_accessory_mode :: "'w Device \<Rightarrow> 'w \<Rightarrow> string \<Rightarrow> bool" where
  "wrong_accessory_mode d w attr =
     (case (required_mode attr, accessory_mode d w) of (Some want, Some have) \<Rightarrow> want \<noteq> have | _ \<Rightarrow> False)"

definition accessory_attached :: "'w Device \<Rightarrow> 'w \<Rightarrow> bool option" where
  "accessory_attached d w =
     (if \<not> io_exists (dev_io d) w ''wheel_accessory'' then None
      else case io_read (dev_io d) w ''wheel_accessory'' of Inl _ \<Rightarrow> None
        | Inr raw \<Rightarrow> let t = trim raw in if t = [] then None else Some (t \<noteq> ''none''))"

definition available :: "'w Device \<Rightarrow> 'w \<Rightarrow> string \<Rightarrow> bool" where
  "available d w attr =
     (if \<not> io_exists (dev_io d) w attr then False
      else if requires_accessory attr \<and> accessory_attached d w = Some False then False
      else \<not> wrong_accessory_mode d w attr)"

definition read_io :: "'w Device \<Rightarrow> 'w \<Rightarrow> string \<Rightarrow> Error + string" where
  "read_io d w attr = (case io_read (dev_io d) w attr of Inl e \<Rightarrow> Inl (map_io_error e attr) | Inr s \<Rightarrow> Inr s)"

definition current_mode :: "'w Device \<Rightarrow> 'w \<Rightarrow> Error + Mode" where
  "current_mode d w =
     (if dev_model d = G923 then Inr Desktop
      else and_then (read_io d w ''wheel_mode'') (\<lambda>raw. Inr (if trim raw = ''onboard'' then Onboard else Desktop)))"

fun position :: "('a \<Rightarrow> bool) \<Rightarrow> 'a list \<Rightarrow> nat option" where
  "position P [] = None"
| "position P (x # xs) = (if P x then Some 0 else map_option Suc (position P xs))"

definition value_of_raw :: "SettingSpec \<Rightarrow> string \<Rightarrow> Error + Value" where
  "value_of_raw s raw =
     (case s_kind s of
        KEnum variants \<Rightarrow>
          (case position (\<lambda>v. v = trim raw) variants of Some i \<Rightarrow> Inr (VEnum (word_of_nat i))
           | None \<Rightarrow> kind_parse (s_kind s) raw)
      | _ \<Rightarrow> kind_parse (s_kind s) raw)"

definition dev_read :: "'w Device \<Rightarrow> 'w \<Rightarrow> string \<Rightarrow> Error + Value" where
  "dev_read d w attr =
     and_then (ok_or Invalid (spec attr)) (\<lambda>s.
       if s_access s = ActionAccess then Inr VTrigger
       else and_then (read_io d w attr) (value_of_raw s))"

definition read_supported :: "'w Device \<Rightarrow> 'w \<Rightarrow> string \<Rightarrow> Error + Value option" where
  "read_supported d w attr =
     (if \<not> io_exists (dev_io d) w attr then Inr None
      else if requires_accessory attr \<and> accessory_attached d w = Some False then Inr None
      else if wrong_accessory_mode d w attr then Inr None
      else case dev_read d w attr of Inr v \<Rightarrow> Inr (Some v)
        | Inl e \<Rightarrow> if e = Unsupported then Inr None else Inl e)"

definition raw_for_write :: "SettingSpec \<Rightarrow> Value \<Rightarrow> Error + string" where
  "raw_for_write s v =
     (case (s_kind s, v) of
        (KEnum variants, VEnum i) \<Rightarrow>
          if s_attr s = ''wheel_mode'' \<or> s_attr s = ''wheel_texture_route''
          then ok_or OutOfRange (get_at variants (unat i))
          else kind_format (s_kind s) v
      | _ \<Rightarrow> kind_format (s_kind s) v)"

definition mode_gate :: "'w Device \<Rightarrow> 'w \<Rightarrow> ModeReq \<Rightarrow> Error + unit" where
  "mode_gate d w req =
     (case req of
        Any \<Rightarrow> Inr ()
      | DesktopOnly \<Rightarrow> and_then (current_mode d w) (\<lambda>m. if m \<noteq> Desktop then Inl (WrongMode Desktop) else Inr ())
      | OnboardOnly \<Rightarrow> and_then (current_mode d w) (\<lambda>m. if m \<noteq> Onboard then Inl (WrongMode Onboard) else Inr ()))"

definition write_io :: "'w Device \<Rightarrow> 'w \<Rightarrow> string \<Rightarrow> string \<Rightarrow> (Error + unit) \<times> 'w" where
  "write_io d w attr raw =
     (case io_write (dev_io d) w attr raw of (Inl e, w') \<Rightarrow> (Inl (map_io_error e attr), w') | (Inr _, w') \<Rightarrow> (Inr (), w'))"

definition write_checked :: "'w Device \<Rightarrow> 'w \<Rightarrow> SettingSpec \<Rightarrow> Value \<Rightarrow> (Error + unit) \<times> 'w" where
  "write_checked d w s v =
     (case and_then (kind_validate (s_kind s) v) (\<lambda>_. and_then (mode_gate d w (s_mode_req s)) (\<lambda>_. raw_for_write s v)) of
        Inl e \<Rightarrow> (Inl e, w)
      | Inr raw \<Rightarrow> write_io d w (s_attr s) raw)"

definition dev_write :: "'w Device \<Rightarrow> 'w \<Rightarrow> string \<Rightarrow> Value \<Rightarrow> (Error + unit) \<times> 'w" where
  "dev_write d w attr v =
     (case spec attr of None \<Rightarrow> (Inl Invalid, w)
      | Some s \<Rightarrow> if s_access s = ReadOnly then (Inl Invalid, w) else write_checked d w s v)"

definition write_test_pattern :: "'w Device \<Rightarrow> 'w \<Rightarrow> string \<Rightarrow> Value \<Rightarrow> (Error + unit) \<times> 'w" where
  "write_test_pattern d w attr v =
     (case spec attr of None \<Rightarrow> (Inl Invalid, w)
      | Some s \<Rightarrow> if s_access s = ActionAccess then (Inl Invalid, w) else write_checked d w s v)"

definition ensure_desktop_mode :: "'w Device \<Rightarrow> 'w \<Rightarrow> (Error + unit) \<times> 'w" where
  "ensure_desktop_mode d w =
     (case current_mode d w of Inl e \<Rightarrow> (Inl e, w)
      | Inr m \<Rightarrow> if m = Desktop then (Inr (), w) else write_io d w ''wheel_mode'' ''desktop'')"

section \<open>Checks before a write\<close>

lemma find_spec: "spec attr = Some s \<Longrightarrow> s \<in> set (REGISTRY @ CLASSIC_REGISTRY) \<and> s_attr s = attr"
  by (auto simp: spec_def find_Some_iff split: option.splits)

lemma spec_registered:
  assumes "s \<in> set (REGISTRY @ CLASSIC_REGISTRY)"
  shows "spec (s_attr s) = Some s"
proof -
  have "inj_on s_attr (set (REGISTRY @ CLASSIC_REGISTRY))" using attrs_distinct unfolding distinct_map by blast
  then have uniq: "t = s" if "t \<in> set (REGISTRY @ CLASSIC_REGISTRY)" "s_attr t = s_attr s" for t
    using assms that by (auto dest: inj_onD)
  show ?thesis
  proof (cases "find (\<lambda>t. s_attr t = s_attr s) REGISTRY")
    case None
    then have "s \<in> set CLASSIC_REGISTRY" using assms by (auto simp: find_None_iff)
    then obtain t where "find (\<lambda>t. s_attr t = s_attr s) CLASSIC_REGISTRY = Some t"
      by (metis (mono_tags, lifting) find_None_iff not_None_eq)
    moreover from this have "t = s" by (intro uniq) (auto simp: find_Some_iff)
    ultimately show ?thesis using None by (simp add: spec_def)
  next
    case (Some t)
    then have "t = s" by (intro uniq) (auto simp: find_Some_iff)
    then show ?thesis using Some by (simp add: spec_def)
  qed
qed

lemma spec_is_ok: "spec attr = Some s \<Longrightarrow> spec_ok s \<and> s_attr s = attr"
  using find_spec registry_ok by (metis list_all_iff)

lemma dev_read_cong: "read_io d w' a = read_io d w a \<Longrightarrow> dev_read d w' a = dev_read d w a"
  by (simp add: dev_read_def cong: if_cong)

lemma write_checked_cases:
  assumes "write_checked d w s v = (res, w')"
  obtains e where "res = Inl e" "w' = w"
  | raw where "kind_validate (s_kind s) v = Inr ()" "mode_gate d w (s_mode_req s) = Inr ()"
      "raw_for_write s v = Inr raw" "write_io d w (s_attr s) raw = (res, w')"
  using assms by (auto simp: write_checked_def and_then_eq_Inr split: sum.splits)

lemma write_io_res: "write_io d w attr raw = (Inr (), w') \<longleftrightarrow> io_write (dev_io d) w attr raw = (Inr (), w')"
  by (auto simp: write_io_def split: prod.splits sum.splits)

lemma position_nth: "distinct xs \<Longrightarrow> i < length xs \<Longrightarrow> position (\<lambda>v. v = xs ! i) xs = Some i"
proof (induction xs arbitrary: i)
  case (Cons x xs)
  then show ?case by (cases i) auto
qed simp

lemma position_none: "x \<notin> set xs \<Longrightarrow> position (\<lambda>v. v = x) xs = None"
  by (induction xs) auto

text \<open>An enumeration is written as its word or as its index, and both read back.\<close>

lemma enum_reads_back:
  assumes "spec_ok s" "s_kind s = KEnum vs" "kind_validate (KEnum vs) (VEnum i) = Inr ()"
    and raw: "raw_for_write s (VEnum i) = Inr raw"
  shows "value_of_raw s raw = Inr (VEnum i)"
proof -
  have i: "unat i < length vs" using assms(3) by (auto simp: kind_ops split: if_splits)
  have vs: "distinct vs" "\<forall>v\<in>set vs. v \<noteq> [] \<and> \<not> is_digit (hd v)"
    and word: "s_attr s = ''wheel_mode'' \<or> s_attr s = ''wheel_texture_route'' \<Longrightarrow> \<forall>v\<in>set vs. plain v"
    using assms(1,2) by (auto simp: spec_ok_def list_all_iff)
  show ?thesis
  proof (cases "s_attr s = ''wheel_mode'' \<or> s_attr s = ''wheel_texture_route''")
    case True
    then have "raw = vs ! unat i" using raw assms(2) i by (auto simp: raw_for_write_def get_at_def)
    moreover from this have "trim raw = raw" using word [OF True] i by simp
    ultimately show ?thesis using position_nth [OF vs(1) i] assms(2) by (simp add: value_of_raw_def)
  next
    case False
    then have r: "raw = dec_nat (unat i)" using raw assms(2) by (auto simp: raw_for_write_def kind_format_def)
    have "is_digit (hd raw)" unfolding r by (rule dec_nat_digits [of _ "unat i"]) simp
    then have "trim raw \<notin> set vs" using vs(2) r by auto
    then show ?thesis
      using parse_format_enum [OF assms(3)] r position_none [of "trim raw" vs] assms(2) by (simp add: value_of_raw_def)
  qed
qed

lemma value_of_raw_trim: "value_of_raw s (trim raw @ [newline]) = value_of_raw s raw"
proof -
  have "kind_parse k (trim raw @ [newline]) = kind_parse k raw" for k by (simp add: kind_parse_def)
  then show ?thesis by (cases "s_kind s") (simp_all add: value_of_raw_def split: option.splits)
qed

section \<open>Attributes that keep what is written\<close>

text \<open>The contract a device relies on: on the attributes that \<open>keeps\<close> names a write succeeds, the
  trimmed text reads back with a newline, and nothing else changes; a write to any other
  attribute leaves the kept ones alone.\<close>

locale settings_store =
  fixes ops :: "'w sysfs"
    and keeps :: "'w \<Rightarrow> string \<Rightarrow> bool"
  assumes kept_write: "keeps w a \<Longrightarrow> \<exists>w'. io_write ops w a v = (Inr (), w')"
    and kept_read: "keeps w a \<Longrightarrow> io_write ops w a v = (Inr (), w') \<Longrightarrow> io_read ops w' a = Inr (trim v @ [newline])"
    and frame_read: "io_write ops w a v = (r, w') \<Longrightarrow> a' \<noteq> a \<Longrightarrow> io_read ops w' a' = io_read ops w a'"
    and frame_exists: "io_write ops w a v = (r, w') \<Longrightarrow> a' \<noteq> a \<Longrightarrow> io_exists ops w' a' = io_exists ops w a'"
    and frame_keeps: "io_write ops w a v = (r, w') \<Longrightarrow> keeps w' a' = keeps w a'"
    and refused: "io_write ops w a v = (Inl e, w') \<Longrightarrow> w' = w"
begin

lemma write_checked_frame:
  assumes "write_checked d w s v = (res, w')" "dev_io d = ops"
  shows "keeps w' a = keeps w a" "a \<noteq> s_attr s \<Longrightarrow> io_read ops w' a = io_read ops w a"
  using assms(1)
  by (auto elim!: write_checked_cases split: prod.splits sum.splits simp: write_io_def assms(2)
      dest: frame_keeps frame_read)

lemma dev_write_frame:
  assumes "dev_write d w attr v = (res, w')" "dev_io d = ops"
  shows "keeps w' a = keeps w a" "a \<noteq> attr \<Longrightarrow> io_read ops w' a = io_read ops w a"
  using assms write_checked_frame spec_is_ok by (force simp: dev_write_def split: option.splits if_splits)+

lemma dev_write_refused:
  assumes "dev_write d w attr v = (Inl e, w')" "dev_io d = ops"
  shows "w' = w"
  using assms refused
  by (auto simp: dev_write_def write_checked_def write_io_def split: option.splits if_splits sum.splits prod.splits)

lemma dev_write_reads_back:
  assumes "dev_write d w attr v = (Inr (), w')" "dev_io d = ops" "keeps w attr"
    and s: "spec attr = Some s" and rep: "reproducible (s_kind s) v"
  shows "dev_read d w' attr = Inr v"
proof -
  have ok: "spec_ok s" "s_attr s = attr" using spec_is_ok [OF s] by simp_all
  obtain raw where raw: "kind_validate (s_kind s) v = Inr ()" "raw_for_write s v = Inr raw"
      "io_write ops w attr raw = (Inr (), w')"
    using assms(1,2) s ok by (auto simp: dev_write_def write_io_res elim!: write_checked_cases split: if_splits)
  have rd: "read_io d w' attr = Inr (trim raw @ [newline])"
    using kept_read [OF assms(3) raw(3)] assms(2) by (simp add: read_io_def)
  show ?thesis
  proof (cases "s_access s = ActionAccess")
    case True
    then have "s_kind s = KAction" using ok by (simp add: spec_ok_def)
    then have "v = VTrigger" using raw(1) by (cases v) (simp_all add: kind_validate_def kind_format_def)
    then show ?thesis using True s by (simp add: dev_read_def)
  next
    case False
    show ?thesis
    proof (cases "\<exists>vs i. s_kind s = KEnum vs \<and> v = VEnum i")
      case True
      then obtain vs i where k: "s_kind s = KEnum vs" "v = VEnum i" by blast
      then show ?thesis
        using enum_reads_back [OF ok(1) k(1)] raw(1,2) False s rd by (simp add: dev_read_def value_of_raw_trim)
    next
      case other: False
      then have "kind_format (s_kind s) v = Inr raw" using raw(2) by (auto simp: raw_for_write_def split: Kind.splits Value.splits)
      moreover from this have "\<nexists>vs. s_kind s = KEnum vs" using other by (auto simp: kind_format_def split: Value.splits)
      ultimately have "value_of_raw s raw = Inr v"
        using parse_format_value [OF _ raw(1) rep] by (cases "s_kind s") (simp_all add: value_of_raw_def)
      then show ?thesis using False s rd by (simp add: dev_read_def value_of_raw_trim)
    qed
  qed
qed

end

section \<open>The in-memory store\<close>

definition fake_keeps :: "FakeSysfs \<Rightarrow> string \<Rightarrow> bool" where
  "fake_keeps f a \<longleftrightarrow> errnos f a = None \<and> read_errno f a = None"

interpretation fake: settings_store "fake_sysfs strerror" fake_keeps
  by unfold_locales
    (auto simp: fake_sysfs_def fake_write_def fake_read_def fake_exists_def fake_keeps_def split: option.splits)


definition demo_wheel :: "FakeSysfs Device" where
  "demo_wheel = with_io_and_model (fake_sysfs (\<lambda>_. [])) UnknownWheel"

definition demo_store :: FakeSysfs where
  "demo_store = fake_set ''wheel_mode'' ''desktop'' (fake_set ''wheel_range'' ''900'' fake_new)"

lemma demo_specs:
  "spec ''wheel_range'' = Some (setting ''wheel_range'' ''Rotation range'' Steering (KIntRange 90 2700 10 ''deg'') ReadWrite Any)"
  "spec ''wheel_rev_level'' = Some (setting ''wheel_rev_level'' ''Rev lights'' Steering (KIntRange 0 10 1 []) ReadOnly Any)"
  "spec ''wheel_brake_force'' = Some (setting ''wheel_brake_force'' ''Brake force'' Pedals KPercent ReadWrite OnboardOnly)"
  by (simp_all add: spec_def registry_tables)

lemma demo_validate: "kind_validate (KIntRange 90 2700 10 ''deg'') (VInt 540) = Inr ()"
  by (simp add: kind_ops)

lemma demo_range_write:
  "dev_write demo_wheel demo_store ''wheel_range'' (VInt 540) =
     (Inr (), snd (dev_write demo_wheel demo_store ''wheel_range'' (VInt 540)))"
  by (simp add: dev_write_def demo_specs write_checked_def demo_validate mode_gate_def raw_for_write_def kind_format_def
      write_io_def demo_wheel_def with_io_and_model_def fake_sysfs_def fake_write_def demo_store_def fake_set_def fake_new_def)




text \<open>The mode gate: an onboard-only attribute is refused with the mode it needs unless the wheel
  answers \<open>onboard\<close>, and a desktop-only one while it does; a G923 counts as desktop.\<close>

theorem mode_gate_decides:
  "mode_gate d w req = Inr () \<longleftrightarrow>
     req = Any \<or> (\<exists>m. current_mode d w = Inr m \<and> m = (if req = DesktopOnly then Desktop else Onboard))"
  by (cases req; cases "current_mode d w") (auto simp: mode_gate_def)

text \<open>\<open>available\<close> and \<open>read_supported\<close> agree: a setting that is not available reads as \<open>None\<close>
  without an error, and a value that is read comes from an available setting and is the value a
  plain read gives.\<close>

theorem supported_reads_agree:
  "(\<not> available d w attr \<longrightarrow> read_supported d w attr = Inr None) \<and>
   (read_supported d w attr = Inr (Some v) \<longleftrightarrow> available d w attr \<and> dev_read d w attr = Inr v)"
  by (auto simp: available_def read_supported_def split: sum.splits)

theorem supported_reads_agree_witness:
  "(\<not> available demo_wheel demo_store ''wheel_range'' \<longrightarrow> read_supported demo_wheel demo_store ''wheel_range'' = Inr None) \<and>
   (read_supported demo_wheel demo_store ''wheel_range'' = Inr (Some (VInt 900)) \<longleftrightarrow>
     available demo_wheel demo_store ''wheel_range'' \<and> dev_read demo_wheel demo_store ''wheel_range'' = Inr (VInt 900))"
  by (rule supported_reads_agree)

section \<open>Telling wheels apart\<close>

lemma short_model_label_prefix:
  "take 2 (short_model_label m @ x) = take 2 (short_model_label n @ y) \<Longrightarrow> m = n"
  by (cases m; cases n) (simp_all add: short_model_label_def)

lemma filter_take_less:
  assumes "i < j" "j < length xs" "P (xs ! i)"
  shows "length (filter P (take i xs)) < length (filter P (take j xs))"
proof -
  have "take (Suc i) xs = take i xs @ [xs ! i]" using assms by (simp add: take_Suc_conv_app_nth)
  moreover have "take j xs = take (Suc i) xs @ take (j - Suc i) (drop (Suc i) xs)"
    using assms(1) take_add [of "Suc i" "j - Suc i" xs] by simp
  ultimately show ?thesis using assms(3) by simp
qed

lemma short_label_at_differs:
  assumes "i < j" "j < length ms"
  shows "short_label_at ms i \<noteq> short_label_at ms j"
proof
  assume eq: "short_label_at ms i = short_label_at ms j"
  define sfx where "sfx i = (if length (filter (\<lambda>x. x = ms ! i) ms) \<le> 1 then []
      else '' '' @ dec_nat (length (filter (\<lambda>x. x = ms ! i) (take i ms)) + 1))" for i
  have lab: "short_label_at ms i = short_model_label (ms ! i) @ sfx i" for i
    by (simp add: short_label_at_def sfx_def Let_def)
  have same: "ms ! i = ms ! j"
    using eq short_model_label_prefix [of "ms ! i" "sfx i" "ms ! j" "sfx j"] by (simp add: lab)
  let ?n = "\<lambda>k. length (filter (\<lambda>x. x = ms ! j) (take k ms))"
  have lt: "?n i < ?n j" using assms same by (intro filter_take_less) simp_all
  have "?n (Suc j) = ?n j + 1" using assms(2) by (simp add: take_Suc_conv_app_nth)
  moreover have "?n (Suc j) \<le> length (filter (\<lambda>x. x = ms ! j) ms)"
    by (metis append_take_drop_id filter_append le_add1 length_append)
  ultimately have "\<not> length (filter (\<lambda>x. x = ms ! j) ms) \<le> 1" using lt by linarith
  then show False using eq lt same by (simp add: lab sfx_def)
qed

text \<open>The labels of a picker are pairwise different, whatever wheels are attached.\<close>

theorem short_labels_distinct: "distinct (short_labels ms)"
  unfolding short_labels_def distinct_map
  by (auto simp: inj_on_def) (metis linorder_neqE_nat short_label_at_differs)

text \<open>What discovery accepts as a wheel: the driver's own attribute, or the classic one together
  with a G923 product id.\<close>

definition real_wheel :: "wheel_fs \<Rightarrow> Found \<Rightarrow> bool" where
  "real_wheel fs d \<longleftrightarrow> has_file fs (f_dir d) ''wheel_range'' \<or>
     has_file fs (f_dir d) ''range'' \<and> f_model d = G923 \<and> map_option model_from_pid (pid_from_hid_dir fs (f_dir d)) = Some G923"

lemma real_wheel_found:
  "has_file fs dir ''wheel_range'' \<Longrightarrow> real_wheel fs \<lparr>f_dir = dir, f_model = m, f_key = k\<rparr>"
  "classic_ffb_present fs dir \<Longrightarrow> map_option model_from_pid (pid_from_hid_dir fs dir) = Some G923 \<Longrightarrow>
   real_wheel fs \<lparr>f_dir = dir, f_model = G923, f_key = k\<rparr>"
  by (simp_all add: real_wheel_def classic_ffb_present_def)

lemma discover_dirs_inv:
  assumes "distinct (map f_key found)" "\<forall>d\<in>set found. real_wheel fs d"
  shows "distinct (map f_key (discover_dirs fs found dirs)) \<and> (\<forall>d\<in>set (discover_dirs fs found dirs). real_wheel fs d)"
  using assms
proof (induction dirs arbitrary: found)
  case (Cons dir dirs)
  have new: "distinct (map f_key (found @ [\<lparr>f_dir = dir, f_model = m, f_key = dir_key fs dir\<rparr>]))"
    if "\<not> list_ex (\<lambda>d. f_key d = dir_key fs dir) found" for m
    using Cons.prems(1) that by (auto simp: list_ex_iff)
  consider (seen) "list_ex (\<lambda>d. f_key d = dir_key fs dir) found"
    | (dd) "\<not> list_ex (\<lambda>d. f_key d = dir_key fs dir) found" "has_file fs dir ''wheel_range''"
    | (classic) "\<not> list_ex (\<lambda>d. f_key d = dir_key fs dir) found" "\<not> has_file fs dir ''wheel_range''"
        "classic_ffb_present fs dir \<and> map_option model_from_pid (pid_from_hid_dir fs dir) = Some G923"
    | (other) "\<not> list_ex (\<lambda>d. f_key d = dir_key fs dir) found" "\<not> has_file fs dir ''wheel_range''"
        "\<not> (classic_ffb_present fs dir \<and> map_option model_from_pid (pid_from_hid_dir fs dir) = Some G923)"
    by blast
  then show ?case
  proof cases
    case seen
    with Cons show ?thesis by simp
  next
    case dd
    let ?d = "\<lparr>f_dir = dir, f_model = discovered_model fs dir, f_key = dir_key fs dir\<rparr>"
    have "\<forall>d\<in>set (found @ [?d]). real_wheel fs d" using Cons.prems(2) real_wheel_found(1) [OF dd(2)] by simp
    from Cons.IH [OF new [OF dd(1)] this] dd show ?thesis by (simp add: Let_def)
  next
    case classic
    let ?d = "\<lparr>f_dir = dir, f_model = G923, f_key = dir_key fs dir\<rparr>"
    have "\<forall>d\<in>set (found @ [?d]). real_wheel fs d" using Cons.prems(2) real_wheel_found(2) classic(3) by simp
    from Cons.IH [OF new [OF classic(1)] this] classic show ?thesis
      by (simp only: discover_dirs.simps Let_def if_False if_True simp_thms) blast
  next
    case other
    with Cons.IH [OF Cons.prems] show ?thesis
      by (simp only: discover_dirs.simps Let_def if_False if_True simp_thms) blast
  qed
qed simp

lemma discover_dirs_keeps: "set found \<subseteq> set (discover_dirs fs found dirs)"
  by (induction fs found dirs rule: discover_dirs.induct) (auto simp: Let_def)

lemma discover_dirs_complete:
  assumes "dir \<in> set dirs" "has_file fs dir ''wheel_range''"
  shows "dir_key fs dir \<in> f_key ` set (discover_dirs fs found dirs)"
  using assms
proof (induction dirs arbitrary: found)
  case (Cons d dirs)
  show ?case
  proof (cases "d = dir")
    case False
    with Cons have "dir_key fs dir \<in> f_key ` set (discover_dirs fs found' dirs)" for found' by simp
    then show ?thesis by (simp add: Let_def)
  next
    case True
    show ?thesis
    proof (cases "list_ex (\<lambda>d'. f_key d' = dir_key fs d) found")
      case seen: True
      then have "dir_key fs dir \<in> f_key ` set found" using True by (force simp: list_ex_iff)
      then show ?thesis using seen discover_dirs_keeps [of found fs dirs] by (auto simp: Let_def)
    next
      case False
      let ?d = "\<lparr>f_dir = d, f_model = discovered_model fs d, f_key = dir_key fs d\<rparr>"
      have "?d \<in> set (discover_dirs fs (found @ [?d]) dirs)" using discover_dirs_keeps [of "found @ [?d]" fs dirs] by simp
      then have "f_key ?d \<in> f_key ` set (discover_dirs fs (found @ [?d]) dirs)" by (rule imageI)
      then show ?thesis using False True Cons.prems(2) by (simp add: Let_def)
    qed
  qed
qed simp

text \<open>Discovery lists each attached wheel once: the keys are pairwise different, every entry is a
  directory with the driver's own attribute or a G923 by product id, and no directory with the
  driver's attribute is left out.\<close>

theorem discovery_lists_each_wheel_once:
  assumes "override_dir fs = None" "hidraw_devices fs = Some dirs"
  shows "distinct (map f_key (discover_all fs)) \<and>
    (\<forall>d\<in>set (discover_all fs). real_wheel fs d) \<and>
    (\<forall>dir\<in>set dirs. has_file fs dir ''wheel_range'' \<longrightarrow> dir_key fs dir \<in> f_key ` set (discover_all fs))"
proof -
  have all: "discover_all fs = discover_dirs fs [] (sort dirs)" using assms by (simp add: discover_all_def)
  have comp: "dir_key fs dir \<in> f_key ` set (discover_all fs)" if "dir \<in> set dirs" "has_file fs dir ''wheel_range''" for dir
    unfolding all using that by (intro discover_dirs_complete) simp_all
  have "distinct (map f_key (discover_all fs)) \<and> (\<forall>d\<in>set (discover_all fs). real_wheel fs d)"
    unfolding all by (rule discover_dirs_inv) simp_all
  then show ?thesis using comp by blast
qed

definition demo_fs :: wheel_fs where
  "demo_fs = \<lparr>override_dir = None,
     hidraw_devices = Some [[''hidraw1'', ''device''], [''hidraw0'', ''device''], [''hidraw2'', ''device'']],
     canonicalize = (\<lambda>p. if hd p = ''hidraw2'' then Some [''usb1'', ''1-4'', ''1-4:1.0'', ''0003:046D:C266.0002'']
                         else Some [''usb1'', ''1-5'', ''1-5:1.1'', ''0003:046D:C276.0051'']),
     has_file = (\<lambda>p f. if hd p = ''hidraw2'' then f = ''range'' else f = ''wheel_range''),
     input_entries = None, input_real = (\<lambda>_. None), input_device_name = (\<lambda>_. None)\<rparr>"

lemma demo_fs_sel:
  "override_dir demo_fs = None"
  "hidraw_devices demo_fs = Some [[''hidraw1'', ''device''], [''hidraw0'', ''device''], [''hidraw2'', ''device'']]"
  "has_file demo_fs [''hidraw1'', ''device''] ''wheel_range''"
  by (simp_all add: demo_fs_def)

theorem discovery_lists_each_wheel_once_witness:
  "distinct (map f_key (discover_all demo_fs)) \<and> set (discover_all demo_fs) \<subseteq> {d. real_wheel demo_fs d} \<and>
   dir_key demo_fs [''hidraw1'', ''device''] \<in> f_key ` set (discover_all demo_fs)"
proof (intro conjI subsetI)
  note lists = discovery_lists_each_wheel_once [OF demo_fs_sel(1,2)]
  show "distinct (map f_key (discover_all demo_fs))" by (rule lists [THEN conjunct1])
  show "d \<in> {d. real_wheel demo_fs d}" if "d \<in> set (discover_all demo_fs)" for d
    using lists [THEN conjunct2, THEN conjunct1] that by blast
  show "dir_key demo_fs [''hidraw1'', ''device''] \<in> f_key ` set (discover_all demo_fs)"
    by (rule lists [THEN conjunct2, THEN conjunct2, rule_format, OF _ demo_fs_sel(3)]) simp
qed

text \<open>An RS50 that borrows a G PRO product id is told by its name, and any other known id is
  believed whatever the name says.\<close>

theorem model_for_trusts_the_id_but_for_g_pro:
  "model_for (Some pid) name =
     (if pid \<in> {0xc272, 0xc268} then (if model_from_name name = UnknownWheel then GPro else model_from_name name)
      else if pid \<in> set (DD_PIDS @ G923_PIDS) then model_from_pid pid else model_from_name name)"
  by (auto simp: model_for_def model_from_pid_def DD_PIDS_def G923_PIDS_def is_g923_pid_def Let_def)

end
