(* ===== verification/Profile_Store.thy ===== *)
theory Profile_Store
  imports Device "HOL-Library.AList"
begin

text \<open>
  The computer-side profiles of \<open>logi-wheel-core/src/profiles.rs\<close>: saving a snapshot of a
  device's settings as a text file, replaying such a file onto a device, and moving the store
  from its old directory. The file system is a list of files with their contents, the
  directories that exist, and the paths the system refuses to create or write.
\<close>

section \<open>Files\<close>

record Fs =
  files :: "(path \<times> string) list"
  dirs :: "path list"
  refuses :: "path \<Rightarrow> string option"

definition is_dir :: "Fs \<Rightarrow> path \<Rightarrow> bool" where
  "is_dir fs p \<longleftrightarrow> p \<in> set (dirs fs)"

definition fs_lookup :: "Fs \<Rightarrow> path \<Rightarrow> string option" where
  "fs_lookup fs p = map_of (files fs) p"

definition create_dir_all :: "Fs \<Rightarrow> path \<Rightarrow> (string + unit) \<times> Fs" where
  "create_dir_all fs p =
     (case refuses fs p of Some e \<Rightarrow> (Inl e, fs)
      | None \<Rightarrow> (Inr (), fs\<lparr>dirs := map (\<lambda>n. take n p) [1..<Suc (length p)] @ dirs fs\<rparr>))"

definition fs_write :: "Fs \<Rightarrow> path \<Rightarrow> string \<Rightarrow> (string + unit) \<times> Fs" where
  "fs_write fs p c =
     (case refuses fs p of Some e \<Rightarrow> (Inl e, fs)
      | None \<Rightarrow> if \<not> is_dir fs (butlast p) then (Inl ''No such file or directory (os error 2)'', fs)
               else (Inr (), fs\<lparr>files := AList.update p c (files fs)\<rparr>))"

definition fs_read :: "Fs \<Rightarrow> path \<Rightarrow> string + string" where
  "fs_read fs p = ok_or ''No such file or directory (os error 2)'' (fs_lookup fs p)"

definition fs_remove :: "Fs \<Rightarrow> path \<Rightarrow> (string + unit) \<times> Fs" where
  "fs_remove fs p =
     (case fs_lookup fs p of None \<Rightarrow> (Inl ''No such file or directory (os error 2)'', fs)
      | Some _ \<Rightarrow> (Inr (), fs\<lparr>files := AList.delete p (files fs)\<rparr>))"

text \<open>The regular files directly under a directory.\<close>

definition dir_files :: "Fs \<Rightarrow> path \<Rightarrow> (string \<times> string) list" where
  "dir_files fs d = map (\<lambda>(p, c). (last p, c)) (filter (\<lambda>(p, c). p \<noteq> [] \<and> butlast p = d) (files fs))"

lemma fs_write_read:
  "fs_write fs p c = (Inr (), fs') \<Longrightarrow> fs_lookup fs' q = (if q = p then Some c else fs_lookup fs q)"
  by (auto simp: fs_write_def fs_lookup_def update_conv split: option.splits if_splits)

section \<open>The store directory\<close>

text \<open>One file of \<open>migrate_dir\<close>: an existing destination is left alone.\<close>

definition migrate_file :: "Fs \<Rightarrow> path \<Rightarrow> string \<times> string \<Rightarrow> (string + unit) \<times> Fs" where
  "migrate_file fs new_dir entry =
     (let dest = new_dir @ [fst entry] in
      if fs_lookup fs dest \<noteq> None then (Inr (), fs) else fs_write fs dest (snd entry))"

fun migrate_files :: "Fs \<Rightarrow> path \<Rightarrow> (string \<times> string) list \<Rightarrow> (string + unit) \<times> Fs" where
  "migrate_files fs new_dir [] = (Inr (), fs)"
| "migrate_files fs new_dir (e # es) =
     (case migrate_file fs new_dir e of (Inl x, fs') \<Rightarrow> (Inl x, fs') | (Inr _, fs') \<Rightarrow> migrate_files fs' new_dir es)"

definition migrate_dir :: "Fs \<Rightarrow> path \<Rightarrow> path \<Rightarrow> (string + unit) \<times> Fs" where
  "migrate_dir fs old_dir new_dir =
     (case create_dir_all fs new_dir of (Inl e, fs') \<Rightarrow> (Inl e, fs')
      | (Inr _, fs') \<Rightarrow> migrate_files fs' new_dir (dir_files fs' old_dir))"

definition resolve_subdir_in :: "Fs \<Rightarrow> path \<Rightarrow> string \<Rightarrow> path \<times> Fs" where
  "resolve_subdir_in fs root subdir =
     (let new_dir = root @ [''logi-wheel'', subdir]; old_dir = root @ [''logi-dd'', subdir] in
      if is_dir fs new_dir then (new_dir, fs)
      else if is_dir fs old_dir
      then (case migrate_dir fs old_dir new_dir of (Inr _, fs') \<Rightarrow> (new_dir, fs') | (Inl _, fs') \<Rightarrow> (old_dir, fs'))
      else (new_dir, fs))"

definition config_root :: "path option \<Rightarrow> path option \<Rightarrow> path" where
  "config_root xdg home =
     (case xdg of Some p \<Rightarrow> if p \<noteq> [] then p else (case home of Some h \<Rightarrow> h | None \<Rightarrow> []) @ [''.config'']
      | None \<Rightarrow> (case home of Some h \<Rightarrow> h | None \<Rightarrow> []) @ [''.config''])"

definition default_dir :: "Fs \<Rightarrow> path option \<Rightarrow> path option \<Rightarrow> path \<times> Fs" where
  "default_dir fs xdg home = resolve_subdir_in fs (config_root xdg home) ''profiles''"

section \<open>Names\<close>

definition validate_name :: "string \<Rightarrow> Error + string" where
  "validate_name name0 =
     (let name = trim name0; len = chars_count name in
      if \<not> (1 \<le> len \<and> len \<le> 32) \<or> CHR ''/'' \<in> set name \<or> CHR 0x5C \<in> set name \<or> CHR 0x00 \<in> set name
         \<or> name = ''.'' \<or> name = ''..''
      then Inl Invalid else Inr name)"

definition profile_path :: "path \<Rightarrow> string \<Rightarrow> Error + path" where
  "profile_path dir name = and_then (validate_name name) (\<lambda>n. Inr (dir @ [n @ ''.profile'']))"

text \<open>\<open>Path::extension\<close> and \<open>Path::file_stem\<close>: what follows and what precedes the last dot, unless
  that dot starts the name.\<close>

definition split_ext :: "string \<Rightarrow> string \<times> string option" where
  "split_ext n =
     (case split_once (CHR ''.'') (rev n) of
        Some (e, s) \<Rightarrow> if s = [] then (n, None) else (rev s, Some (rev e))
      | None \<Rightarrow> (n, None))"

definition list_in :: "Fs \<Rightarrow> path \<Rightarrow> string list" where
  "list_in fs dir =
     sort (map (\<lambda>e. fst (split_ext (fst e))) (filter (\<lambda>e. snd (split_ext (fst e)) = Some ''profile'') (dir_files fs dir)))"

definition delete_in :: "Fs \<Rightarrow> path \<Rightarrow> string \<Rightarrow> (Error + unit) \<times> Fs" where
  "delete_in fs dir name =
     (case profile_path dir name of Inl e \<Rightarrow> (Inl e, fs)
      | Inr p \<Rightarrow> (case fs_remove fs p of (Inl e, fs') \<Rightarrow> (Inl (Io e), fs') | (Inr _, fs') \<Rightarrow> (Inr (), fs')))"

section \<open>Saving and applying\<close>

definition FILE_HEADER :: string where "FILE_HEADER = ''# logi-wheel profile''"

definition snapshotted :: "SettingSpec \<Rightarrow> bool" where
  "snapshotted s \<longleftrightarrow>
     s_access s = ReadWrite \<and> (case s_kind s of KSlotText _ _ \<Rightarrow> False | _ \<Rightarrow> True)
     \<and> s_mode_req s \<noteq> OnboardOnly \<and> spec_role s \<notin> {StoreSelector, Transient}"

definition snapshot_raw :: "'w Device \<Rightarrow> 'w \<Rightarrow> SettingSpec \<Rightarrow> string option" where
  "snapshot_raw d w s =
     (if \<not> available d w (s_attr s) then None
      else do { v \<leftarrow> to_ok (dev_read d w (s_attr s)); to_ok (kind_format (s_kind s) v) })"

definition profile_line :: "string \<times> string \<Rightarrow> string" where
  "profile_line e = fst e @ ''='' @ snd e"

definition profile_entries :: "'w Device \<Rightarrow> 'w \<Rightarrow> (string \<times> string) list" where
  "profile_entries d w =
     List.map_filter (\<lambda>s. map_option (\<lambda>raw. (s_attr s, raw)) (snapshot_raw d w s)) (filter snapshotted (settings d))"

definition profile_text :: "'w Device \<Rightarrow> 'w \<Rightarrow> string" where
  "profile_text d w = FILE_HEADER @ [newline] @ concat (map (\<lambda>e. profile_line e @ [newline]) (profile_entries d w))"

definition save_in :: "Fs \<Rightarrow> path \<Rightarrow> string \<Rightarrow> 'w Device \<Rightarrow> 'w \<Rightarrow> (Error + unit) \<times> Fs" where
  "save_in fs dir name d w =
     (case profile_path dir name of Inl e \<Rightarrow> (Inl e, fs)
      | Inr p \<Rightarrow>
          (case create_dir_all fs dir of (Inl e, fs') \<Rightarrow> (Inl (Io e), fs')
           | (Inr _, fs') \<Rightarrow>
               (case fs_write fs' p (profile_text d w) of (Inl e, fs'') \<Rightarrow> (Inl (Io e), fs'') | (Inr _, fs'') \<Rightarrow> (Inr (), fs''))))"

type_synonym problems = "(string \<times> string) list"

definition apply_line :: "'w Device \<Rightarrow> string \<Rightarrow> 'w \<times> problems \<Rightarrow> 'w \<times> problems" where
  "apply_line d line st =
     (case st of (w, errors) \<Rightarrow>
       (case split_once (CHR ''='') line of
          None \<Rightarrow> (w, errors @ [(line, ''not an attr=value line'')])
        | Some (attr, raw) \<Rightarrow>
            if role_of (trim attr) \<in> {StoreSelector, Transient} then (w, errors)
            else (case spec attr of
                None \<Rightarrow> (w, errors @ [(attr, ''unknown setting'')])
              | Some s \<Rightarrow>
                  (case kind_parse (s_kind s) raw of Inl e \<Rightarrow> (w, errors @ [(attr, error_display e)])
                   | Inr v \<Rightarrow>
                       (case dev_write d w attr v of (Inl e, w') \<Rightarrow> (w', errors @ [(attr, error_display e)])
                        | (Inr _, w') \<Rightarrow> (w', errors))))))"

definition line_role :: "string \<Rightarrow> Role option" where
  "line_role line = map_option (\<lambda>(attr, _). role_of (trim attr)) (split_once (CHR ''='') line)"

definition profile_lines :: "string \<Rightarrow> string list" where
  "profile_lines text = filter (\<lambda>l. l \<noteq> [] \<and> \<not> starts_with l ''#'') (map trim (lines text))"

definition apply_text :: "'w Device \<Rightarrow> string \<Rightarrow> 'w \<Rightarrow> 'w \<times> problems" where
  "apply_text d text w =
     fold (apply_line d) (filter (\<lambda>l. line_role l = Some DisplaySelector) (profile_lines text))
       (fold (apply_line d) (filter (\<lambda>l. line_role l \<noteq> Some DisplaySelector) (profile_lines text)) (w, []))"

definition apply_in :: "Fs \<Rightarrow> path \<Rightarrow> string \<Rightarrow> 'w Device \<Rightarrow> 'w \<Rightarrow> (Error + problems) \<times> 'w" where
  "apply_in fs dir name d w =
     (case profile_path dir name of Inl e \<Rightarrow> (Inl e, w)
      | Inr p \<Rightarrow>
          (case fs_read fs p of Inl e \<Rightarrow> (Inl (Io e), w)
           | Inr text \<Rightarrow> (case apply_text d text w of (w', errors) \<Rightarrow> (Inr errors, w'))))"

section \<open>What a snapshot holds\<close>

text \<open>A value that an attribute reads as is one its kind accepts, unless it is a loaded curve.\<close>

lemma scaled_percent_bound: "0 < m \<Longrightarrow> n \<le> m \<Longrightarrow> (n * 100 + m div 2) div m \<le> (100 :: nat)"
proof -
  assume "0 < m" "n \<le> m"
  then have "(n * 100 + m div 2) div m \<le> (m * 100 + m div 2) div m" by (intro div_le_mono) simp
  also have "\<dots> = 100" using \<open>0 < m\<close> by simp
  finally show ?thesis .
qed

lemma validate_percent:
  assumes "uint n \<le> 100"
  shows "kind_validate KPercent (VPercent n) = Inr ()"
proof -
  have "- 2147483648 \<le> uint n" using uint_u8_bounds(1) [of n] by linarith
  then show ?thesis using assms by (simp add: kind_ops)
qed

lemma validate_scaled: "unat n \<le> 100 \<Longrightarrow> m \<noteq> 0 \<Longrightarrow> kind_validate (KScaledPercent m) (VPercent n) = Inr ()"
proof -
  assume n: "unat n \<le> 100" and m: "m \<noteq> 0"
  have "(unat n * unat m + 50) div 100 \<le> (100 * unat m + 50) div 100" using n by (intro div_le_mono add_mono mult_le_mono1) simp_all
  then have q: "(unat n * unat m + 50) div 100 \<le> unat m" by simp
  then have "\<not> uint m < int ((unat n * unat m + 50) div 100)" by (metis not_less of_nat_le_iff uint_nat)
  moreover have "int ((unat n * unat m + 50) div 100) \<le> 9223372036854775807" using q unat_word_bounds(3) [of m] by linarith
  ultimately show ?thesis using m by (simp add: kind_ops)
qed

lemma parsed_value_validates:
  assumes p: "kind_parse k raw = Inr v" and f: "kind_format k v = Inr s"
  shows "kind_validate k v = Inr ()"
proof (cases k)
  case KPercent
  then obtain n where "v = VPercent (word_of_int n)" "0 \<le> n" "n \<le> 100"
    using p by (auto simp: kind_parse_def Let_def and_then_eq_Inr split: if_splits)
  moreover from this have "uint (word_of_int n :: u8) = n" by (simp add: uint_word_of_int)
  ultimately show ?thesis using KPercent validate_percent [of "word_of_int n"] by simp
next
  case (KScaledPercent m)
  then obtain n where n: "v = VPercent (word_of_nat ((nat n * 100 + unat m div 2) div unat m))" "0 \<le> n" "\<not> uint m < n" "m \<noteq> 0"
    using p by (auto simp: kind_parse_def Let_def and_then_eq_Inr not_less split: if_splits)
  have "nat n \<le> nat (uint m)" using n(3) by (intro nat_mono) (simp only: not_less)
  then have "nat n \<le> unat m" by (simp only: unat_eq_nat_uint)
  moreover have "0 < unat m" using n(4) by (simp add: unat_gt_0)
  ultimately have "(nat n * 100 + unat m div 2) div unat m \<le> 100" by (intro scaled_percent_bound)
  then have "unat (word_of_nat ((nat n * 100 + unat m div 2) div unat m) :: u8) \<le> 100"
    by (simp add: unat_of_nat)
  then show ?thesis using KScaledPercent n validate_scaled by simp
next
  case (KIntRange lo hi st u)
  then obtain n where n: "v = VInt (word_of_int n)" "parse_i32 (trim raw) = Some n" "lo \<le> n" "n \<le> hi"
    using p by (auto simp: kind_parse_def Let_def and_then_eq_Inr not_less split: if_splits)
  then have b: "- 2147483648 \<le> n" "n \<le> 2147483647" using parse_signed_bound by blast+
  then have "sint (word_of_int n :: i32) = n" by (intro sint_word_of_int_32) simp_all
  then show ?thesis using KIntRange n b by (simp add: kind_ops)
next
  case (KEnum vs)
  then obtain n where n: "v = VEnum (word_of_nat n)" "n < length vs"
    using p by (auto simp: kind_parse_def Let_def and_then_eq_Inr not_le split: if_splits)
  have "unat (word_of_nat n :: u8) \<le> n" by (simp add: unat_of_nat)
  then have "unat (word_of_nat n :: u8) < length vs" using n(2) by simp
  moreover have "unat (word_of_nat n :: u8) \<le> 18446744073709551615" using unat_word_bounds(1) by (rule order_trans) simp
  ultimately show ?thesis using KEnum n by (simp add: kind_ops)
next
  case (KTextField m)
  then show ?thesis using p by (auto simp: kind_ops split: if_splits)
next
  case (KRgbStrip leds)
  then obtain cs where cs: "v = VRgb cs" "length cs = leds"
    using p by (auto simp: kind_parse_def Let_def and_then_eq_Inr split: if_splits)
  have plain: "\<forall>t\<in>set (map to_hex cs). plain t" using to_hex_plain by auto
  show ?thesis using KRgbStrip cs split_whitespace_join [OF plain] trim_join [OF plain, of "'' ''"]
      collect_results_map [of cs from_hex to_hex] from_hex_to_hex by (simp add: kind_ops)
next
  case KCurve
  then show ?thesis
    using f parse_format_curve by (cases v) (auto simp: kind_format_def kind_validate_def)
next
  case (KPair m)
  then obtain lo hi where v: "v = VPair lo hi" "\<not> unat m < unat lo + unat hi"
    using p by (auto simp: kind_parse_def parse_pair_def Let_def and_then_eq_Inr split: if_splits list.splits)
  let ?ts = "[dec_nat (unat lo), dec_nat (unat hi)]"
  have pl: "\<forall>t\<in>set ?ts. plain t" by simp
  show ?thesis using KPair v split_whitespace_join [OF pl] trim_join [OF pl, of "'' ''"]
    by (simp add: kind_ops parse_pair_def unat_word_bounds)
next
  case KRpmFeed
  then show ?thesis using f parse_format_rpm by (cases v) (auto simp: kind_format_def kind_validate_def)
next
  case KToggle
  then show ?thesis using f by (cases v) (auto simp: kind_ops)
next
  case KAction
  then show ?thesis using f by (auto simp: kind_validate_def)
next
  case (KSlotText slots m)
  then show ?thesis using p f by (auto simp: kind_parse_def kind_format_def Let_def and_then_eq_Inr)
qed

lemma position_less: "position P xs = Some i \<Longrightarrow> i < length xs"
  by (induction xs arbitrary: i) (auto split: if_splits)

lemma validate_enum: "unat i < length vs \<Longrightarrow> kind_validate (KEnum vs) (VEnum i) = Inr ()"
proof -
  assume "unat i < length vs"
  moreover have "unat i \<le> 18446744073709551615" using unat_word_bounds(1) [of i] by linarith
  ultimately show ?thesis by (simp add: kind_ops)
qed

lemma read_value_validates:
  assumes "value_of_raw s raw = Inr v" "kind_format (s_kind s) v = Inr r"
  shows "kind_validate (s_kind s) v = Inr ()"
proof (cases "\<exists>vs i. s_kind s = KEnum vs \<and> position (\<lambda>u. u = trim raw) vs = Some i")
  case True
  then obtain vs i where k: "s_kind s = KEnum vs" and i: "position (\<lambda>u. u = trim raw) vs = Some i" by blast
  then have v: "v = VEnum (word_of_nat i)" using assms(1) by (simp add: value_of_raw_def)
  have "unat (word_of_nat i :: u8) \<le> i" by (simp add: unat_of_nat)
  then have "unat (word_of_nat i :: u8) < length vs" using position_less [OF i] by simp
  then show ?thesis using k v validate_enum by simp
next
  case False
  then have "kind_parse (s_kind s) raw = Inr v"
    using assms(1) by (cases "s_kind s") (auto simp: value_of_raw_def split: option.splits)
  then show ?thesis using assms(2) by (rule parsed_value_validates)
qed

lemma read_value_formats:
  assumes "value_of_raw s raw = Inr v" "\<forall>m n. s_kind s \<noteq> KSlotText m n" "\<forall>n. v \<noteq> VCurveLoaded n"
  shows "\<exists>r. kind_format (s_kind s) v = Inr r"
proof (cases "s_kind s")
  case KCurve
  then show ?thesis using assms(1,3)
    by (auto simp: value_of_raw_def kind_parse_def parse_curve_def kind_format_def Let_def and_then_eq_Inr
        split: option.splits if_splits)
qed (use assms in \<open>auto simp: value_of_raw_def kind_parse_def kind_format_def Let_def and_then_eq_Inr
    parse_pair_def parse_rpm_def split: option.splits if_splits list.splits\<close>)

lemma read_value_reproducible:
  assumes "value_of_raw s raw = Inr v" "snapshotted s" "spec_ok s"
  shows "reproducible (s_kind s) v"
proof (cases "s_kind s")
  case (KTextField m)
  then show ?thesis using assms(1) by (auto simp: value_of_raw_def kind_parse_def reproducible_def Let_def split: if_splits)
next
  case (KScaledPercent m)
  then have "m = 65535" using assms(3) by (simp add: spec_ok_def)
  then show ?thesis using KScaledPercent by (simp add: reproducible_def)
qed (use assms(2) in \<open>simp_all add: reproducible_def snapshotted_def\<close>)

lemma join_avoids: "c \<notin> set sep \<Longrightarrow> \<forall>t\<in>set ts. c \<notin> set t \<Longrightarrow> c \<notin> set (join sep ts)"
  by (induction sep ts rule: join.induct) auto

lemma newline_space [simp]: "is_space newline"
  by (simp add: is_space_def)

lemma plain_no_newline: "plain t \<Longrightarrow> newline \<notin> set t"
  using newline_space by (auto simp: plain_def)

definition one_line :: "string \<Rightarrow> bool" where
  "one_line s \<longleftrightarrow> trim s = s \<and> newline \<notin> set s"

lemma plain_one_line: "plain s \<Longrightarrow> one_line s"
  by (simp add: one_line_def plain_no_newline)

lemma join_one_line:
  assumes "\<forall>t\<in>set ts. plain t"
  shows "one_line (join '' '' ts)"
proof -
  have "newline \<notin> set (join '' '' ts)" using assms plain_no_newline by (intro join_avoids) auto
  then show ?thesis using trim_join [OF assms] by (simp add: one_line_def)
qed

lemma formatted_one_line:
  assumes "kind_format k v = Inr s" "\<And>m. k \<noteq> KTextField m" "\<And>m n. k \<noteq> KSlotText m n"
  shows "one_line s"
proof (cases k)
  case (KRgbStrip leds)
  then show ?thesis using assms(1) to_hex_plain by (cases v) (auto simp: kind_format_def intro!: join_one_line)
next
  case KCurve
  then show ?thesis using assms(1) format_point_plain plain_one_line [OF plain_literals(3)]
    by (cases v) (auto simp: kind_format_def intro!: join_one_line split: if_splits)
next
  case (KPair m)
  then show ?thesis
    using assms(1) join_one_line [of "[dec_nat a, dec_nat b]" for a b] by (cases v) (auto simp: kind_format_def)
next
  case KRpmFeed
  then show ?thesis
    using assms(1) join_one_line [of "[dec_nat a, dec_nat b, dec_nat c]" for a b c] by (cases v) (auto simp: kind_format_def)
next
  case KToggle
  then show ?thesis
    using assms(1) plain_one_line [OF plain_literals(1)] plain_one_line [OF plain_literals(2)]
    by (cases v) (auto simp: kind_format_def split: if_splits)
next
  case KAction
  then show ?thesis
    using assms(1) plain_one_line [OF plain_literals(2)] by (cases v) (auto simp: kind_format_def)
qed (use assms in \<open>cases v; auto simp: kind_format_def intro!: plain_one_line\<close>)+

text \<open>The lines of a saved text are the lines that were saved.\<close>

lemma one_line_last: "one_line s \<Longrightarrow> s \<noteq> [] \<Longrightarrow> last s \<noteq> carriage_return"
  using trim_hd_last(2) [of s s] by (auto simp: one_line_def is_space_def)

lemma lines_of_saved:
  assumes "\<forall>l\<in>set ls. one_line l"
  shows "lines (concat (map (\<lambda>l. l @ [newline]) ls)) = ls"
  using assms
proof (induction ls)
  case Nil
  then show ?case by (simp add: lines_def)
next
  case (Cons l ls)
  have "strip_cr l = l" using Cons.prems one_line_last by (auto simp: strip_cr_def)
  moreover have "newline \<notin> set l" using Cons.prems by (simp add: one_line_def)
  moreover have "nl_terminated (l @ [newline])" by (simp add: nl_terminated_def)
  ultimately show ?case
    using Cons lines_append [of "l @ [newline]"] lines_terminated [of l] by simp
qed

lemma profile_line_one_line:
  assumes "plain a" "one_line raw"
  shows "one_line (profile_line (a, raw))"
proof -
  have "trim (profile_line (a, raw)) = profile_line (a, raw)"
  proof (rule trim_ends)
    have "\<not> is_space (hd a)" using assms(1) by (auto simp: plain_def)
    moreover have "\<not> is_space (last raw)" if "raw \<noteq> []" using trim_hd_last(2) [of raw raw] assms(2) that by (simp add: one_line_def)
    moreover have "\<not> is_space (CHR ''='')" by (simp add: is_space_def)
    moreover have "a \<noteq> []" using assms(1) by (simp add: plain_def)
    ultimately show "\<not> is_space (hd (profile_line (a, raw))) \<and> \<not> is_space (last (profile_line (a, raw)))"
      by (simp add: profile_line_def)
  qed
  moreover have "newline \<notin> set (profile_line (a, raw))"
    using assms plain_no_newline by (auto simp: profile_line_def one_line_def)
  ultimately show ?thesis by (simp add: one_line_def)
qed

lemma profile_lines_of_saved:
  assumes "\<forall>(a, raw)\<in>set es. plain a \<and> hd a \<noteq> CHR ''#'' \<and> one_line raw"
  shows "profile_lines (FILE_HEADER @ [newline] @ concat (map (\<lambda>e. profile_line e @ [newline]) es)) = map profile_line es"
proof -
  have one: "\<forall>l\<in>set (map profile_line es). one_line l" using assms profile_line_one_line by fastforce
  have hdr: "one_line FILE_HEADER" "starts_with FILE_HEADER ''#''" by (simp_all add: FILE_HEADER_def one_line_def) (code_simp)
  have "lines (concat (map (\<lambda>l. l @ [newline]) (FILE_HEADER # map profile_line es))) = FILE_HEADER # map profile_line es"
    using one hdr by (intro lines_of_saved) simp
  moreover have "map trim (map profile_line es) = map profile_line es"
    using one by (intro map_idI) (auto simp: one_line_def)
  moreover have "filter (\<lambda>l. l \<noteq> [] \<and> \<not> starts_with l ''#'') (map profile_line es) = map profile_line es"
    using assms by (intro filter_True) (auto simp: profile_line_def plain_def neq_Nil_conv)
  moreover have "trim FILE_HEADER = FILE_HEADER" using hdr(1) by (simp add: one_line_def)
  moreover have "FILE_HEADER @ [newline] @ concat (map (\<lambda>e. profile_line e @ [newline]) es) =
      concat (map (\<lambda>l. l @ [newline]) (FILE_HEADER # map profile_line es))" by (simp add: comp_def)
  ultimately show ?thesis using hdr(2) by (simp only: profile_lines_def list.map) simp
qed

section \<open>Replaying a snapshot\<close>

lemma validated_raw_for_write:
  assumes "kind_validate (s_kind s) v = Inr ()" "\<forall>m n. s_kind s \<noteq> KSlotText m n"
  shows "\<exists>raw. raw_for_write s v = Inr raw"
proof (cases "\<exists>vs i. s_kind s = KEnum vs \<and> v = VEnum i")
  case True
  then obtain vs i where k: "s_kind s = KEnum vs" "v = VEnum i" by blast
  then have "unat i < length vs" using assms(1) by (auto simp: kind_ops split: if_splits)
  then show ?thesis using k by (auto simp: raw_for_write_def get_at_def kind_format_def)
next
  case False
  then have "raw_for_write s v = kind_format (s_kind s) v"
    by (auto simp: raw_for_write_def split: Kind.splits Value.splits)
  moreover have "\<exists>raw. kind_format (s_kind s) v = Inr raw"
    using assms by (cases "s_kind s") (auto simp: kind_validate_def and_then_eq_Inr)
  ultimately show ?thesis by simp
qed

lemma snapshotted_kind: "snapshotted s \<Longrightarrow> \<forall>m n. s_kind s \<noteq> KSlotText m n"
  by (auto simp: snapshotted_def)

lemma snapshotted_role: "snapshotted s \<Longrightarrow> role_of (s_attr s) \<notin> {StoreSelector, Transient}"
  by (simp add: snapshotted_def spec_role_def)

lemma snapshotted_not_mode: "snapshotted s \<Longrightarrow> s_attr s \<noteq> ''wheel_mode''"
  using snapshotted_role [of s] by (auto simp: role_of_def)

lemma snapshotted_gate: "snapshotted s \<Longrightarrow> current_mode d w = Inr Desktop \<Longrightarrow> mode_gate d w (s_mode_req s) = Inr ()"
  by (cases "s_mode_req s") (auto simp: mode_gate_def snapshotted_def)

text \<open>An entry of a snapshot: an attribute with its written text and the value it stands for.\<close>

definition entry_ok :: "string \<times> string \<times> Value \<Rightarrow> bool" where
  "entry_ok e \<longleftrightarrow> (case e of (a, raw, v) \<Rightarrow> \<exists>s. spec a = Some s \<and> snapshotted s \<and>
     kind_parse (s_kind s) raw = Inr v \<and> kind_validate (s_kind s) v = Inr () \<and> reproducible (s_kind s) v)"

definition entry_line :: "string \<times> string \<times> Value \<Rightarrow> string" where
  "entry_line e = profile_line (fst e, fst (snd e))"

lemma entry_line_split:
  assumes "entry_ok (a, raw, v)"
  shows "split_once (CHR ''='') (entry_line (a, raw, v)) = Some (a, raw)" "trim a = a"
proof -
  obtain s where s: "spec a = Some s" using assms by (auto simp: entry_ok_def)
  then have "CHR ''='' \<notin> set a" "plain a" using spec_is_ok [OF s] by (auto simp: spec_ok_def)
  then show "split_once (CHR ''='') (entry_line (a, raw, v)) = Some (a, raw)" "trim a = a"
    by (simp_all add: entry_line_def profile_line_def)
qed

context settings_store
begin

lemma apply_entry:
  assumes io: "dev_io d = ops" and e: "entry_ok (a, raw, v)" and keep: "keeps w a" and mode: "current_mode d w = Inr Desktop"
  shows "\<exists>w'. apply_line d (entry_line (a, raw, v)) (w, errs) = (w', errs) \<and> dev_write d w a v = (Inr (), w')"
proof -
  obtain s where s: "spec a = Some s" "snapshotted s" "kind_parse (s_kind s) raw = Inr v" "kind_validate (s_kind s) v = Inr ()"
    using e by (auto simp: entry_ok_def)
  have a: "s_attr s = a" using spec_is_ok [OF s(1)] by simp
  obtain r where r: "raw_for_write s v = Inr r" using validated_raw_for_write [OF s(4) snapshotted_kind [OF s(2)]] by blast
  obtain w' where w': "io_write ops w a r = (Inr (), w')" using kept_write [OF keep] by blast
  have "s_access s \<noteq> ReadOnly" using s(2) by (simp add: snapshotted_def)
  then have wr: "dev_write d w a v = (Inr (), w')"
    using s r w' a io snapshotted_gate [OF s(2) mode] by (simp add: dev_write_def write_checked_def write_io_def)
  have "role_of a \<notin> {StoreSelector, Transient}" using snapshotted_role [OF s(2)] a by simp
  then have "apply_line d (entry_line (a, raw, v)) (w, errs) = (w', errs)"
    using entry_line_split [OF e] s(1,3) wr by (simp add: apply_line_def)
  then show ?thesis using wr by blast
qed

lemma current_mode_frame:
  assumes "dev_write d w a v = (res, w')" "dev_io d = ops" "a \<noteq> ''wheel_mode''"
  shows "current_mode d w' = current_mode d w"
  using dev_write_frame(2) [OF assms(1,2), of "''wheel_mode''"] assms(2,3) by (simp add: current_mode_def read_io_def)

lemma apply_entries:
  assumes "dev_io d = ops" "\<forall>e\<in>set es. entry_ok e" "distinct (map fst es)" "\<forall>e\<in>set es. keeps w (fst e)"
    "current_mode d w = Inr Desktop"
  shows "\<exists>w'. fold (apply_line d) (map entry_line es) (w, errs) = (w', errs) \<and>
    (\<forall>e\<in>set es. dev_read d w' (fst e) = Inr (snd (snd e))) \<and>
    (\<forall>a. a \<notin> fst ` set es \<longrightarrow> dev_read d w' a = dev_read d w a) \<and>
    (\<forall>a. keeps w' a = keeps w a) \<and> current_mode d w' = Inr Desktop"
  using assms(2-5)
proof (induction es arbitrary: w)
  case (Cons e es)
  obtain a raw v where e: "e = (a, raw, v)" by (cases e)
  have ok: "entry_ok (a, raw, v)" and keep: "keeps w a" using Cons.prems e by simp_all
  obtain w1 where w1: "apply_line d (entry_line (a, raw, v)) (w, errs) = (w1, errs)" "dev_write d w a v = (Inr (), w1)"
    using apply_entry [OF assms(1) ok keep Cons.prems(4)] by blast
  obtain s where s: "spec a = Some s" "snapshotted s" "reproducible (s_kind s) v" using ok by (auto simp: entry_ok_def)
  have a: "a \<noteq> ''wheel_mode''" using snapshotted_not_mode [OF s(2)] spec_is_ok [OF s(1)] by simp
  have rd: "dev_read d w1 a = Inr v" by (rule dev_write_reads_back [OF w1(2) assms(1) keep s(1,3)])
  have other: "dev_read d w1 b = dev_read d w b" if "b \<noteq> a" for b
    using dev_write_frame(2) [OF w1(2) assms(1) that] assms(1) by (intro dev_read_cong) (simp add: read_io_def)
  have kp: "keeps w1 b = keeps w b" for b by (rule dev_write_frame(1) [OF w1(2) assms(1)])
  have "\<forall>x\<in>set es. entry_ok x" "distinct (map fst es)" "\<forall>x\<in>set es. keeps w1 (fst x)" "current_mode d w1 = Inr Desktop"
    using Cons.prems kp current_mode_frame [OF w1(2) assms(1) a] by simp_all
  from Cons.IH [OF this] obtain w' where w': "fold (apply_line d) (map entry_line es) (w1, errs) = (w', errs)"
    "\<forall>x\<in>set es. dev_read d w' (fst x) = Inr (snd (snd x))" "\<forall>b. b \<notin> fst ` set es \<longrightarrow> dev_read d w' b = dev_read d w1 b"
    "\<forall>b. keeps w' b = keeps w1 b" "current_mode d w' = Inr Desktop" by blast
  have "a \<notin> fst ` set es" using Cons.prems(2) e by simp
  then have "dev_read d w' a = Inr v" using w'(3) rd by simp
  moreover have "fold (apply_line d) (map entry_line (e # es)) (w, errs) = (w', errs)" using w1(1) w'(1) e by simp
  moreover have "dev_read d w' b = dev_read d w b" if "b \<notin> fst ` set (e # es)" for b using w'(3) other that e by simp
  ultimately show ?case using w'(2,4,5) kp e by (intro exI [of _ w']) simp
qed simp

lemma apply_saved_text:
  assumes io: "dev_io d = ops" and es: "\<forall>e\<in>set es. entry_ok e" "distinct (map fst es)"
    and keep: "\<forall>e\<in>set es. keeps w (fst e)" and mode: "current_mode d w = Inr Desktop"
    and lines: "profile_lines text = map entry_line es"
  shows "\<exists>w'. apply_text d text w = (w', []) \<and>
    (\<forall>e\<in>set es. dev_read d w' (fst e) = Inr (snd (snd e))) \<and>
    (\<forall>a. a \<notin> fst ` set es \<longrightarrow> dev_read d w' a = dev_read d w a)"
proof -
  let ?disp = "\<lambda>e. line_role (entry_line e) = Some DisplaySelector"
  let ?us = "filter (\<lambda>e. \<not> ?disp e) es" and ?vs = "filter ?disp es"
  obtain w1 where w1: "fold (apply_line d) (map entry_line ?us) (w, []) = (w1, [])"
    "\<forall>e\<in>set ?us. dev_read d w1 (fst e) = Inr (snd (snd e))" "\<forall>a. a \<notin> fst ` set ?us \<longrightarrow> dev_read d w1 a = dev_read d w a"
    "\<forall>a. keeps w1 a = keeps w a" "current_mode d w1 = Inr Desktop"
    using apply_entries [OF io, of ?us w "[]"] es keep mode by (auto simp: distinct_map_filter)
  obtain w2 where w2: "fold (apply_line d) (map entry_line ?vs) (w1, []) = (w2, [])"
    "\<forall>e\<in>set ?vs. dev_read d w2 (fst e) = Inr (snd (snd e))" "\<forall>a. a \<notin> fst ` set ?vs \<longrightarrow> dev_read d w2 a = dev_read d w1 a"
    using apply_entries [OF io, of ?vs w1 "[]"] es keep w1(4,5) by (auto simp: distinct_map_filter)
  have ap: "apply_text d text w = (w2, [])"
    using w1(1) w2(1) by (simp add: apply_text_def lines filter_map comp_def)
  have "dev_read d w2 (fst e) = Inr (snd (snd e))" if e: "e \<in> set es" for e
  proof (cases "?disp e")
    case True
    then have "e \<in> set ?vs" using e by simp
    with w2(2) show ?thesis by blast
  next
    case False
    have "fst e \<notin> fst ` set ?vs"
    proof
      assume "fst e \<in> fst ` set ?vs"
      then obtain x where "x \<in> set ?vs" "fst x = fst e" by auto
      then have "x = e" using es(2) e by (auto simp: distinct_map dest: inj_onD)
      then show False using \<open>x \<in> set ?vs\<close> False by simp
    qed
    moreover have "e \<in> set ?us" using e False by simp
    ultimately show ?thesis using w1(2) w2(3) by metis
  qed
  moreover have "dev_read d w2 a = dev_read d w a" if "a \<notin> fst ` set es" for a
  proof -
    have "a \<notin> fst ` set ?us" "a \<notin> fst ` set ?vs" using that by auto
    with w1(3) w2(3) show ?thesis by metis
  qed
  ultimately show ?thesis using ap by blast
qed

end

text \<open>What a device's snapshot holds, with the values it stands for.\<close>

definition snapshot_of :: "'w Device \<Rightarrow> 'w \<Rightarrow> SettingSpec \<Rightarrow> (string \<times> string \<times> Value) option" where
  "snapshot_of d w s =
     (if \<not> available d w (s_attr s) then None
      else do { v \<leftarrow> to_ok (dev_read d w (s_attr s)); raw \<leftarrow> to_ok (kind_format (s_kind s) v); Some (s_attr s, raw, v) })"

definition snapshot_entries :: "'w Device \<Rightarrow> 'w \<Rightarrow> (string \<times> string \<times> Value) list" where
  "snapshot_entries d w = List.map_filter (snapshot_of d w) (filter snapshotted (settings d))"

lemma profile_entries_snapshot: "profile_entries d w = map (\<lambda>e. (fst e, fst (snd e))) (snapshot_entries d w)"
proof -
  have "map_option (\<lambda>raw. (s_attr s, raw)) (snapshot_raw d w s) = map_option (\<lambda>e. (fst e, fst (snd e))) (snapshot_of d w s)" for s
    by (auto simp: snapshot_raw_def snapshot_of_def split: Option.bind_split)
  moreover have "List.map_filter (\<lambda>s. map_option f (g s)) xs = map f (List.map_filter g xs)"
    for f :: "string \<times> string \<times> Value \<Rightarrow> string \<times> string" and g xs
    by (induction xs) (auto simp: map_filter_simps split: option.splits)
  ultimately show ?thesis by (simp add: profile_entries_def snapshot_entries_def)
qed

lemma snapshot_of_Some:
  assumes "snapshot_of d w s = Some e"
  obtains v raw where "e = (s_attr s, raw, v)" "dev_read d w (s_attr s) = Inr v" "kind_format (s_kind s) v = Inr raw"
    "available d w (s_attr s)"
  using assms by (auto simp: snapshot_of_def to_ok_def split: if_splits Option.bind_splits sum.splits)

lemma settings_registered: "s \<in> set (settings d) \<Longrightarrow> s \<in> set (REGISTRY @ CLASSIC_REGISTRY)"
  by (auto simp: settings_def model_settings_def split: if_splits)

lemma settings_distinct: "distinct (map s_attr (settings d))"
  using attrs_distinct by (auto simp: settings_def model_settings_def)

lemma map_filter_distinct:
  assumes "distinct (map key xs)" "\<And>x y. f x = Some y \<Longrightarrow> fst y = key x"
  shows "distinct (map fst (List.map_filter f xs))"
  using assms(1)
proof (induction xs)
  case (Cons x xs)
  have "fst y \<notin> fst ` {y. \<exists>x\<in>set xs. f x = Some y}" if "f x = Some y" for y
    using Cons.prems assms(2) that by (auto simp: image_iff)
  with Cons show ?case by (auto simp: map_filter_simps set_map_filter split: option.splits)
qed (simp add: map_filter_simps)

lemma distinct_map_filter_attrs: "distinct (map s_attr (filter P (settings d)))"
  by (rule distinct_map_filter [OF settings_distinct])

lemma snapshot_entries_distinct: "distinct (map fst (snapshot_entries d w))"
  unfolding snapshot_entries_def
  by (rule map_filter_distinct [OF distinct_map_filter_attrs]) (auto elim: snapshot_of_Some)

lemma dev_read_value_of_raw:
  assumes "dev_read d w a = Inr v" "spec a = Some s" "s_access s \<noteq> ActionAccess"
  shows "\<exists>raw. value_of_raw s raw = Inr v"
  using assms by (auto simp: dev_read_def and_then_eq_Inr)

lemma snapshot_entry_ok:
  assumes "s \<in> set (settings d)" "snapshotted s" "snapshot_of d w s = Some e"
    and nonl: "\<forall>t. dev_read d w (s_attr s) = Inr (VText t) \<longrightarrow> newline \<notin> set t"
  shows "entry_ok e \<and> one_line (fst (snd e)) \<and> plain (fst e) \<and> hd (fst e) \<noteq> CHR ''#''"
proof -
  obtain v raw where e: "e = (s_attr s, raw, v)" and v: "dev_read d w (s_attr s) = Inr v" and f: "kind_format (s_kind s) v = Inr raw"
    using assms(3) by (rule snapshot_of_Some)
  have sp: "spec (s_attr s) = Some s" by (rule spec_registered [OF settings_registered [OF assms(1)]])
  have ok: "spec_ok s" using spec_is_ok [OF sp] by simp
  obtain raw0 where r0: "value_of_raw s raw0 = Inr v"
    using dev_read_value_of_raw [OF v sp] assms(2) by (auto simp: snapshotted_def)
  have val: "kind_validate (s_kind s) v = Inr ()" by (rule read_value_validates [OF r0 f])
  have rep: "reproducible (s_kind s) v" by (rule read_value_reproducible [OF r0 assms(2) ok])
  have "entry_ok e" using e sp assms(2) parse_format_value [OF f val rep] val rep by (auto simp: entry_ok_def)
  moreover have "one_line raw"
  proof (cases "\<exists>m. s_kind s = KTextField m")
    case True
    then obtain t where "v = VText t" "raw = t" "trim t = t"
      using f rep by (cases v) (auto simp: kind_format_def reproducible_def)
    then show ?thesis using nonl v by (simp add: one_line_def)
  next
    case False
    then show ?thesis using f assms(2) by (intro formatted_one_line [OF f]) (auto simp: snapshotted_def)
  qed
  ultimately show ?thesis using e ok by (simp add: spec_ok_def)
qed

lemma saved_text_lines:
  assumes "\<forall>s\<in>set (settings d). snapshotted s \<longrightarrow> (\<forall>t. dev_read d w (s_attr s) = Inr (VText t) \<longrightarrow> newline \<notin> set t)"
  shows "profile_lines (profile_text d w) = map entry_line (snapshot_entries d w)"
    and "\<forall>e\<in>set (snapshot_entries d w). entry_ok e"
proof -
  have ok: "entry_ok e \<and> one_line (fst (snd e)) \<and> plain (fst e) \<and> hd (fst e) \<noteq> CHR ''#''"
    if e: "e \<in> set (snapshot_entries d w)" for e
  proof -
    obtain s where s: "s \<in> set (settings d)" "snapshotted s" "snapshot_of d w s = Some e"
      using e by (auto simp: snapshot_entries_def set_map_filter)
    show ?thesis by (rule snapshot_entry_ok [OF s]) (use assms s in simp)
  qed
  then show "\<forall>e\<in>set (snapshot_entries d w). entry_ok e" by blast
  have "\<forall>(a, raw)\<in>set (profile_entries d w). plain a \<and> hd a \<noteq> CHR ''#'' \<and> one_line raw"
    using ok by (auto simp: profile_entries_snapshot)
  from profile_lines_of_saved [OF this] show "profile_lines (profile_text d w) = map entry_line (snapshot_entries d w)"
    by (simp add: profile_text_def profile_entries_snapshot entry_line_def comp_def)
qed

lemma save_in_reads_back:
  assumes "save_in fs dir name d w = (Inr (), fs')"
  shows "\<exists>p. profile_path dir name = Inr p \<and> fs_read fs' p = Inr (profile_text d w)"
  using assms fs_write_read
  by (auto simp: save_in_def fs_read_def split: sum.splits prod.splits)


text \<open>A wheel with a rotation range only, saved and applied to a fresh one.\<close>

definition demo_files :: Fs where
  "demo_files = \<lparr>files = [], dirs = [], refuses = (\<lambda>_. None)\<rparr>"

lemma demo_read_io:
  "read_io demo_wheel demo_store a =
     (if a = ''wheel_mode'' then Inr (''desktop'' @ [newline])
      else if a = ''wheel_range'' then Inr (''900'' @ [newline]) else Inl (Io ''entity not found''))"
  by (simp add: read_io_def demo_wheel_def with_io_and_model_def fake_sysfs_def fake_read_def demo_store_def fake_set_def
      fake_new_def map_io_error_def)

lemma demo_read_no_text: "dev_read demo_wheel demo_store a \<noteq> Inr (VText t)"
proof (cases "a = ''wheel_mode'' \<or> a = ''wheel_range''")
  case True
  have "spec ''wheel_mode'' = Some (setting ''wheel_mode'' ''Mode'' Profiles (KEnum [''desktop'', ''onboard'']) ReadWrite Any)"
    by (simp add: spec_def registry_tables)
  then show ?thesis
    using True by (auto simp: dev_read_def demo_specs demo_read_io value_of_raw_def kind_parse_def Let_def and_then_eq_Inr
        split: option.splits if_splits)
next
  case False
  then show ?thesis by (auto simp: dev_read_def demo_read_io and_then_eq_Inr split: if_splits)
qed

lemma demo_keeps: "fake_keeps demo_store a"
  by (simp add: fake_keeps_def demo_store_def fake_set_def fake_new_def)

lemma demo_save:
  "save_in demo_files [''profiles''] ''race'' demo_wheel demo_store =
     (Inr (), snd (save_in demo_files [''profiles''] ''race'' demo_wheel demo_store))"
proof -
  have t: "trim ''race'' = ''race''" "chars_count ''race'' = 4" by (simp_all add: plain_def is_space_def chars_count_def)
  then have "profile_path [''profiles''] ''race'' = Inr [''profiles'', ''race.profile'']"
    by (simp add: profile_path_def validate_name_def)
  then show ?thesis
    by (simp add: save_in_def create_dir_all_def demo_files_def fs_write_def is_dir_def)
qed


section \<open>The order of a replay\<close>

lemma spec_attr: "spec attr = Some s \<Longrightarrow> s_attr s = attr"
  using spec_is_ok by blast

lemma dev_write_log:
  assumes "dev_write d w attr v = (res, w')" "dev_io d = fake_sysfs strerror"
  shows "write_log w' = write_log w \<or> (\<exists>x. write_log w' = write_log w @ [(attr, x)])"
  using assms
  by (auto simp: dev_write_def write_io_def fake_sysfs_def fake_write_def
      elim!: write_checked_cases split: option.splits if_splits sum.splits prod.splits dest!: spec_attr)

lemma apply_line_log:
  assumes "apply_line d l (w, errs) = (w', errs')" "dev_io d = fake_sysfs strerror"
  shows "write_log w' = write_log w \<or>
    (\<exists>a x. write_log w' = write_log w @ [(a, x)] \<and> line_role l = Some (role_of a) \<and> role_of a \<notin> {StoreSelector, Transient})"
proof (cases "write_log w' = write_log w")
  case False
  then obtain a raw s v res where l: "split_once (CHR ''='') l = Some (a, raw)" "role_of (trim a) \<notin> {StoreSelector, Transient}"
      "spec a = Some s" "dev_write d w a v = (res, w')"
    using assms(1) by (auto simp: apply_line_def split: option.splits if_splits sum.splits prod.splits)
  have "trim a = a" using spec_is_ok [OF l(3)] by (auto simp: spec_ok_def)
  then show ?thesis using False l dev_write_log [OF l(4) assms(2)] by (auto simp: line_role_def)
qed simp

lemma fold_apply_log:
  assumes "dev_io d = fake_sysfs strerror"
  shows "fold (apply_line d) ls (w, errs) = (w', errs') \<Longrightarrow>
    \<exists>ws. write_log w' = write_log w @ ws \<and>
      (\<forall>(a, x)\<in>set ws. role_of a \<notin> {StoreSelector, Transient} \<and> (\<exists>l\<in>set ls. line_role l = Some (role_of a)))"
proof (induction ls arbitrary: w errs)
  case (Cons l ls)
  obtain w1 errs1 where st: "apply_line d l (w, errs) = (w1, errs1)" by (cases "apply_line d l (w, errs)")
  obtain ws where ws: "write_log w' = write_log w1 @ ws"
    "\<forall>(a, x)\<in>set ws. role_of a \<notin> {StoreSelector, Transient} \<and> (\<exists>l\<in>set ls. line_role l = Some (role_of a))"
    using Cons st by auto blast
  from apply_line_log [OF st assms] show ?case
  proof
    assume "write_log w1 = write_log w"
    with ws show ?thesis by (intro exI [of _ ws]) fastforce
  next
    assume "\<exists>a x. write_log w1 = write_log w @ [(a, x)] \<and> line_role l = Some (role_of a) \<and> role_of a \<notin> {StoreSelector, Transient}"
    then obtain a x where "write_log w1 = write_log w @ [(a, x)]" "line_role l = Some (role_of a)" "role_of a \<notin> {StoreSelector, Transient}"
      by blast
    with ws show ?thesis by (intro exI [of _ "(a, x) # ws"]) fastforce
  qed
qed simp

text \<open>C16. Whatever a profile file says, line by line and in any order, replaying it never writes a
  store selector (\<open>wheel_mode\<close>, \<open>wheel_profile\<close>) or the live screen, and every write of the
  display selector comes after every other write.\<close>

theorem replay_order:
  assumes "dev_io d = fake_sysfs strerror" "apply_text d profile w = (w', errs)"
  shows "\<exists>us vs. write_log w' = write_log w @ us @ vs \<and>
    (\<forall>(a, x)\<in>set us. role_of a \<notin> {StoreSelector, Transient, DisplaySelector}) \<and>
    (\<forall>(a, x)\<in>set vs. role_of a = DisplaySelector)"
proof -
  let ?us = "filter (\<lambda>l. line_role l \<noteq> Some DisplaySelector) (profile_lines profile)"
  obtain w1 e1 where st: "fold (apply_line d) ?us (w, []) = (w1, e1)" by (cases "fold (apply_line d) ?us (w, [])")
  obtain us where us: "write_log w1 = write_log w @ us"
    "\<forall>(a, x)\<in>set us. role_of a \<notin> {StoreSelector, Transient} \<and> (\<exists>l\<in>set ?us. line_role l = Some (role_of a))"
    using fold_apply_log [OF assms(1) st] by blast
  obtain vs where vs: "write_log w' = write_log w1 @ vs"
    "\<forall>(a, x)\<in>set vs. (\<exists>l\<in>set (filter (\<lambda>l. line_role l = Some DisplaySelector) (profile_lines profile)). line_role l = Some (role_of a))"
    using fold_apply_log [OF assms(1), of "filter (\<lambda>l. line_role l = Some DisplaySelector) (profile_lines profile)" w1 e1 w' errs]
      assms(2) st by (fastforce simp: apply_text_def)
  have "\<forall>(a, x)\<in>set us. role_of a \<notin> {StoreSelector, Transient, DisplaySelector}" using us(2) by fastforce
  moreover have "\<forall>(a, x)\<in>set vs. role_of a = DisplaySelector" using vs(2) by fastforce
  ultimately show ?thesis using us(1) vs(1) by auto
qed

theorem replay_order_witness:
  "\<exists>us vs. write_log (fst (apply_text demo_wheel ''wheel_led_effect=5'' demo_store)) = write_log demo_store @ us @ vs \<and>
    (\<forall>(a, x)\<in>set us. role_of a \<notin> {StoreSelector, Transient, DisplaySelector}) \<and>
    (\<forall>(a, x)\<in>set vs. role_of a = DisplaySelector)"
  by (rule replay_order [where d = demo_wheel and strerror = "\<lambda>_. []" and errs = "snd (apply_text demo_wheel ''wheel_led_effect=5'' demo_store)"])
    (simp_all add: demo_wheel_def with_io_and_model_def)

section \<open>Moving the store\<close>

lemma migrate_file_lookup:
  "migrate_file fs new_dir e = (res, fs') \<Longrightarrow>
   fs_lookup fs' p = (if res = Inr () \<and> p = new_dir @ [fst e] \<and> fs_lookup fs p = None then Some (snd e) else fs_lookup fs p) \<and>
   dirs fs' = dirs fs"
  by (auto simp: migrate_file_def fs_write_def fs_lookup_def update_conv Let_def split: if_splits option.splits)

lemma migrate_files_lookup:
  "migrate_files fs new_dir es = (res, fs') \<Longrightarrow>
   (fs_lookup fs p \<noteq> None \<longrightarrow> fs_lookup fs' p = fs_lookup fs p) \<and> dirs fs' = dirs fs \<and>
   (res = Inr () \<longrightarrow> fs_lookup fs (new_dir @ [n]) = None \<longrightarrow> fs_lookup fs' (new_dir @ [n]) = map_of es n)"
proof (induction es arbitrary: fs p n)
  case (Cons e es)
  obtain r1 fs1 where st: "migrate_file fs new_dir e = (r1, fs1)" by (cases "migrate_file fs new_dir e")
  note f = migrate_file_lookup [OF st]
  show ?case
  proof (cases r1)
    case (Inl x)
    then show ?thesis using Cons.prems st f by auto
  next
    case (Inr u)
    then have rest: "migrate_files fs1 new_dir es = (res, fs')" using Cons.prems st by simp
    show ?thesis using Cons.IH [OF rest, of p n] Cons.IH [OF rest, of "new_dir @ [n]" n] f [of p] f [of "new_dir @ [n]"] Inr by (cases e) auto
  qed
qed simp

text \<open>Migration never overwrites and never loses: every file that existed, old or new, keeps its
  contents whether or not the migration succeeds; when it succeeds each file of the old
  directory is in the new one, unless a file of that name was already there.\<close>

theorem migration_never_overwrites:
  assumes "migrate_dir fs old_dir new_dir = (res, fs')"
  shows "(\<forall>p c. fs_lookup fs p = Some c \<longrightarrow> fs_lookup fs' p = Some c) \<and>
    (res = Inr () \<longrightarrow> (\<forall>n. fs_lookup fs (new_dir @ [n]) = None \<longrightarrow>
       fs_lookup fs' (new_dir @ [n]) = map_of (dir_files fs old_dir) n))"
proof (cases "create_dir_all fs new_dir")
  case (Pair r1 fs1)
  have same: "fs_lookup fs1 p = fs_lookup fs p" "dir_files fs1 old_dir = dir_files fs old_dir" for p
    using Pair by (auto simp: create_dir_all_def fs_lookup_def dir_files_def split: option.splits)
  show ?thesis
  proof (cases r1)
    case (Inl e)
    then show ?thesis using assms Pair same by (auto simp: migrate_dir_def)
  next
    case (Inr u)
    then have "migrate_files fs1 new_dir (dir_files fs old_dir) = (res, fs')" using assms Pair same by (simp add: migrate_dir_def)
    from migrate_files_lookup [OF this] show ?thesis using same by (metis option.distinct(1))
  qed
qed

definition old_store :: "(path \<Rightarrow> string option) \<Rightarrow> Fs" where
  "old_store ref = \<lparr>files = [([''logi-dd'', ''profiles'', ''a.profile''], ''A''), ([''logi-dd'', ''profiles'', ''b.profile''], ''B'')],
     dirs = [[''logi-dd''], [''logi-dd'', ''profiles'']], refuses = ref\<rparr>"

abbreviation "new_store_dir \<equiv> [''logi-wheel'', ''profiles'']"
abbreviation "old_store_dir \<equiv> [''logi-dd'', ''profiles'']"

theorem migration_never_overwrites_witness:
  "fs_lookup (snd (migrate_dir (old_store (\<lambda>_. None)) old_store_dir new_store_dir)) (old_store_dir @ [''a.profile'']) = Some ''A'' \<and>
   fs_lookup (snd (migrate_dir (old_store (\<lambda>_. None)) old_store_dir new_store_dir)) (new_store_dir @ [''b.profile'']) = Some ''B''"
proof -
  have copied: "fst (migrate_dir (old_store (\<lambda>_. None)) old_store_dir new_store_dir) = Inr ()"
    by (simp add: migrate_dir_def create_dir_all_def old_store_def dir_files_def migrate_file_def fs_lookup_def fs_write_def is_dir_def)
  have old: "fs_lookup (old_store (\<lambda>_. None)) (old_store_dir @ [''a.profile'']) = Some ''A''"
    "fs_lookup (old_store (\<lambda>_. None)) (new_store_dir @ [''b.profile'']) = None"
    "map_of (dir_files (old_store (\<lambda>_. None)) old_store_dir) ''b.profile'' = Some ''B''"
    by (simp_all add: old_store_def fs_lookup_def dir_files_def)
  note keeps = migration_never_overwrites [OF prod.collapse [symmetric], of "old_store (\<lambda>_. None)" old_store_dir new_store_dir]
  show ?thesis
    using keeps [THEN conjunct1, rule_format, OF old(1)] keeps [THEN conjunct2, rule_format, OF copied old(2)] old(3) by simp
qed

text \<open>A migration that fails part way is not retried: this run falls back to the old directory, but
  the new one now exists, so the next run takes it with whatever was copied so far, and the
  profiles that were not copied are no longer listed.\<close>

theorem failed_migration_not_retried:
  assumes "\<not> is_dir fs (root @ [''logi-wheel'', sub])" "is_dir fs (root @ [''logi-dd'', sub])"
    and "refuses fs (root @ [''logi-wheel'', sub]) = None"
    and "migrate_dir fs (root @ [''logi-dd'', sub]) (root @ [''logi-wheel'', sub]) = (Inl e, fs')"
  shows "resolve_subdir_in fs root sub = (root @ [''logi-dd'', sub], fs') \<and>
    resolve_subdir_in fs' root sub = (root @ [''logi-wheel'', sub], fs')"
proof -
  let ?new = "root @ [''logi-wheel'', sub]"
  obtain fs1 where c: "create_dir_all fs ?new = (Inr (), fs1)" "is_dir fs1 ?new"
    using assms(3) by (auto simp: create_dir_all_def is_dir_def image_iff intro!: bexI [of _ "Suc (Suc (length root))"])
  have "dirs fs' = dirs fs1" using assms(4) c(1) migrate_files_lookup by (fastforce simp: migrate_dir_def)
  then have "is_dir fs' ?new" using c(2) by (simp add: is_dir_def)
  then show ?thesis using assms by (simp add: resolve_subdir_in_def Let_def)
qed

definition refuse_b :: "path \<Rightarrow> string option" where
  "refuse_b p = (if p = new_store_dir @ [''b.profile''] then Some ''No space left on device (os error 28)'' else None)"

lemma refuse_b_migrates:
  "migrate_dir (old_store refuse_b) ([] @ [''logi-dd'', ''profiles'']) ([] @ [''logi-wheel'', ''profiles'']) =
     (Inl ''No space left on device (os error 28)'',
      snd (migrate_dir (old_store refuse_b) ([] @ [''logi-dd'', ''profiles'']) ([] @ [''logi-wheel'', ''profiles''])))"
  by (simp add: migrate_dir_def create_dir_all_def old_store_def refuse_b_def dir_files_def migrate_file_def fs_lookup_def
      fs_write_def is_dir_def)

theorem failed_migration_not_retried_witness:
  "resolve_subdir_in (old_store refuse_b) [] ''profiles'' =
     ([] @ [''logi-dd'', ''profiles''], snd (migrate_dir (old_store refuse_b) ([] @ [''logi-dd'', ''profiles'']) ([] @ [''logi-wheel'', ''profiles'']))) \<and>
   resolve_subdir_in (snd (migrate_dir (old_store refuse_b) ([] @ [''logi-dd'', ''profiles'']) ([] @ [''logi-wheel'', ''profiles'']))) [] ''profiles'' =
     ([] @ [''logi-wheel'', ''profiles''], snd (migrate_dir (old_store refuse_b) ([] @ [''logi-dd'', ''profiles'']) ([] @ [''logi-wheel'', ''profiles''])))"
  by (rule failed_migration_not_retried [OF _ _ _ refuse_b_migrates]) (simp_all add: old_store_def is_dir_def refuse_b_def)

end
