(* ===== verification/Onboard_Editor.thy ===== *)
theory Onboard_Editor
  imports Profile_Store
begin

text \<open>
  Authoring one of the wheel's own profile slots: \<open>logi-wheel-core/src/onboard.rs\<close>. An editor
  remembers the slot, the slot that was active before and a snapshot of the slot's values; each
  operation re-reads the active slot before it writes. \<open>dbg\<close> is the derived \<open>Debug\<close> text of a
  value, which only appears inside an error message.
\<close>

definition ONBOARD_ATTRS :: "string list" where
  "ONBOARD_ATTRS = [''wheel_range'', ''wheel_strength'', ''wheel_trueforce'', ''wheel_damping'', ''wheel_ffb_filter'',
     ''wheel_ffb_filter_auto'', ''wheel_brake_force'', ''wheel_led_effect'', ''wheel_led_brightness'']"

datatype OnboardError = DeviceErr Error | InvalidSlot u8 | SlotChanged u8 u8

definition onboard_error_display :: "OnboardError \<Rightarrow> string" where
  "onboard_error_display e = (case e of
       DeviceErr x \<Rightarrow> error_display x
     | InvalidSlot n \<Rightarrow> ''slot '' @ dec_nat (unat n) @ '' is out of range (1-5)''
     | SlotChanged expected actual \<Rightarrow>
         ''the wheel switched to slot '' @ dec_nat (unat actual) @ '' (was editing slot '' @ dec_nat (unat expected) @
         ''); pick a slot again'')"

definition slot_name :: "'w Device \<Rightarrow> 'w \<Rightarrow> u8 \<Rightarrow> string option" where
  "slot_name d w slot =
     (case dev_read d w ''wheel_profile_names'' of
        Inr (VSlotNames names) \<Rightarrow> get_at names (unat slot - 1)
      | _ \<Rightarrow> None)"

definition editable_specs :: "'w Device \<Rightarrow> SettingSpec list" where
  "editable_specs d = filter (\<lambda>s. s_attr s \<in> set ONBOARD_ATTRS) (settings d)"

record OnboardEditor =
  ed_slot :: u8
  ed_previous :: u8
  ed_values :: "(string \<times> Value) list"
  ed_name :: "string option"

definition read_slot :: "(Value \<Rightarrow> string) \<Rightarrow> 'w Device \<Rightarrow> 'w \<Rightarrow> OnboardError + u8" where
  "read_slot dbg d w =
     (case dev_read d w ''wheel_profile'' of
        Inl e \<Rightarrow> Inl (DeviceErr e)
      | Inr v \<Rightarrow>
          (case v of VInt n \<Rightarrow> if 0 \<le> sint n \<and> sint n \<le> 5 then Inr (word_of_int (sint n)) else Inl (DeviceErr (Parse (dbg v)))
           | _ \<Rightarrow> Inl (DeviceErr (Parse (dbg v)))))"

definition snapshot_values :: "'w Device \<Rightarrow> 'w \<Rightarrow> (string \<times> Value) list" where
  "snapshot_values d w =
     List.map_filter (\<lambda>s. map_option (\<lambda>v. (s_attr s, v)) (to_ok (dev_read d w (s_attr s))))
       (filter (\<lambda>s. available d w (s_attr s)) (editable_specs d))"

definition snapshot_slot :: "(Value \<Rightarrow> string) \<Rightarrow> 'w Device \<Rightarrow> 'w \<Rightarrow> (string \<times> Value) list \<times> string option" where
  "snapshot_slot dbg d w =
     (snapshot_values d w,
      case read_slot dbg d w of Inr slot \<Rightarrow> if 1 \<le> slot then slot_name d w slot else None | Inl _ \<Rightarrow> None)"

definition begin_edit :: "(Value \<Rightarrow> string) \<Rightarrow> 'w Device \<Rightarrow> 'w \<Rightarrow> u8 \<Rightarrow> (OnboardError + OnboardEditor) \<times> 'w" where
  "begin_edit dbg d w slot =
     (if \<not> (1 \<le> slot \<and> slot \<le> 5) then (Inl (InvalidSlot slot), w)
      else case read_slot dbg d w of Inl e \<Rightarrow> (Inl e, w)
        | Inr previous \<Rightarrow>
            (case dev_write d w ''wheel_profile'' (VInt (ucast slot)) of (Inl e, w1) \<Rightarrow> (Inl (DeviceErr e), w1)
             | (Inr _, w1) \<Rightarrow>
                 (case read_slot dbg d w1 of Inl e \<Rightarrow> (Inl e, w1)
                  | Inr actual \<Rightarrow>
                      if actual \<noteq> slot then (Inl (SlotChanged slot actual), w1)
                      else
                        (let w2 = (if available d w1 ''wheel_mode'' then snd (dev_write d w1 ''wheel_mode'' (VEnum 1)) else w1)
                         in (Inr \<lparr>ed_slot = slot, ed_previous = previous, ed_values = fst (snapshot_slot dbg d w2),
                                  ed_name = snd (snapshot_slot dbg d w2)\<rparr>, w2)))))"

definition verify_still_active :: "(Value \<Rightarrow> string) \<Rightarrow> OnboardEditor \<Rightarrow> 'w Device \<Rightarrow> 'w \<Rightarrow> OnboardError + unit" where
  "verify_still_active dbg ed d w =
     and_then (read_slot dbg d w) (\<lambda>actual. if actual \<noteq> ed_slot ed then Inl (SlotChanged (ed_slot ed) actual) else Inr ())"

definition lift_write :: "(Error + unit) \<times> 'w \<Rightarrow> (OnboardError + unit) \<times> 'w" where
  "lift_write x = (case x of (Inl e, w) \<Rightarrow> (Inl (DeviceErr e), w) | (Inr _, w) \<Rightarrow> (Inr (), w))"

definition set_attr :: "(Value \<Rightarrow> string) \<Rightarrow> OnboardEditor \<Rightarrow> 'w Device \<Rightarrow> string \<Rightarrow> Value \<Rightarrow> 'w \<Rightarrow> (OnboardError + unit) \<times> 'w" where
  "set_attr dbg ed d attr v w =
     (case verify_still_active dbg ed d w of Inl e \<Rightarrow> (Inl e, w) | Inr _ \<Rightarrow> lift_write (dev_write d w attr v))"

definition set_name :: "(Value \<Rightarrow> string) \<Rightarrow> OnboardEditor \<Rightarrow> 'w Device \<Rightarrow> string \<Rightarrow> 'w \<Rightarrow> (OnboardError + unit) \<times> 'w" where
  "set_name dbg ed d name w =
     (case verify_still_active dbg ed d w of Inl e \<Rightarrow> (Inl e, w)
      | Inr _ \<Rightarrow> lift_write (dev_write d w ''wheel_profile_names'' (VSlotName (ed_slot ed) name)))"

text \<open>One write of a replay, its failure collected.\<close>

definition try_write :: "'w Device \<Rightarrow> string \<times> Value \<Rightarrow> 'w \<times> problems \<Rightarrow> 'w \<times> problems" where
  "try_write d av st =
     (case dev_write d (fst st) (fst av) (snd av) of
        (Inl e, w') \<Rightarrow> (w', snd st @ [(fst av, error_display e)])
      | (Inr _, w') \<Rightarrow> (w', snd st))"

definition revert :: "(Value \<Rightarrow> string) \<Rightarrow> OnboardEditor \<Rightarrow> 'w Device \<Rightarrow> 'w \<Rightarrow> (OnboardError + problems) \<times> 'w" where
  "revert dbg ed d w =
     (case verify_still_active dbg ed d w of Inl e \<Rightarrow> (Inl e, w)
      | Inr _ \<Rightarrow>
          (let st = fold (try_write d) (ed_values ed) (w, []);
               st' = (case ed_name ed of None \<Rightarrow> st
                      | Some name \<Rightarrow> try_write d (''wheel_profile_names'', VSlotName (ed_slot ed) name) st)
           in (Inr (snd st'), fst st')))"

definition copy_line :: "'w Device \<Rightarrow> string \<Rightarrow> 'w \<times> problems \<Rightarrow> 'w \<times> problems" where
  "copy_line d line0 st =
     (let line = trim line0 in
      if line = [] \<or> starts_with line ''#'' then st
      else case split_once (CHR ''='') line of None \<Rightarrow> st
        | Some (attr, raw) \<Rightarrow>
            if attr \<notin> set ONBOARD_ATTRS then st
            else case spec attr of None \<Rightarrow> st
              | Some s \<Rightarrow>
                  (case kind_parse (s_kind s) raw of Inl e \<Rightarrow> (fst st, snd st @ [(attr, error_display e)])
                   | Inr v \<Rightarrow> try_write d (attr, v) st))"

definition copy_from_computer_profile ::
    "(Value \<Rightarrow> string) \<Rightarrow> OnboardEditor \<Rightarrow> 'w Device \<Rightarrow> Fs \<Rightarrow> path \<Rightarrow> string \<Rightarrow> 'w \<Rightarrow> (OnboardError + problems) \<times> 'w" where
  "copy_from_computer_profile dbg ed d fs dir name w =
     (case verify_still_active dbg ed d w of Inl e \<Rightarrow> (Inl e, w)
      | Inr _ \<Rightarrow>
          (case profile_path dir name of Inl e \<Rightarrow> (Inl (DeviceErr e), w)
           | Inr p \<Rightarrow>
               (case fs_read fs p of Inl e \<Rightarrow> (Inl (DeviceErr (Io e)), w)
                | Inr content \<Rightarrow>
                    (let st = fold (copy_line d) (lines content) (w, []) in (Inr (snd st), fst st)))))"

definition finish :: "(Value \<Rightarrow> string) \<Rightarrow> OnboardEditor \<Rightarrow> 'w Device \<Rightarrow> bool \<Rightarrow> 'w \<Rightarrow> (OnboardError + unit) \<times> 'w" where
  "finish dbg ed d restore_previous w =
     (if \<not> restore_previous \<or> ed_previous ed = ed_slot ed then (Inr (), w)
      else case read_slot dbg d w of Inl e \<Rightarrow> (Inl e, w)
        | Inr actual \<Rightarrow>
            if actual \<noteq> ed_slot ed then (Inr (), w)
            else lift_write (dev_write d w ''wheel_profile'' (VInt (ucast (ed_previous ed)))))"

section \<open>Guarded writes\<close>

text \<open>C31. Once the wheel has left the slot being edited, no operation of the editor writes anything:
  setting a value, renaming, reverting and copying all report the switch and leave the store as
  it is, and leaving the editor does not switch it back.\<close>

theorem moved_slot_is_never_written:
  assumes "read_slot dbg d w = Inr actual" "actual \<noteq> ed_slot ed"
  shows "set_attr dbg ed d attr v w = (Inl (SlotChanged (ed_slot ed) actual), w) \<and>
    set_name dbg ed d name w = (Inl (SlotChanged (ed_slot ed) actual), w) \<and>
    revert dbg ed d w = (Inl (SlotChanged (ed_slot ed) actual), w) \<and>
    copy_from_computer_profile dbg ed d fs dir name w = (Inl (SlotChanged (ed_slot ed) actual), w) \<and>
    finish dbg ed d restore w = (Inr (), w)"
  using assms
  by (simp add: set_attr_def set_name_def revert_def copy_from_computer_profile_def finish_def verify_still_active_def)

definition demo_editor :: OnboardEditor where
  "demo_editor = \<lparr>ed_slot = 3, ed_previous = 0, ed_values = [(''wheel_range'', VInt 900)], ed_name = None\<rparr>"

definition slot_store :: "string \<Rightarrow> FakeSysfs" where
  "slot_store n = fake_set ''wheel_profile'' n demo_store"

lemma profile_spec:
  "spec ''wheel_profile'' = Some (setting ''wheel_profile'' ''Profile'' Profiles (KIntRange 0 5 1 []) ReadWrite Any)"
  by (simp add: spec_def registry_tables)

lemma demo_slot_at:
  assumes "n \<le> 5" "vals f ''wheel_profile'' = Some (dec_nat n)" "read_errno f ''wheel_profile'' = None"
  shows "read_slot dbg demo_wheel f = Inr (word_of_nat n)"
proof -
  have rd: "read_io demo_wheel f ''wheel_profile'' = Inr (dec_nat n @ [newline])"
    using assms(2,3) by (simp add: read_io_def demo_wheel_def with_io_and_model_def fake_sysfs_def fake_read_def)
  have "trim (dec_nat n @ [newline]) = dec_nat n" using trim_newline [of "dec_nat n"] by simp
  then have "value_of_raw (setting ''wheel_profile'' ''Profile'' Profiles (KIntRange 0 5 1 []) ReadWrite Any) (dec_nat n @ [newline]) =
      Inr (VInt (word_of_int (int n)))"
    using assms by (simp add: value_of_raw_def kind_parse_def)
  moreover have "sint (word_of_int (int n) :: i32) = int n" using assms by (intro sint_word_of_int_32) simp_all
  ultimately show ?thesis using rd assms by (simp add: read_slot_def dev_read_def profile_spec)
qed

lemma demo_read_slot: "n \<le> 5 \<Longrightarrow> read_slot dbg demo_wheel (slot_store (dec_nat n)) = Inr (word_of_nat n)"
  by (rule demo_slot_at) (simp_all add: slot_store_def demo_store_def fake_set_def fake_new_def)

theorem moved_slot_is_never_written_witness:
  "set_attr (\<lambda>_. []) demo_editor demo_wheel ''wheel_range'' (VInt 540) (slot_store (dec_nat 2)) = (Inl (SlotChanged (ed_slot demo_editor) 2), slot_store (dec_nat 2)) \<and>
    set_name (\<lambda>_. []) demo_editor demo_wheel ''RACE'' (slot_store (dec_nat 2)) = (Inl (SlotChanged (ed_slot demo_editor) 2), slot_store (dec_nat 2)) \<and>
    revert (\<lambda>_. []) demo_editor demo_wheel (slot_store (dec_nat 2)) = (Inl (SlotChanged (ed_slot demo_editor) 2), slot_store (dec_nat 2)) \<and>
    copy_from_computer_profile (\<lambda>_. []) demo_editor demo_wheel demo_files [] ''RACE'' (slot_store (dec_nat 2)) = (Inl (SlotChanged (ed_slot demo_editor) 2), slot_store (dec_nat 2)) \<and>
    finish (\<lambda>_. []) demo_editor demo_wheel True (slot_store (dec_nat 2)) = (Inr (), slot_store (dec_nat 2))"
proof (rule moved_slot_is_never_written)
  show "read_slot (\<lambda>_. []) demo_wheel (slot_store (dec_nat 2)) = Inr 2" using demo_read_slot [of 2] by simp
  show "2 \<noteq> ed_slot demo_editor" by (simp add: demo_editor_def)
qed

section \<open>Reverting\<close>

lemma editable_spec:
  assumes "s \<in> set (editable_specs d)"
  shows "spec (s_attr s) = Some s" "s_attr s \<in> set ONBOARD_ATTRS"
proof -
  show "s_attr s \<in> set ONBOARD_ATTRS" using assms by (simp add: editable_specs_def)
  have "s \<in> set (settings d)" using assms by (simp add: editable_specs_def)
  then show "spec (s_attr s) = Some s" by (rule spec_registered [OF settings_registered])
qed

definition plain_setting :: "SettingSpec \<Rightarrow> bool" where
  "plain_setting s \<longleftrightarrow> s_access s = ReadWrite \<and> s_mode_req s \<noteq> DesktopOnly \<and>
     (case s_kind s of KSlotText _ _ \<Rightarrow> False | KTextField _ \<Rightarrow> False | KScaledPercent _ \<Rightarrow> False | KCurve \<Rightarrow> False | _ \<Rightarrow> True)"

lemma onboard_specs_plain: "list_all (\<lambda>a. case spec a of Some s \<Rightarrow> plain_setting s | None \<Rightarrow> False) ONBOARD_ATTRS"
  by (simp add: ONBOARD_ATTRS_def spec_def registry_tables plain_setting_def)

lemma onboard_spec_plain: "a \<in> set ONBOARD_ATTRS \<Longrightarrow> spec a = Some s \<Longrightarrow> plain_setting s"
  using onboard_specs_plain by (auto simp: list_all_iff dest!: bspec [of _ _ a])

lemma plain_setting_reproducible: "plain_setting s \<Longrightarrow> reproducible (s_kind s) v"
  by (cases "s_kind s") (simp_all add: plain_setting_def reproducible_def)

lemma plain_setting_kind: "plain_setting s \<Longrightarrow> \<forall>m n. s_kind s \<noteq> KSlotText m n"
  by (auto simp: plain_setting_def)

lemma plain_setting_value:
  assumes "plain_setting s" "value_of_raw s raw = Inr v"
  shows "kind_validate (s_kind s) v = Inr ()"
proof -
  have "\<forall>n. v \<noteq> VCurveLoaded n"
    using assms by (cases "s_kind s") (auto simp: plain_setting_def value_of_raw_def kind_parse_def parse_pair_def parse_rpm_def
        Let_def and_then_eq_Inr split: if_splits option.splits list.splits)
  then obtain r where "kind_format (s_kind s) v = Inr r" using read_value_formats [OF assms(2) plain_setting_kind [OF assms(1)]] by blast
  then show ?thesis using read_value_validates assms(2) by blast
qed

lemma to_ok_eq_Some: "to_ok r = Some x \<longleftrightarrow> r = Inr x"
  by (cases r) simp_all

lemma snapshot_values_iff:
  "(a, v) \<in> set (snapshot_values d w) \<longleftrightarrow>
     (\<exists>s\<in>set (editable_specs d). s_attr s = a \<and> available d w a \<and> dev_read d w a = Inr v)"
  by (auto simp: snapshot_values_def set_map_filter to_ok_eq_Some)

lemma snapshot_values_distinct: "distinct (map fst (snapshot_values d w))"
  unfolding snapshot_values_def editable_specs_def
  by (rule map_filter_distinct [where key = s_attr])
    (auto simp: filter_filter [symmetric] intro!: distinct_map_filter settings_distinct simp del: filter_filter)

lemma try_write_errors: "snd (try_write d av st) = snd st \<or> (\<exists>e. snd (try_write d av st) = snd st @ [(fst av, e)])"
  by (auto simp: try_write_def split: prod.splits sum.splits)

lemma fold_try_write_prefix: "\<exists>es. snd (fold (try_write d) avs st) = snd st @ es"
proof (induction avs arbitrary: st)
  case (Cons av avs)
  obtain es where "snd (fold (try_write d) avs (try_write d av st)) = snd (try_write d av st) @ es" using Cons by blast
  then show ?case using try_write_errors [of d av st] by auto
qed simp

lemma names_spec:
  "spec ''wheel_profile_names'' = Some (setting ''wheel_profile_names'' ''Profile names'' Profiles (KSlotText 5 9) ReadWrite Any)"
  by (simp add: spec_def registry_tables)

context settings_store
begin

lemma fold_try_write_reads_back:
  assumes "dev_io d = ops" "distinct (map fst avs)" "fold (try_write d) avs (w, []) = (w', [])"
    and "\<forall>(a, v)\<in>set avs. keeps w a \<and> (\<exists>s. spec a = Some s \<and> reproducible (s_kind s) v)"
  shows "(\<forall>(a, v)\<in>set avs. dev_read d w' a = Inr v) \<and> (\<forall>b. b \<notin> fst ` set avs \<longrightarrow> dev_read d w' b = dev_read d w b)"
  using assms(2-4)
proof (induction avs arbitrary: w)
  case (Cons av avs)
  obtain a v where av: "av = (a, v)" by (cases av)
  obtain w1 e1 where st: "try_write d av (w, []) = (w1, e1)" by (cases "try_write d av (w, [])")
  obtain es where "snd (fold (try_write d) avs (w1, e1)) = e1 @ es" using fold_try_write_prefix [of d avs "(w1, e1)"] by auto
  then have e1: "e1 = []" using Cons.prems(2) st by simp
  then have wr: "dev_write d w a v = (Inr (), w1)"
    using st av by (auto simp: try_write_def split: prod.splits sum.splits)
  obtain s where s: "keeps w a" "spec a = Some s" "reproducible (s_kind s) v" using Cons.prems(3) av by auto
  have rd: "dev_read d w1 a = Inr v" by (rule dev_write_reads_back [OF wr assms(1) s])
  have other: "dev_read d w1 b = dev_read d w b" if "b \<noteq> a" for b
    using dev_write_frame(2) [OF wr assms(1) that] assms(1) by (intro dev_read_cong) (simp add: read_io_def)
  have "\<forall>(a, v)\<in>set avs. keeps w1 a \<and> (\<exists>s. spec a = Some s \<and> reproducible (s_kind s) v)"
    using Cons.prems(3) dev_write_frame(1) [OF wr assms(1)] by fastforce
  moreover have "distinct (map fst avs)" "fold (try_write d) avs (w1, []) = (w', [])" using Cons.prems st e1 by simp_all
  ultimately have IH: "(\<forall>(a, v)\<in>set avs. dev_read d w' a = Inr v) \<and> (\<forall>b. b \<notin> fst ` set avs \<longrightarrow> dev_read d w' b = dev_read d w1 b)"
    by (intro Cons.IH) simp_all
  have "a \<notin> fst ` set avs" using Cons.prems(1) av by simp
  then have "dev_read d w' a = Inr v" using IH rd by simp
  then show ?case using IH other av by auto
qed simp

lemma revert_restores:
  assumes io: "dev_io d = ops" and rv: "revert dbg ed d w = (Inr [], w')"
    and snap: "ed_values ed = snapshot_values d w0" and keep: "\<forall>a\<in>set ONBOARD_ATTRS. keeps w a"
    and s: "s \<in> set (editable_specs d)" "available d w0 (s_attr s)" "dev_read d w0 (s_attr s) = Inr v"
  shows "dev_read d w' (s_attr s) = Inr v"
proof -
  let ?st = "fold (try_write d) (ed_values ed) (w, [])"
  let ?nm = "\<lambda>name. (''wheel_profile_names'', VSlotName (ed_slot ed) name)"
  obtain w1 es where st: "?st = (w1, es)" by (cases ?st)
  have nil: "es = []" and last: "dev_read d w' a = dev_read d w1 a" if a: "a \<in> set ONBOARD_ATTRS" for a
  proof -
    have ne: "a \<noteq> ''wheel_profile_names''" using a by (auto simp: ONBOARD_ATTRS_def)
    show "es = []" "dev_read d w' a = dev_read d w1 a"
    proof (atomize (full), cases "ed_name ed")
      case None
      then show "es = [] \<and> dev_read d w' a = dev_read d w1 a"
        using rv st by (auto simp: revert_def Let_def split: sum.splits)
    next
      case (Some name)
      then have "snd (try_write d (?nm name) (w1, es)) = []" "fst (try_write d (?nm name) (w1, es)) = w'"
        using rv st by (auto simp: revert_def Let_def split: sum.splits)
      then have tw: "try_write d (?nm name) (w1, es) = (w', [])" by (metis prod.collapse)
      then obtain r where "es = []" "dev_write d w1 ''wheel_profile_names'' (VSlotName (ed_slot ed) name) = (r, w')"
        by (auto simp: try_write_def split: prod.splits sum.splits)
      then show "es = [] \<and> dev_read d w' a = dev_read d w1 a"
        using dev_write_frame(2) [OF _ io ne] io by (auto intro!: dev_read_cong simp: read_io_def)
    qed
  qed
  have a: "s_attr s \<in> set ONBOARD_ATTRS" "spec (s_attr s) = Some s" using editable_spec [OF s(1)] by simp_all
  have "\<forall>(a, v)\<in>set (ed_values ed). keeps w a \<and> (\<exists>s. spec a = Some s \<and> reproducible (s_kind s) v)"
    using keep editable_spec onboard_spec_plain plain_setting_reproducible by (fastforce simp: snap snapshot_values_iff)
  moreover have "distinct (map fst (ed_values ed))" by (simp add: snap snapshot_values_distinct)
  ultimately have "\<forall>(a, v)\<in>set (ed_values ed). dev_read d w1 a = Inr v"
    using fold_try_write_reads_back [OF io] st nil [OF a(1)] by blast
  moreover have "(s_attr s, v) \<in> set (ed_values ed)" using s by (auto simp: snap snapshot_values_iff)
  ultimately show ?thesis using last [OF a(1)] by auto
qed

lemma try_write_plain:
  assumes "dev_io d = ops" "spec a = Some s" "plain_setting s" "kind_validate (s_kind s) v = Inr ()" "keeps w a"
    "current_mode d w = Inr Onboard"
  shows "\<exists>w'. dev_write d w a v = (Inr (), w')"
proof -
  obtain raw where raw: "raw_for_write s v = Inr raw"
    using validated_raw_for_write [OF assms(4) plain_setting_kind [OF assms(3)]] by blast
  obtain w' where "io_write ops w a raw = (Inr (), w')" using kept_write [OF assms(5)] by blast
  moreover have "mode_gate d w (s_mode_req s) = Inr ()"
    using assms(3,6) by (cases "s_mode_req s") (simp_all add: plain_setting_def mode_gate_def)
  moreover have "s_access s \<noteq> ReadOnly" using assms(3) by (simp add: plain_setting_def)
  ultimately show ?thesis
    using assms(1,2,4) raw spec_attr [OF assms(2)] by (simp add: dev_write_def write_checked_def write_io_def)
qed

lemma fold_try_write_succeeds:
  assumes "dev_io d = ops"
    and "\<forall>(a, v)\<in>set avs. a \<noteq> ''wheel_mode'' \<and> keeps w a \<and> (\<exists>s. spec a = Some s \<and> plain_setting s \<and> kind_validate (s_kind s) v = Inr ())"
    and "current_mode d w = Inr Onboard"
  shows "\<exists>w'. fold (try_write d) avs (w, []) = (w', []) \<and> (\<forall>a. keeps w' a = keeps w a)"
  using assms(2,3)
proof (induction avs arbitrary: w)
  case (Cons av avs)
  obtain a v where av: "av = (a, v)" by (cases av)
  obtain s where s: "a \<noteq> ''wheel_mode''" "keeps w a" "spec a = Some s" "plain_setting s" "kind_validate (s_kind s) v = Inr ()"
    using Cons.prems(1) av by auto
  obtain w1 where wr: "dev_write d w a v = (Inr (), w1)"
    using try_write_plain [OF assms(1) s(3-5,2) Cons.prems(2)] by blast
  have kp: "keeps w1 b = keeps w b" for b by (rule dev_write_frame(1) [OF wr assms(1)])
  have "\<forall>(a, v)\<in>set avs. a \<noteq> ''wheel_mode'' \<and> keeps w1 a \<and> (\<exists>s. spec a = Some s \<and> plain_setting s \<and> kind_validate (s_kind s) v = Inr ())"
    using Cons.prems(1) kp by fastforce
  then obtain w' where "fold (try_write d) avs (w1, []) = (w', [])" "\<forall>a. keeps w' a = keeps w1 a"
    using Cons.IH [of w1] current_mode_frame [OF wr assms(1) s(1)] Cons.prems(2) by auto
  moreover have "try_write d av (w, []) = (w1, [])" using wr av by (simp add: try_write_def)
  ultimately show ?case using kp by simp
qed simp

lemma revert_succeeds:
  assumes io: "dev_io d = ops" and act: "read_slot dbg d w = Inr (ed_slot ed)" and mode: "current_mode d w = Inr Onboard"
    and snap: "ed_values ed = snapshot_values d w0" and keep: "\<forall>a\<in>set ONBOARD_ATTRS. keeps w a"
    and nm: "\<forall>n. ed_name ed = Some n \<longrightarrow> slot_name_ok 5 9 (ed_slot ed) n \<and> keeps w ''wheel_profile_names''"
  shows "\<exists>w'. revert dbg ed d w = (Inr [], w')"
proof -
  have "\<forall>(a, v)\<in>set (ed_values ed). a \<noteq> ''wheel_mode'' \<and> keeps w a \<and> (\<exists>s. spec a = Some s \<and> plain_setting s \<and> kind_validate (s_kind s) v = Inr ())"
  proof (clarify, goal_cases)
    case (1 a v)
    then obtain s where s: "s \<in> set (editable_specs d)" "s_attr s = a" "dev_read d w0 a = Inr v" by (auto simp: snap snapshot_values_iff)
    then have a: "a \<in> set ONBOARD_ATTRS" "spec a = Some s" using editable_spec by auto
    then have pl: "plain_setting s" by (rule onboard_spec_plain)
    then have "\<exists>raw. value_of_raw s raw = Inr v"
      using dev_read_value_of_raw [OF s(3) a(2)] by (auto simp: plain_setting_def)
    then have "kind_validate (s_kind s) v = Inr ()" using plain_setting_value [OF pl] by blast
    moreover have "a \<noteq> ''wheel_mode''" using a(1) by (auto simp: ONBOARD_ATTRS_def)
    ultimately show ?case using a pl keep by blast
  qed
  then obtain w1 where w1: "fold (try_write d) (ed_values ed) (w, []) = (w1, [])" "\<forall>a. keeps w1 a = keeps w a"
    using fold_try_write_succeeds [OF io _ mode] by blast
  have ver: "verify_still_active dbg ed d w = Inr ()" using act by (simp add: verify_still_active_def)
  show ?thesis
  proof (cases "ed_name ed")
    case None
    then show ?thesis using ver w1(1) by (simp add: revert_def)
  next
    case (Some n)
    then have n: "slot_name_ok 5 9 (ed_slot ed) n" "keeps w1 ''wheel_profile_names''" using nm w1(2) by auto
    obtain w2 where w2: "io_write ops w1 ''wheel_profile_names'' (dec_nat (unat (ed_slot ed)) @ '':'' @ n) = (Inr (), w2)"
      using kept_write [OF n(2)] by blast
    have "dev_write d w1 ''wheel_profile_names'' (VSlotName (ed_slot ed) n) = (Inr (), w2)"
      using n(1) w2 io
      by (simp add: dev_write_def names_spec write_checked_def kind_validate_def mode_gate_def raw_for_write_def kind_format_def write_io_def)
    then have "try_write d (''wheel_profile_names'', VSlotName (ed_slot ed) n) (w1, []) = (w2, [])" by (simp add: try_write_def)
    then show ?thesis using ver w1(1) Some by (simp add: revert_def)
  qed
qed

lemma read_slot_frame:
  assumes "dev_write d w a v = (res, w')" "dev_io d = ops" "a \<noteq> ''wheel_profile''"
  shows "read_slot dbg d w' = read_slot dbg d w"
proof -
  have "dev_read d w' ''wheel_profile'' = dev_read d w ''wheel_profile''"
    using dev_write_frame(2) [OF assms(1,2), of "''wheel_profile''"] assms(2,3) by (intro dev_read_cong) (simp add: read_io_def)
  then show ?thesis by (simp add: read_slot_def)
qed

lemma begin_edit_result:
  assumes "begin_edit dbg d w slot = (Inr ed, w')" "dev_io d = ops"
  shows "1 \<le> slot \<and> slot \<le> 5 \<and> ed_slot ed = slot \<and> read_slot dbg d w = Inr (ed_previous ed) \<and>
    read_slot dbg d w' = Inr slot \<and> ed_values ed = snapshot_values d w' \<and> ed_name ed = slot_name d w' slot"
proof -
  obtain previous w1 where b: "1 \<le> slot" "slot \<le> 5" "read_slot dbg d w = Inr previous" "read_slot dbg d w1 = Inr slot"
      "w' = (if available d w1 ''wheel_mode'' then snd (dev_write d w1 ''wheel_mode'' (VEnum 1)) else w1)"
      "ed = \<lparr>ed_slot = slot, ed_previous = previous, ed_values = fst (snapshot_slot dbg d w'), ed_name = snd (snapshot_slot dbg d w')\<rparr>"
    using assms(1) by (auto simp: begin_edit_def Let_def split: if_splits sum.splits prod.splits)
  have "read_slot dbg d w' = read_slot dbg d w1"
    using b(5) read_slot_frame [OF prod.collapse [symmetric] assms(2)] by auto
  then show ?thesis using b by (simp add: snapshot_slot_def)
qed

end


text \<open>A wheel on slot 3 with a stored range, edited and reverted at once.\<close>

lemma demo_write:
  assumes "spec a = Some s" "s_access s \<noteq> ReadOnly" "kind_validate (s_kind s) v = Inr ()" "s_mode_req s = Any"
    "raw_for_write s v = Inr raw" "errnos f a = None"
  shows "dev_write demo_wheel f a v = (Inr (), f\<lparr>vals := (vals f)(a \<mapsto> trim raw), write_log := write_log f @ [(a, trim raw)]\<rparr>)"
  using assms spec_attr [OF assms(1)]
  by (simp add: dev_write_def write_checked_def mode_gate_def write_io_def demo_wheel_def with_io_and_model_def fake_sysfs_def fake_write_def)

lemma mode_spec:
  "spec ''wheel_mode'' = Some (setting ''wheel_mode'' ''Mode'' Profiles (KEnum [''desktop'', ''onboard'']) ReadWrite Any)"
  by (simp add: spec_def registry_tables)

definition begun_store :: FakeSysfs where
  "begun_store = (slot_store (dec_nat 3))\<lparr>vals := (vals (slot_store (dec_nat 3)))(''wheel_profile'' \<mapsto> dec_nat 3, ''wheel_mode'' \<mapsto> ''onboard''),
     write_log := [(''wheel_profile'', dec_nat 3), (''wheel_mode'', ''onboard'')]\<rparr>"

lemma demo_begin:
  "\<exists>ed. begin_edit dbg demo_wheel (slot_store (dec_nat 3)) 3 = (Inr ed, begun_store)"
proof -
  let ?w = "slot_store (dec_nat 3)"
  let ?w1 = "?w\<lparr>vals := (vals ?w)(''wheel_profile'' \<mapsto> dec_nat 3), write_log := [(''wheel_profile'', dec_nat 3)]\<rparr>"
  have st: "errnos ?w = Map.empty" "read_errno ?w = Map.empty" "write_log ?w = []" "vals ?w ''wheel_mode'' = Some ''desktop''"
    by (simp_all add: slot_store_def demo_store_def fake_set_def fake_new_def)
  have v: "kind_validate (KIntRange 0 5 1 []) (VInt 3) = Inr ()" by (simp add: kind_ops)
  have w1: "dev_write demo_wheel ?w ''wheel_profile'' (VInt 3) = (Inr (), ?w1)"
    using demo_write [OF profile_spec, of "VInt 3" "dec_nat 3" ?w] v st by (simp add: raw_for_write_def kind_format_def dec_int_def)
  have r1: "read_slot dbg demo_wheel ?w1 = Inr 3" using demo_slot_at [of 3 ?w1] st by simp
  have m: "kind_validate (KEnum [''desktop'', ''onboard'']) (VEnum 1) = Inr ()" by (rule validate_enum) simp
  have "trim ''onboard'' = ''onboard''" by (simp add: plain_def is_space_def)
  then have w2: "snd (dev_write demo_wheel ?w1 ''wheel_mode'' (VEnum 1)) = begun_store"
    using demo_write [OF mode_spec, of "VEnum 1" "''onboard''" ?w1] m st by (simp add: raw_for_write_def get_at_def begun_store_def)
  have "available demo_wheel ?w1 ''wheel_mode''"
    using st by (simp add: available_def requires_accessory_def ACCESSORY_ATTRS_def wrong_accessory_mode_def required_mode_def
        demo_wheel_def with_io_and_model_def fake_sysfs_def fake_exists_def)
  then show ?thesis using demo_read_slot [of 3 dbg] w1 r1 w2 by (simp add: begin_edit_def)
qed


text \<open>An unnamed slot cannot be reverted cleanly: its empty name is part of the snapshot, and a name
  of no characters is refused, so every revert of such a slot reports a problem with the name.\<close>

theorem unnamed_slot_revert_reports:
  assumes "ed_name ed = Some []" "read_slot dbg d w = Inr (ed_slot ed)"
  shows "\<exists>errors w'. revert dbg ed d w = (Inr (errors @ [(''wheel_profile_names'', ''invalid value'')]), w')"
proof -
  have "kind_validate (KSlotText 5 9) (VSlotName (ed_slot ed) []) = Inl Invalid"
    by (simp add: kind_validate_def slot_name_ok_def chars_count_def)
  then have "dev_write d x ''wheel_profile_names'' (VSlotName (ed_slot ed) []) = (Inl Invalid, x)" for x
    by (simp add: dev_write_def names_spec write_checked_def)
  then show ?thesis
    using assms by (simp add: revert_def verify_still_active_def try_write_def Let_def error_display_def)
qed

definition unnamed_editor :: OnboardEditor where
  "unnamed_editor = \<lparr>ed_slot = 2, ed_previous = 0, ed_values = [], ed_name = Some []\<rparr>"

theorem unnamed_slot_revert_reports_witness:
  "\<exists>errors w'. revert (\<lambda>_. []) unnamed_editor demo_wheel (slot_store (dec_nat 2)) =
     (Inr (errors @ [(''wheel_profile_names'', ''invalid value'')]), w')"
  by (rule unnamed_slot_revert_reports) (use demo_read_slot [of 2] in \<open>simp_all add: unnamed_editor_def\<close>)

end
