(* ===== verification/Hidpp.thy ===== *)
theory Hidpp
  imports Device
begin

text \<open>
  HID++ queries over a report transport: \<open>logi-wheel-core/src/hidpp.rs\<close>. The trait
  \<open>HidppIo\<close> is a record of operations on a transport state; a request is one report out and one
  report in. The time limit of the rev-state loop is the number of reports that arrive before
  its deadline. The sysfs tree that the sibling search walks is a record of answers.
\<close>

section \<open>Reports and requests\<close>

definition REPORT_ID_SHORT :: u8 where "REPORT_ID_SHORT = 0x10"
definition REPORT_ID_LONG :: u8 where "REPORT_ID_LONG = 0x11"
definition REPORT_ID_VERY_LONG :: u8 where "REPORT_ID_VERY_LONG = 0x12"
definition DEVICE_INDEX_BASE :: u8 where "DEVICE_INDEX_BASE = 0xff"
definition SW_ID :: u8 where "SW_ID = 0x0a"
definition ROOT_FEATURE_INDEX :: u8 where "ROOT_FEATURE_INDEX = 0"
definition FN_GET_INFO :: u8 where "FN_GET_INFO = 0"
definition FN_GET :: u8 where "FN_GET = 0x10"
definition FEATURE_DEVICE_INFORMATION :: u16 where "FEATURE_DEVICE_INFORMATION = 0x0003"
definition FW_TYPE_MAIN_APP :: u8 where "FW_TYPE_MAIN_APP = 0"
definition MAX_ENTITIES :: u8 where "MAX_ENTITIES = 8"

lemmas hidpp_constants = REPORT_ID_SHORT_def REPORT_ID_LONG_def REPORT_ID_VERY_LONG_def DEVICE_INDEX_BASE_def SW_ID_def
  ROOT_FEATURE_INDEX_def FN_GET_INFO_def FN_GET_def FEATURE_DEVICE_INFORMATION_def FW_TYPE_MAIN_APP_def MAX_ENTITIES_def

record 'h hidpp_io =
  write_report :: "'h \<Rightarrow> u8 list \<Rightarrow> (io_error + unit) \<times> 'h"
  read_report :: "'h \<Rightarrow> (io_error + u8 list) \<times> 'h"
  long_requests_only :: "'h \<Rightarrow> bool"

definition pad :: "nat \<Rightarrow> u8 list \<Rightarrow> u8 list" where
  "pad n xs = take n xs @ replicate (n - length xs) 0"

lemma length_pad [simp]: "length (pad n xs) = n"
  by (simp add: pad_def)

definition short_report :: "u8 \<Rightarrow> u8 \<Rightarrow> u8 \<Rightarrow> u8 list \<Rightarrow> u8 list" where
  "short_report device_index feature_index func params =
     [REPORT_ID_SHORT, device_index, feature_index, func OR SW_ID] @ pad 3 params"

definition long_request :: "u8 \<Rightarrow> u8 \<Rightarrow> u8 \<Rightarrow> u8 list \<Rightarrow> u8 list" where
  "long_request device_index feature_index func params =
     [REPORT_ID_LONG, device_index, feature_index, func OR SW_ID] @ pad 16 params"

definition request :: "'h hidpp_io \<Rightarrow> 'h \<Rightarrow> u8 \<Rightarrow> u8 \<Rightarrow> u8 \<Rightarrow> u8 list \<Rightarrow> u8 list option \<times> 'h" where
  "request io h device_index feature_index func params =
     (let report = (if long_requests_only io h then long_request device_index feature_index func params
                    else short_report device_index feature_index func params)
      in case write_report io h report of (Inl _, h1) \<Rightarrow> (None, h1)
         | (Inr _, h1) \<Rightarrow>
             (case read_report io h1 of (Inl _, h2) \<Rightarrow> (None, h2)
              | (Inr resp, h2) \<Rightarrow>
                  if length resp < 4 \<or> resp ! 1 \<noteq> device_index \<or> resp ! 2 \<noteq> feature_index \<or> resp ! 3 \<noteq> func OR SW_ID
                  then (None, h2) else (Some (drop 4 resp), h2)))"

definition be_bytes :: "u16 \<Rightarrow> u8 list" where
  "be_bytes w = [ucast (drop_bit 8 w), ucast (w AND 0xff)]"

definition from_be_bytes :: "u8 \<Rightarrow> u8 \<Rightarrow> u16" where
  "from_be_bytes hi lo = push_bit 8 (ucast hi) OR ucast lo"

definition resolve_feature_index :: "'h hidpp_io \<Rightarrow> 'h \<Rightarrow> u16 \<Rightarrow> u8 option \<times> 'h" where
  "resolve_feature_index io h feature_id =
     (case request io h DEVICE_INDEX_BASE ROOT_FEATURE_INDEX FN_GET_INFO (be_bytes feature_id) of
        (Some (idx # _), h1) \<Rightarrow> (if idx = 0 then None else Some idx, h1)
      | (_, h1) \<Rightarrow> (None, h1))"

definition entity_count :: "'h hidpp_io \<Rightarrow> 'h \<Rightarrow> u8 \<Rightarrow> u8 option \<times> 'h" where
  "entity_count io h feature_index =
     (case request io h DEVICE_INDEX_BASE feature_index FN_GET_INFO [] of
        (Some (n # _), h1) \<Rightarrow> (Some n, h1)
      | (_, h1) \<Rightarrow> (None, h1))"

section \<open>Firmware\<close>

record FwEntity =
  fw_type :: u8
  fw_prefix :: string
  fw_major :: u8
  fw_minor :: u8
  fw_build :: u16

definition fw_parse :: "u8 list \<Rightarrow> FwEntity option" where
  "fw_parse resp =
     (if length resp < 8 then None
      else Some \<lparr>fw_type = resp ! 0,
        fw_prefix = trim (map (\<lambda>c. char_of (unat c)) (filter (\<lambda>c. 0x20 \<le> c \<and> c < 0x7f) (take 3 (drop 1 resp)))),
        fw_major = resp ! 4, fw_minor = resp ! 5, fw_build = from_be_bytes (resp ! 6) (resp ! 7)\<rparr>)"

definition fw_format :: "FwEntity \<Rightarrow> string" where
  "fw_format e = fw_prefix e @ '' '' @ hex2 (fw_major e) @ ''.'' @ hex2 (fw_minor e) @ ''.B'' @ to_upper (hex4 (fw_build e))"

definition fw_entity :: "'h hidpp_io \<Rightarrow> 'h \<Rightarrow> u8 \<Rightarrow> u8 \<Rightarrow> FwEntity option \<times> 'h" where
  "fw_entity io h feature_index entity =
     (case request io h DEVICE_INDEX_BASE feature_index FN_GET [entity] of
        (Some resp, h1) \<Rightarrow> (fw_parse resp, h1) | (None, h1) \<Rightarrow> (None, h1))"

text \<open>The lazy scan: entities are asked for in turn until one is the main application.\<close>

fun scan_entities :: "'h hidpp_io \<Rightarrow> 'h \<Rightarrow> u8 \<Rightarrow> nat list \<Rightarrow> FwEntity option \<times> 'h" where
  "scan_entities io h feature_index [] = (None, h)"
| "scan_entities io h feature_index (i # is) =
     (case fw_entity io h feature_index (word_of_nat i) of
        (Some fw, h1) \<Rightarrow> if fw_type fw = FW_TYPE_MAIN_APP then (Some fw, h1) else scan_entities io h1 feature_index is
      | (None, h1) \<Rightarrow> scan_entities io h1 feature_index is)"

definition query_main_firmware :: "'h hidpp_io \<Rightarrow> 'h \<Rightarrow> string option \<times> 'h" where
  "query_main_firmware io h =
     (case resolve_feature_index io h FEATURE_DEVICE_INFORMATION of (None, h1) \<Rightarrow> (None, h1)
      | (Some feature_index, h1) \<Rightarrow>
          (case entity_count io h1 feature_index of (None, h2) \<Rightarrow> (None, h2)
           | (Some n, h2) \<Rightarrow>
               (case scan_entities io h2 feature_index [0..<min (unat n) (unat MAX_ENTITIES)] of
                  (fw, h3) \<Rightarrow> (map_option fw_format fw, h3))))"

section \<open>Features\<close>

fun enumerate_from :: "'h hidpp_io \<Rightarrow> 'h \<Rightarrow> u8 \<Rightarrow> nat list \<Rightarrow> (u8 \<times> u16) list \<times> 'h" where
  "enumerate_from io h set_index [] = ([], h)"
| "enumerate_from io h set_index (i # is) =
     (case request io h DEVICE_INDEX_BASE set_index FN_GET [word_of_nat i] of
        (r, h1) \<Rightarrow>
          (case enumerate_from io h1 set_index is of (rest, h2) \<Rightarrow>
             (case r of
                Some (a # c # _) \<Rightarrow> (if from_be_bytes a c \<noteq> 0 then (word_of_nat i, from_be_bytes a c) # rest else rest, h2)
              | _ \<Rightarrow> (rest, h2))))"

definition enumerate_features :: "'h hidpp_io \<Rightarrow> 'h \<Rightarrow> (u8 \<times> u16) list option \<times> 'h" where
  "enumerate_features io h =
     (case resolve_feature_index io h 0x0001 of (None, h1) \<Rightarrow> (None, h1)
      | (Some set_index, h1) \<Rightarrow>
          (case request io h1 DEVICE_INDEX_BASE set_index FN_GET_INFO [] of
             (Some (n # _), h2) \<Rightarrow>
               (case enumerate_from io h2 set_index [1..<Suc (unat n)] of (out, h3) \<Rightarrow> (Some out, h3))
           | (_, h2) \<Rightarrow> (None, h2)))"

definition KNOWN_FEATURES :: "(u16 \<times> string) list" where
  "KNOWN_FEATURES = [
     (0x8040, ''Brightness control''),
     (0x807A, ''RPM indicator (the rev display)''),
     (0x807B, ''RPM LED pattern''),
     (0x80A4, ''Axis response curve''),
     (0x80D0, ''Combined pedals (also broadcasts profile changes)''),
     (0x8123, ''Force feedback (G920 family)''),
     (0x8133, ''Global damping''),
     (0x8134, ''Brake force threshold''),
     (0x8136, ''Torque limit''),
     (0x8137, ''Configuration profiles''),
     (0x8138, ''Operating range''),
     (0x8139, ''TrueForce''),
     (0x8140, ''FFB filter''),
     (0x1BC0, ''Sync/prepare'')]"

definition feature_name :: "u16 \<Rightarrow> string option" where
  "feature_name i = map_option snd (find (\<lambda>e. fst e = i) KNOWN_FEATURES)"

fun probe_list :: "'h hidpp_io \<Rightarrow> 'h \<Rightarrow> (u16 \<times> string) list \<Rightarrow> (u16 \<times> string \<times> u8 option) list \<times> 'h" where
  "probe_list io h [] = ([], h)"
| "probe_list io h ((i, what) # rest) =
     (case resolve_feature_index io h i of (idx, h1) \<Rightarrow>
        (case probe_list io h1 rest of (rows, h2) \<Rightarrow> ((i, what, idx) # rows, h2)))"

section \<open>The sysfs tree\<close>

text \<open>\<open>has_report_id\<close>: a Report ID item for \<open>i\<close> anywhere in the descriptor bytes.\<close>

fun has_report_id :: "u8 list \<Rightarrow> u8 \<Rightarrow> bool" where
  "has_report_id (a # c # rest) i = ((a = 0x85 \<and> c = i) \<or> has_report_id (c # rest) i)"
| "has_report_id _ i = False"

definition looks_like_hidpp :: "u8 list \<Rightarrow> bool" where
  "looks_like_hidpp descriptor \<longleftrightarrow>
     has_report_id descriptor REPORT_ID_LONG \<and>
     (has_report_id descriptor REPORT_ID_SHORT \<or> has_report_id descriptor REPORT_ID_VERY_LONG)"

definition node_long_only :: "u8 list option \<Rightarrow> bool" where
  "node_long_only descriptor =
     (case descriptor of Some d \<Rightarrow> \<not> has_report_id d REPORT_ID_SHORT \<and> has_report_id d REPORT_ID_LONG | None \<Rightarrow> False)"

record hid_entry =
  he_dir :: path
  he_descriptor :: "u8 list option"
  he_node :: "string option"

record hidpp_fs =
  hp_canonicalize :: "path \<Rightarrow> path option"
  hp_interfaces :: "path \<Rightarrow> hid_entry list option list option"

definition hid_entries :: "hidpp_fs \<Rightarrow> path \<Rightarrow> hid_entry list option" where
  "hid_entries fs if0_dir = do {
     if0_real \<leftarrow> hp_canonicalize fs if0_dir;
     iface \<leftarrow> parent if0_real;
     usb \<leftarrow> parent iface;
     ifaces \<leftarrow> hp_interfaces fs usb;
     Some (concat (map (\<lambda>es. case es of None \<Rightarrow> [] | Some es' \<Rightarrow> es') ifaces)) }"

definition hidraw_node :: "hid_entry \<Rightarrow> path option" where
  "hidraw_node e = map_option (\<lambda>n. [''dev'', n]) (he_node e)"

fun first_hidpp :: "hid_entry list \<Rightarrow> path option" where
  "first_hidpp [] = None"
| "first_hidpp (e # es) =
     (case he_descriptor e of None \<Rightarrow> first_hidpp es
      | Some descriptor \<Rightarrow>
          if \<not> looks_like_hidpp descriptor then first_hidpp es
          else case hidraw_node e of Some node \<Rightarrow> Some node | None \<Rightarrow> first_hidpp es)"

definition find_hidpp_sibling :: "hidpp_fs \<Rightarrow> path \<Rightarrow> path option" where
  "find_hidpp_sibling fs if0_dir = (case hid_entries fs if0_dir of None \<Rightarrow> None | Some es \<Rightarrow> first_hidpp es)"

fun dedup_nodes :: "(path \<times> path) list \<Rightarrow> (path \<times> path) list" where
  "dedup_nodes (a # c # rest) = (if snd c = snd a then dedup_nodes (a # rest) else a # dedup_nodes (c # rest))"
| "dedup_nodes xs = xs"

definition all_wheel_nodes :: "hidpp_fs \<Rightarrow> path \<Rightarrow> (path \<times> path) list" where
  "all_wheel_nodes fs if0_dir =
     (case hid_entries fs if0_dir of None \<Rightarrow> []
      | Some es \<Rightarrow>
          dedup_nodes (sort_key snd (List.map_filter
            (\<lambda>e. if he_descriptor e = None then None else map_option (\<lambda>n. (he_dir e, n)) (hidraw_node e)) es)))"

definition descriptor_kind :: "u8 list option \<Rightarrow> string" where
  "descriptor_kind bytes =
     (case bytes of None \<Rightarrow> ''unreadable''
      | Some ds \<Rightarrow>
          (case ds of
             a # c # d # e # _ \<Rightarrow>
               if [a, c, d, e] = [0x05, 0x01, 0x09, 0x04] then ''Joystick''
               else if [a, c, d, e] = [0x05, 0x01, 0x09, 0x05] then ''Gamepad''
               else if [a, c, d] = [0x06, 0x00, 0xff] then ''vendor 0xFF00 (HID++)''
               else if [a, c, d] = [0x06, 0xfd, 0xff] then ''vendor 0xFFFD (TrueForce)''
               else if [a, c, d] = [0x06, 0x43, 0xff] then ''vendor 0xFF43 (HID++)''
               else ''unrecognised ('' @ hex2 a @ '' '' @ hex2 c @ '' '' @ hex2 d @ '' '' @ hex2 e @ '')''
           | _ \<Rightarrow> ''empty''))"

section \<open>Rev lights\<close>

definition REV_SW_ID :: u8 where "REV_SW_ID = 0x0d"
definition REV_STATE_OFF :: u8 where "REV_STATE_OFF = 0"
definition REV_EFFECT_DISPLAY :: u8 where "REV_EFFECT_DISPLAY = 2"
definition LEDS_DIRECT_DRIVE :: u8 where "LEDS_DIRECT_DRIVE = 10"
definition LEDS_G923 :: u8 where "LEDS_G923 = 5"

definition rev_fn :: "u8 \<Rightarrow> u8" where
  "rev_fn func = push_bit 4 func OR REV_SW_ID"

definition rev_long :: "u8 \<Rightarrow> u8 \<Rightarrow> u8 \<Rightarrow> u8 list \<Rightarrow> u8 list" where
  "rev_long device_index feature_index func params =
     [REPORT_ID_LONG, device_index, feature_index, rev_fn func] @ pad 16 params"

definition rev_send :: "'h hidpp_io \<Rightarrow> 'h \<Rightarrow> u8 \<Rightarrow> u8 \<Rightarrow> u8 \<Rightarrow> (io_error + unit) \<times> 'h" where
  "rev_send io h idx func p0 =
     (if long_requests_only io h then write_report io h (rev_long 0xff idx func [p0])
      else write_report io h ([REPORT_ID_SHORT, 0xff, idx, rev_fn func] @ pad 3 [p0]))"

fun rev_wait :: "'h hidpp_io \<Rightarrow> u8 \<Rightarrow> nat \<Rightarrow> 'h \<Rightarrow> u8 option \<times> 'h" where
  "rev_wait io idx 0 h = (None, h)"
| "rev_wait io idx (Suc n) h =
     (case read_report io h of (Inl _, h1) \<Rightarrow> (None, h1)
      | (Inr resp, h1) \<Rightarrow>
          if length resp < 5 \<or> resp ! 0 \<notin> {REPORT_ID_SHORT, REPORT_ID_LONG, REPORT_ID_VERY_LONG} then rev_wait io idx n h1
          else if resp ! 2 = 0xFF then (None, h1)
          else if resp ! 2 = idx \<and> drop_bit 4 (resp ! 3) = 2 then (Some (resp ! 4), h1)
          else rev_wait io idx n h1)"

definition rev_state :: "'h hidpp_io \<Rightarrow> nat \<Rightarrow> 'h \<Rightarrow> u8 \<Rightarrow> u8 option \<times> 'h" where
  "rev_state io before_deadline h idx =
     (case (if long_requests_only io h then write_report io h (rev_long 0xff idx 2 [0]) else rev_send io h idx 2 0) of
        (Inl _, h1) \<Rightarrow> (None, h1)
      | (Inr _, h1) \<Rightarrow> rev_wait io idx before_deadline h1)"

definition ensure_rev_display_mode :: "'h hidpp_io \<Rightarrow> nat \<Rightarrow> 'h \<Rightarrow> u8 \<Rightarrow> 'h" where
  "ensure_rev_display_mode io before_deadline h idx =
     (case rev_state io before_deadline h idx of
        (None, h1) \<Rightarrow> h1
      | (Some state, h1) \<Rightarrow> if state \<noteq> REV_STATE_OFF then h1 else snd (rev_send io h1 idx 3 REV_EFFECT_DISPLAY))"

fun rev_sends :: "'h hidpp_io \<Rightarrow> 'h \<Rightarrow> u8 \<Rightarrow> (u8 \<times> u8) list \<Rightarrow> (io_error + unit) \<times> 'h" where
  "rev_sends io h idx [] = (Inr (), h)"
| "rev_sends io h idx ((f, p) # fs) =
     (case rev_send io h idx f p of (Inl e, h1) \<Rightarrow> (Inl e, h1) | (Inr _, h1) \<Rightarrow> rev_sends io h1 idx fs)"

definition level_command :: "u8 \<Rightarrow> u8 \<Rightarrow> u8 \<Rightarrow> u8 list" where
  "level_command idx level leds = rev_long 0xff idx 6 [0x00, 0x01, 0x00, leds, 0x00, min level leds]"

definition rev_level_via_lightsync :: "'h hidpp_io \<Rightarrow> nat \<Rightarrow> 'h \<Rightarrow> u8 \<Rightarrow> u8 \<Rightarrow> u8 \<Rightarrow> (io_error + unit) \<times> 'h" where
  "rev_level_via_lightsync io before_deadline h idx level leds =
     (case rev_sends io h idx [(0, 0), (1, 0), (2, 0), (0, 0)] of (Inl e, h1) \<Rightarrow> (Inl e, h1)
      | (Inr _, h1) \<Rightarrow>
          (let h2 = ensure_rev_display_mode io before_deadline h1 idx
           in case rev_send io h2 idx 2 0 of (Inl e, h3) \<Rightarrow> (Inl e, h3)
              | (Inr _, h3) \<Rightarrow> write_report io h3 (level_command idx level leds)))"

definition rev_mask_via_lg4ff :: "'h hidpp_io \<Rightarrow> 'h \<Rightarrow> u8 \<Rightarrow> (io_error + unit) \<times> 'h" where
  "rev_mask_via_lg4ff io h bits = write_report io h [0xf8, 0x12, bits AND 0x1f, 0, 0, 0, 0]"

section \<open>Requests are answered by their own reply\<close>

text \<open>A request sends one report, framed as the interface declares, and accepts only a reply that
  echoes its device, feature and function; the parameters are what follows the header.\<close>

theorem request_accepts_only_its_reply:
  assumes "request io h dev feat fn params = (Some ps, h2)"
  shows "\<exists>h1 resp. write_report io h (if long_requests_only io h then long_request dev feat fn params else short_report dev feat fn params)
      = (Inr (), h1) \<and> read_report io h1 = (Inr resp, h2) \<and> (\<exists>rid. resp = [rid, dev, feat, fn OR SW_ID] @ ps)"
proof -
  let ?r = "if long_requests_only io h then long_request dev feat fn params else short_report dev feat fn params"
  obtain h1 resp where st: "write_report io h ?r = (Inr (), h1)" "read_report io h1 = (Inr resp, h2)"
      "\<not> (length resp < 4 \<or> resp ! 1 \<noteq> dev \<or> resp ! 2 \<noteq> feat \<or> resp ! 3 \<noteq> fn OR SW_ID)" "ps = drop 4 resp"
    using assms by (auto simp: request_def Let_def split: prod.splits sum.splits if_splits)
  obtain r0 r1 r2 r3 rest where "resp = r0 # r1 # r2 # r3 # rest"
    using st(3) by (cases resp; cases "tl resp"; cases "tl (tl resp)"; cases "tl (tl (tl resp))") auto
  then show ?thesis using st by simp
qed

section \<open>The level sequence\<close>

text \<open>What a transport keeps a record of: every report handed to it, in order. Reading sends
  nothing, and the framing an interface declares does not change.\<close>

definition records_sends :: "'h hidpp_io \<Rightarrow> ('h \<Rightarrow> u8 list list) \<Rightarrow> bool" where
  "records_sends io sent \<longleftrightarrow>
     (\<forall>h rep x h'. write_report io h rep = (x, h') \<longrightarrow> sent h' = sent h @ [rep] \<and> long_requests_only io h' = long_requests_only io h) \<and>
     (\<forall>h x h'. read_report io h = (x, h') \<longrightarrow> sent h' = sent h \<and> long_requests_only io h' = long_requests_only io h)"

definition rev_frame :: "bool \<Rightarrow> u8 \<Rightarrow> u8 \<Rightarrow> u8 \<Rightarrow> u8 list" where
  "rev_frame long idx func p0 =
     (if long then rev_long 0xff idx func [p0] else [REPORT_ID_SHORT, 0xff, idx, rev_fn func] @ pad 3 [p0])"

lemma rev_send_frame: "rev_send io h idx func p0 = write_report io h (rev_frame (long_requests_only io h) idx func p0)"
  by (simp add: rev_send_def rev_frame_def)

lemma rev_send_sends:
  assumes "records_sends io sent" "rev_send io h idx func p0 = (x, h')"
  shows "sent h' = sent h @ [rev_frame (long_requests_only io h) idx func p0] \<and> long_requests_only io h' = long_requests_only io h"
  using assms by (simp add: rev_send_frame records_sends_def)

lemma rev_sends_sends:
  assumes "records_sends io sent"
  shows "rev_sends io h idx fs = (x, h') \<Longrightarrow> long_requests_only io h' = long_requests_only io h \<and>
    (\<exists>n. sent h' = sent h @ map (\<lambda>(f, p). rev_frame (long_requests_only io h) idx f p) (take n fs) \<and> (x = Inr () \<longrightarrow> n = length fs))"
proof (induction fs arbitrary: h)
  case (Cons fp fs)
  obtain f p where fp: "fp = (f, p)" by (cases fp)
  obtain y h1 where st: "rev_send io h idx f p = (y, h1)" by (cases "rev_send io h idx f p")
  note s = rev_send_sends [OF assms st]
  show ?case
  proof (cases y)
    case (Inl e)
    then show ?thesis using Cons.prems st s fp by (intro conjI exI [of _ 1]) auto
  next
    case (Inr u)
    then have "rev_sends io h1 idx fs = (x, h')" using Cons.prems st fp by simp
    then obtain n where n: "sent h' = sent h1 @ map (\<lambda>(f, p). rev_frame (long_requests_only io h1) idx f p) (take n fs)"
        "x = Inr () \<longrightarrow> n = length fs" "long_requests_only io h' = long_requests_only io h1"
      using Cons.IH by blast
    then show ?thesis using s fp by (intro conjI exI [of _ "Suc n"]) simp_all
  qed
qed auto

lemma rev_wait_sends:
  assumes "records_sends io sent"
  shows "rev_wait io idx n h = (r, h') \<Longrightarrow> sent h' = sent h \<and> long_requests_only io h' = long_requests_only io h"
  by (induction n arbitrary: h)
    (use assms in \<open>auto simp: records_sends_def split: prod.splits sum.splits if_splits\<close>)

lemma rev_wait_state:
  "rev_wait io idx n h = (Some s, h') \<Longrightarrow>
   \<exists>h1 resp h2. read_report io h1 = (Inr resp, h2) \<and> 5 \<le> length resp \<and> resp ! 2 = idx \<and> drop_bit 4 (resp ! 3) = 2 \<and> resp ! 4 = s"
proof (induction n arbitrary: h)
  case (Suc n)
  obtain x h1 where rd: "read_report io h = (x, h1)" by (cases "read_report io h")
  show ?case
  proof (cases x)
    case (Inr resp)
    show ?thesis
    proof (cases "rev_wait io idx n h1 = (Some s, h')")
      case False
      then show ?thesis using Suc.prems rd Inr by (intro exI [of _ h] exI [of _ resp] exI [of _ h1]) (auto split: if_splits)
    qed (rule Suc.IH)
  qed (use Suc.prems rd in simp)
qed simp

lemma rev_state_sends:
  assumes "records_sends io sent" "rev_state io n h idx = (r, h')"
  shows "sent h' = sent h @ [rev_frame (long_requests_only io h) idx 2 0] \<and> long_requests_only io h' = long_requests_only io h \<and>
    (\<forall>s. r = Some s \<longrightarrow> (\<exists>h1 resp h2. read_report io h1 = (Inr resp, h2) \<and> 5 \<le> length resp \<and> resp ! 2 = idx \<and>
       drop_bit 4 (resp ! 3) = 2 \<and> resp ! 4 = s))"
proof -
  obtain y h1 where st: "rev_send io h idx 2 0 = (y, h1)" by (cases "rev_send io h idx 2 0")
  have eq: "rev_state io n h idx = (case (y, h1) of (Inl _, h1) \<Rightarrow> (None, h1) | (Inr _, h1) \<Rightarrow> rev_wait io idx n h1)"
  proof -
    have "(if long_requests_only io h then write_report io h (rev_long 0xff idx 2 [0]) else rev_send io h idx 2 0) = rev_send io h idx 2 0"
      by (simp add: rev_send_def)
    then show ?thesis unfolding rev_state_def st by (simp only:)
  qed
  note s = rev_send_sends [OF assms(1) st]
  show ?thesis
  proof (cases y)
    case (Inl e)
    then show ?thesis using assms(2) eq s by simp
  next
    case (Inr u)
    then have w: "rev_wait io idx n h1 = (r, h')" using assms(2) eq by simp
    then show ?thesis using s rev_wait_sends [OF assms(1) w] rev_wait_state by auto
  qed
qed

text \<open>No reply to the state query ever says that nothing is displayed.\<close>

definition displaying :: "'h hidpp_io \<Rightarrow> u8 \<Rightarrow> bool" where
  "displaying io idx \<longleftrightarrow> (\<forall>h resp h'. read_report io h = (Inr resp, h') \<longrightarrow> 5 \<le> length resp \<longrightarrow> resp ! 2 = idx \<longrightarrow>
     drop_bit 4 (resp ! 3) = 2 \<longrightarrow> resp ! 4 \<noteq> REV_STATE_OFF)"

lemma ensure_display_sends:
  assumes "records_sends io sent" "ensure_rev_display_mode io n h idx = h'"
  shows "long_requests_only io h' = long_requests_only io h \<and>
    (\<exists>mid. sent h' = sent h @ rev_frame (long_requests_only io h) idx 2 0 # mid \<and>
      (mid = [] \<or> mid = [rev_frame (long_requests_only io h) idx 3 REV_EFFECT_DISPLAY] \<and> \<not> displaying io idx))"
proof -
  obtain r h1 where st: "rev_state io n h idx = (r, h1)" by (cases "rev_state io n h idx")
  note s = rev_state_sends [OF assms(1) st]
  show ?thesis
  proof (cases "r = Some REV_STATE_OFF")
    case True
    obtain y h2 where st2: "rev_send io h1 idx 3 REV_EFFECT_DISPLAY = (y, h2)" by (cases "rev_send io h1 idx 3 REV_EFFECT_DISPLAY")
    have "\<not> displaying io idx" using s True unfolding displaying_def by blast
    moreover have "h' = h2" using assms(2) st True st2 by (simp add: ensure_rev_display_mode_def)
    ultimately show ?thesis using s rev_send_sends [OF assms(1) st2] by simp
  next
    case False
    then have "h' = h1" using assms(2) st by (auto simp: ensure_rev_display_mode_def split: option.splits)
    then show ?thesis using s by simp
  qed
qed

text \<open>A level that is accepted goes out as the whole sequence: the four arming reports, the state
  query, the display effect only for a wheel that answered it shows nothing, then the applying
  report and the level command, which never states a level above the number of lights. Every
  report before the level is framed as the interface declares.\<close>

theorem rev_level_sequence:
  assumes "records_sends io sent" "rev_level_via_lightsync io n h idx level leds = (Inr (), h')"
  shows "\<exists>mid. sent h' = sent h @
      map (\<lambda>f. rev_frame (long_requests_only io h) idx f 0) [0, 1, 2, 0, 2] @ mid @
      [rev_frame (long_requests_only io h) idx 2 0, level_command idx level leds] \<and>
    (mid = [] \<or> mid = [rev_frame (long_requests_only io h) idx 3 REV_EFFECT_DISPLAY] \<and> \<not> displaying io idx)"
proof -
  let ?l = "long_requests_only io h"
  obtain h1 h3 where st: "rev_sends io h idx [(0, 0), (1, 0), (2, 0), (0, 0)] = (Inr (), h1)"
      "rev_send io (ensure_rev_display_mode io n h1 idx) idx 2 0 = (Inr (), h3)"
      "write_report io h3 (level_command idx level leds) = (Inr (), h')"
    using assms(2) by (auto simp: rev_level_via_lightsync_def Let_def split: prod.splits sum.splits)
  have s1: "sent h1 = sent h @ map (\<lambda>f. rev_frame ?l idx f 0) [0, 1, 2, 0]" "long_requests_only io h1 = ?l"
    using rev_sends_sends [OF assms(1) st(1)] by auto
  obtain mid where s2: "sent (ensure_rev_display_mode io n h1 idx) = sent h1 @ rev_frame ?l idx 2 0 # mid"
      "mid = [] \<or> mid = [rev_frame ?l idx 3 REV_EFFECT_DISPLAY] \<and> \<not> displaying io idx"
      "long_requests_only io (ensure_rev_display_mode io n h1 idx) = ?l"
    using ensure_display_sends [OF assms(1) refl, of n h1 idx] s1(2) by auto
  have s3: "sent h3 = sent (ensure_rev_display_mode io n h1 idx) @ [rev_frame ?l idx 2 0]"
    using rev_send_sends [OF assms(1) st(2)] s2(3) by simp
  have "sent h' = sent h3 @ [level_command idx level leds]" using assms(1) st(3) by (simp add: records_sends_def)
  then show ?thesis using s1(1) s2(1,2) s3 by auto
qed

lemma rev_fn_not_three: "f \<in> {0, 1, 2, 6} \<Longrightarrow> rev_fn f \<noteq> rev_fn 3"
  by (auto simp: rev_fn_def REV_SW_ID_def)

lemma rev_frame_fn: "rev_frame long idx f p ! 3 = rev_fn f" "level_command idx level leds ! 3 = rev_fn 6"
  by (simp_all add: rev_frame_def rev_long_def level_command_def)

text \<open>C26. The display is never taken from a wheel that shows something: while every state reply names an
  effect, no report of the sequence is the one that changes the effect, whether or not the
  sequence completes.\<close>

theorem rev_display_never_stolen:
  assumes "records_sends io sent" "displaying io idx" "rev_level_via_lightsync io n h idx level leds = (x, h')"
  shows "\<exists>ws. sent h' = sent h @ ws \<and> (\<forall>rep\<in>set ws. rep ! 3 \<noteq> rev_fn 3)"
proof -
  let ?l = "long_requests_only io h"
  obtain y h1 where st: "rev_sends io h idx [(0, 0), (1, 0), (2, 0), (0, 0)] = (y, h1)" by (cases "rev_sends io h idx [(0, 0), (1, 0), (2, 0), (0, 0)]")
  obtain k where k: "sent h1 = sent h @ map (\<lambda>(f, p). rev_frame ?l idx f p) (take k [(0, 0), (1, 0), (2, 0), (0, 0)])"
      "long_requests_only io h1 = ?l"
    using rev_sends_sends [OF assms(1) st] by blast
  have burst: "\<forall>rep\<in>set (map (\<lambda>(f, p). rev_frame ?l idx f p) (take k [(0, 0), (1, 0), (2, 0), (0, 0)])). rep ! 3 \<noteq> rev_fn 3"
    using set_take_subset [of k "[(0, 0), (1, 0), (2, 0), (0, 0)]"] rev_fn_not_three by (fastforce simp: rev_frame_fn)
  show ?thesis
  proof (cases y)
    case (Inl e)
    then show ?thesis using assms(3) st k burst by (auto simp: rev_level_via_lightsync_def)
  next
    case (Inr u)
    let ?h2 = "ensure_rev_display_mode io n h1 idx"
    have s2: "sent ?h2 = sent h1 @ [rev_frame ?l idx 2 0]" "long_requests_only io ?h2 = ?l"
      using ensure_display_sends [OF assms(1) refl, of n h1 idx] k(2) assms(2) by auto
    obtain z h3 where st3: "rev_send io ?h2 idx 2 0 = (z, h3)" by (cases "rev_send io ?h2 idx 2 0")
    have s3: "sent h3 = sent ?h2 @ [rev_frame ?l idx 2 0]" using rev_send_sends [OF assms(1) st3] s2(2) by simp
    have "sent h' = sent h3 \<or> sent h' = sent h3 @ [level_command idx level leds]"
      using assms(1,3) st Inr st3 by (cases z) (auto simp: rev_level_via_lightsync_def Let_def records_sends_def)
    then show ?thesis using k(1) s2(1) s3 burst rev_fn_not_three [of 2] rev_fn_not_three [of 6]
      by (elim disjE) (simp_all add: rev_frame_fn)
  qed
qed

text \<open>A wheel on its second effect that answers the state query, as a transport.\<close>

definition demo_strip :: "u8 \<Rightarrow> (u8 list list) hidpp_io" where
  "demo_strip state = \<lparr>write_report = (\<lambda>h rep. (Inr (), h @ [rep])),
     read_report = (\<lambda>h. (Inr [REPORT_ID_LONG, 0xff, 0x12, rev_fn 2, state], h)), long_requests_only = (\<lambda>_. True)\<rparr>"

lemma demo_strip_records: "records_sends (demo_strip s) (\<lambda>h. h)"
  by (simp add: records_sends_def demo_strip_def)

lemma demo_strip_displaying: "displaying (demo_strip 2) 0x12"
  by (simp add: displaying_def demo_strip_def REV_STATE_OFF_def)

theorem rev_level_sequence_witness:
  "\<exists>mid. snd (rev_level_via_lightsync (demo_strip 0) 1 [] 0x12 9 LEDS_G923) = [] @
      map (\<lambda>f. rev_frame (long_requests_only (demo_strip 0) []) 0x12 f 0) [0, 1, 2, 0, 2] @ mid @
      [rev_frame (long_requests_only (demo_strip 0) []) 0x12 2 0, level_command 0x12 9 LEDS_G923] \<and>
    (mid = [] \<or> mid = [rev_frame (long_requests_only (demo_strip 0) []) 0x12 3 REV_EFFECT_DISPLAY] \<and> \<not> displaying (demo_strip 0) 0x12)"
proof (rule rev_level_sequence [OF demo_strip_records])
  have w: "write_report (demo_strip 0) h rep = (Inr (), h @ [rep])" for h rep by (simp add: demo_strip_def)
  have send: "rev_send (demo_strip 0) h idx f p = (Inr (), h @ [rev_frame True idx f p])" for h idx f p
    by (simp add: rev_send_frame w) (simp add: demo_strip_def)
  show "rev_level_via_lightsync (demo_strip 0) 1 [] 0x12 9 LEDS_G923 =
      (Inr (), snd (rev_level_via_lightsync (demo_strip 0) 1 [] 0x12 9 LEDS_G923))"
    by (simp add: rev_level_via_lightsync_def send w)
qed

theorem rev_display_never_stolen_witness:
  "\<exists>ws. snd (rev_level_via_lightsync (demo_strip 2) 1 [] 0x12 9 LEDS_G923) = [] @ ws \<and> (\<forall>rep\<in>set ws. rep ! 3 \<noteq> rev_fn 3)"
  by (rule rev_display_never_stolen [OF demo_strip_records demo_strip_displaying prod.collapse [symmetric]])

section \<open>Firmware text\<close>

text \<open>The kernel driver prints the same entity with \<open>"%s %02x.%02x.B%02x%02x"\<close>, the two build bytes
  in lower case.\<close>

definition kernel_format :: "FwEntity \<Rightarrow> string" where
  "kernel_format e = fw_prefix e @ '' '' @ hex2 (fw_major e) @ ''.'' @ hex2 (fw_minor e) @ ''.B'' @ hex4 (fw_build e)"

lemma to_upper_hex_char: "d < 16 \<Longrightarrow> to_upper_char (hex_char d) = hex_char d \<longleftrightarrow> d < 10"
proof -
  assume "d < 16"
  then consider "d < 10" | "d = 10" | "d = 11" | "d = 12" | "d = 13" | "d = 14" | "d = 15" by linarith
  then show ?thesis by cases (simp_all add: to_upper_char_def hex_char_def)
qed

text \<open>The firmware text agrees with the kernel's exactly when no digit of the build number is a
  letter.\<close>

theorem firmware_text_matches_kernel:
  "fw_format e = kernel_format e \<longleftrightarrow>
     (let n = unat (fw_build e) in n div 4096 < 10 \<and> n div 256 mod 16 < 10 \<and> n div 16 mod 16 < 10 \<and> n mod 16 < 10)"
proof -
  have "unat (fw_build e) < 65536" by simp
  then have "unat (fw_build e) div 4096 < 16" by (intro less_mult_imp_div_less) simp
  then show ?thesis by (simp add: fw_format_def kernel_format_def to_upper_def hex4_def Let_def to_upper_hex_char)
qed

section \<open>Listing every feature\<close>

lemma from_be_bytes_be_bytes: "from_be_bytes (ucast (drop_bit 8 w)) (ucast (w AND 0xff)) = w"
proof (rule bit_word_eqI)
  fix n assume n: "n < LENGTH(16)"
  have "bit (0xff :: 16 word) n \<longleftrightarrow> n < 8" using bit_mask_iff [where ?'a = "16 word", of 8 n] n by (simp add: mask_eq_exp_minus_1)
  then show "bit (from_be_bytes (ucast (drop_bit 8 w)) (ucast (w AND 0xff))) n = bit w n"
    using n by (auto simp: from_be_bytes_def bit_simps)
qed

text \<open>A wheel that answers as HID++ 2.0 documents: the root feature maps an id to its index, the
  feature set counts the features and names each index. Its state is the reply it owes.\<close>

definition feature_answer :: "u16 list \<Rightarrow> u8 \<Rightarrow> u8 \<Rightarrow> u8 list \<Rightarrow> u8 list" where
  "feature_answer table feat fn ps =
     (if feat = 0 then [case position (\<lambda>i. i = from_be_bytes (ps ! 0) (ps ! 1)) table of None \<Rightarrow> 0 | Some k \<Rightarrow> word_of_nat (Suc k)]
      else if table ! (unat feat - 1) = 1
      then (if fn AND 0xf0 = 0 then [word_of_nat (length table)] else be_bytes (table ! (unat (ps ! 0) - 1)))
      else [])"

definition feature_wheel :: "bool \<Rightarrow> u16 list \<Rightarrow> (u8 list option) hidpp_io" where
  "feature_wheel long table = \<lparr>
     write_report = (\<lambda>h rep. (Inr (), Some ([REPORT_ID_LONG, rep ! 1, rep ! 2, rep ! 3] @ pad 16 (feature_answer table (rep ! 2) (rep ! 3) (drop 4 rep))))),
     read_report = (\<lambda>h. case h of None \<Rightarrow> (Inl (IoError None ''HID++ report timed out''), None) | Some rep \<Rightarrow> (Inr rep, None)),
     long_requests_only = (\<lambda>_. long)\<rparr>"

lemma feature_wheel_request:
  "request (feature_wheel long table) h dev feat fn params =
     (Some (pad 16 (feature_answer table feat (fn OR SW_ID) (pad (if long then 16 else 3) params))), None)"
  by (simp add: request_def feature_wheel_def long_request_def short_report_def)

theorem request_accepts_only_its_reply_witness:
  "\<exists>h1 resp. write_report (feature_wheel True [1]) None (if long_requests_only (feature_wheel True [1]) None then long_request 0xff 0 0 [0, 1] else short_report 0xff 0 0 [0, 1])
      = (Inr (), h1) \<and> read_report (feature_wheel True [1]) h1 = (Inr resp, None) \<and>
      (\<exists>rid. resp = [rid, 0xff, 0, 0 OR SW_ID] @ pad 16 (feature_answer [1] 0 (0 OR SW_ID) (pad (if True then 16 else 3) [0, 1])))"
  by (rule request_accepts_only_its_reply [OF feature_wheel_request])

lemma position_SomeD: "position P xs = Some k \<Longrightarrow> k < length xs \<and> P (xs ! k)"
  by (induction xs arbitrary: k) (auto split: if_splits)

lemma position_exists: "x \<in> set xs \<Longrightarrow> \<exists>k. position (\<lambda>i. i = x) xs = Some k"
  by (induction xs) auto

lemma pad_Cons: "0 < n \<Longrightarrow> pad n (x # xs) = x # pad (n - 1) xs"
  by (cases n) (simp_all add: pad_def)

lemma masked_sw_id: "(0 OR SW_ID) AND 0xf0 = (0 :: u8)" "(0x10 OR SW_ID) AND 0xf0 \<noteq> (0 :: u8)"
  by (simp_all add: SW_ID_def)

lemma enumerate_from_wheel:
  assumes s: "0 < s" "s \<le> length table" "length table < 256" "table ! (s - 1) = 1"
    and "\<forall>i\<in>set is. 1 \<le> i \<and> i \<le> length table"
  shows "fst (enumerate_from (feature_wheel long table) h (word_of_nat s) is) =
    map (\<lambda>i. (word_of_nat i, table ! (i - 1))) (filter (\<lambda>i. table ! (i - 1) \<noteq> 0) is)"
  using assms(5)
proof (induction "is" arbitrary: h)
  case (Cons i "is")
  have un: "unat (word_of_nat k :: u8) = k" if "k \<le> length table" for k
    using s(3) that by (simp add: unat_of_nat)
  have "(word_of_nat s :: u8) \<noteq> 0" using un [OF s(2)] s(1) by (metis unat_0 less_numeral_extra(3))
  then have "request (feature_wheel long table) h DEVICE_INDEX_BASE (word_of_nat s) FN_GET [word_of_nat i] =
      (Some (pad 16 (be_bytes (table ! (i - 1)))), None)"
    using Cons.prems un [OF s(2)] un [of i] s(4) masked_sw_id
    by (simp add: feature_wheel_request feature_answer_def FN_GET_def pad_Cons)
  moreover have "pad 16 (be_bytes (table ! (i - 1))) =
      ucast (drop_bit 8 (table ! (i - 1))) # ucast (table ! (i - 1) AND 0xff) # pad 14 []"
    by (simp add: be_bytes_def pad_Cons)
  ultimately show ?case
    using Cons by (simp add: from_be_bytes_be_bytes case_prod_beta)
qed simp

text \<open>A wheel that answers as documented gets all of its features listed, with the index of each:
  nothing is left out and nothing is added, whichever report size its interface takes.\<close>

theorem enumeration_is_complete:
  assumes "0x0001 \<in> set table" "length table < 256"
  shows "fst (enumerate_features (feature_wheel long table) h) =
    Some (map (\<lambda>i. (word_of_nat i, table ! (i - 1))) (filter (\<lambda>i. table ! (i - 1) \<noteq> 0) [1..<Suc (length table)]))"
proof -
  obtain k where k: "position (\<lambda>i. i = 0x0001) table = Some k" using position_exists [OF assms(1)] by blast
  have kl: "k < length table" "table ! k = 1" using position_SomeD [OF k] by simp_all
  have un: "unat (word_of_nat (Suc k) :: u8) = Suc k" using kl(1) assms(2) by (simp add: unat_of_nat del: of_nat_Suc)
  then have nz: "(word_of_nat (Suc k) :: u8) \<noteq> 0" by (metis unat_0 nat.distinct(1))
  have id: "from_be_bytes (ucast (drop_bit 8 (0x0001 :: u16))) (ucast ((0x0001 :: u16) AND 0xff)) = 0x0001"
    by (rule from_be_bytes_be_bytes)
  have p: "pad n (be_bytes 0x0001) ! 0 = ucast (drop_bit 8 (0x0001 :: u16))" "pad n (be_bytes 0x0001) ! 1 = ucast ((0x0001 :: u16) AND 0xff)"
    if "n = 16 \<or> n = 3" for n using that by (auto simp: be_bytes_def pad_Cons)
  have "feature_answer table ROOT_FEATURE_INDEX f (pad (if long then 16 else 3) (be_bytes 0x0001)) = [word_of_nat (Suc k)]" for f
    using k id p [of "if long then 16 else 3"] by (simp add: feature_answer_def ROOT_FEATURE_INDEX_def)
  then have r: "resolve_feature_index (feature_wheel long table) h 0x0001 = (Some (word_of_nat (Suc k)), None)"
    using nz by (simp add: resolve_feature_index_def feature_wheel_request pad_Cons)
  have c: "request (feature_wheel long table) None DEVICE_INDEX_BASE (word_of_nat (Suc k)) FN_GET_INFO [] =
      (Some (word_of_nat (length table) # pad 15 []), None)"
    using nz un kl(2) masked_sw_id by (simp add: feature_wheel_request feature_answer_def FN_GET_INFO_def pad_Cons del: of_nat_Suc)
  have n: "unat (word_of_nat (length table) :: u8) = length table" using assms(2) by (simp add: unat_of_nat)
  show ?thesis
    using r c n enumerate_from_wheel [of "Suc k" table "[1..<Suc (length table)]" long None] kl assms(2)
    by (simp add: enumerate_features_def case_prod_beta del: upt_Suc of_nat_Suc)
qed

theorem enumeration_is_complete_witness:
  "fst (enumerate_features (feature_wheel True [0x0001, 0x0003, 0x807A]) None) =
    Some (map (\<lambda>i. (word_of_nat i, [0x0001, 0x0003, 0x807A] ! (i - 1)))
      (filter (\<lambda>i. [0x0001, 0x0003, 0x807A :: u16] ! (i - 1) \<noteq> 0) [1..<Suc (length [0x0001, 0x0003, 0x807A :: u16])]))"
  by (rule enumeration_is_complete) simp_all

section \<open>Every interface of a wheel\<close>

lemma dedup_nodes_set: "snd ` set (dedup_nodes xs) = snd ` set xs"
  by (induction xs rule: dedup_nodes.induct) (auto simp: image_iff)

lemma dedup_nodes_hd: "xs \<noteq> [] \<Longrightarrow> dedup_nodes xs \<noteq> [] \<and> snd (hd (dedup_nodes xs)) = snd (hd xs)"
  by (induction xs rule: dedup_nodes.induct) auto

lemma dedup_nodes_sorted:
  "sorted (map snd xs) \<Longrightarrow> sorted_wrt (<) (map snd (dedup_nodes xs))"
proof (induction xs rule: dedup_nodes.induct)
  case (1 a c rest)
  show ?case
  proof (cases "snd c = snd a")
    case True
    then show ?thesis using 1 by simp
  next
    case False
    have "\<forall>x\<in>set (c # rest). snd a < snd x" using "1.prems" False by (auto simp: less_le dest: order_antisym)
    then have "\<forall>y\<in>snd ` set (dedup_nodes (c # rest)). snd a < y" unfolding dedup_nodes_set by blast
    then show ?thesis using 1 False by simp
  qed
qed simp_all

text \<open>The probe's list of interfaces: the nodes strictly increase, so none is listed twice, and they
  are exactly the nodes of the interfaces that have a descriptor.\<close>

theorem wheel_nodes_listed_once:
  assumes "hid_entries fs dir = Some es"
  shows "sorted_wrt (<) (map snd (all_wheel_nodes fs dir)) \<and>
    snd ` set (all_wheel_nodes fs dir) = {n. \<exists>e\<in>set es. he_descriptor e \<noteq> None \<and> hidraw_node e = Some n}"
proof -
  let ?found = "List.map_filter (\<lambda>e. if he_descriptor e = None then None else map_option (\<lambda>n. (he_dir e, n)) (hidraw_node e)) es"
  have all: "all_wheel_nodes fs dir = dedup_nodes (sort_key snd ?found)" using assms by (simp add: all_wheel_nodes_def)
  have "sorted_wrt (<) (map snd (all_wheel_nodes fs dir))" unfolding all by (rule dedup_nodes_sorted) (rule sorted_sort_key)
  moreover have "snd ` set ?found = {n. \<exists>e\<in>set es. he_descriptor e \<noteq> None \<and> hidraw_node e = Some n}"
    by (induction es) (auto simp: map_filter_simps split: option.splits)
  ultimately show ?thesis unfolding all dedup_nodes_set by simp
qed

definition demo_tree :: hidpp_fs where
  "demo_tree = \<lparr>hp_canonicalize = Some, hp_interfaces = (\<lambda>_. Some [Some [\<lparr>he_dir = [''a''], he_descriptor = Some [0x05, 0x01], he_node = Some ''hidraw3''\<rparr>], None])\<rparr>"

theorem wheel_nodes_listed_once_witness:
  "sorted_wrt (<) (map snd (all_wheel_nodes demo_tree [''usb'', ''if'', ''hid''])) \<and>
    snd ` set (all_wheel_nodes demo_tree [''usb'', ''if'', ''hid'']) =
      {n. \<exists>e\<in>set [\<lparr>he_dir = [''a''], he_descriptor = Some [0x05, 0x01], he_node = Some ''hidraw3''\<rparr>]. he_descriptor e \<noteq> None \<and> hidraw_node e = Some n}"
  by (rule wheel_nodes_listed_once) (simp add: hid_entries_def demo_tree_def parent_def)

end
