(* ===== verification/Tfsim.thy ===== *)
theory Tfsim
  imports Profile_Store
begin

text \<open>
  The front ends' side of the simulator configuration: \<open>tfsim.rs\<close> of \<open>logi-wheel-core\<close>. It
  reads the keys the front ends edit, says which lines the daemon would not understand, and
  rewrites one key of the file at a time. A file is the text of the store \<open>Fs\<close> of the theory
  \<open>Profile_Store\<close>; a \<open>BTreeMap\<close> is the list of its entries in key order.
\<close>

section \<open>Strings and ordered maps\<close>

definition strip_prefix :: "string \<Rightarrow> string \<Rightarrow> string option" where
  "strip_prefix p s = (if starts_with s p then Some (drop (length p) s) else None)"

definition rsplit_once :: "char \<Rightarrow> string \<Rightarrow> (string \<times> string) option" where
  "rsplit_once c s = (case split_once c (rev s) of None \<Rightarrow> None | Some (b, a) \<Rightarrow> Some (rev a, rev b))"

definition ascii_lower :: "char \<Rightarrow> char" where
  "ascii_lower c = (let n = (of_char c :: nat) in if 65 \<le> n \<and> n \<le> 90 then char_of (n + 32) else c)"

definition to_ascii_lowercase :: "string \<Rightarrow> string" where
  "to_ascii_lowercase s = map ascii_lower s"

text \<open>\<open>entry(k).or_default()\<close> followed by a change of the entry.\<close>

fun entry_modify :: "'v \<Rightarrow> ('v \<Rightarrow> 'v) \<Rightarrow> 'k::linorder \<Rightarrow> ('k \<times> 'v) list \<Rightarrow> ('k \<times> 'v) list" where
  "entry_modify d f k [] = [(k, f d)]"
| "entry_modify d f k ((j, v) # m) =
     (if k = j then (j, f v) # m else if k < j then (k, f d) # (j, v) # m else (j, v) # entry_modify d f k m)"

section \<open>The configuration\<close>

definition CONF_HEADER :: string where "CONF_HEADER = ''# logi-tf-sim configuration''"
definition CONF_NAME :: string where "CONF_NAME = ''tf-sim.conf''"
definition DEFAULT_INTENSITY :: nat where "DEFAULT_INTENSITY = 30"
definition DEFAULT_GAME_INTENSITY :: nat where "DEFAULT_GAME_INTENSITY = 100"
definition DEFAULT_SCREEN_TEMPLATE :: string where "DEFAULT_SCREEN_TEMPLATE = ''G|{gear}|{speed}''"
definition DEFAULT_PITCH :: nat where "DEFAULT_PITCH = 35"
definition DAEMON_COMM :: string where "DAEMON_COMM = ''logi-tf-sim''"

record GameConfig =
  g_enabled :: bool
  g_intensity :: nat

definition game_default :: GameConfig where
  "game_default = \<lparr>g_enabled = True, g_intensity = DEFAULT_GAME_INTENSITY\<rparr>"

text \<open>A layer of the haptic mix: its key, its label, its default gain and whether a game feeds
  it. The explanatory texts of the table are not part of the model.\<close>

record Effect =
  e_key :: string
  e_label :: string
  e_default_gain :: nat
  e_fed :: bool

definition EFFECTS :: "Effect list" where
  "EFFECTS =
     [\<lparr>e_key = ''engine'', e_label = ''Engine'', e_default_gain = 100, e_fed = True\<rparr>,
      \<lparr>e_key = ''rev_limiter'', e_label = ''Rev limiter'', e_default_gain = 70, e_fed = True\<rparr>,
      \<lparr>e_key = ''pit_limiter'', e_label = ''Pit limiter'', e_default_gain = 50, e_fed = True\<rparr>,
      \<lparr>e_key = ''gear_shift'', e_label = ''Gear shifts'', e_default_gain = 60, e_fed = True\<rparr>,
      \<lparr>e_key = ''abs'', e_label = ''ABS'', e_default_gain = 60, e_fed = True\<rparr>,
      \<lparr>e_key = ''traction_loss'', e_label = ''Traction loss'', e_default_gain = 50, e_fed = True\<rparr>,
      \<lparr>e_key = ''road_bumps'', e_label = ''Road surface'', e_default_gain = 40, e_fed = False\<rparr>,
      \<lparr>e_key = ''airborne'', e_label = ''Airborne'', e_default_gain = 85, e_fed = False\<rparr>,
      \<lparr>e_key = ''collision'', e_label = ''Impacts'', e_default_gain = 80, e_fed = False\<rparr>,
      \<lparr>e_key = ''drs'', e_label = ''DRS'', e_default_gain = 40, e_fed = False\<rparr>]"

definition effect_by_key :: "string \<Rightarrow> Effect option" where
  "effect_by_key key = find (\<lambda>e. e_key e = key) EFFECTS"

text \<open>The first position that satisfies a predicate.\<close>

fun position :: "('a \<Rightarrow> bool) \<Rightarrow> 'a list \<Rightarrow> nat option" where
  "position P [] = None"
| "position P (x # xs) = (if P x then Some 0 else map_option Suc (position P xs))"

definition gains_default :: "nat list" where "gains_default = map e_default_gain EFFECTS"

definition gains_get :: "nat list \<Rightarrow> string \<Rightarrow> nat" where
  "gains_get gains key = (case position (\<lambda>e. e_key e = key) EFFECTS of Some i \<Rightarrow> gains ! i | None \<Rightarrow> 0)"

definition gains_set :: "nat list \<Rightarrow> string \<Rightarrow> nat \<Rightarrow> nat list" where
  "gains_set gains key pct =
     (case position (\<lambda>e. e_key e = key) EFFECTS of Some i \<Rightarrow> gains[i := min pct 100] | None \<Rightarrow> gains)"

datatype WheelChoice = Auto | DirectDrive | G923

definition choice_as_str :: "WheelChoice \<Rightarrow> string" where
  "choice_as_str c = (case c of Auto \<Rightarrow> ''auto'' | DirectDrive \<Rightarrow> ''dd'' | G923 \<Rightarrow> ''g923'')"

definition choice_parse :: "string \<Rightarrow> WheelChoice option" where
  "choice_parse raw =
     (let s = to_ascii_lowercase (trim raw) in
      if s \<in> set [''auto'', ''''] then Some Auto
      else if s \<in> set [''dd'', ''rs50'', ''gpro'', ''g pro'', ''g-pro'', ''direct-drive'', ''directdrive''] then Some DirectDrive
      else if s \<in> set [''g923'', ''923'', ''xbox'', ''g923-xbox''] then Some G923
      else None)"

definition choice_label :: "WheelChoice \<Rightarrow> string" where
  "choice_label c =
     (case c of Auto \<Rightarrow> ''Automatic'' | DirectDrive \<Rightarrow> ''Direct drive (RS50 / G PRO)'' | G923 \<Rightarrow> ''G923'')"

definition CHOICES :: "WheelChoice list" where "CHOICES = [Auto, DirectDrive, G923]"

record Conf =
  c_enabled :: bool
  c_intensity :: nat
  c_pitch_pct :: nat
  c_wheel :: WheelChoice
  c_leds :: bool
  c_screen :: bool
  c_screen_template :: string
  c_effects :: bool
  c_effect_gains :: "nat list"
  c_games :: "(string \<times> GameConfig) list"

definition conf_default :: Conf where
  "conf_default =
     \<lparr>c_enabled = True, c_intensity = DEFAULT_INTENSITY, c_pitch_pct = DEFAULT_PITCH, c_wheel = Auto, c_leds = True,
      c_screen = False, c_screen_template = DEFAULT_SCREEN_TEMPLATE, c_effects = True, c_effect_gains = gains_default,
      c_games = []\<rparr>"

section \<open>Reading\<close>

definition conf_bool :: "string \<Rightarrow> bool option" where
  "conf_bool raw =
     (if raw \<in> set [''1'', ''true'', ''on''] then Some True
      else if raw \<in> set [''0'', ''false'', ''off''] then Some False else None)"

definition parse_percent :: "string \<Rightarrow> nat option" where
  "parse_percent raw = (case parse_unsigned 255 raw of Some v \<Rightarrow> if v \<le> 100 then Some v else None | None \<Rightarrow> None)"

definition parse_pitch :: "string \<Rightarrow> nat option" where
  "parse_pitch raw = (case parse_unsigned 255 raw of Some v \<Rightarrow> if 10 \<le> v \<and> v \<le> 200 then Some v else None | None \<Rightarrow> None)"

definition template_ok :: "string \<Rightarrow> bool" where
  "template_ok t \<longleftrightarrow> t \<noteq> [] \<and> length t \<le> 96"

text \<open>The game and the field of a key \<open>game.<id>.<field>\<close>.\<close>

definition game_key :: "string \<Rightarrow> (string \<times> string) option" where
  "game_key key =
     (case strip_prefix ''game.'' key of
        None \<Rightarrow> None
      | Some rest \<Rightarrow>
          (case rsplit_once (CHR ''.'') rest of
             None \<Rightarrow> None
           | Some (game, field) \<Rightarrow> if game = [] then None else Some (game, field)))"

definition game_line :: "string \<Rightarrow> string \<Rightarrow> (string \<times> GameConfig) list \<Rightarrow> (string \<times> GameConfig) list option" where
  "game_line key raw games =
     (case game_key key of
        None \<Rightarrow> None
      | Some (game, field) \<Rightarrow>
          if field = ''enabled''
          then map_option (\<lambda>v. entry_modify game_default (\<lambda>g. g\<lparr>g_enabled := v\<rparr>) game games) (conf_bool raw)
          else if field = ''intensity''
          then map_option (\<lambda>v. entry_modify game_default (\<lambda>g. g\<lparr>g_intensity := v\<rparr>) game games) (parse_percent raw)
          else None)"

definition set_opt :: "'a option \<Rightarrow> ('a \<Rightarrow> 'c \<Rightarrow> 'c) \<Rightarrow> 'c \<Rightarrow> 'c" where
  "set_opt x f cfg = (case x of Some v \<Rightarrow> f v cfg | None \<Rightarrow> cfg)"

definition conf_apply :: "string \<Rightarrow> string \<Rightarrow> Conf \<Rightarrow> Conf" where
  "conf_apply key raw cfg =
     (if key = ''enabled'' then set_opt (conf_bool raw) (\<lambda>v c. c\<lparr>c_enabled := v\<rparr>) cfg
      else if key = ''intensity'' then set_opt (parse_percent raw) (\<lambda>v c. c\<lparr>c_intensity := v\<rparr>) cfg
      else if key = ''pitch'' then set_opt (parse_pitch raw) (\<lambda>v c. c\<lparr>c_pitch_pct := v\<rparr>) cfg
      else if key = ''wheel'' then set_opt (choice_parse raw) (\<lambda>v c. c\<lparr>c_wheel := v\<rparr>) cfg
      else if key = ''leds'' then set_opt (conf_bool raw) (\<lambda>v c. c\<lparr>c_leds := v\<rparr>) cfg
      else if key = ''screen'' then set_opt (conf_bool raw) (\<lambda>v c. c\<lparr>c_screen := v\<rparr>) cfg
      else if key = ''screen.template''
      then (let t = trim raw in if template_ok t then cfg\<lparr>c_screen_template := t\<rparr> else cfg)
      else if key = ''effects'' then set_opt (conf_bool raw) (\<lambda>v c. c\<lparr>c_effects := v\<rparr>) cfg
      else case strip_prefix ''effect_'' key of
          Some name \<Rightarrow> set_opt (parse_percent raw) (\<lambda>v c. c\<lparr>c_effect_gains := gains_set (c_effect_gains c) name v\<rparr>) cfg
        | None \<Rightarrow> set_opt (game_line key raw (c_games cfg)) (\<lambda>m c. c\<lparr>c_games := m\<rparr>) cfg)"

text \<open>The lines a reader looks at, and the key and value of one.\<close>

definition conf_lines :: "string \<Rightarrow> string list" where
  "conf_lines contents = filter (\<lambda>l. l \<noteq> [] \<and> \<not> starts_with l ''#'') (map trim (lines contents))"

definition key_value :: "string \<Rightarrow> (string \<times> string) option" where
  "key_value line = map_option (\<lambda>(key, raw). (trim key, trim raw)) (split_once (CHR ''='') line)"

definition conf_line :: "string \<Rightarrow> Conf \<Rightarrow> Conf" where
  "conf_line line cfg = (case key_value line of None \<Rightarrow> cfg | Some (key, raw) \<Rightarrow> conf_apply key raw cfg)"

definition conf_load_from :: "string option \<Rightarrow> Conf" where
  "conf_load_from contents =
     (case contents of None \<Rightarrow> conf_default | Some t \<Rightarrow> fold conf_line (conf_lines t) conf_default)"

definition conf_game :: "Conf \<Rightarrow> string \<Rightarrow> GameConfig" where
  "conf_game cfg game = (case map_of (c_games cfg) game of Some g \<Rightarrow> g | None \<Rightarrow> game_default)"

section \<open>What the daemon understands\<close>

definition daemon_recognises :: "string \<Rightarrow> string \<Rightarrow> bool" where
  "daemon_recognises key raw =
     (if key \<in> set [''enabled'', ''screen'', ''leds'', ''effects'', ''follow_game_gain'', ''g923.ffb_invert'',
        ''g923.stream_without_ffb_mirror''] then conf_bool raw \<noteq> None
      else if key = ''intensity'' then parse_percent raw \<noteq> None
      else if key = ''wheel'' then choice_parse raw \<noteq> None
      else if key = ''screen.template'' then trim raw \<noteq> [] \<and> length (trim raw) \<le> 96
      else if key = ''pitch'' then parse_pitch raw \<noteq> None
      else if key = ''cylinders''
      then (case parse_unsigned 255 raw of Some v \<Rightarrow> 1 \<le> v \<and> v \<le> 16 | None \<Rightarrow> False)
      else if key \<in> set [''port.codemasters'', ''port.pcars'', ''port.beamng'', ''port.relay'']
      then parse_unsigned 65535 raw \<noteq> None
      else case strip_prefix ''effect_'' key of
          Some name \<Rightarrow> effect_by_key name \<noteq> None \<and> parse_percent raw \<noteq> None
        | None \<Rightarrow>
            (case game_key key of
               None \<Rightarrow> False
             | Some (game, field) \<Rightarrow>
                 if field = ''enabled'' then conf_bool raw \<noteq> None
                 else if field = ''intensity'' then parse_percent raw \<noteq> None else False))"

definition unread :: "string \<Rightarrow> bool" where
  "unread l \<longleftrightarrow> \<not> (case key_value l of None \<Rightarrow> False | Some (key, raw) \<Rightarrow> daemon_recognises key raw)"

definition unrecognised_lines :: "string option \<Rightarrow> nat \<times> string option" where
  "unrecognised_lines contents =
     (case contents of
        None \<Rightarrow> (0, None)
      | Some t \<Rightarrow>
          (let bad = filter unread (conf_lines t) in
           (length bad, case bad of [] \<Rightarrow> None | l # _ \<Rightarrow> Some l)))"

definition skip_warning :: "nat \<Rightarrow> string option \<Rightarrow> string option" where
  "skip_warning skipped first =
     map_option (\<lambda>l. dec_nat skipped @ '' unrecognised line'' @ (if skipped = 1 then [] else ''s'') @ '' in '' @ CONF_NAME @ '', first: '' @ l) first"

definition conf_warning :: "string option \<Rightarrow> string option" where
  "conf_warning contents = (case unrecognised_lines contents of (skipped, first) \<Rightarrow> skip_warning skipped first)"

section \<open>Editing one key\<close>

definition is_key_line :: "string \<Rightarrow> string \<Rightarrow> bool" where
  "is_key_line key line =
     (case split_once (CHR ''='') line of
        None \<Rightarrow> False
      | Some (k, _) \<Rightarrow> \<not> starts_with (trim_start line) ''#'' \<and> trim k = key)"

fun rewrite_lines :: "string \<Rightarrow> string \<Rightarrow> bool \<Rightarrow> string list \<Rightarrow> string list \<times> bool" where
  "rewrite_lines key val replaced [] = ([], replaced)"
| "rewrite_lines key val replaced (l # ls) =
     (if is_key_line key l
      then (case rewrite_lines key val True ls of (out, r) \<Rightarrow> ((if replaced then [] else [key @ ''='' @ val]) @ out, r))
      else (case rewrite_lines key val replaced ls of (out, r) \<Rightarrow> (l # out, r)))"

definition rewrite_key :: "string option \<Rightarrow> string \<Rightarrow> string \<Rightarrow> string" where
  "rewrite_key contents key val =
     (let t = (case contents of Some t \<Rightarrow> t | None \<Rightarrow> CONF_HEADER @ [newline]);
          (out, replaced) = rewrite_lines key val False (lines t)
      in concat (map (\<lambda>l. l @ [newline]) (out @ (if replaced then [] else [key @ ''='' @ val]))))"

definition write_key_in :: "Fs \<Rightarrow> path \<Rightarrow> string \<Rightarrow> string \<Rightarrow> (Error + unit) \<times> Fs" where
  "write_key_in fs p key val =
     (let out = rewrite_key (fs_lookup fs p) key val in
      case (if p = [] then (Inr (), fs) else create_dir_all fs (butlast p)) of
        (Inl e, fs') \<Rightarrow> (Inl (Io (''create '' @ join ''/'' (butlast p) @ '': '' @ e)), fs')
      | (Inr _, fs') \<Rightarrow>
          (case fs_write fs' p out of
             (Inl e, fs'') \<Rightarrow> (Inl (Io (''write '' @ join ''/'' p @ '': '' @ e)), fs'')
           | (Inr _, fs'') \<Rightarrow> (Inr (), fs'')))"

definition flag :: "bool \<Rightarrow> string" where "flag b = (if b then ''1'' else ''0'')"

definition set_enabled_in :: "Fs \<Rightarrow> path \<Rightarrow> bool \<Rightarrow> (Error + unit) \<times> Fs" where
  "set_enabled_in fs p b = write_key_in fs p ''enabled'' (flag b)"

definition set_intensity_in :: "Fs \<Rightarrow> path \<Rightarrow> nat \<Rightarrow> (Error + unit) \<times> Fs" where
  "set_intensity_in fs p v = write_key_in fs p ''intensity'' (dec_nat (min v 100))"

definition set_pitch_in :: "Fs \<Rightarrow> path \<Rightarrow> nat \<Rightarrow> (Error + unit) \<times> Fs" where
  "set_pitch_in fs p v = write_key_in fs p ''pitch'' (dec_nat (min 200 (max 10 v)))"

definition set_wheel_in :: "Fs \<Rightarrow> path \<Rightarrow> WheelChoice \<Rightarrow> (Error + unit) \<times> Fs" where
  "set_wheel_in fs p c = write_key_in fs p ''wheel'' (choice_as_str c)"

definition set_leds_in :: "Fs \<Rightarrow> path \<Rightarrow> bool \<Rightarrow> (Error + unit) \<times> Fs" where
  "set_leds_in fs p b = write_key_in fs p ''leds'' (flag b)"

definition set_screen_in :: "Fs \<Rightarrow> path \<Rightarrow> bool \<Rightarrow> (Error + unit) \<times> Fs" where
  "set_screen_in fs p b = write_key_in fs p ''screen'' (flag b)"

definition set_screen_template_in :: "Fs \<Rightarrow> path \<Rightarrow> string \<Rightarrow> (Error + unit) \<times> Fs" where
  "set_screen_template_in fs p template =
     (let t = trim template in if t = [] \<or> 96 < length t then (Inl Invalid, fs) else write_key_in fs p ''screen.template'' t)"

definition set_effects_in :: "Fs \<Rightarrow> path \<Rightarrow> bool \<Rightarrow> (Error + unit) \<times> Fs" where
  "set_effects_in fs p b = write_key_in fs p ''effects'' (flag b)"

definition set_effect_gain_in :: "Fs \<Rightarrow> path \<Rightarrow> string \<Rightarrow> nat \<Rightarrow> (Error + unit) \<times> Fs" where
  "set_effect_gain_in fs p key pct =
     (if effect_by_key key = None then (Inr (), fs) else write_key_in fs p (''effect_'' @ key) (dec_nat (min pct 100)))"

definition set_game_enabled_in :: "Fs \<Rightarrow> path \<Rightarrow> string \<Rightarrow> bool \<Rightarrow> (Error + unit) \<times> Fs" where
  "set_game_enabled_in fs p game b = write_key_in fs p (''game.'' @ game @ ''.enabled'') (flag b)"

definition set_game_intensity_in :: "Fs \<Rightarrow> path \<Rightarrow> string \<Rightarrow> nat \<Rightarrow> (Error + unit) \<times> Fs" where
  "set_game_intensity_in fs p game v = write_key_in fs p (''game.'' @ game @ ''.intensity'') (dec_nat (min v 100))"

section \<open>Where the file is\<close>

definition conf_migrate_file :: "Fs \<Rightarrow> path \<Rightarrow> path \<Rightarrow> (string + unit) \<times> Fs" where
  "conf_migrate_file fs old_path new_path =
     (case create_dir_all fs (butlast new_path) of
        (Inl e, fs') \<Rightarrow> (Inl e, fs')
      | (Inr _, fs') \<Rightarrow>
          (case fs_read fs' old_path of
             Inl e \<Rightarrow> (Inl e, fs')
           | Inr data \<Rightarrow> if fs_lookup fs' new_path \<noteq> None then (Inr (), fs') else fs_write fs' new_path data))"

definition conf_resolve_path_in :: "Fs \<Rightarrow> path \<Rightarrow> path \<times> Fs" where
  "conf_resolve_path_in fs cfg_root =
     (let new_path = cfg_root @ [''logi-wheel'', CONF_NAME]; old_path = cfg_root @ [''logi-dd'', CONF_NAME] in
      if fs_lookup fs new_path \<noteq> None then (new_path, fs)
      else if fs_lookup fs old_path \<noteq> None
      then (case conf_migrate_file fs old_path new_path of (Inr _, fs') \<Rightarrow> (new_path, fs') | (Inl _, fs') \<Rightarrow> (old_path, fs'))
      else (new_path, fs))"

definition conf_default_path :: "Fs \<Rightarrow> path option \<Rightarrow> path option \<Rightarrow> path \<times> Fs" where
  "conf_default_path fs xdg home = conf_resolve_path_in fs (config_root xdg home)"

section \<open>Games and processes\<close>

definition DAEMON_GAME_IDS :: "string list" where
  "DAEMON_GAME_IDS =
     [''dirt-rally-2'', ''codemasters'', ''ams2-pcars2'', ''f1'', ''beamng'', ''ea-wrc'', ''ets2'', ''ats'', ''iracing'',
      ''raceroom'', ''assetto'', ''acc'', ''ac-evo'', ''lmu'', ''rf2'', ''relay'']"

text \<open>\<open>to_lowercase\<close> differs from the ASCII one on letters none of these titles has. The mark
  of the last title is the three bytes E2 84 A2.\<close>

definition game_id_for_title :: "string \<Rightarrow> string option" where
  "game_id_for_title title =
     (let t = to_ascii_lowercase (trim title) in
      if t = ''dirt rally 2.0'' then Some ''dirt-rally-2''
      else if t = ''dirt 4'' then Some ''codemasters''
      else if t \<in> set [''automobilista 2'', ''project cars 2''] then Some ''ams2-pcars2''
      else if t = ''beamng.drive'' then Some ''beamng''
      else if t \<in> set [''f1 22'', ''f1 23'', ''f1 24'', ''f1 25''] then Some ''f1''
      else if t \<in> set [''ea sports wrc'', ''ea sports'' @ [CHR 0xE2, CHR 0x84, CHR 0xA2] @ '' wrc''] then Some ''ea-wrc''
      else None)"

text \<open>\<open>find('(')\<close> and \<open>rfind(')')\<close> as positions.\<close>

definition find_char :: "char \<Rightarrow> string \<Rightarrow> nat option" where
  "find_char c s = position (\<lambda>x. x = c) s"

definition rfind_char :: "char \<Rightarrow> string \<Rightarrow> nat option" where
  "rfind_char c s = map_option (\<lambda>i. length s - 1 - i) (position (\<lambda>x. x = c) (rev s))"

definition stat_comm :: "string \<Rightarrow> string option" where
  "stat_comm stat =
     (case (find_char (CHR ''('') stat, rfind_char (CHR '')'') stat) of
        (Some op, Some cl) \<Rightarrow> if cl \<le> op then None else Some (take (cl - Suc op) (drop (Suc op) stat))
      | _ \<Rightarrow> None)"

definition stat_state :: "string \<Rightarrow> char option" where
  "stat_state stat =
     (case rfind_char (CHR '')'') stat of
        None \<Rightarrow> None
      | Some i \<Rightarrow> (case trim_start (drop (Suc i) stat) of [] \<Rightarrow> None | c # _ \<Rightarrow> Some c))"

definition comm_pid :: "string \<Rightarrow> string \<times> string option \<Rightarrow> int option" where
  "comm_pid comm e =
     (case parse_signed (- 2147483648) 2147483647 (fst e) of
        None \<Rightarrow> None
      | Some pid \<Rightarrow>
          (case snd e of
             None \<Rightarrow> None
           | Some stat \<Rightarrow>
               if stat_state stat \<in> {Some (CHR ''Z''), Some (CHR ''X'')} then None
               else case stat_comm stat of None \<Rightarrow> None | Some c \<Rightarrow> if c = comm then Some pid else None))"

definition pids_by_comm_in :: "(string \<times> string option) list option \<Rightarrow> string \<Rightarrow> int list" where
  "pids_by_comm_in entries comm =
     (case entries of None \<Rightarrow> [] | Some es \<Rightarrow> sort (List.map_filter (comm_pid comm) es))"

definition daemon_pid :: "(string \<times> string option) list option \<Rightarrow> int option" where
  "daemon_pid entries = (case pids_by_comm_in entries DAEMON_COMM of [] \<Rightarrow> None | p # _ \<Rightarrow> Some p)"

end
