(* ===== verification/F32.thy ===== *)
theory F32
  imports Prelude Complex_Main
begin

text \<open>
  The \<open>f32\<close> of Rust as its bit pattern: comparison, clamping, the tests for NaN and infinity,
  multiplication and division rounded to the nearest value (ties to even), rounding to an
  integer and the saturating cast. A value without its sign is a natural number of units of
  \<open>2 ^ -149\<close>, so the bit patterns of one sign are ordered as the values they stand for; rounding
  searches that order. The sign of a zero that \<open>max\<close> or \<open>clamp\<close> may choose freely is the one of
  the receiver.
\<close>

type_synonym f32 = "32 word"

section \<open>Patterns and order\<close>

definition f_neg :: "f32 \<Rightarrow> bool" where "f_neg x \<longleftrightarrow> 2147483648 \<le> unat x"

definition f_mag :: "f32 \<Rightarrow> nat" where "f_mag x = unat x mod 2147483648"

definition F_INF :: nat where "F_INF = 2139095040"

definition f_is_nan :: "f32 \<Rightarrow> bool" where "f_is_nan x \<longleftrightarrow> F_INF < f_mag x"
definition f_is_finite :: "f32 \<Rightarrow> bool" where "f_is_finite x \<longleftrightarrow> f_mag x < F_INF"
definition f_is_inf :: "f32 \<Rightarrow> bool" where "f_is_inf x \<longleftrightarrow> f_mag x = F_INF"
definition f_is_zero :: "f32 \<Rightarrow> bool" where "f_is_zero x \<longleftrightarrow> f_mag x = 0"

definition f_key :: "f32 \<Rightarrow> int" where
  "f_key x = (if f_neg x then - int (f_mag x) else int (f_mag x))"

definition f_lt :: "f32 \<Rightarrow> f32 \<Rightarrow> bool" where
  "f_lt x y \<longleftrightarrow> \<not> f_is_nan x \<and> \<not> f_is_nan y \<and> f_key x < f_key y"

definition f_le :: "f32 \<Rightarrow> f32 \<Rightarrow> bool" where
  "f_le x y \<longleftrightarrow> \<not> f_is_nan x \<and> \<not> f_is_nan y \<and> f_key x \<le> f_key y"

definition f_max :: "f32 \<Rightarrow> f32 \<Rightarrow> f32" where
  "f_max x y = (if f_is_nan x then y else if f_lt x y then y else x)"

definition f_clamp :: "f32 \<Rightarrow> f32 \<Rightarrow> f32 \<Rightarrow> f32" where
  "f_clamp lo hi x = (if f_lt x lo then lo else if f_lt hi x then hi else x)"

definition f_make :: "bool \<Rightarrow> nat \<Rightarrow> f32" where
  "f_make s m = word_of_nat (m + (if s then 2147483648 else 0))"

abbreviation f_zero :: f32 where "f_zero \<equiv> 0"
abbreviation f_one :: f32 where "f_one \<equiv> 0x3f800000"
abbreviation f_minus_one :: f32 where "f_minus_one \<equiv> 0xbf800000"
abbreviation f_quiet_nan :: f32 where "f_quiet_nan \<equiv> 0x7fc00000"

lemma unat_u32_less: "unat (x :: 32 word) < 4294967296"
  using unsigned_less [where w = x, where ?'a = nat] by simp

lemma f_mag_less: "f_mag x < 2147483648"
  by (simp add: f_mag_def)

lemma f_make_split: "unat x = f_mag x + (if f_neg x then 2147483648 else 0)"
  using unat_u32_less [of x] by (auto simp: f_mag_def f_neg_def le_mod_geq)

lemma unat_f_make:
  assumes "m < 2147483648"
  shows "unat (f_make s m) = m + (if s then 2147483648 else 0)"
proof -
  have "m + (if s then 2147483648 else 0) < 2 ^ LENGTH(32)" using assms by simp
  then show ?thesis unfolding f_make_def by (simp only: unsigned_of_nat take_bit_nat_eq_self of_nat_eq_id id_apply)
qed

lemma f_make_parts [simp]: "f_make (f_neg x) (f_mag x) = x"
  by (simp add: word_unat_eq_iff unat_f_make f_mag_less f_make_split [of x])

lemma f_make_sel [simp]:
  assumes "m < 2147483648"
  shows "f_mag (f_make s m) = m" "f_neg (f_make s m) = s"
  using assms by (auto simp: f_mag_def f_neg_def unat_f_make)

lemma f_consts [simp]:
  "f_key 0 = 0" "f_key 0x3f800000 = 1065353216" "f_key 0xbf800000 = -1065353216"
  "\<not> f_is_nan 0" "\<not> f_is_nan 0x3f800000" "\<not> f_is_nan 0xbf800000"
  "f_is_finite 0" "f_is_finite 0x3f800000" "f_is_finite 0xbf800000" "f_is_nan 0x7fc00000"
  by (simp_all add: f_key_def f_neg_def f_mag_def f_is_nan_def f_is_finite_def F_INF_def)

lemma finite_not_nan [simp]: "f_is_finite x \<Longrightarrow> \<not> f_is_nan x"
  by (simp add: f_is_finite_def f_is_nan_def)

lemma f_clamp_bounds:
  assumes "\<not> f_is_nan x" "f_le lo hi"
  shows "f_le lo (f_clamp lo hi x) \<and> f_le (f_clamp lo hi x) hi"
  using assms by (auto simp: f_clamp_def f_lt_def f_le_def)

lemma f_clamp_id: "f_le lo x \<Longrightarrow> f_le x hi \<Longrightarrow> f_clamp lo hi x = x"
  by (auto simp: f_clamp_def f_lt_def f_le_def)

lemma f_clamp_clamp: "\<not> f_is_nan x \<Longrightarrow> f_le lo hi \<Longrightarrow> f_clamp lo hi (f_clamp lo hi x) = f_clamp lo hi x"
  by (rule f_clamp_id) (use f_clamp_bounds in blast)+

section \<open>Values and rounding\<close>

definition units :: "nat \<Rightarrow> nat" where
  "units k = (let e = k div 8388608; f = k mod 8388608 in if e = 0 then f else (8388608 + f) * 2 ^ (e - 1))"

definition f_val :: "f32 \<Rightarrow> rat" where
  "f_val x = (if f_neg x then - of_nat (units (f_mag x)) else of_nat (units (f_mag x))) / 2 ^ 149"

text \<open>The largest pattern not above \<open>q\<close> units, by bisection over the bits.\<close>

fun bisect :: "nat \<Rightarrow> nat \<Rightarrow> rat \<Rightarrow> nat" where
  "bisect 0 k q = k"
| "bisect (Suc i) k q =
     (if k + 2 ^ i \<le> F_INF \<and> of_nat (units (k + 2 ^ i)) \<le> q then bisect i (k + 2 ^ i) q else bisect i k q)"

definition floor_mag :: "rat \<Rightarrow> nat" where "floor_mag q = bisect 31 0 q"

definition round_mag :: "rat \<Rightarrow> nat" where
  "round_mag q =
     (let k = floor_mag q; mid = of_nat (units k + units (Suc k)) / 2 in
      if F_INF \<le> k then F_INF
      else if q < mid then k else if mid < q then Suc k else if even k then k else Suc k)"

definition f_of_rat :: "bool \<Rightarrow> rat \<Rightarrow> f32" where
  "f_of_rat s q = f_make s (round_mag (\<bar>q\<bar> * 2 ^ 149))"

definition f_mul :: "f32 \<Rightarrow> f32 \<Rightarrow> f32" where
  "f_mul x y =
     (if f_is_nan x \<or> f_is_nan y \<or> f_is_zero x \<and> f_is_inf y \<or> f_is_inf x \<and> f_is_zero y then f_quiet_nan
      else if f_is_inf x \<or> f_is_inf y then f_make (f_neg x \<noteq> f_neg y) F_INF
      else f_of_rat (f_neg x \<noteq> f_neg y) (f_val x * f_val y))"

definition f_div :: "f32 \<Rightarrow> f32 \<Rightarrow> f32" where
  "f_div x y =
     (if f_is_nan x \<or> f_is_nan y \<or> f_is_zero x \<and> f_is_zero y \<or> f_is_inf x \<and> f_is_inf y then f_quiet_nan
      else if f_is_inf x \<or> f_is_zero y then f_make (f_neg x \<noteq> f_neg y) F_INF
      else if f_is_inf y then f_make (f_neg x \<noteq> f_neg y) 0
      else f_of_rat (f_neg x \<noteq> f_neg y) (f_val x / f_val y))"

text \<open>\<open>f32::from\<close> of a small unsigned integer, \<open>f32::round\<close> (halves away from zero) and
  \<open>as u8\<close>.\<close>

definition f_of_nat :: "nat \<Rightarrow> f32" where "f_of_nat n = f_of_rat False (of_nat n)"

definition f_round :: "f32 \<Rightarrow> f32" where
  "f_round x = (if f_is_finite x then f_of_rat (f_neg x) (of_int \<lfloor>\<bar>f_val x\<bar> + 1 / 2\<rfloor>) else x)"

definition f_to_u8 :: "f32 \<Rightarrow> nat" where
  "f_to_u8 x = (if f_is_nan x \<or> f_neg x then 0 else if f_is_inf x then 255 else min 255 (nat \<lfloor>f_val x\<rfloor>))"

lemma units_Suc: "units k < units (Suc k)"
proof -
  define e f where "e = k div 8388608" and "f = k mod 8388608"
  have k: "k = 8388608 * e + f" and f: "f < 8388608" by (simp_all add: e_def f_def)
  show ?thesis
  proof (cases "f = 8388607")
    case True
    then have s: "Suc k div 8388608 = Suc e" "Suc k mod 8388608 = 0" using k by simp_all
    show ?thesis
    proof (cases e)
      case 0
      then show ?thesis using s True k by (simp add: units_def)
    next
      case (Suc d)
      then show ?thesis using s True unfolding units_def Let_def e_def [symmetric] f_def [symmetric]
        by (simp add: algebra_simps)
    qed
  next
    case False
    then have "f + 1 < 8388608" using f by simp
    then have s: "Suc k div 8388608 = e" "Suc k mod 8388608 = Suc f" using k by simp_all
    show ?thesis using s unfolding units_def Let_def e_def [symmetric] f_def [symmetric] by simp
  qed
qed

lemma units_less_iff [simp]: "units j < units k \<longleftrightarrow> j < k"
  using units_Suc by (simp add: strict_mono_less strict_mono_Suc_iff)

lemma units_le_iff [simp]: "units j \<le> units k \<longleftrightarrow> j \<le> k"
  by (meson units_less_iff not_less)

lemma units_0 [simp]: "units 0 = 0"
  by (simp add: units_def)

lemma bisect_spec:
  assumes "of_nat (units k) \<le> q" "k \<le> F_INF" "F_INF < k + 2 ^ i \<or> q < of_nat (units (k + 2 ^ i))"
  shows "bisect i k q \<le> F_INF \<and> of_nat (units (bisect i k q)) \<le> q \<and>
    (bisect i k q = F_INF \<or> q < of_nat (units (Suc (bisect i k q))))"
  using assms
proof (induction i arbitrary: k)
  case 0
  then show ?case by auto
next
  case (Suc i)
  show ?case
  proof (cases "k + 2 ^ i \<le> F_INF \<and> of_nat (units (k + 2 ^ i)) \<le> q")
    case True
    then show ?thesis using Suc.IH [of "k + 2 ^ i"] Suc.prems by (simp add: add.assoc mult_2)
  next
    case False
    then show ?thesis using Suc.IH [of k] Suc.prems by auto
  qed
qed

lemma floor_mag_spec:
  assumes "0 \<le> q"
  shows "floor_mag q \<le> F_INF" "of_nat (units (floor_mag q)) \<le> q"
    "floor_mag q = F_INF \<or> q < of_nat (units (Suc (floor_mag q)))"
  using bisect_spec [of 0 q 31] assms by (simp_all add: floor_mag_def F_INF_def)

lemma floor_mag_mono:
  assumes "0 \<le> p" "p \<le> q"
  shows "floor_mag p \<le> floor_mag q"
proof (rule ccontr)
  assume "\<not> floor_mag p \<le> floor_mag q"
  then have "Suc (floor_mag q) \<le> floor_mag p" by simp
  then have "units (Suc (floor_mag q)) \<le> units (floor_mag p)" by simp
  then have "(of_nat (units (Suc (floor_mag q))) :: rat) \<le> of_nat (units (floor_mag p))" by (rule of_nat_mono)
  moreover have "of_nat (units (floor_mag p)) \<le> p" "floor_mag p \<le> F_INF" using floor_mag_spec [of p] assms by auto
  moreover have "floor_mag q = F_INF \<or> q < of_nat (units (Suc (floor_mag q)))" using floor_mag_spec [of q] assms by auto
  ultimately show False using assms(2) \<open>Suc (floor_mag q) \<le> floor_mag p\<close> by linarith
qed

lemma floor_mag_units [simp]:
  assumes "k \<le> F_INF"
  shows "floor_mag (of_nat (units k)) = k"
proof -
  note s = floor_mag_spec [of "of_nat (units k)"]
  have "floor_mag (of_nat (units k)) \<le> k" using s(2) by simp
  moreover have "k \<le> floor_mag (of_nat (units k))"
    using s(3) assms by (auto simp: of_nat_less_iff less_Suc_eq_le simp del: of_nat_Suc)
  ultimately show ?thesis by simp
qed

lemma round_mag_between: "0 \<le> q \<Longrightarrow> floor_mag q \<le> round_mag q \<and> round_mag q \<le> Suc (floor_mag q) \<and> round_mag q \<le> F_INF"
  using floor_mag_spec [of q] by (auto simp: round_mag_def Let_def)

lemma round_mag_units [simp]: "k \<le> F_INF \<Longrightarrow> round_mag (of_nat (units k)) = k"
proof -
  assume k: "k \<le> F_INF"
  have "(of_nat (units k) :: rat) < of_nat (units (Suc k))" using units_Suc [of k] by (simp only: of_nat_less_iff)
  then have "(of_nat (units k) :: rat) < of_nat (units k + units (Suc k)) / 2" by simp
  then show ?thesis using k by (simp add: round_mag_def Let_def)
qed

lemma round_mag_mono:
  assumes "0 \<le> p" "p \<le> q"
  shows "round_mag p \<le> round_mag q"
proof (cases "floor_mag p = floor_mag q")
  case True
  then show ?thesis using assms by (auto simp: round_mag_def Let_def)
next
  case False
  then have "floor_mag p < floor_mag q" using floor_mag_mono [OF assms] by simp
  then show ?thesis using round_mag_between [of p] round_mag_between [of q] assms by linarith
qed

text \<open>The rounded value is a nearest one: no pattern up to infinity is closer.\<close>

lemma nearest_of_two:
  fixes a b q v :: rat
  assumes "a \<le> q" "q < b" "v \<le> a \<or> b \<le> v" "r = (if q < (a + b) / 2 \<or> q = (a + b) / 2 \<and> e then a else b)"
  shows "\<bar>r - q\<bar> \<le> \<bar>v - q\<bar>"
proof -
  have "r = a \<and> q - a \<le> b - q \<or> r = b \<and> b - q \<le> q - a"
    using assms by (auto split: if_splits)
  then show ?thesis using assms(1-3) by (auto simp: abs_if)
qed

lemma round_mag_nearest:
  assumes "0 \<le> q" "q < of_nat (units F_INF)" "k \<le> F_INF"
  shows "\<bar>of_nat (units (round_mag q)) - q\<bar> \<le> \<bar>of_nat (units k) - q\<bar>"
proof (rule nearest_of_two)
  define n where "n = floor_mag q"
  have n: "n < F_INF" "of_nat (units n) \<le> q" "q < of_nat (units (Suc n))"
    using floor_mag_spec [OF assms(1)] assms(2) unfolding n_def by (auto simp: le_less)
  show "of_nat (units n) \<le> q" "q < of_nat (units (Suc n))" by (fact n)+
  show "(of_nat (units k) :: rat) \<le> of_nat (units n) \<or> of_nat (units (Suc n)) \<le> (of_nat (units k) :: rat)"
    by (simp only: of_nat_le_iff units_le_iff) linarith
  show "of_nat (units (round_mag q)) = (if q < (of_nat (units n) + of_nat (units (Suc n))) / 2 \<or>
      q = (of_nat (units n) + of_nat (units (Suc n))) / 2 \<and> even n then of_nat (units n) else of_nat (units (Suc n)) :: rat)"
    using n(1) by (simp add: round_mag_def n_def [symmetric] Let_def)
qed

section \<open>Bounds of results\<close>

lemma f_val_abs: "\<bar>f_val x\<bar> = of_nat (units (f_mag x)) / 2 ^ 149"
  by (simp add: f_val_def)

lemma f_val_nonneg: "\<not> f_neg x \<Longrightarrow> 0 \<le> f_val x"
  by (simp add: f_val_def)

lemma round_mag_le:
  assumes "0 \<le> q" "q \<le> of_nat (units k)" "k \<le> F_INF"
  shows "round_mag q \<le> k"
  using round_mag_mono [OF assms(1,2)] assms(3) by simp

lemma f_of_rat_mag: "f_mag (f_of_rat s q) = round_mag (\<bar>q\<bar> * 2 ^ 149)" "f_neg (f_of_rat s q) = s"
proof -
  have "round_mag (\<bar>q\<bar> * 2 ^ 149) \<le> F_INF" using round_mag_between [of "\<bar>q\<bar> * 2 ^ 149"] by simp
  then have "round_mag (\<bar>q\<bar> * 2 ^ 149) < 2147483648" by (simp add: F_INF_def)
  then show "f_mag (f_of_rat s q) = round_mag (\<bar>q\<bar> * 2 ^ 149)" "f_neg (f_of_rat s q) = s"
    by (simp_all add: f_of_rat_def)
qed

lemma f_of_rat_le:
  assumes "\<bar>q\<bar> \<le> of_nat (units k) / 2 ^ 149" "k \<le> F_INF"
  shows "f_mag (f_of_rat s q) \<le> k"
  unfolding f_of_rat_mag using assms by (intro round_mag_le) (simp_all add: pos_le_divide_eq)

lemma f_of_rat_not_nan [simp]: "\<not> f_is_nan (f_of_rat s q)"
  using round_mag_between [of "\<bar>q\<bar> * 2 ^ 149"] by (simp add: f_is_nan_def f_of_rat_mag)

lemma units_of_ints: "units 0x3f800000 = 2 ^ 149" "units 0x47800000 = 2 ^ 165" "units 0x437f0000 = 255 * 2 ^ 149"
  by (simp_all add: units_def Let_def)

lemma f_of_nat_le_u8: "n \<le> 255 \<Longrightarrow> f_mag (f_of_nat n) \<le> 0x437f0000"
  unfolding f_of_nat_def by (rule f_of_rat_le) (simp_all add: units_of_ints F_INF_def)

lemma f_of_nat_le_u16: "n \<le> 65536 \<Longrightarrow> f_mag (f_of_nat n) \<le> 0x47800000"
  unfolding f_of_nat_def by (rule f_of_rat_le) (simp_all add: units_of_ints F_INF_def)

lemma f_of_nat_not_neg [simp]: "\<not> f_neg (f_of_nat n)" "\<not> f_is_nan (f_of_nat n)"
  by (simp_all add: f_of_nat_def f_of_rat_mag)

lemma f_key_of_nat: "f_key (f_of_nat n) = int (f_mag (f_of_nat n))"
  by (simp add: f_key_def)

lemma f_val_le_units: "f_mag x \<le> k \<Longrightarrow> \<bar>f_val x\<bar> \<le> of_nat (units k) / 2 ^ 149"
  by (simp add: f_val_abs divide_right_mono)

end
