(* ===== verification/Sim_Config.thy ===== *)
theory Sim_Config
  imports Tfsim F32
begin

text \<open>
  The daemon's configuration: \<open>config.rs\<close> of \<open>logi-tf-sim\<close>, with the effect keys and gains of
  \<open>effects.rs\<close>. The front ends read the same file through the theory \<open>Tfsim\<close>; the properties
  here say that the two readers agree.
\<close>

section \<open>Effects\<close>

datatype EffectId = Engine | RevLimiter | PitLimiter | GearShift | Abs | TractionLoss | RoadBumps | Airborne | Collision | Drs

definition ALL_EFFECTS :: "EffectId list" where
  "ALL_EFFECTS = [Engine, RevLimiter, PitLimiter, GearShift, Abs, TractionLoss, RoadBumps, Airborne, Collision, Drs]"

definition effect_index :: "EffectId \<Rightarrow> nat" where
  "effect_index e =
     (case e of Engine \<Rightarrow> 0 | RevLimiter \<Rightarrow> 1 | PitLimiter \<Rightarrow> 2 | GearShift \<Rightarrow> 3 | Abs \<Rightarrow> 4 | TractionLoss \<Rightarrow> 5
      | RoadBumps \<Rightarrow> 6 | Airborne \<Rightarrow> 7 | Collision \<Rightarrow> 8 | Drs \<Rightarrow> 9)"

definition effect_key :: "EffectId \<Rightarrow> string" where
  "effect_key e =
     (case e of Engine \<Rightarrow> ''engine'' | RevLimiter \<Rightarrow> ''rev_limiter'' | PitLimiter \<Rightarrow> ''pit_limiter'' | GearShift \<Rightarrow> ''gear_shift''
      | Abs \<Rightarrow> ''abs'' | TractionLoss \<Rightarrow> ''traction_loss'' | RoadBumps \<Rightarrow> ''road_bumps'' | Airborne \<Rightarrow> ''airborne''
      | Collision \<Rightarrow> ''collision'' | Drs \<Rightarrow> ''drs'')"

definition effect_from_key :: "string \<Rightarrow> EffectId option" where
  "effect_from_key key = find (\<lambda>e. effect_key e = key) ALL_EFFECTS"

definition default_gain :: "EffectId \<Rightarrow> nat" where
  "default_gain e =
     (case e of Engine \<Rightarrow> 100 | Collision \<Rightarrow> 80 | Airborne \<Rightarrow> 85 | RevLimiter \<Rightarrow> 70 | GearShift \<Rightarrow> 60 | Abs \<Rightarrow> 60
      | PitLimiter \<Rightarrow> 50 | TractionLoss \<Rightarrow> 50 | RoadBumps \<Rightarrow> 40 | Drs \<Rightarrow> 40)"

definition EffectGains_default :: "nat list" where
  "EffectGains_default = fold (\<lambda>e g. g[effect_index e := default_gain e]) ALL_EFFECTS (replicate 10 0)"

definition EffectGains_get :: "nat list \<Rightarrow> EffectId \<Rightarrow> nat" where
  "EffectGains_get gains e = gains ! effect_index e"

definition EffectGains_set :: "nat list \<Rightarrow> EffectId \<Rightarrow> nat \<Rightarrow> nat list" where
  "EffectGains_set gains e pct = gains[effect_index e := min pct 100]"

section \<open>The configuration\<close>

record Config =
  enabled :: bool
  intensity :: nat
  wheel :: WheelChoice
  pitch_pct :: nat
  cylinders :: nat
  leds :: bool
  effects :: bool
  effect_gains :: "nat list"
  codemasters_port :: nat
  pcars_port :: nat
  beamng_port :: nat
  relay_port :: nat
  follow_game_gain :: bool
  screen :: bool
  screen_template :: string
  g923_stream_without_ffb_mirror :: bool
  g923_ffb_invert :: bool
  games :: "(string \<times> GameConfig) list"

definition config_default :: Config where
  "config_default =
     \<lparr>enabled = True, intensity = 30, wheel = Auto, pitch_pct = 35, cylinders = 4, leds = True, effects = True,
      effect_gains = EffectGains_default, codemasters_port = 20777, pcars_port = 5606, beamng_port = 4444, relay_port = 20780,
      follow_game_gain = True, screen = False, screen_template = ''G|{gear}|{speed}'', g923_stream_without_ffb_mirror = False,
      g923_ffb_invert = True, games = []\<rparr>"

definition parse_cylinders :: "string \<Rightarrow> nat option" where
  "parse_cylinders raw = (case parse_unsigned 255 raw of Some v \<Rightarrow> if 1 \<le> v \<and> v \<le> 16 then Some v else None | None \<Rightarrow> None)"

definition parse_port :: "string \<Rightarrow> nat option" where "parse_port raw = parse_unsigned 65535 raw"

definition parse_template :: "string \<Rightarrow> string option" where
  "parse_template raw = (let t = trim raw in if t = [] \<or> 96 < length t then None else Some t)"

text \<open>One line: \<open>None\<close> when it is not consumed, which leaves the configuration alone.\<close>

definition config_apply :: "Config \<Rightarrow> string \<Rightarrow> string \<Rightarrow> Config option" where
  "config_apply cfg key raw =
     (if key = ''enabled'' then map_option (\<lambda>v. cfg\<lparr>enabled := v\<rparr>) (conf_bool raw)
      else if key = ''intensity'' then map_option (\<lambda>v. cfg\<lparr>intensity := v\<rparr>) (parse_percent raw)
      else if key = ''wheel'' then map_option (\<lambda>v. cfg\<lparr>wheel := v\<rparr>) (choice_parse raw)
      else if key = ''pitch'' then map_option (\<lambda>v. cfg\<lparr>pitch_pct := v\<rparr>) (parse_pitch raw)
      else if key = ''cylinders'' then map_option (\<lambda>v. cfg\<lparr>cylinders := v\<rparr>) (parse_cylinders raw)
      else if key = ''leds'' then map_option (\<lambda>v. cfg\<lparr>leds := v\<rparr>) (conf_bool raw)
      else if key = ''port.codemasters'' then map_option (\<lambda>v. cfg\<lparr>codemasters_port := v\<rparr>) (parse_port raw)
      else if key = ''port.pcars'' then map_option (\<lambda>v. cfg\<lparr>pcars_port := v\<rparr>) (parse_port raw)
      else if key = ''port.beamng'' then map_option (\<lambda>v. cfg\<lparr>beamng_port := v\<rparr>) (parse_port raw)
      else if key = ''port.relay'' then map_option (\<lambda>v. cfg\<lparr>relay_port := v\<rparr>) (parse_port raw)
      else if key = ''effects'' then map_option (\<lambda>v. cfg\<lparr>effects := v\<rparr>) (conf_bool raw)
      else if key = ''screen'' then map_option (\<lambda>v. cfg\<lparr>screen := v\<rparr>) (conf_bool raw)
      else if key = ''screen.template'' then map_option (\<lambda>v. cfg\<lparr>screen_template := v\<rparr>) (parse_template raw)
      else if key = ''follow_game_gain'' then map_option (\<lambda>v. cfg\<lparr>follow_game_gain := v\<rparr>) (conf_bool raw)
      else if key = ''g923.stream_without_ffb_mirror''
      then map_option (\<lambda>v. cfg\<lparr>g923_stream_without_ffb_mirror := v\<rparr>) (conf_bool raw)
      else if key = ''g923.ffb_invert'' then map_option (\<lambda>v. cfg\<lparr>g923_ffb_invert := v\<rparr>) (conf_bool raw)
      else case strip_prefix ''effect_'' key of
          Some name \<Rightarrow>
            (case (effect_from_key name, parse_percent raw) of
               (Some e, Some v) \<Rightarrow> Some (cfg\<lparr>effect_gains := EffectGains_set (effect_gains cfg) e v\<rparr>)
             | _ \<Rightarrow> None)
        | None \<Rightarrow> map_option (\<lambda>m. cfg\<lparr>games := m\<rparr>) (game_line key raw (games cfg)))"

record LoadReport =
  skipped :: nat
  first_skipped :: "string option"

definition load_line :: "string \<Rightarrow> Config \<times> LoadReport \<Rightarrow> Config \<times> LoadReport" where
  "load_line line st =
     (case (case key_value line of None \<Rightarrow> None | Some (key, raw) \<Rightarrow> config_apply (fst st) key raw) of
        Some cfg \<Rightarrow> (cfg, snd st)
      | None \<Rightarrow> (fst st, \<lparr>skipped = Suc (skipped (snd st)),
            first_skipped = (case first_skipped (snd st) of None \<Rightarrow> Some line | Some l \<Rightarrow> Some l)\<rparr>))"

definition load_from_with_report :: "string option \<Rightarrow> Config \<times> LoadReport" where
  "load_from_with_report contents =
     (case contents of
        None \<Rightarrow> (config_default, \<lparr>skipped = 0, first_skipped = None\<rparr>)
      | Some t \<Rightarrow> fold load_line (conf_lines t) (config_default, \<lparr>skipped = 0, first_skipped = None\<rparr>))"

definition load_warning :: "LoadReport \<Rightarrow> string option" where
  "load_warning r =
     (case first_skipped r of
        None \<Rightarrow> None
      | Some l \<Rightarrow> Some (dec_nat (skipped r) @ '' unrecognised line'' @ (if skipped r = 1 then [] else ''s'') @ '' in '' @ CONF_NAME @ '', first: '' @ l))"

definition conf_entry :: "string \<Rightarrow> string \<Rightarrow> string" where "conf_entry key val = key @ ''='' @ val"

definition config_entries :: "Config \<Rightarrow> (string \<times> string) list" where
  "config_entries cfg =
     [(''enabled'', flag (enabled cfg)), (''intensity'', dec_nat (intensity cfg)), (''pitch'', dec_nat (pitch_pct cfg)),
      (''cylinders'', dec_nat (cylinders cfg)), (''leds'', flag (leds cfg)), (''screen'', flag (screen cfg)),
      (''screen.template'', screen_template cfg), (''port.codemasters'', dec_nat (codemasters_port cfg)),
      (''port.pcars'', dec_nat (pcars_port cfg)), (''port.beamng'', dec_nat (beamng_port cfg)),
      (''port.relay'', dec_nat (relay_port cfg)), (''effects'', flag (effects cfg))] @
     map (\<lambda>e. (''effect_'' @ effect_key e, dec_nat (EffectGains_get (effect_gains cfg) e))) ALL_EFFECTS @
     [(''follow_game_gain'', flag (follow_game_gain cfg)),
      (''g923.stream_without_ffb_mirror'', flag (g923_stream_without_ffb_mirror cfg)),
      (''g923.ffb_invert'', flag (g923_ffb_invert cfg))] @
     concat (map (\<lambda>(game, g). [(''game.'' @ game @ ''.enabled'', flag (g_enabled g)),
        (''game.'' @ game @ ''.intensity'', dec_nat (g_intensity g))]) (games cfg))"

definition config_lines :: "Config \<Rightarrow> string list" where
  "config_lines cfg = CONF_HEADER # map (\<lambda>(key, val). conf_entry key val) (config_entries cfg)"

definition config_text :: "Config \<Rightarrow> string" where
  "config_text cfg = concat (map (\<lambda>l. l @ [newline]) (config_lines cfg))"

definition save_to :: "Config \<Rightarrow> Fs \<Rightarrow> path \<Rightarrow> (string + unit) \<times> Fs" where
  "save_to cfg fs p =
     (case (if p = [] then (Inr (), fs) else create_dir_all fs (butlast p)) of
        (Inl e, fs') \<Rightarrow> (Inl (''create '' @ join ''/'' (butlast p) @ '': '' @ e), fs')
      | (Inr _, fs') \<Rightarrow>
          (case fs_write fs' p (config_text cfg) of
             (Inl e, fs'') \<Rightarrow> (Inl (''write '' @ join ''/'' p @ '': '' @ e), fs'')
           | (Inr _, fs'') \<Rightarrow> (Inr (), fs'')))"

definition game_enabled :: "Config \<Rightarrow> string \<Rightarrow> bool" where
  "game_enabled cfg game \<longleftrightarrow> enabled cfg \<and> (case map_of (games cfg) game of None \<Rightarrow> True | Some g \<Rightarrow> g_enabled g)"

definition F_HUNDRED :: f32 where "F_HUNDRED = 0x42c80000"

definition effective_intensity :: "Config \<Rightarrow> string \<Rightarrow> f32" where
  "effective_intensity cfg game =
     (let g = (case map_of (games cfg) game of None \<Rightarrow> DEFAULT_GAME_INTENSITY | Some g \<Rightarrow> g_intensity g) in
      f_clamp f_zero f_one (f_div (f_mul (f_div (f_of_nat (intensity cfg)) F_HUNDRED) (f_of_nat g)) F_HUNDRED))"

text \<open>The part of the daemon's configuration the front ends edit.\<close>

definition front_end_view :: "Config \<Rightarrow> Conf" where
  "front_end_view cfg =
     \<lparr>c_enabled = enabled cfg, c_intensity = intensity cfg, c_pitch_pct = pitch_pct cfg, c_wheel = wheel cfg, c_leds = leds cfg,
      c_screen = screen cfg, c_screen_template = screen_template cfg, c_effects = effects cfg,
      c_effect_gains = effect_gains cfg, c_games = games cfg\<rparr>"

section \<open>Two readers of one file\<close>

definition KEYS :: "string list" where
  "KEYS = [''enabled'', ''intensity'', ''wheel'', ''pitch'', ''cylinders'', ''leds'', ''port.codemasters'', ''port.pcars'',
     ''port.beamng'', ''port.relay'', ''effects'', ''screen'', ''screen.template'', ''follow_game_gain'',
     ''g923.stream_without_ffb_mirror'', ''g923.ffb_invert'']"

lemma effect_position: "position (\<lambda>e. e_key e = key) EFFECTS = map_option effect_index (effect_from_key key)"
  by (simp add: EFFECTS_def effect_from_key_def ALL_EFFECTS_def effect_key_def effect_index_def)

lemma gains_set_eq:
  "gains_set gains key v = (case effect_from_key key of None \<Rightarrow> gains | Some e \<Rightarrow> EffectGains_set gains e v)"
  by (simp add: gains_set_def effect_position EffectGains_set_def split: option.splits)

lemma find_none_iff: "find P xs = None \<longleftrightarrow> position P xs = None"
  by (induction xs) auto

lemma effect_by_key_none: "effect_by_key key = None \<longleftrightarrow> effect_from_key key = None"
  by (simp add: effect_by_key_def find_none_iff effect_position)

lemma gains_default_eq: "EffectGains_default = gains_default"
  by (simp add: EffectGains_default_def gains_default_def ALL_EFFECTS_def EFFECTS_def effect_index_def default_gain_def numeral_eq_Suc)

lemma default_view: "front_end_view config_default = conf_default"
  by (simp add: front_end_view_def config_default_def conf_default_def gains_default_eq DEFAULT_INTENSITY_def DEFAULT_PITCH_def DEFAULT_SCREEN_TEMPLATE_def)

text \<open>On a key that is none of the fixed ones, both readers look at the two prefixes.\<close>

lemma other_key:
  assumes "key \<notin> set KEYS"
  shows "config_apply cfg key raw =
      (case strip_prefix ''effect_'' key of
          Some name \<Rightarrow>
            (case (effect_from_key name, parse_percent raw) of
               (Some e, Some v) \<Rightarrow> Some (cfg\<lparr>effect_gains := EffectGains_set (effect_gains cfg) e v\<rparr>)
             | _ \<Rightarrow> None)
        | None \<Rightarrow> map_option (\<lambda>m. cfg\<lparr>games := m\<rparr>) (game_line key raw (games cfg)))"
    "conf_apply key raw c =
      (case strip_prefix ''effect_'' key of
          Some name \<Rightarrow> set_opt (parse_percent raw) (\<lambda>v c. c\<lparr>c_effect_gains := gains_set (c_effect_gains c) name v\<rparr>) c
        | None \<Rightarrow> set_opt (game_line key raw (c_games c)) (\<lambda>m c. c\<lparr>c_games := m\<rparr>) c)"
    "daemon_recognises key raw =
      (case strip_prefix ''effect_'' key of
          Some name \<Rightarrow> effect_by_key name \<noteq> None \<and> parse_percent raw \<noteq> None
        | None \<Rightarrow> game_line key raw [] \<noteq> None)"
  using assms unfolding KEYS_def
  by (simp_all add: config_apply_def conf_apply_def daemon_recognises_def game_line_def split: option.splits)

lemma game_line_none: "game_line key raw m = None \<longleftrightarrow> game_line key raw m' = None"
  by (auto simp: game_line_def split: option.splits)

lemma recognised_iff_applied: "config_apply cfg key raw \<noteq> None \<longleftrightarrow> daemon_recognises key raw"
proof (cases "key \<in> set KEYS")
  case True
  then show ?thesis unfolding KEYS_def list.set
    by (elim insertE emptyE)
      (simp_all add: config_apply_def daemon_recognises_def parse_cylinders_def parse_port_def parse_template_def Let_def split: option.splits)
next
  case False
  then show ?thesis using game_line_none [of key raw "games cfg" "[]"] by (auto simp: other_key effect_by_key_none split: option.splits)
qed

lemma view_apply: "front_end_view (case config_apply cfg key raw of Some c \<Rightarrow> c | None \<Rightarrow> cfg) = conf_apply key raw (front_end_view cfg)"
proof (cases "key \<in> set KEYS")
  case True
  then show ?thesis unfolding KEYS_def list.set
    by (elim insertE emptyE)
      (simp_all add: config_apply_def conf_apply_def front_end_view_def set_opt_def parse_template_def template_ok_def
        strip_prefix_def game_line_def game_key_def Let_def not_less split: option.splits)
next
  case False
  then show ?thesis
    by (auto simp: other_key front_end_view_def set_opt_def gains_set_eq split: option.splits)
qed


text \<open>Whole files.\<close>

lemma load_line_cases:
  "load_line l (cfg, r) =
     (if unread l then (cfg, \<lparr>skipped = Suc (skipped r), first_skipped = (case first_skipped r of None \<Rightarrow> Some l | Some f \<Rightarrow> Some f)\<rparr>)
      else (case key_value l of None \<Rightarrow> cfg | Some (k, v) \<Rightarrow> the (config_apply cfg k v), r))"
proof (cases "key_value l")
  case (Some kv)
  obtain k v where kv: "kv = (k, v)" by (cases kv)
  show ?thesis using recognised_iff_applied [of cfg k v] Some kv by (auto simp: load_line_def unread_def split: option.splits)
qed (simp add: load_line_def unread_def)

lemma view_line: "front_end_view (fst (load_line l (cfg, r))) = conf_line l (front_end_view cfg)"
proof (cases "key_value l")
  case (Some kv)
  obtain k v where kv: "kv = (k, v)" by (cases kv)
  show ?thesis using view_apply [of cfg k v] Some kv by (simp add: load_line_def conf_line_def split: option.splits)
qed (simp add: load_line_def conf_line_def)

lemma load_lines_view: "front_end_view (fst (fold load_line ls st)) = fold conf_line ls (front_end_view (fst st))"
proof (induction ls arbitrary: st)
  case (Cons l ls)
  show ?case using Cons.IH [of "load_line l st"] view_line [of l "fst st" "snd st"] by simp
qed simp

lemma load_lines_report:
  "snd (fold load_line ls (cfg, r)) = \<lparr>skipped = skipped r + length (filter unread ls),
     first_skipped = (case first_skipped r of Some f \<Rightarrow> Some f | None \<Rightarrow> (case filter unread ls of [] \<Rightarrow> None | l # _ \<Rightarrow> Some l))\<rparr>"
proof (induction ls arbitrary: cfg r)
  case (Cons l ls)
  show ?case by (auto simp: load_line_cases Cons.IH split: option.splits)
qed (simp split: option.splits)

text \<open>C9. The configuration the front ends show is the one the daemon runs with: for every file, also a
  missing or a hand-edited one, the front ends' reader gives exactly the daemon's settings, and
  the warning the front ends show is the warning the daemon logs.\<close>

theorem readers_agree:
  "front_end_view (fst (load_from_with_report contents)) = conf_load_from contents \<and>
   load_warning (snd (load_from_with_report contents)) = conf_warning contents"
proof (cases contents)
  case None
  then show ?thesis
    by (simp add: load_from_with_report_def conf_load_from_def default_view load_warning_def conf_warning_def unrecognised_lines_def skip_warning_def)
next
  case (Some t)
  let ?st = "(config_default, \<lparr>skipped = 0, first_skipped = None\<rparr>)"
  have "load_warning (snd (fold load_line (conf_lines t) ?st)) = conf_warning contents"
    by (simp add: load_lines_report Some conf_warning_def unrecognised_lines_def skip_warning_def load_warning_def Let_def split: list.splits)
  then show ?thesis using load_lines_view [of "conf_lines t" ?st]
    by (simp add: Some load_from_with_report_def conf_load_from_def default_view)
qed


section \<open>Saving and loading\<close>

definition game_ok :: "string \<times> GameConfig \<Rightarrow> bool" where
  "game_ok e \<longleftrightarrow> fst e \<noteq> [] \<and> CHR ''='' \<notin> set (fst e) \<and> newline \<notin> set (fst e) \<and> g_intensity (snd e) \<le> 100"

definition config_ok :: "Config \<Rightarrow> bool" where
  "config_ok cfg \<longleftrightarrow>
     intensity cfg \<le> 100 \<and> 10 \<le> pitch_pct cfg \<and> pitch_pct cfg \<le> 200 \<and> 1 \<le> cylinders cfg \<and> cylinders cfg \<le> 16 \<and>
     length (effect_gains cfg) = 10 \<and> (\<forall>g\<in>set (effect_gains cfg). g \<le> 100) \<and>
     codemasters_port cfg \<le> 65535 \<and> pcars_port cfg \<le> 65535 \<and> beamng_port cfg \<le> 65535 \<and> relay_port cfg \<le> 65535 \<and>
     template_ok (screen_template cfg) \<and> one_line (screen_template cfg) \<and>
     sorted_wrt (<) (map fst (games cfg)) \<and> (\<forall>e\<in>set (games cfg). game_ok e)"

definition key_ok :: "string \<Rightarrow> bool" where
  "key_ok k \<longleftrightarrow> k \<noteq> [] \<and> one_line k \<and> CHR ''='' \<notin> set k \<and> hd k \<noteq> CHR ''#''"

lemma conf_entry_line:
  assumes "key_ok k" "one_line v"
  shows "one_line (conf_entry k v)" "key_value (conf_entry k v) = Some (k, v)" "conf_entry k v \<noteq> []" "\<not> starts_with (conf_entry k v) ''#''"
proof -
  have k: "k \<noteq> []" "trim k = k" "newline \<notin> set k" "CHR ''='' \<notin> set k" "hd k \<noteq> CHR ''#''"
    using assms(1) by (simp_all add: key_ok_def one_line_def)
  have v: "trim v = v" "newline \<notin> set v" using assms(2) by (simp_all add: one_line_def)
  show "conf_entry k v \<noteq> []" "\<not> starts_with (conf_entry k v) ''#''" using k by (auto simp: conf_entry_def neq_Nil_conv)
  show "key_value (conf_entry k v) = Some (k, v)" using k v by (simp add: key_value_def conf_entry_def)
  have "trim (conf_entry k v) = conf_entry k v"
  proof (rule trim_ends)
    have "\<not> is_space (hd k)" using trim_hd_last(1) [OF k(2) k(1)] .
    moreover have "\<not> is_space (last v)" if "v \<noteq> []" using trim_hd_last(2) [OF v(1) that] .
    moreover have "\<not> is_space (CHR ''='')" by (simp add: is_space_def)
    ultimately show "\<not> is_space (hd (conf_entry k v)) \<and> \<not> is_space (last (conf_entry k v))" using k(1) by (simp add: conf_entry_def)
  qed
  then show "one_line (conf_entry k v)" using k v by (simp add: one_line_def conf_entry_def)
qed

lemma conf_lines_of_lines:
  assumes "\<forall>l\<in>set ls. one_line l \<and> l \<noteq> [] \<and> \<not> starts_with l ''#''"
  shows "conf_lines (concat (map (\<lambda>l. l @ [newline]) (CONF_HEADER # ls))) = ls"
proof -
  have hdr: "one_line CONF_HEADER" "starts_with CONF_HEADER ''#''" by (simp_all add: CONF_HEADER_def one_line_def) code_simp
  have "lines (concat (map (\<lambda>l. l @ [newline]) (CONF_HEADER # ls))) = CONF_HEADER # ls"
    using assms hdr(1) by (intro lines_of_saved) simp
  moreover have "map trim ls = ls" using assms by (intro map_idI) (simp add: one_line_def)
  moreover have "filter (\<lambda>l. l \<noteq> [] \<and> \<not> starts_with l ''#'') ls = ls" using assms by (intro filter_True) simp
  ultimately show ?thesis using hdr by (simp add: conf_lines_def one_line_def)
qed

lemma conf_lines_of_entries:
  assumes "\<forall>(k, v)\<in>set es. key_ok k \<and> one_line v"
  shows "conf_lines (concat (map (\<lambda>l. l @ [newline]) (CONF_HEADER # map (\<lambda>(k, v). conf_entry k v) es))) = map (\<lambda>(k, v). conf_entry k v) es"
  by (rule conf_lines_of_lines) (use assms conf_entry_line in fastforce)

definition apply_entry :: "string \<times> string \<Rightarrow> Config \<Rightarrow> Config" where
  "apply_entry e cfg = the (config_apply cfg (fst e) (snd e))"

lemma load_entries:
  assumes "\<forall>(k, v)\<in>set es. key_ok k \<and> one_line v \<and> daemon_recognises k v"
  shows "fold load_line (map (\<lambda>(k, v). conf_entry k v) es) (cfg, r) = (fold apply_entry es cfg, r)"
  using assms
proof (induction es arbitrary: cfg)
  case (Cons e es)
  obtain k v where e: "e = (k, v)" by (cases e)
  have "key_value (conf_entry k v) = Some (k, v)" "daemon_recognises k v" using Cons.prems conf_entry_line(2) by (auto simp: e)
  then have "load_line (conf_entry k v) (cfg, r) = (apply_entry e cfg, r)" by (simp add: load_line_cases unread_def apply_entry_def e)
  then show ?case using Cons by (simp add: e)
qed simp


lemma parse_printed [simp]:
  "conf_bool (flag b) = Some b" "n \<le> 100 \<Longrightarrow> parse_percent (dec_nat n) = Some n"
  "10 \<le> n \<Longrightarrow> n \<le> 200 \<Longrightarrow> parse_pitch (dec_nat n) = Some n" "1 \<le> n \<Longrightarrow> n \<le> 16 \<Longrightarrow> parse_cylinders (dec_nat n) = Some n"
  "n \<le> 65535 \<Longrightarrow> parse_port (dec_nat n) = Some n" "template_ok t \<Longrightarrow> one_line t \<Longrightarrow> parse_template t = Some t"
  by (simp_all add: conf_bool_def flag_def parse_percent_def parse_pitch_def parse_cylinders_def parse_port_def parse_template_def
      template_ok_def one_line_def)

lemma apply_scalars:
  "apply_entry (''enabled'', flag b) c = c\<lparr>enabled := b\<rparr>"
  "n \<le> 100 \<Longrightarrow> apply_entry (''intensity'', dec_nat n) c = c\<lparr>intensity := n\<rparr>"
  "10 \<le> n \<Longrightarrow> n \<le> 200 \<Longrightarrow> apply_entry (''pitch'', dec_nat n) c = c\<lparr>pitch_pct := n\<rparr>"
  "1 \<le> n \<Longrightarrow> n \<le> 16 \<Longrightarrow> apply_entry (''cylinders'', dec_nat n) c = c\<lparr>cylinders := n\<rparr>"
  "apply_entry (''leds'', flag b) c = c\<lparr>leds := b\<rparr>"
  "apply_entry (''screen'', flag b) c = c\<lparr>screen := b\<rparr>"
  "template_ok t \<Longrightarrow> one_line t \<Longrightarrow> apply_entry (''screen.template'', t) c = c\<lparr>screen_template := t\<rparr>"
  "n \<le> 65535 \<Longrightarrow> apply_entry (''port.codemasters'', dec_nat n) c = c\<lparr>codemasters_port := n\<rparr>"
  "n \<le> 65535 \<Longrightarrow> apply_entry (''port.pcars'', dec_nat n) c = c\<lparr>pcars_port := n\<rparr>"
  "n \<le> 65535 \<Longrightarrow> apply_entry (''port.beamng'', dec_nat n) c = c\<lparr>beamng_port := n\<rparr>"
  "n \<le> 65535 \<Longrightarrow> apply_entry (''port.relay'', dec_nat n) c = c\<lparr>relay_port := n\<rparr>"
  "apply_entry (''effects'', flag b) c = c\<lparr>effects := b\<rparr>"
  "apply_entry (''follow_game_gain'', flag b) c = c\<lparr>follow_game_gain := b\<rparr>"
  "apply_entry (''g923.stream_without_ffb_mirror'', flag b) c = c\<lparr>g923_stream_without_ffb_mirror := b\<rparr>"
  "apply_entry (''g923.ffb_invert'', flag b) c = c\<lparr>g923_ffb_invert := b\<rparr>"
  by (simp_all add: apply_entry_def config_apply_def)

lemma effect_from_key_key [simp]: "effect_from_key (effect_key e) = Some e"
  by (cases e) (simp_all add: effect_from_key_def ALL_EFFECTS_def effect_key_def)

lemma effect_entry_other: "''effect_'' @ n \<notin> set KEYS" "strip_prefix ''effect_'' (''effect_'' @ n) = Some n"
  by (simp_all add: KEYS_def strip_prefix_def)

lemma apply_effect:
  "v \<le> 100 \<Longrightarrow> apply_entry (''effect_'' @ effect_key e, dec_nat v) c = c\<lparr>effect_gains := (effect_gains c)[effect_index e := v]\<rparr>"
  using effect_entry_other [of "effect_key e"] by (simp add: apply_entry_def other_key(1) EffectGains_set_def)

lemma rsplit_once_append: "c \<notin> set b \<Longrightarrow> rsplit_once c (a @ c # b) = Some (a, b)"
  by (simp add: rsplit_once_def)

lemma game_entry_other:
  assumes "game \<noteq> []" "CHR ''.'' \<notin> set f"
  shows "''game.'' @ game @ ''.'' @ f \<notin> set KEYS" "strip_prefix ''effect_'' (''game.'' @ game @ ''.'' @ f) = None"
    "game_key (''game.'' @ game @ ''.'' @ f) = Some (game, f)"
  using assms rsplit_once_append [of "CHR ''.''" f game] by (simp_all add: KEYS_def strip_prefix_def game_key_def)

lemma apply_game:
  assumes "game \<noteq> []"
  shows "apply_entry (''game.'' @ game @ ''.enabled'', flag b) c = c\<lparr>games := entry_modify game_default (\<lambda>g. g\<lparr>g_enabled := b\<rparr>) game (games c)\<rparr>"
    "n \<le> 100 \<Longrightarrow> apply_entry (''game.'' @ game @ ''.intensity'', dec_nat n) c = c\<lparr>games := entry_modify game_default (\<lambda>g. g\<lparr>g_intensity := n\<rparr>) game (games c)\<rparr>"
  using game_entry_other [OF assms, of "''enabled''"] game_entry_other [OF assms, of "''intensity''"]
  by (simp_all add: apply_entry_def other_key(1) game_line_def)

lemma entry_modify_end: "\<forall>j\<in>fst ` set m. j < k \<Longrightarrow> entry_modify d f k m = m @ [(k, f d)]"
  by (induction m) auto

lemma entry_modify_last: "\<forall>j\<in>fst ` set m. j < k \<Longrightarrow> entry_modify d f k (m @ [(k, v)]) = m @ [(k, f v)]"
  by (induction m) auto

lemma apply_games:
  assumes "sorted_wrt (<) (map fst (games c) @ map fst gs)" "\<forall>e\<in>set gs. game_ok e"
  shows "fold apply_entry (concat (map (\<lambda>(game, g). [(''game.'' @ game @ ''.enabled'', flag (g_enabled g)),
        (''game.'' @ game @ ''.intensity'', dec_nat (g_intensity g))]) gs)) c = c\<lparr>games := games c @ gs\<rparr>"
  using assms
proof (induction gs arbitrary: c)
  case (Cons e gs)
  obtain game g where e: "e = (game, g)" by (cases e)
  have ok: "game \<noteq> []" "g_intensity g \<le> 100" using Cons.prems(2) by (simp_all add: e game_ok_def)
  have lt: "\<forall>j\<in>fst ` set (games c). j < game" using Cons.prems(1) by (auto simp: e sorted_wrt_append)
  let ?c = "apply_entry (''game.'' @ game @ ''.intensity'', dec_nat (g_intensity g)) (apply_entry (''game.'' @ game @ ''.enabled'', flag (g_enabled g)) c)"
  have "?c = c\<lparr>games := games c @ [(game, g)]\<rparr>"
    unfolding apply_game(2) [OF ok] apply_game(1) [OF ok(1)] by (cases g) (simp add: entry_modify_end [OF lt] entry_modify_last [OF lt] game_default_def)
  moreover have "fold apply_entry (concat (map (\<lambda>(game, g). [(''game.'' @ game @ ''.enabled'', flag (g_enabled g)),
        (''game.'' @ game @ ''.intensity'', dec_nat (g_intensity g))]) gs)) (c\<lparr>games := games c @ [(game, g)]\<rparr>) = c\<lparr>games := games c @ e # gs\<rparr>"
    using Cons.IH [of "c\<lparr>games := games c @ [(game, g)]\<rparr>"] Cons.prems by (simp add: e)
  ultimately show ?case by (simp only: e list.map concat.simps prod.case fold_append fold.simps comp_apply id_apply append.simps)
qed simp


lemma literal_keys: "list_all key_ok KEYS" "list_all key_ok (map (\<lambda>e. ''effect_'' @ effect_key e) ALL_EFFECTS)"
  by (simp_all add: KEYS_def ALL_EFFECTS_def effect_key_def key_ok_def one_line_def) code_simp+

lemma flag_one_line [simp]: "one_line (flag b)" "one_line (dec_nat n)"
  by (auto simp: flag_def plain_def is_space_def intro!: plain_one_line plain_dec_nat)

lemma game_key_ok:
  assumes "game_ok (game, g)" "f \<noteq> []" "\<not> is_space (last f)" "newline \<notin> set f" "CHR ''='' \<notin> set f"
  shows "key_ok (''game.'' @ game @ ''.'' @ f)"
proof -
  have "trim (''game.'' @ game @ ''.'' @ f) = ''game.'' @ game @ ''.'' @ f"
    by (rule trim_ends) (use assms in \<open>simp add: is_space_def\<close>)
  then show ?thesis using assms by (auto simp: key_ok_def one_line_def game_ok_def)
qed


definition entry_fine :: "string \<times> string \<Rightarrow> bool" where
  "entry_fine e \<longleftrightarrow> key_ok (fst e) \<and> one_line (snd e) \<and> daemon_recognises (fst e) (snd e)"

lemma scalar_entries_fine:
  assumes "config_ok cfg"
  shows "\<forall>e\<in>set (take 12 (config_entries cfg)). entry_fine e"
    "\<forall>e\<in>set [(''follow_game_gain'', flag (follow_game_gain cfg)), (''g923.stream_without_ffb_mirror'', flag (g923_stream_without_ffb_mirror cfg)),
      (''g923.ffb_invert'', flag (g923_ffb_invert cfg))]. entry_fine e"
  using assms literal_keys(1)
  by (simp_all add: config_entries_def entry_fine_def config_ok_def KEYS_def daemon_recognises_def template_ok_def one_line_def
      parse_cylinders_def [symmetric]) (simp_all add: one_line_def [symmetric])

lemma gain_bound: "config_ok cfg \<Longrightarrow> EffectGains_get (effect_gains cfg) e \<le> 100"
  by (cases e) (simp_all add: config_ok_def EffectGains_get_def effect_index_def)

lemma effect_entries_fine:
  assumes "config_ok cfg" "e \<in> set ALL_EFFECTS"
  shows "entry_fine (''effect_'' @ effect_key e, dec_nat (EffectGains_get (effect_gains cfg) e))"
proof -
  have "key_ok (''effect_'' @ effect_key e)" using literal_keys(2) assms(2) by (simp add: list_all_iff)
  moreover have "effect_by_key (effect_key e) \<noteq> None" by (simp add: effect_by_key_none)
  ultimately show ?thesis using gain_bound [OF assms(1), of e] effect_entry_other [of "effect_key e"]
    by (simp add: entry_fine_def other_key(3))
qed

lemma game_entries_fine:
  assumes "game_ok (game, g)"
  shows "entry_fine (''game.'' @ game @ ''.'' @ ''enabled'', flag (g_enabled g))"
    "entry_fine (''game.'' @ game @ ''.'' @ ''intensity'', dec_nat (g_intensity g))"
proof -
  have g: "game \<noteq> []" "g_intensity g \<le> 100" using assms by (simp_all add: game_ok_def)
  have f: "f \<noteq> [] \<and> \<not> is_space (last f) \<and> newline \<notin> set f \<and> CHR ''='' \<notin> set f \<and> CHR ''.'' \<notin> set f"
    if "f \<in> {''enabled'', ''intensity''}" for f using that by (auto simp: is_space_def)
  have "daemon_recognises (''game.'' @ game @ ''.'' @ ''enabled'') (flag (g_enabled g))"
    using game_entry_other [OF g(1), of "''enabled''"] by (simp add: other_key(3) game_line_def)
  moreover have "daemon_recognises (''game.'' @ game @ ''.'' @ ''intensity'') (dec_nat (g_intensity g))"
    using game_entry_other [OF g(1), of "''intensity''"] g(2) by (simp add: other_key(3) game_line_def)
  ultimately show "entry_fine (''game.'' @ game @ ''.'' @ ''enabled'', flag (g_enabled g))"
    "entry_fine (''game.'' @ game @ ''.'' @ ''intensity'', dec_nat (g_intensity g))"
    using game_key_ok [OF assms] f by (simp_all only: entry_fine_def fst_conv snd_conv flag_one_line insert_iff) auto
qed


definition effect_entries :: "Config \<Rightarrow> (string \<times> string) list" where
  "effect_entries cfg = map (\<lambda>e. (''effect_'' @ effect_key e, dec_nat (EffectGains_get (effect_gains cfg) e))) ALL_EFFECTS"

definition rest_entries :: "Config \<Rightarrow> (string \<times> string) list" where
  "rest_entries cfg = [(''follow_game_gain'', flag (follow_game_gain cfg)), (''g923.stream_without_ffb_mirror'', flag (g923_stream_without_ffb_mirror cfg)),
      (''g923.ffb_invert'', flag (g923_ffb_invert cfg))]"

definition game_entries :: "(string \<times> GameConfig) list \<Rightarrow> (string \<times> string) list" where
  "game_entries gs = concat (map (\<lambda>(game, g). [(''game.'' @ game @ ''.enabled'', flag (g_enabled g)),
        (''game.'' @ game @ ''.intensity'', dec_nat (g_intensity g))]) gs)"

lemma config_entries_parts:
  obtains scalars where "scalars = take 12 (config_entries cfg)"
    "config_entries cfg = scalars @ effect_entries cfg @ rest_entries cfg @ game_entries (games cfg)"
  by (simp add: config_entries_def effect_entries_def rest_entries_def game_entries_def)

lemma entries_fine:
  assumes "config_ok cfg"
  shows "\<forall>e\<in>set (config_entries cfg). entry_fine e"
proof -
  obtain scalars where sc: "scalars = take 12 (config_entries cfg)"
    "config_entries cfg = scalars @ effect_entries cfg @ rest_entries cfg @ game_entries (games cfg)"
    by (rule config_entries_parts)
  have games: "game_ok e" if "e \<in> set (games cfg)" for e using assms that by (simp add: config_ok_def)
  have "\<forall>e\<in>set (game_entries (games cfg)). entry_fine e" using game_entries_fine games by (fastforce simp: game_entries_def)
  moreover have "\<forall>e\<in>set (effect_entries cfg). entry_fine e"
    using effect_entries_fine [OF assms] unfolding effect_entries_def set_map by blast
  moreover have "\<forall>e\<in>set scalars. entry_fine e" "\<forall>e\<in>set (rest_entries cfg). entry_fine e"
    using scalar_entries_fine [OF assms] unfolding sc(1) rest_entries_def by blast+
  ultimately show ?thesis unfolding sc(2) set_append ball_Un by blast
qed

lemma apply_effects:
  assumes "config_ok cfg" "length (effect_gains c) = 10"
  shows "fold apply_entry (effect_entries cfg) c = c\<lparr>effect_gains := effect_gains cfg\<rparr>"
proof -
  have step: "apply_entry (''effect_'' @ effect_key e, dec_nat (EffectGains_get (effect_gains cfg) e)) d =
      d\<lparr>effect_gains := (effect_gains d)[effect_index e := effect_gains cfg ! effect_index e]\<rparr>" for e d
    using apply_effect [OF gain_bound [OF assms(1)]] by (simp add: EffectGains_get_def)
  have fold_step: "fold apply_entry (map (\<lambda>e. (''effect_'' @ effect_key e, dec_nat (EffectGains_get (effect_gains cfg) e))) es) d =
      d\<lparr>effect_gains := fold (\<lambda>e g. g[effect_index e := effect_gains cfg ! effect_index e]) es (effect_gains d)\<rparr>" for es d
  proof (induction es arbitrary: d)
    case (Cons e es)
    show ?case unfolding list.map fold.simps comp_apply step Cons.IH by simp
  qed simp
  have len: "length (effect_gains cfg) = 10" using assms(1) by (simp add: config_ok_def)
  let ?g = "fold (\<lambda>e g. g[effect_index e := effect_gains cfg ! effect_index e]) ALL_EFFECTS (effect_gains c)"
  have "?g ! i = effect_gains cfg ! i" if "i < 10" for i
  proof -
    have "i \<in> {0, 1, 2, 3, 4, 5, 6, 7, 8, 9}" using that by simp presburger
    then show ?thesis using assms(2) by (elim insertE emptyE) (simp_all add: ALL_EFFECTS_def effect_index_def)
  qed
  moreover have "length ?g = 10" using assms(2) by (simp add: ALL_EFFECTS_def)
  ultimately have "?g = effect_gains cfg" using len by (intro nth_equalityI) simp_all
  then show ?thesis unfolding effect_entries_def fold_step by simp
qed

lemma saved_config_applies:
  assumes "config_ok cfg"
  shows "fold apply_entry (config_entries cfg) config_default = cfg\<lparr>wheel := Auto\<rparr>"
proof -
  obtain scalars where sc: "scalars = take 12 (config_entries cfg)"
    "config_entries cfg = scalars @ effect_entries cfg @ rest_entries cfg @ game_entries (games cfg)"
    by (rule config_entries_parts)
  note ok = assms [unfolded config_ok_def]
  define c1 where "c1 = config_default\<lparr>enabled := enabled cfg, intensity := intensity cfg, pitch_pct := pitch_pct cfg, cylinders := cylinders cfg,
      leds := leds cfg, screen := screen cfg, screen_template := screen_template cfg, codemasters_port := codemasters_port cfg,
      pcars_port := pcars_port cfg, beamng_port := beamng_port cfg, relay_port := relay_port cfg, effects := effects cfg\<rparr>"
  have one: "fold apply_entry scalars config_default = c1"
    using ok by (simp add: sc(1) c1_def config_entries_def apply_scalars)
  have two: "fold apply_entry (rest_entries cfg) d = d\<lparr>follow_game_gain := follow_game_gain cfg,
      g923_stream_without_ffb_mirror := g923_stream_without_ffb_mirror cfg, g923_ffb_invert := g923_ffb_invert cfg\<rparr>" for d
    by (simp add: rest_entries_def apply_scalars)
  have "length (effect_gains c1) = 10" by (simp add: c1_def config_default_def EffectGains_default_def ALL_EFFECTS_def)
  note eff = apply_effects [OF assms this]
  have "fold apply_entry (config_entries cfg) config_default =
    fold apply_entry (game_entries (games cfg))
     (c1\<lparr>effect_gains := effect_gains cfg, follow_game_gain := follow_game_gain cfg,
      g923_stream_without_ffb_mirror := g923_stream_without_ffb_mirror cfg, g923_ffb_invert := g923_ffb_invert cfg\<rparr>)"
    unfolding sc(2) fold_append comp_apply one eff two by simp
  also have "\<dots> = cfg\<lparr>wheel := Auto\<rparr>"
    unfolding game_entries_def using ok by (subst apply_games) (simp_all add: c1_def config_default_def)
  finally show ?thesis .
qed

text \<open>C38. A saved configuration loads back with nothing skipped, every field as it was saved but one:
  the choice of the wheel is not written, and comes back as automatic.\<close>

theorem saved_config_loads:
  assumes "config_ok cfg"
  shows "load_from_with_report (Some (config_text cfg)) = (cfg\<lparr>wheel := Auto\<rparr>, \<lparr>skipped = 0, first_skipped = None\<rparr>)"
proof -
  have fine: "\<forall>(k, v)\<in>set (config_entries cfg). key_ok k \<and> one_line v \<and> daemon_recognises k v"
    using entries_fine [OF assms] by (auto simp: entry_fine_def)
  then have "conf_lines (config_text cfg) = map (\<lambda>(k, v). conf_entry k v) (config_entries cfg)"
    unfolding config_text_def config_lines_def by (intro conf_lines_of_entries) auto
  then show ?thesis using load_entries [OF fine] saved_config_applies [OF assms] by (simp add: load_from_with_report_def)
qed

theorem saved_config_loads_witness:
  "\<exists>cfg. cfg = config_default\<lparr>wheel := G923\<rparr> \<and> load_from_with_report (Some (config_text cfg)) = (cfg\<lparr>wheel := Auto\<rparr>, \<lparr>skipped = 0, first_skipped = None\<rparr>)"
proof -
  have t: "plain ''G|{gear}|{speed}''" by (simp add: plain_def is_space_def)
  have "config_ok (config_default\<lparr>wheel := G923\<rparr>)"
    by (simp add: config_ok_def config_default_def gains_default_eq gains_default_def EFFECTS_def template_ok_def plain_one_line [OF t])
  from saved_config_loads [OF this] show ?thesis by blast
qed

end
