(* ===== verification/Sim_Edit.thy ===== *)
theory Sim_Edit
  imports Sim_Config
begin

text \<open>
  Edits of the simulator configuration: the setters of \<open>tfsim.rs\<close> rewrite one line of the file
  the daemon reads. The locale \<open>edited_key\<close> is the contract between a key of the daemon's reader
  and the setter of that key; it is interpreted for every setting the front ends edit.
\<close>

section \<open>Editing one key\<close>

lemma trim_start_split: "trim_start l = trim l @ rev (takeWhile is_space (rev (trim_start l)))"
proof -
  have "rev (trim_start l) = takeWhile is_space (rev (trim_start l)) @ dropWhile is_space (rev (trim_start l))" by simp
  then have "trim_start l = rev (dropWhile is_space (rev (trim_start l))) @ rev (takeWhile is_space (rev (trim_start l)))"
    by (metis rev_append rev_rev_ident)
  then show ?thesis by (simp add: trim_def trim_end_def)
qed

lemma trim_pad:
  assumes "\<forall>c\<in>set u. is_space c" "\<forall>c\<in>set v. is_space c"
  shows "trim (u @ s @ v) = trim s"
proof -
  have 1: "trim_start (u @ x) = trim_start x" for x using assms(1) by (simp add: trim_start_def dropWhile_append2)
  have 2: "trim_end (x @ v) = trim_end x" for x using assms(2) by (subst trim_end_def, subst rev_append, subst dropWhile_append2) (auto simp: trim_end_def)
  show ?thesis
  proof (cases "\<forall>c\<in>set s. is_space c")
    case True
    then have "trim_start (s @ v) = []" "trim_start s = []" using assms(2) by (auto simp: trim_start_def)
    then show ?thesis by (simp add: trim_def 1)
  next
    case False
    then have "trim_start (s @ v) = trim_start s @ v" by (auto simp: trim_start_def dropWhile_append1)
    then show ?thesis by (simp add: trim_def 1 2)
  qed
qed

lemma trim_parts: "\<exists>u v. l = u @ trim l @ v \<and> (\<forall>c\<in>set u. is_space c) \<and> (\<forall>c\<in>set v. is_space c)"
proof -
  have "l = takeWhile is_space l @ trim_start l" by (simp add: trim_start_def)
  then have "l = takeWhile is_space l @ trim l @ rev (takeWhile is_space (rev (trim_start l)))" using trim_start_split [of l] by simp
  moreover have "\<forall>c\<in>set (takeWhile is_space l). is_space c" "\<forall>c\<in>set (rev (takeWhile is_space (rev (trim_start l)))). is_space c"
    by (auto dest: set_takeWhileD)
  ultimately show ?thesis by blast
qed

lemma key_value_trim: "key_value (trim l) = key_value l"
proof -
  obtain u v where l: "l = u @ trim l @ v" "\<forall>c\<in>set u. is_space c" "\<forall>c\<in>set v. is_space c" using trim_parts by blast
  have sp: "\<not> is_space (CHR ''='')" by (simp add: is_space_def)
  show ?thesis
  proof (cases "split_once (CHR ''='') (trim l)")
    case None
    then have "CHR ''='' \<notin> set (trim l)" by (induction "trim l" rule: split_once.induct) (auto, metis option.distinct(1) split_once_append in_set_conv_decomp_first)
    then have "CHR ''='' \<notin> set l" using l sp by (metis Un_iff set_append)
    then show ?thesis using None by (simp add: key_value_def)
  next
    case (Some ab)
    obtain a b where ab: "ab = (a, b)" by (cases ab)
    then have t: "trim l = a @ CHR ''='' # b" "CHR ''='' \<notin> set a" using split_once_SomeD Some by blast+
    then have "l = (u @ a) @ CHR ''='' # (b @ v)" using l(1) by (metis append.assoc append_Cons)
    moreover have "CHR ''='' \<notin> set (u @ a)" using t(2) l(2) sp by auto
    ultimately have "split_once (CHR ''='') l = Some (u @ a, b @ v)" using split_once_append by metis
    then show ?thesis using Some ab trim_pad [OF l(2), of "[]" a] trim_pad [OF _ l(3), of "[]" b] by (simp add: key_value_def)
  qed
qed

lemma starts_hash_trim: "starts_with (trim_start l) ''#'' \<longleftrightarrow> starts_with (trim l) ''#''"
proof (cases "trim l")
  case Nil
  then have "\<forall>c\<in>set (trim_start l). is_space c" using trim_start_split [of l] by (metis append_Nil set_rev set_takeWhileD)
  then show ?thesis using Nil by (cases "trim_start l") (auto simp: is_space_def)
next
  case (Cons c s)
  then show ?thesis using trim_start_split [of l] by (metis append_Cons starts_with.simps(1,3))
qed

definition read_line :: "string \<Rightarrow> Config \<Rightarrow> Config" where
  "read_line l cfg = (if trim l = [] \<or> starts_with (trim l) ''#'' then cfg else fst (load_line (trim l) (cfg, \<lparr>skipped = 0, first_skipped = None\<rparr>)))"

lemma load_line_config: "fst (load_line l (cfg, r)) = fst (load_line l (cfg, q))"
  by (simp add: load_line_cases)

lemma load_reads: "fst (load_from_with_report (Some t)) = fold read_line (lines t) config_default"
proof -
  have "fst (fold load_line (filter (\<lambda>l. l \<noteq> [] \<and> \<not> starts_with l ''#'') (map trim ls)) (cfg, r)) = fold read_line ls cfg" for ls cfg r
  proof (induction ls arbitrary: cfg r)
    case (Cons l ls)
    show ?case
    proof (cases "trim l = [] \<or> starts_with (trim l) ''#''")
      case False
      then have "read_line l cfg = fst (load_line (trim l) (cfg, r))" using load_line_config by (simp add: read_line_def)
      then show ?thesis using False Cons.IH [of "fst (load_line (trim l) (cfg, r))" "snd (load_line (trim l) (cfg, r))"] by simp
    qed (use Cons.IH in \<open>auto simp: read_line_def\<close>)
  qed simp
  then show ?thesis by (simp add: load_from_with_report_def conf_lines_def)
qed

lemma read_line_eq:
  "read_line l cfg = (if trim l = [] \<or> starts_with (trim l) ''#'' then cfg else
     case key_value l of None \<Rightarrow> cfg | Some (k, v) \<Rightarrow> (case config_apply cfg k v of Some c \<Rightarrow> c | None \<Rightarrow> cfg))"
  by (simp add: read_line_def load_line_def key_value_trim split: option.splits)

lemma is_key_line_eq: "is_key_line key l \<longleftrightarrow> \<not> starts_with (trim l) ''#'' \<and> (\<exists>v. key_value l = Some (key, v))"
  by (auto simp: is_key_line_def key_value_def starts_hash_trim split: option.splits)

lemma lines_of_texts:
  assumes "\<forall>l\<in>set ls. newline \<notin> set l"
  shows "lines (concat (map (\<lambda>l. l @ [newline]) ls)) = map strip_cr ls"
  using assms
proof (induction ls)
  case (Cons l ls)
  then show ?case using lines_append [of "l @ [newline]"] lines_terminated [of l] by (simp add: nl_terminated_def)
qed (simp add: lines_def)

lemma lines_no_newline: "l \<in> set (lines t) \<Longrightarrow> newline \<notin> set l"
proof -
  have split: "newline \<notin> set x" if "x \<in> set (split_char newline t)" for x
    using that by (induction newline t arbitrary: x rule: split_char.induct) (auto split: if_splits list.splits)
  assume "l \<in> set (lines t)"
  then consider x where "x \<in> set (split_char newline t)" "l = strip_cr x" | "l \<in> set (split_char newline t)"
    by (auto simp: lines_def Let_def split: if_splits dest: in_set_butlastD)
  then show ?thesis using split by cases (auto simp: strip_cr_def dest: in_set_butlastD split: if_splits)
qed

lemma trim_strip_cr: "trim (strip_cr l) = trim l"
proof (cases "l \<noteq> [] \<and> last l = carriage_return")
  case True
  then have "l = butlast l @ [carriage_return]" by (metis append_butlast_last_id)
  then show ?thesis using True trim_pad [of "[]" "[carriage_return]" "butlast l"] by (simp add: strip_cr_def is_space_def)
qed (auto simp: strip_cr_def)

lemma read_line_strip_cr [simp]: "read_line (strip_cr l) = read_line l"
  by (rule ext) (use key_value_trim [of l] key_value_trim [of "strip_cr l"] in \<open>simp add: read_line_eq trim_strip_cr\<close>)

text \<open>
  The contract of a key the front ends edit: a value of it changes one part of the configuration
  (a later change of that part hides an earlier one), and lines with another key neither see nor
  touch that part.
\<close>

locale edited_key =
  fixes key :: string
    and dec :: "string \<Rightarrow> 'v option"
    and upd :: "'v \<Rightarrow> Config \<Rightarrow> Config"
  assumes key_fine: "key_ok key"
    and own_line: "config_apply cfg key raw = map_option (\<lambda>v. upd v cfg) (dec raw)"
    and upd_upd: "upd v (upd w cfg) = upd v cfg"
    and other_line: "k \<noteq> key \<Longrightarrow> config_apply (upd v cfg) k raw = map_option (upd v) (config_apply cfg k raw)"
begin

lemma read_other: "\<not> is_key_line key l \<Longrightarrow> read_line l (upd v cfg) = upd v (read_line l cfg)"
  by (auto simp: read_line_eq is_key_line_eq other_line split: option.splits)

lemma read_own: "is_key_line key l \<Longrightarrow> upd v (read_line l cfg) = upd v cfg"
  by (auto simp: read_line_eq is_key_line_eq own_line upd_upd split: option.splits)

lemma upd_absorbs: "upd v (fold read_line ls cfg) = fold read_line (filter (\<lambda>l. \<not> is_key_line key l) ls) (upd v cfg)"
proof (induction ls arbitrary: cfg)
  case (Cons l ls)
  then show ?case using read_other [of l v cfg] read_own [of l v cfg] by simp
qed simp

lemma read_entry:
  assumes "one_line val" "dec val = Some v"
  shows "read_line (key @ ''='' @ val) cfg = upd v cfg"
  using conf_entry_line [OF key_fine assms(1)] assms(2)
  by (auto simp: read_line_eq conf_entry_def one_line_def own_line)

lemma rewrite_rest: "fst (rewrite_lines key val True ls) = filter (\<lambda>l. \<not> is_key_line key l) ls"
  by (induction ls) (auto split: prod.splits)

lemma rewrite_reads:
  assumes "one_line val" "dec val = Some v" "rewrite_lines key val False ls = (out, r)"
  shows "fold read_line (out @ (if r then [] else [key @ ''='' @ val])) cfg = upd v (fold read_line ls cfg)"
  using assms(3)
proof (induction ls arbitrary: out r cfg)
  case Nil
  then show ?case using read_entry [OF assms(1,2)] by simp
next
  case (Cons l ls)
  show ?case
  proof (cases "is_key_line key l")
    case True
    obtain out' r' where rec: "rewrite_lines key val True ls = (out', r')" by (cases "rewrite_lines key val True ls")
    have "r' = True" using rec by (induction ls arbitrary: out' r') (auto split: if_splits prod.splits)
    moreover have "out' = filter (\<lambda>l. \<not> is_key_line key l) ls" using rewrite_rest [of val ls] rec by simp
    ultimately show ?thesis
      using Cons.prems True rec read_entry [OF assms(1,2)] upd_absorbs [of v ls "read_line l cfg"] read_own [OF True, of v cfg] by auto
  next
    case False
    obtain out' r' where rec: "rewrite_lines key val False ls = (out', r')" by (cases "rewrite_lines key val False ls")
    then show ?thesis using Cons.prems False Cons.IH [OF rec, of "read_line l cfg"] by (auto split: if_splits)
  qed
qed

lemma rewritten_lines:
  assumes "one_line val" "rewrite_lines key val False ls = (out, r)" "\<forall>l\<in>set ls. newline \<notin> set l"
  shows "\<forall>l\<in>set out. newline \<notin> set l"
proof -
  have "newline \<notin> set (key @ ''='' @ val)" using key_fine assms(1) by (auto simp: key_ok_def one_line_def)
  moreover have "set (fst (rewrite_lines key val b ls)) \<subseteq> insert (key @ ''='' @ val) (set ls)" for b
  proof (induction ls arbitrary: b)
    case (Cons a ls)
    show ?case using Cons.IH [of True] Cons.IH [of b]
      by (cases "rewrite_lines key val True ls", cases "rewrite_lines key val b ls") auto
  qed simp
  note this [of False]
  then have "set out \<subseteq> insert (key @ ''='' @ val) (set ls)" using assms(2) by simp
  ultimately show ?thesis using assms(3) by blast
qed

lemma header_reads: "fold read_line (lines (CONF_HEADER @ [newline])) cfg = cfg"
proof -
  have "lines (CONF_HEADER @ [newline]) = [CONF_HEADER]" by code_simp
  moreover have "starts_with (trim CONF_HEADER) ''#''" by code_simp
  ultimately show ?thesis by (simp add: read_line_def)
qed

lemma line_reaches_daemon:
  assumes "one_line val" "dec val = Some v"
  shows "fst (load_from_with_report (Some (rewrite_key contents key val))) = upd v (fst (load_from_with_report contents))"
proof -
  define t where "t = (case contents of Some t \<Rightarrow> t | None \<Rightarrow> CONF_HEADER @ [newline])"
  obtain out r where rw: "rewrite_lines key val False (lines t) = (out, r)" by (cases "rewrite_lines key val False (lines t)")
  let ?ls = "out @ (if r then [] else [key @ ''='' @ val])"
  have "newline \<notin> set (key @ ''='' @ val)" using key_fine assms(1) by (auto simp: key_ok_def one_line_def)
  then have "\<forall>l\<in>set ?ls. newline \<notin> set l" using rewritten_lines [OF assms(1) rw] lines_no_newline by auto
  moreover have "rewrite_key contents key val = concat (map (\<lambda>l. l @ [newline]) ?ls)"
    using rw by (simp add: rewrite_key_def t_def [symmetric])
  ultimately have "lines (rewrite_key contents key val) = map strip_cr ?ls" using lines_of_texts by metis
  then have "fst (load_from_with_report (Some (rewrite_key contents key val))) = fold read_line ?ls config_default"
    by (simp add: load_reads fold_map comp_def)
  also have "\<dots> = upd v (fold read_line (lines t) config_default)" by (rule rewrite_reads [OF assms rw])
  also have "fold read_line (lines t) config_default = fst (load_from_with_report contents)"
    using header_reads load_reads by (cases contents) (simp_all add: t_def load_from_with_report_def)
  finally show ?thesis .
qed

end


lemma other_cases:
  assumes "\<And>cfg raw k. k \<in> set KEYS \<Longrightarrow> k \<noteq> key \<Longrightarrow> config_apply (upd cfg) k raw = map_option upd (config_apply cfg k raw)"
    and "\<And>cfg g. (upd cfg)\<lparr>effect_gains := g\<rparr> = upd (cfg\<lparr>effect_gains := g\<rparr>)" "\<And>cfg g. (upd cfg)\<lparr>games := g\<rparr> = upd (cfg\<lparr>games := g\<rparr>)"
    and "\<And>cfg. effect_gains (upd cfg) = effect_gains cfg" "\<And>cfg. games (upd cfg) = games cfg" "k \<noteq> key"
  shows "config_apply (upd cfg) k raw = map_option upd (config_apply cfg k raw)"
proof (cases "k \<in> set KEYS")
  case False
  then show ?thesis using assms(2-5) by (simp add: other_key(1) option.map_comp comp_def split: option.splits)
qed (use assms(1,6) in simp)

lemma commute_keys:
  "k \<in> set KEYS \<Longrightarrow> k \<noteq> ''enabled'' \<Longrightarrow> config_apply (cfg\<lparr>enabled := v0\<rparr>) k raw = map_option (\<lambda>c. c\<lparr>enabled := v0\<rparr>) (config_apply cfg k raw)"
  "k \<in> set KEYS \<Longrightarrow> k \<noteq> ''intensity'' \<Longrightarrow> config_apply (cfg\<lparr>intensity := v1\<rparr>) k raw = map_option (\<lambda>c. c\<lparr>intensity := v1\<rparr>) (config_apply cfg k raw)"
  "k \<in> set KEYS \<Longrightarrow> k \<noteq> ''pitch'' \<Longrightarrow> config_apply (cfg\<lparr>pitch_pct := v2\<rparr>) k raw = map_option (\<lambda>c. c\<lparr>pitch_pct := v2\<rparr>) (config_apply cfg k raw)"
  "k \<in> set KEYS \<Longrightarrow> k \<noteq> ''wheel'' \<Longrightarrow> config_apply (cfg\<lparr>wheel := v3\<rparr>) k raw = map_option (\<lambda>c. c\<lparr>wheel := v3\<rparr>) (config_apply cfg k raw)"
  "k \<in> set KEYS \<Longrightarrow> k \<noteq> ''leds'' \<Longrightarrow> config_apply (cfg\<lparr>leds := v4\<rparr>) k raw = map_option (\<lambda>c. c\<lparr>leds := v4\<rparr>) (config_apply cfg k raw)"
  "k \<in> set KEYS \<Longrightarrow> k \<noteq> ''screen'' \<Longrightarrow> config_apply (cfg\<lparr>screen := v5\<rparr>) k raw = map_option (\<lambda>c. c\<lparr>screen := v5\<rparr>) (config_apply cfg k raw)"
  "k \<in> set KEYS \<Longrightarrow> k \<noteq> ''screen.template'' \<Longrightarrow> config_apply (cfg\<lparr>screen_template := v6\<rparr>) k raw = map_option (\<lambda>c. c\<lparr>screen_template := v6\<rparr>) (config_apply cfg k raw)"
  "k \<in> set KEYS \<Longrightarrow> k \<noteq> ''effects'' \<Longrightarrow> config_apply (cfg\<lparr>effects := v7\<rparr>) k raw = map_option (\<lambda>c. c\<lparr>effects := v7\<rparr>) (config_apply cfg k raw)"
  by (cases cfg; unfold KEYS_def list.set; elim insertE emptyE; simp add: config_apply_def option.map_comp comp_def)+

lemma commute_others:
  "k \<noteq> ''enabled'' \<Longrightarrow> config_apply (cfg\<lparr>enabled := v0\<rparr>) k raw = map_option (\<lambda>c. c\<lparr>enabled := v0\<rparr>) (config_apply cfg k raw)"
  "k \<noteq> ''intensity'' \<Longrightarrow> config_apply (cfg\<lparr>intensity := v1\<rparr>) k raw = map_option (\<lambda>c. c\<lparr>intensity := v1\<rparr>) (config_apply cfg k raw)"
  "k \<noteq> ''pitch'' \<Longrightarrow> config_apply (cfg\<lparr>pitch_pct := v2\<rparr>) k raw = map_option (\<lambda>c. c\<lparr>pitch_pct := v2\<rparr>) (config_apply cfg k raw)"
  "k \<noteq> ''wheel'' \<Longrightarrow> config_apply (cfg\<lparr>wheel := v3\<rparr>) k raw = map_option (\<lambda>c. c\<lparr>wheel := v3\<rparr>) (config_apply cfg k raw)"
  "k \<noteq> ''leds'' \<Longrightarrow> config_apply (cfg\<lparr>leds := v4\<rparr>) k raw = map_option (\<lambda>c. c\<lparr>leds := v4\<rparr>) (config_apply cfg k raw)"
  "k \<noteq> ''screen'' \<Longrightarrow> config_apply (cfg\<lparr>screen := v5\<rparr>) k raw = map_option (\<lambda>c. c\<lparr>screen := v5\<rparr>) (config_apply cfg k raw)"
  "k \<noteq> ''screen.template'' \<Longrightarrow> config_apply (cfg\<lparr>screen_template := v6\<rparr>) k raw = map_option (\<lambda>c. c\<lparr>screen_template := v6\<rparr>) (config_apply cfg k raw)"
  "k \<noteq> ''effects'' \<Longrightarrow> config_apply (cfg\<lparr>effects := v7\<rparr>) k raw = map_option (\<lambda>c. c\<lparr>effects := v7\<rparr>) (config_apply cfg k raw)"
  by (rule other_cases; (erule (1) commute_keys)?; simp)+

lemma keys_ok: "k \<in> set KEYS \<Longrightarrow> key_ok k"
  using literal_keys(1) by (simp add: list_all_iff)

interpretation enabled_key: edited_key "''enabled''" conf_bool "\<lambda>v c. c\<lparr>enabled := v\<rparr>"
  by unfold_locales (simp_all add: keys_ok KEYS_def config_apply_def [of _ "''enabled''"] commute_others)

interpretation intensity_key: edited_key "''intensity''" parse_percent "\<lambda>v c. c\<lparr>intensity := v\<rparr>"
  by unfold_locales (simp_all add: keys_ok KEYS_def config_apply_def [of _ "''intensity''"] commute_others)

interpretation pitch_key: edited_key "''pitch''" parse_pitch "\<lambda>v c. c\<lparr>pitch_pct := v\<rparr>"
  by unfold_locales (simp_all add: keys_ok KEYS_def config_apply_def [of _ "''pitch''"] commute_others)

interpretation wheel_key: edited_key "''wheel''" choice_parse "\<lambda>v c. c\<lparr>wheel := v\<rparr>"
  by unfold_locales (simp_all add: keys_ok KEYS_def config_apply_def [of _ "''wheel''"] commute_others)

interpretation leds_key: edited_key "''leds''" conf_bool "\<lambda>v c. c\<lparr>leds := v\<rparr>"
  by unfold_locales (simp_all add: keys_ok KEYS_def config_apply_def [of _ "''leds''"] commute_others)

interpretation screen_key: edited_key "''screen''" conf_bool "\<lambda>v c. c\<lparr>screen := v\<rparr>"
  by unfold_locales (simp_all add: keys_ok KEYS_def config_apply_def [of _ "''screen''"] commute_others)

interpretation template_key: edited_key "''screen.template''" parse_template "\<lambda>v c. c\<lparr>screen_template := v\<rparr>"
  by unfold_locales (simp_all add: keys_ok KEYS_def config_apply_def [of _ "''screen.template''"] commute_others)

interpretation effects_key: edited_key "''effects''" conf_bool "\<lambda>v c. c\<lparr>effects := v\<rparr>"
  by unfold_locales (simp_all add: keys_ok KEYS_def config_apply_def [of _ "''effects''"] commute_others)

section \<open>Edits of the front ends\<close>

text \<open>The edits the front ends make of the daemon's own settings, and what each means for the
  daemon.\<close>

datatype Edit = EEnabled bool | EIntensity nat | EPitch nat | EWheel WheelChoice | ELeds bool | EScreen bool
  | ETemplate string | EEffects bool

definition do_edit :: "Edit \<Rightarrow> Fs \<Rightarrow> path \<Rightarrow> (Error + unit) \<times> Fs" where
  "do_edit e fs p =
     (case e of EEnabled b \<Rightarrow> set_enabled_in fs p b | EIntensity v \<Rightarrow> set_intensity_in fs p v | EPitch v \<Rightarrow> set_pitch_in fs p v
      | EWheel c \<Rightarrow> set_wheel_in fs p c | ELeds b \<Rightarrow> set_leds_in fs p b | EScreen b \<Rightarrow> set_screen_in fs p b
      | ETemplate t \<Rightarrow> set_screen_template_in fs p t | EEffects b \<Rightarrow> set_effects_in fs p b)"

definition edited :: "Edit \<Rightarrow> Config \<Rightarrow> Config" where
  "edited e c =
     (case e of EEnabled b \<Rightarrow> c\<lparr>enabled := b\<rparr> | EIntensity v \<Rightarrow> c\<lparr>intensity := min v 100\<rparr>
      | EPitch v \<Rightarrow> c\<lparr>pitch_pct := min 200 (max 10 v)\<rparr> | EWheel w \<Rightarrow> c\<lparr>wheel := w\<rparr> | ELeds b \<Rightarrow> c\<lparr>leds := b\<rparr>
      | EScreen b \<Rightarrow> c\<lparr>screen := b\<rparr> | ETemplate t \<Rightarrow> c\<lparr>screen_template := trim t\<rparr> | EEffects b \<Rightarrow> c\<lparr>effects := b\<rparr>)"

lemma write_key_in_files:
  assumes "write_key_in fs p key val = (Inr (), fs')"
  shows "fs_lookup fs' p = Some (rewrite_key (fs_lookup fs p) key val)" "q \<noteq> p \<Longrightarrow> fs_lookup fs' q = fs_lookup fs q"
proof -
  obtain fs1 where fs1: "fs_write fs1 p (rewrite_key (fs_lookup fs p) key val) = (Inr (), fs')" "\<forall>q. fs_lookup fs1 q = fs_lookup fs q"
    using assms by (auto simp: write_key_in_def create_dir_all_def fs_lookup_def Let_def split: if_splits option.splits prod.splits sum.splits)
  then show "fs_lookup fs' p = Some (rewrite_key (fs_lookup fs p) key val)" "q \<noteq> p \<Longrightarrow> fs_lookup fs' q = fs_lookup fs q"
    using fs_write_read [OF fs1(1)] by simp_all
qed

lemma choice_plain [simp]: "plain (choice_as_str c)"
  by (cases c) (simp_all add: choice_as_str_def plain_def is_space_def)

lemma choice_round_trip: "choice_parse (choice_as_str c) = Some c" "one_line (choice_as_str c)"
proof -
  show "choice_parse (choice_as_str c) = Some c"
    by (cases c) (simp_all add: choice_parse_def plain_trim [OF choice_plain], simp_all add: choice_as_str_def to_ascii_lowercase_def ascii_lower_def)
qed (simp add: plain_one_line)

lemma do_edit_text:
  assumes "do_edit e fs p = (Inr (), fs')" "\<And>t. e = ETemplate t \<Longrightarrow> newline \<notin> set t"
  shows "\<exists>key val. write_key_in fs p key val = (Inr (), fs') \<and>
    (\<forall>contents. fst (load_from_with_report (Some (rewrite_key contents key val))) = edited e (fst (load_from_with_report contents)))"
proof (cases e)
  case (EEnabled b)
  then show ?thesis using assms(1) enabled_key.line_reaches_daemon [of "flag b" b] by (auto simp: do_edit_def edited_def set_enabled_in_def)
next
  case (EIntensity v)
  then show ?thesis using assms(1) intensity_key.line_reaches_daemon [of "dec_nat (min v 100)" "min v 100"]
    by (auto simp: do_edit_def edited_def set_intensity_in_def)
next
  case (EPitch v)
  then show ?thesis using assms(1) pitch_key.line_reaches_daemon [of "dec_nat (min 200 (max 10 v))" "min 200 (max 10 v)"]
    by (auto simp: do_edit_def edited_def set_pitch_in_def)
next
  case (EWheel w)
  then show ?thesis using assms(1) wheel_key.line_reaches_daemon [OF choice_round_trip(2,1)] by (auto simp: do_edit_def edited_def set_wheel_in_def)
next
  case (ELeds b)
  then show ?thesis using assms(1) leds_key.line_reaches_daemon [of "flag b" b] by (auto simp: do_edit_def edited_def set_leds_in_def)
next
  case (EScreen b)
  then show ?thesis using assms(1) screen_key.line_reaches_daemon [of "flag b" b] by (auto simp: do_edit_def edited_def set_screen_in_def)
next
  case (ETemplate t)
  have t: "template_ok (trim t)" "write_key_in fs p ''screen.template'' (trim t) = (Inr (), fs')"
    using assms(1) by (auto simp: ETemplate do_edit_def set_screen_template_in_def template_ok_def Let_def split: if_splits)
  obtain u v where "t = u @ trim t @ v" using trim_parts [of t] by blast
  then have "newline \<notin> set (trim t)" using assms(2) [OF ETemplate] by (metis Un_iff set_append)
  then have "one_line (trim t)" by (simp add: one_line_def)
  then show ?thesis using t template_key.line_reaches_daemon [of "trim t" "trim t"] by (auto simp: ETemplate edited_def)
next
  case (EEffects b)
  then show ?thesis using assms(1) effects_key.line_reaches_daemon [of "flag b" b] by (auto simp: do_edit_def edited_def set_effects_in_def)
qed


definition hand_edited :: Fs where
  "hand_edited = \<lparr>files = [([''etc'', ''tf-sim.conf''], ''port.relay=30000'' @ [newline] @ '' intensity = 80'')], dirs = [[''etc'']], refuses = \<lambda>_. None\<rparr>"


text \<open>A screen template with a line break in it is accepted, and the rest of it becomes a line of
  its own, here one that silences the daemon.\<close>

definition no_files :: Fs where
  "no_files = \<lparr>files = [], dirs = [[''etc'']], refuses = \<lambda>_. None\<rparr>"

theorem template_line_break_becomes_a_line:
  "\<exists>fs'. set_screen_template_in no_files [''etc'', ''tf-sim.conf''] (''G'' @ [newline] @ ''enabled=0'') = (Inr (), fs') \<and>
     enabled (fst (load_from_with_report (fs_lookup no_files [''etc'', ''tf-sim.conf'']))) \<and>
     \<not> enabled (fst (load_from_with_report (fs_lookup fs' [''etc'', ''tf-sim.conf''])))"
proof -
  let ?t = "''G'' @ [newline] @ ''enabled=0''" and ?p = "[''etc'', ''tf-sim.conf'']"
  have old: "fs_lookup no_files ?p = None" by (simp add: no_files_def fs_lookup_def)
  have "trim ?t = ?t" by (rule trim_ends) (simp add: is_space_def)
  then have set: "set_screen_template_in no_files ?p ?t = write_key_in no_files ?p ''screen.template'' ?t"
    by (simp add: set_screen_template_in_def)
  have "\<exists>fs'. write_key_in no_files ?p ''screen.template'' ?t = (Inr (), fs')"
    by (simp add: write_key_in_def create_dir_all_def no_files_def fs_write_def is_dir_def Let_def)
  then obtain fs' where w: "write_key_in no_files ?p ''screen.template'' ?t = (Inr (), fs')" by blast
  have "lines (rewrite_key None ''screen.template'' ?t) = [CONF_HEADER, ''screen.template=G'', ''enabled=0'']" by code_simp
  moreover have "read_line ''enabled=0'' cfg = cfg\<lparr>enabled := False\<rparr>" for cfg
    using enabled_key.read_entry [OF flag_one_line(1) parse_printed(1), of False cfg] by (simp add: flag_def)
  ultimately have "\<not> enabled (fst (load_from_with_report (fs_lookup fs' ?p)))"
    using write_key_in_files(1) [OF w] by (simp add: old load_reads)
  moreover have "enabled (fst (load_from_with_report (fs_lookup no_files ?p)))" by (simp add: old load_from_with_report_def config_default_def)
  ultimately show ?thesis using set w by auto
qed

end
