(* ===== verification/Lease.thy ===== *)
theory Lease
  imports Text
begin

text \<open>
  Who may stream to a wheel: \<open>lease.rs\<close> and the session markers of \<open>native_session.rs\<close> in
  \<open>logi-tf-sim\<close>. The lock files of one machine are their contents and, per file, the open file
  description that holds the \<open>flock\<close>; lock files are never unlinked, so a path is a file. What
  the system refuses is a record of answers. A string is its UTF-8 bytes.
\<close>

section \<open>Lock files\<close>

record lock_fs =
  mkdir_fails :: "string \<Rightarrow> bool"
  open_fails :: "string \<Rightarrow> bool"
  flock_refused :: "string \<Rightarrow> nat option"
  hold_write_fails :: "string \<Rightarrow> bool"
  read_fails :: "string \<Rightarrow> bool"

record lock_world =
  lw_files :: "string \<rightharpoonup> string"
  lw_locks :: "string \<rightharpoonup> nat"

definition UNKNOWN_WHEEL_KEY :: string where "UNKNOWN_WHEEL_KEY = ''unknown-wheel''"
definition ANONYMOUS_HOLDER :: string where "ANONYMOUS_HOLDER = ''another program''"
definition EWOULDBLOCK :: nat where "EWOULDBLOCK = 11"

datatype Busy = Busy (holder: string)

record Lease =
  lease_file :: "nat option"
  lease_path :: "string option"

definition lease_unsupported :: Lease where
  "lease_unsupported = \<lparr>lease_file = None, lease_path = None\<rparr>"

definition is_enforced :: "Lease \<Rightarrow> bool" where
  "is_enforced l \<longleftrightarrow> lease_file l \<noteq> None"

text \<open>\<open>dir\<close>: the override, the runtime directory or a per-user temporary directory.\<close>

definition lease_dir :: "(string \<rightharpoonup> string) \<Rightarrow> string \<Rightarrow> nat \<Rightarrow> string" where
  "lease_dir env temp_dir uid =
     (case env ''LOGI_WHEEL_RUNTIME_DIR'' of
        Some d \<Rightarrow> if trim d \<noteq> [] then d
          else (case env ''XDG_RUNTIME_DIR'' of
                  Some x \<Rightarrow> if trim x \<noteq> [] then path_join x ''logi-wheel'' else path_join temp_dir (''logi-wheel-'' @ dec_nat uid)
                | None \<Rightarrow> path_join temp_dir (''logi-wheel-'' @ dec_nat uid))
      | None \<Rightarrow> (case env ''XDG_RUNTIME_DIR'' of
                  Some x \<Rightarrow> if trim x \<noteq> [] then path_join x ''logi-wheel'' else path_join temp_dir (''logi-wheel-'' @ dec_nat uid)
                | None \<Rightarrow> path_join temp_dir (''logi-wheel-'' @ dec_nat uid)))"

definition is_ascii_alphanumeric :: "char \<Rightarrow> bool" where
  "is_ascii_alphanumeric c \<longleftrightarrow>
     (let n = (of_char c :: nat) in 48 \<le> n \<and> n \<le> 57 \<or> 65 \<le> n \<and> n \<le> 90 \<or> 97 \<le> n \<and> n \<le> 122)"

definition path_atom :: "char \<Rightarrow> bool" where
  "path_atom c \<longleftrightarrow> is_ascii_alphanumeric c \<or> c = CHR ''.'' \<or> c = CHR ''-'' \<or> c = CHR ''_''"

text \<open>One dash for each character that is not a path atom: a continuation byte belongs to the
  character before it.\<close>

fun fold_atoms :: "string \<Rightarrow> string" where
  "fold_atoms [] = []"
| "fold_atoms (c # cs) =
     (if path_atom c then c # fold_atoms cs
      else if 128 \<le> (of_char c :: nat) \<and> (of_char c :: nat) < 192 then fold_atoms cs
      else CHR ''-'' # fold_atoms cs)"

definition file_name_for :: "string \<Rightarrow> string" where
  "file_name_for key = ''tf-stream-'' @ fold_atoms key @ ''.lock''"

definition read_holder :: "lock_fs \<Rightarrow> lock_world \<Rightarrow> string \<Rightarrow> string" where
  "read_holder F w path =
     (let contents = (if read_fails F path then [] else case lw_files w path of Some t \<Rightarrow> t | None \<Rightarrow> []) in
      case lines contents of [] \<Rightarrow> ANONYMOUS_HOLDER
      | l # _ \<Rightarrow> if trim l \<noteq> [] then trim l else ANONYMOUS_HOLDER)"

definition holder_line :: "string \<Rightarrow> nat \<Rightarrow> string" where
  "holder_line who pid = who @ '' (pid '' @ dec_nat pid @ '')''"

text \<open>Opening creates the file if it is absent and keeps its contents; \<open>flock\<close> is refused while
  another description holds the lock.\<close>

definition open_lock_file :: "string \<Rightarrow> lock_world \<Rightarrow> lock_world" where
  "open_lock_file path w = w\<lparr>lw_files := (lw_files w)(path \<mapsto> (case lw_files w path of Some t \<Rightarrow> t | None \<Rightarrow> []))\<rparr>"

definition flock :: "lock_fs \<Rightarrow> lock_world \<Rightarrow> string \<Rightarrow> nat option" where
  "flock F w path =
     (case flock_refused F path of Some e \<Rightarrow> Some e
      | None \<Rightarrow> if lw_locks w path \<noteq> None then Some EWOULDBLOCK else None)"

definition write_holder :: "lock_fs \<Rightarrow> string \<Rightarrow> string \<Rightarrow> lock_world \<Rightarrow> lock_world" where
  "write_holder F path line w = (if hold_write_fails F path then w else w\<lparr>lw_files := (lw_files w)(path \<mapsto> line @ [newline])\<rparr>)"

definition try_acquire_in ::
  "lock_fs \<Rightarrow> string \<Rightarrow> string \<Rightarrow> string \<Rightarrow> nat \<Rightarrow> nat \<Rightarrow> lock_world \<Rightarrow> (Busy + Lease) \<times> lock_world" where
  "try_acquire_in F dir key who pid ofd w =
     (let path = path_join dir (file_name_for key); w1 = open_lock_file path w in
      if mkdir_fails F dir \<or> open_fails F path then (Inr lease_unsupported, w)
      else case flock F w1 path of
          Some e \<Rightarrow> if e = EWOULDBLOCK then (Inl (Busy (read_holder F w1 path)), w1) else (Inr lease_unsupported, w1)
        | None \<Rightarrow>
            (Inr \<lparr>lease_file = Some ofd, lease_path = Some path\<rparr>,
             write_holder F path (holder_line who pid) (w1\<lparr>lw_locks := (lw_locks w1)(path \<mapsto> ofd)\<rparr>)))"

text \<open>Dropping a lease empties the file and closes it, which releases the lock; a process that
  dies only closes it.\<close>

definition lease_close :: "Lease \<Rightarrow> lock_world \<Rightarrow> lock_world" where
  "lease_close l w =
     (case lease_path l of Some path \<Rightarrow> if is_enforced l then w\<lparr>lw_locks := (lw_locks w)(path := None)\<rparr> else w | None \<Rightarrow> w)"

definition lease_drop :: "lock_fs \<Rightarrow> Lease \<Rightarrow> lock_world \<Rightarrow> lock_world" where
  "lease_drop F l w =
     lease_close l
       (case lease_path l of
          Some path \<Rightarrow> if is_enforced l \<and> \<not> hold_write_fails F path then w\<lparr>lw_files := (lw_files w)(path \<mapsto> [])\<rparr> else w
        | None \<Rightarrow> w)"

section \<open>Session markers\<close>

definition marker_path_in :: "string \<Rightarrow> string \<Rightarrow> string" where
  "marker_path_in dir game = path_join dir (''native.'' @ fold_atoms game)"

definition any_active_in :: "string list option \<Rightarrow> bool" where
  "any_active_in entries =
     (case entries of None \<Rightarrow> False | Some names \<Rightarrow> list_ex (\<lambda>n. starts_with n ''native.'') names)"

section \<open>Leases of several programs\<close>

text \<open>The leases alive, by their open file description; description numbers are not reused while
  open.\<close>

record lease_sys =
  ls_world :: lock_world
  ls_live :: "nat \<rightharpoonup> Lease"

inductive lease_step :: "lock_fs \<Rightarrow> string \<Rightarrow> lease_sys \<Rightarrow> lease_sys \<Rightarrow> bool" for F dir where
  acquire: "ls_live s ofd = None \<Longrightarrow> try_acquire_in F dir key who pid ofd (ls_world s) = (Inr l, w) \<Longrightarrow>
    lease_step F dir s \<lparr>ls_world = w, ls_live = (ls_live s)(ofd \<mapsto> l)\<rparr>"
| refuse: "ls_live s ofd = None \<Longrightarrow> try_acquire_in F dir key who pid ofd (ls_world s) = (Inl busy, w) \<Longrightarrow>
    lease_step F dir s (s\<lparr>ls_world := w\<rparr>)"
| release: "ls_live s ofd = Some l \<Longrightarrow>
    lease_step F dir s \<lparr>ls_world = lease_drop F l (ls_world s), ls_live = (ls_live s)(ofd := None)\<rparr>"
| crash: "ls_live s ofd = Some l \<Longrightarrow>
    lease_step F dir s \<lparr>ls_world = lease_close l (ls_world s), ls_live = (ls_live s)(ofd := None)\<rparr>"

definition no_leases :: lease_sys where
  "no_leases = \<lparr>ls_world = \<lparr>lw_files = Map.empty, lw_locks = Map.empty\<rparr>, ls_live = Map.empty\<rparr>"

definition lease_inv :: "lease_sys \<Rightarrow> bool" where
  "lease_inv s \<longleftrightarrow>
     (\<forall>ofd l. ls_live s ofd = Some l \<longrightarrow>
        l = lease_unsupported \<or> (\<exists>p. l = \<lparr>lease_file = Some ofd, lease_path = Some p\<rparr> \<and> lw_locks (ls_world s) p = Some ofd)) \<and>
     (\<forall>p ofd. lw_locks (ls_world s) p = Some ofd \<longrightarrow> ls_live s ofd = Some \<lparr>lease_file = Some ofd, lease_path = Some p\<rparr>)"

lemma try_acquire_cases:
  assumes "try_acquire_in F dir key who pid ofd w = (r, w')"
  obtains (unsupported) "r = Inr lease_unsupported" "lw_locks w' = lw_locks w"
  | (busy) "r = Inl (Busy (read_holder F w' (path_join dir (file_name_for key))))" "lw_locks w' = lw_locks w"
  | (granted) "r = Inr \<lparr>lease_file = Some ofd, lease_path = Some (path_join dir (file_name_for key))\<rparr>"
      "lw_locks w (path_join dir (file_name_for key)) = None"
      "lw_locks w' = (lw_locks w)(path_join dir (file_name_for key) \<mapsto> ofd)"
proof -
  define path where "path = path_join dir (file_name_for key)"
  have locks: "lw_locks (open_lock_file path w) = lw_locks w" "lw_locks (write_holder F path line v) = lw_locks v" for line v
    by (simp_all add: open_lock_file_def write_holder_def)
  note acq = assms [unfolded try_acquire_in_def Let_def, folded path_def]
  show ?thesis
  proof (cases "flock F (open_lock_file path w) path")
    case None
    then have "lw_locks w path = None" by (auto simp: flock_def locks split: option.splits if_splits)
    then show ?thesis using acq None unsupported granted [folded path_def] locks by (auto split: if_splits)
  next
    case (Some e)
    then show ?thesis using acq unsupported busy [folded path_def] locks by (auto split: if_splits)
  qed
qed

lemma lease_inv_live:
  assumes "lease_inv s" "ls_live s ofd = Some l"
  obtains (unsupported) "l = lease_unsupported" | (held) p where "l = \<lparr>lease_file = Some ofd, lease_path = Some p\<rparr>" "lw_locks (ls_world s) p = Some ofd"
  using assms unfolding lease_inv_def by blast

lemma lease_inv_lock: "lease_inv s \<Longrightarrow> lw_locks (ls_world s) p = Some ofd \<Longrightarrow> ls_live s ofd = Some \<lparr>lease_file = Some ofd, lease_path = Some p\<rparr>"
  by (simp add: lease_inv_def)

lemma lease_inv_keep:
  assumes "lease_inv s" "lw_locks w = lw_locks (ls_world s)" "ls_live s ofd = None \<or> ls_live s ofd = Some lease_unsupported"
    and "x = None \<or> x = Some lease_unsupported"
  shows "lease_inv \<lparr>ls_world = w, ls_live = (ls_live s)(ofd := x)\<rparr>"
  unfolding lease_inv_def
proof (intro conjI allI impI, goal_cases)
  case (1 f l)
  show ?case
  proof (cases "f = ofd")
    case False
    then have "ls_live s f = Some l" using 1 by simp
    with assms(1) show ?thesis by (cases rule: lease_inv_live) (use assms(2) in auto)
  qed (use 1 assms(4) in auto)
next
  case (2 p f)
  then have "ls_live s f = Some \<lparr>lease_file = Some f, lease_path = Some p\<rparr>" using lease_inv_lock [OF assms(1)] assms(2) by simp
  moreover from this have "f \<noteq> ofd" using assms(3) by (auto simp: lease_unsupported_def)
  ultimately show ?case by simp
qed

lemma lease_inv_grant:
  assumes "lease_inv s" "ls_live s ofd = None" "lw_locks (ls_world s) p = None" "lw_locks w = (lw_locks (ls_world s))(p \<mapsto> ofd)"
  shows "lease_inv \<lparr>ls_world = w, ls_live = (ls_live s)(ofd \<mapsto> \<lparr>lease_file = Some ofd, lease_path = Some p\<rparr>)\<rparr>"
  unfolding lease_inv_def
proof (intro conjI allI impI, goal_cases)
  case (1 f l)
  show ?case
  proof (cases "f = ofd")
    case False
    then have "ls_live s f = Some l" using 1 by simp
    with assms(1) show ?thesis by (cases rule: lease_inv_live) (use assms(3,4) in auto)
  qed (use 1 assms(4) in \<open>auto intro: exI [of _ p]\<close>)
next
  case (2 q f)
  then show ?case using lease_inv_lock [OF assms(1), of q f] assms by (cases "q = p") auto
qed

lemma lease_inv_free:
  assumes "lease_inv s" "ls_live s ofd = Some \<lparr>lease_file = Some ofd, lease_path = Some p\<rparr>" "lw_locks w = (lw_locks (ls_world s))(p := None)"
  shows "lease_inv \<lparr>ls_world = w, ls_live = (ls_live s)(ofd := None)\<rparr>"
  unfolding lease_inv_def
proof (intro conjI allI impI, goal_cases)
  case (1 f l)
  then have f: "f \<noteq> ofd" "ls_live s f = Some l" by (auto split: if_splits)
  from assms(1,2) have own: "lw_locks (ls_world s) p = Some ofd"
    by (cases rule: lease_inv_live) (simp_all add: lease_unsupported_def)
  from assms(1) f(2) show ?case
    by (cases rule: lease_inv_live) (use f own assms(3) in auto)
next
  case (2 q f)
  then have q: "q \<noteq> p" "lw_locks (ls_world s) q = Some f" using assms(3) by (auto split: if_splits)
  then show ?case using lease_inv_lock [OF assms(1) q(2)] assms(2) by auto
qed

lemma lease_close_locks [simp]:
  "lease_close lease_unsupported w = w" "lw_locks (lease_close \<lparr>lease_file = Some ofd, lease_path = Some p\<rparr> w) = (lw_locks w)(p := None)"
  by (simp_all add: lease_close_def lease_unsupported_def is_enforced_def)

lemma lease_drop_locks [simp]: "lw_locks (lease_drop F l w) = lw_locks (lease_close l w)"
  by (simp add: lease_drop_def lease_close_def split: option.splits)

lemma lease_inv_end:
  assumes inv: "lease_inv s" and live: "ls_live s ofd = Some l" and w: "lw_locks w = lw_locks (lease_close l (ls_world s))"
  shows "lease_inv \<lparr>ls_world = w, ls_live = (ls_live s)(ofd := None)\<rparr>"
  using inv live
proof (cases rule: lease_inv_live)
  case unsupported
  then show ?thesis using inv live w by (intro lease_inv_keep) simp_all
next
  case (held p)
  then show ?thesis using inv live w by (intro lease_inv_free) simp_all
qed

lemma lease_inv_step:
  assumes inv: "lease_inv s" and "lease_step F dir s s'"
  shows "lease_inv s'"
  using assms(2)
proof cases
  case (acquire ofd key who pid l w)
  from acquire(3) show ?thesis unfolding acquire(1)
  proof (cases rule: try_acquire_cases)
    case unsupported
    then have "l = lease_unsupported" by simp
    then show "lease_inv \<lparr>ls_world = w, ls_live = (ls_live s)(ofd \<mapsto> l)\<rparr>"
      using lease_inv_keep [OF inv unsupported(2)] acquire(2) by simp
  next
    case granted
    then show "lease_inv \<lparr>ls_world = w, ls_live = (ls_live s)(ofd \<mapsto> l)\<rparr>"
      using lease_inv_grant [OF inv acquire(2) granted(2,3)] by simp
  qed simp
next
  case (refuse ofd key who pid busy w)
  from refuse(3) have "lw_locks w = lw_locks (ls_world s)" by (cases rule: try_acquire_cases) auto
  then show ?thesis using inv refuse(1) by (simp add: lease_inv_def)
next
  case (release ofd l)
  then show ?thesis using lease_inv_end [OF inv release(2)] by simp
next
  case (crash ofd l)
  then show ?thesis using lease_inv_end [OF inv crash(2)] by simp
qed


lemma lease_reachable_inv: "(lease_step F dir)\<^sup>*\<^sup>* no_leases s \<Longrightarrow> lease_inv s"
proof (induction rule: rtranclp_induct)
  case base
  show ?case by (simp add: lease_inv_def no_leases_def)
next
  case (step y z)
  then show ?case using lease_inv_step by blast
qed

section \<open>Properties\<close>

lemma enforced_lease_locks:
  assumes "lease_inv s" "ls_live s f = Some l" "is_enforced l"
  shows "\<exists>p. l = \<lparr>lease_file = Some f, lease_path = Some p\<rparr> \<and> lw_locks (ls_world s) p = Some f"
  using assms(1,2) by (cases rule: lease_inv_live) (use assms(3) in \<open>simp_all add: is_enforced_def lease_unsupported_def\<close>)

lemma try_acquire_held:
  assumes "try_acquire_in F dir key who pid f w = (Inr l, w')" "is_enforced l"
  shows "\<not> mkdir_fails F dir" "\<not> open_fails F (path_join dir (file_name_for key))"
    "flock_refused F (path_join dir (file_name_for key)) = None"
    "lw_locks w' (path_join dir (file_name_for key)) = Some f"
    "\<not> hold_write_fails F (path_join dir (file_name_for key)) \<Longrightarrow>
       lw_files w' (path_join dir (file_name_for key)) = Some (holder_line who pid @ [newline])"
  using assms
  by (auto simp: try_acquire_in_def Let_def lease_unsupported_def is_enforced_def flock_def write_holder_def
      split: if_splits option.splits)

lemma read_back_holder:
  assumes "newline \<notin> set who" "who \<noteq> []" "\<not> is_space (hd who)"
    and "\<not> read_fails F path" "lw_files w path = Some (holder_line who pid @ [newline])"
  shows "read_holder F w path = holder_line who pid"
proof -
  let ?l = "holder_line who pid"
  have ends: "?l \<noteq> []" "hd ?l = hd who" "last ?l = CHR '')''" using assms(2) by (simp_all add: holder_line_def)
  have nl: "newline \<notin> set ?l" using assms(1) by (simp add: holder_line_def)
  have "lines (?l @ [newline]) = [?l]" using lines_terminated [OF nl] ends by (simp add: strip_cr_def)
  moreover have "trim ?l = ?l" by (rule trim_ends) (use ends assms(3) in \<open>simp add: is_space_def\<close>)
  ultimately show ?thesis using assms(4,5) ends(1) by (simp add: read_holder_def Let_def)
qed

text \<open>C5. Two programs never both hold an enforced lease on one wheel, whatever order they take, drop
  and lose their leases in: two enforced leases on one lock file are the same lease, and the lock
  is held by its open file.\<close>

theorem lease_is_exclusive:
  assumes "(lease_step F dir)\<^sup>*\<^sup>* no_leases s"
    and "ls_live s f = Some l" "is_enforced l" "ls_live s g = Some m" "is_enforced m" "lease_path l = lease_path m"
  shows "f = g \<and> (\<exists>p. lease_path l = Some p \<and> lw_locks (ls_world s) p = Some f)"
proof -
  have inv: "lease_inv s" by (rule lease_reachable_inv [OF assms(1)])
  show ?thesis using enforced_lease_locks [OF inv assms(2,3)] enforced_lease_locks [OF inv assms(4,5)] assms(6) by auto
qed

text \<open>A caller that is refused is told who holds the wheel: the name and process number the
  holder wrote when it took the lease.\<close>

theorem refusal_names_the_holder:
  assumes "try_acquire_in F dir key who pid f w = (Inr l, w1)" "is_enforced l" "\<not> hold_write_fails F (path_join dir (file_name_for key))"
    and "\<not> read_fails F (path_join dir (file_name_for key))" "newline \<notin> set who" "who \<noteq> []" "\<not> is_space (hd who)"
  shows "\<exists>w2. try_acquire_in F dir key other opid g w1 = (Inl (Busy (holder_line who pid)), w2) \<and> lw_locks w2 = lw_locks w1"
proof -
  define path where "path = path_join dir (file_name_for key)"
  note held = try_acquire_held [OF assms(1,2), folded path_def]
  let ?w = "open_lock_file path w1"
  have contents: "lw_files ?w path = Some (holder_line who pid @ [newline])"
    using held(5) assms(3) by (simp add: open_lock_file_def path_def)
  have "read_holder F ?w path = holder_line who pid"
    by (rule read_back_holder [OF assms(5-7) _ contents]) (use assms(4) in \<open>simp add: path_def\<close>)
  then have "try_acquire_in F dir key other opid g w1 = (Inl (Busy (holder_line who pid)), ?w)"
    using held by (simp add: try_acquire_in_def flock_def open_lock_file_def Let_def flip: path_def)
  then show ?thesis by (simp add: open_lock_file_def)
qed

text \<open>Every wheel has a lock file of its own: HID ids are made of letters, digits, colons and
  dots, and on those the file name keeps every difference, and is a single path component.\<close>

definition hid_id_char :: "char \<Rightarrow> bool" where
  "hid_id_char c \<longleftrightarrow> is_ascii_alphanumeric c \<or> c = CHR '':'' \<or> c = CHR ''.''"

lemma fold_atoms_hid:
  assumes "\<forall>c\<in>set s. hid_id_char c"
  shows "fold_atoms s = map (\<lambda>c. if c = CHR '':'' then CHR ''-'' else c) s"
  using assms by (induction s) (auto simp: hid_id_char_def path_atom_def is_ascii_alphanumeric_def)

lemma fold_atoms_no_slash: "CHR ''/'' \<notin> set (fold_atoms s)"
  by (induction s rule: fold_atoms.induct) (auto simp: path_atom_def is_ascii_alphanumeric_def)

theorem wheels_have_distinct_locks:
  assumes "\<forall>c\<in>set a. hid_id_char c" "\<forall>c\<in>set b. hid_id_char c"
  shows "(file_name_for a = file_name_for b \<longleftrightarrow> a = b) \<and> CHR ''/'' \<notin> set (file_name_for a)"
proof -
  let ?f = "\<lambda>c. if c = CHR '':'' then CHR ''-'' else c"
  have inj: "inj_on ?f (Collect hid_id_char)"
    by (auto simp: inj_on_def hid_id_char_def is_ascii_alphanumeric_def split: if_splits)
  have "file_name_for a = file_name_for b \<longleftrightarrow> map ?f a = map ?f b"
    using assms by (simp add: file_name_for_def fold_atoms_hid)
  also have "\<dots> \<longleftrightarrow> a = b"
    by (rule inj_on_map_eq_map, rule inj_on_subset [OF inj]) (use assms in auto)
  finally show ?thesis using fold_atoms_no_slash by (simp add: file_name_for_def)
qed

text \<open>Outside that alphabet two keys can share a file.\<close>

lemma folded_keys_collide: "file_name_for ''a:b'' = file_name_for ''a/b'' \<and> ''a:b'' \<noteq> ''a/b''"
  by (simp add: file_name_for_def path_atom_def is_ascii_alphanumeric_def)

definition answers_all :: lock_fs where
  "answers_all = \<lparr>mkdir_fails = \<lambda>_. False, open_fails = \<lambda>_. False, flock_refused = \<lambda>_. None,
     hold_write_fails = \<lambda>_. False, read_fails = \<lambda>_. False\<rparr>"

definition sim_world :: lock_world where
  "sim_world = snd (try_acquire_in answers_all ''/run'' ''0003:046D:C276.0003'' ''logi-tf-sim'' 42 7 (ls_world no_leases))"

lemma sim_lease_eq:
  "try_acquire_in answers_all ''/run'' ''0003:046D:C276.0003'' ''logi-tf-sim'' 42 7 (ls_world no_leases) =
     (Inr \<lparr>lease_file = Some 7, lease_path = Some ''/run/tf-stream-0003-046D-C276.0003.lock''\<rparr>, sim_world)"
  by (simp add: sim_world_def try_acquire_in_def answers_all_def no_leases_def open_lock_file_def flock_def Let_def
      file_name_for_def path_atom_def is_ascii_alphanumeric_def path_join_def)

theorem lease_is_exclusive_witness:
  "\<exists>s l. (lease_step answers_all ''/run'')\<^sup>*\<^sup>* no_leases s \<and> ls_live s 7 = Some l \<and> is_enforced l \<and>
     (\<exists>p. lease_path l = Some p \<and> lw_locks (ls_world s) p = Some 7)"
proof -
  define l where "l = \<lparr>lease_file = Some (7 :: nat), lease_path = Some ''/run/tf-stream-0003-046D-C276.0003.lock''\<rparr>"
  define s where "s = \<lparr>ls_world = sim_world, ls_live = (ls_live no_leases)(7 \<mapsto> l)\<rparr>"
  have "lease_step answers_all ''/run'' no_leases s" unfolding s_def
    by (rule lease_step.acquire [OF _ sim_lease_eq [folded l_def]])
      (simp add: no_leases_def)
  then have r: "(lease_step answers_all ''/run'')\<^sup>*\<^sup>* no_leases s" by simp
  have "ls_live s 7 = Some l" "is_enforced l" by (simp_all add: s_def l_def is_enforced_def)
  with lease_is_exclusive [OF r this this refl] r show ?thesis by blast
qed

theorem refusal_names_the_holder_witness:
  "\<exists>w2. try_acquire_in answers_all ''/run'' ''0003:046D:C276.0003'' ''sweep'' 43 8 sim_world =
     (Inl (Busy ''logi-tf-sim (pid 42)''), w2)"
proof -
  have "holder_line ''logi-tf-sim'' 42 = ''logi-tf-sim (pid 42)''"
    by code_simp
  then show ?thesis
    using refusal_names_the_holder [OF sim_lease_eq, where other = "''sweep''" and opid = 43 and g = 8]
    by (auto simp: answers_all_def is_enforced_def is_space_def)
qed

theorem wheels_have_distinct_locks_witness:
  "file_name_for ''0003:046D:C276.0003'' \<noteq> file_name_for ''0003:046D:C276.0004''"
  using wheels_have_distinct_locks [of "''0003:046D:C276.0003''" "''0003:046D:C276.0004''"]
  by (simp add: hid_id_char_def is_ascii_alphanumeric_def)

end
