(* ===== verification/Rev_Leds.thy ===== *)
theory Rev_Leds
  imports F32 Text
begin

text \<open>
  The rev strip: \<open>leds.rs\<close> of \<open>logi-tf-sim\<close>. Floating-point levels are computed on the bit
  patterns of the theory \<open>F32\<close>, instants are nanoseconds. A path is the list of its
  components; the files a display writes are a map, and which writes the system refuses (with
  the error) is part of the world, so that it can change between two calls.
\<close>

section \<open>The level\<close>

definition ATTR :: string where "ATTR = ''wheel_rev_level''"
definition IDLE_ATTR :: string where "IDLE_ATTR = ''wheel_led_effect''"
definition SYSFS_ROOT :: "string list" where "SYSFS_ROOT = [''sys'', ''bus'', ''hid'', ''devices'']"
definition LEDS_ROOT :: "string list" where "LEDS_ROOT = [''sys'', ''class'', ''leds'']"

definition RPM_SUFFIXES :: "string list" where
  "RPM_SUFFIXES = [''::RPM1'', ''::RPM2'', ''::RPM3'', ''::RPM4'', ''::RPM5'']"

definition MIN_WRITE_INTERVAL :: nat where "MIN_WRITE_INTERVAL = 16 * 1000000"
definition PIT_FLASH_HALF_PERIOD :: nat where "PIT_FLASH_HALF_PERIOD = 416700 * 1000"

definition as_micros :: "nat \<Rightarrow> nat" where "as_micros d = d div 1000"

definition pit_flash_level :: "nat \<Rightarrow> nat" where
  "pit_flash_level elapsed =
     (let half = as_micros PIT_FLASH_HALF_PERIOD in if as_micros elapsed div half mod 2 = 0 then 10 else 0)"

definition F_TEN :: f32 where "F_TEN = 0x41200000"

definition rev_level :: "f32 \<Rightarrow> f32 \<Rightarrow> nat" where
  "rev_level rpm max_rpm =
     (if f_is_nan max_rpm \<or> f_le max_rpm f_zero then 0
      else f_to_u8 (f_clamp f_zero F_TEN (f_round (f_div (f_mul F_TEN rpm) max_rpm))))"

definition lit_count :: "nat \<Rightarrow> nat" where "lit_count level = (level + 1) div 2"

section \<open>Finding a display\<close>

record led_fs =
  lf_files :: "string list \<rightharpoonup> string"
  lf_refused :: "string list \<rightharpoonup> string"
  lf_log :: "(string list \<times> string) list"

datatype Backend =
    Attr (attr: "string list")
  | Classdevs (brightness: "string list list") (lit: "bool list")

record RevLeds =
  backend :: Backend
  last_level :: "nat option"
  last_write :: "nat option"
  pit_flash_since :: "nat option"
  warned :: bool

definition rev_at :: "string list \<Rightarrow> RevLeds" where
  "rev_at a = \<lparr>backend = Attr a, last_level = None, last_write = None, pit_flash_since = None, warned = False\<rparr>"

definition at_classdevs :: "string list list \<Rightarrow> RevLeds" where
  "at_classdevs bs =
     \<lparr>backend = Classdevs bs (replicate 5 False), last_level = None, last_write = None,
      pit_flash_since = None, warned = False\<rparr>"

definition led_exists :: "led_fs \<Rightarrow> string list \<Rightarrow> bool" where
  "led_exists w p \<longleftrightarrow> lf_files w p \<noteq> None"

text \<open>The five brightness files of the name prefix, if all are there.\<close>

definition brightness_path :: "string list \<Rightarrow> string \<Rightarrow> string \<Rightarrow> string list" where
  "brightness_path base_dir prefix suffix = base_dir @ [prefix @ suffix, ''brightness'']"

fun collect_brightness :: "led_fs \<Rightarrow> string list \<Rightarrow> string \<Rightarrow> string list \<Rightarrow> string list list option" where
  "collect_brightness w base_dir prefix [] = Some []"
| "collect_brightness w base_dir prefix (suffix # rest) =
     (let p = brightness_path base_dir prefix suffix in
      if led_exists w p then map_option ((#) p) (collect_brightness w base_dir prefix rest) else None)"

definition strip_suffix :: "string \<Rightarrow> string \<Rightarrow> string option" where
  "strip_suffix suffix s =
     (if length suffix \<le> length s \<and> drop (length s - length suffix) s = suffix
      then Some (take (length s - length suffix) s) else None)"

fun discover_classdevs_at :: "led_fs \<Rightarrow> string list \<Rightarrow> string list \<Rightarrow> string list list option" where
  "discover_classdevs_at w base_dir [] = None"
| "discover_classdevs_at w base_dir (name # entries) =
     (case strip_suffix (RPM_SUFFIXES ! 0) name of
        None \<Rightarrow> discover_classdevs_at w base_dir entries
      | Some prefix \<Rightarrow>
          (case collect_brightness w base_dir prefix RPM_SUFFIXES of
             Some bs \<Rightarrow> Some bs
           | None \<Rightarrow> discover_classdevs_at w base_dir entries))"

definition discover_for_at :: "led_fs \<Rightarrow> string \<Rightarrow> string list \<Rightarrow> string list \<Rightarrow> RevLeds option" where
  "discover_for_at w hid_id sysfs_root leds_root =
     (let a = sysfs_root @ [hid_id, ATTR] in
      if led_exists w a then Some (rev_at a)
      else map_option at_classdevs (collect_brightness w leds_root hid_id RPM_SUFFIXES))"

definition discover_for :: "led_fs \<Rightarrow> string \<Rightarrow> RevLeds option" where
  "discover_for w hid_id = discover_for_at w hid_id SYSFS_ROOT LEDS_ROOT"

definition sysfs_dir_override :: "(string \<rightharpoonup> string) \<Rightarrow> string option" where
  "sysfs_dir_override env =
     (case env ''LOGI_WHEEL_SYSFS_DIR'' of Some d \<Rightarrow> Some d | None \<Rightarrow> env ''LOGI_DD_SYSFS_DIR'')"

text \<open>\<open>listing\<close> is what \<open>read_dir\<close> answers for a directory; \<open>dirs\<close> splits the override into
  its components.\<close>

definition discover ::
  "led_fs \<Rightarrow> (string \<rightharpoonup> string) \<Rightarrow> (string \<Rightarrow> string list) \<Rightarrow> (string list \<Rightarrow> string list option) \<Rightarrow> RevLeds option" where
  "discover w env dirs listing =
     (case sysfs_dir_override env of
        Some d \<Rightarrow>
          (let dir = dirs d in
           if led_exists w (dir @ [ATTR]) then Some (rev_at (dir @ [ATTR]))
           else map_option at_classdevs
             (case listing (dir @ [''leds'']) of None \<Rightarrow> None | Some es \<Rightarrow> discover_classdevs_at w (dir @ [''leds'']) es))
      | None \<Rightarrow>
          (case listing SYSFS_ROOT of
             None \<Rightarrow> None
           | Some es \<Rightarrow>
               (case List.find (\<lambda>e. led_exists w (SYSFS_ROOT @ [e, ATTR])) es of
                  Some e \<Rightarrow> Some (rev_at (SYSFS_ROOT @ [e, ATTR]))
                | None \<Rightarrow> map_option at_classdevs
                    (case listing LEDS_ROOT of None \<Rightarrow> None | Some ns \<Rightarrow> discover_classdevs_at w LEDS_ROOT ns))))"

section \<open>The other writer\<close>

definition BRIDGE_COMM :: string where "BRIDGE_COMM = ''logi-rpm-bridge''"

fun lowest_bridge :: "(string \<times> string option) list \<Rightarrow> nat option \<Rightarrow> nat option" where
  "lowest_bridge [] found = found"
| "lowest_bridge ((name, comm) # entries) found =
     (case parse_unsigned 4294967295 name of
        None \<Rightarrow> lowest_bridge entries found
      | Some pid \<Rightarrow>
          (case comm of
             None \<Rightarrow> lowest_bridge entries found
           | Some c \<Rightarrow>
               if trim c \<noteq> BRIDGE_COMM then lowest_bridge entries found
               else lowest_bridge entries (Some (case found of None \<Rightarrow> pid | Some lowest \<Rightarrow> min lowest pid))))"

definition other_owner_at :: "(string \<times> string option) list option \<Rightarrow> string option" where
  "other_owner_at proc_entries =
     (case proc_entries of
        None \<Rightarrow> None
      | Some es \<Rightarrow> map_option (\<lambda>pid. BRIDGE_COMM @ '' (pid '' @ dec_nat pid @ '')'') (lowest_bridge es None))"

section \<open>Driving the strip\<close>

definition led_write :: "string list \<Rightarrow> string \<Rightarrow> led_fs \<Rightarrow> string option \<times> led_fs" where
  "led_write p c w =
     (case lf_refused w p of Some e \<Rightarrow> (Some e, w) | None \<Rightarrow> (None, w\<lparr>lf_files := (lf_files w)(p \<mapsto> c)\<rparr>))"

text \<open>The loop over the five pairs: what is lit afterwards, the first failure, the world.\<close>

definition write_pair ::
  "bool \<Rightarrow> string list \<Rightarrow> bool \<Rightarrow> (string list \<times> string) option \<Rightarrow> led_fs \<Rightarrow> bool \<times> (string list \<times> string) option \<times> led_fs" where
  "write_pair on p b failure w =
     (if b = on then (b, failure, w)
      else case led_write p (if on then ''1'' else ''0'') w of
          (None, w') \<Rightarrow> (on, failure, w')
        | (Some e, w') \<Rightarrow> (b, (case failure of None \<Rightarrow> Some (p, e) | Some f \<Rightarrow> Some f), w'))"

fun write_pairs ::
  "nat \<Rightarrow> nat \<Rightarrow> string list list \<Rightarrow> bool list \<Rightarrow> (string list \<times> string) option \<Rightarrow> led_fs \<Rightarrow>
   bool list \<times> (string list \<times> string) option \<times> led_fs" where
  "write_pairs target i (p # ps) (b # bs) failure w =
     (case write_pair (i < target) p b failure w of (b', failure', w') \<Rightarrow>
      case write_pairs target (Suc i) ps bs failure' w' of (bs', r) \<Rightarrow> (b' # bs', r))"
| "write_pairs target i ps bs failure w = (bs, failure, w)"

definition write_level :: "RevLeds \<Rightarrow> nat \<Rightarrow> led_fs \<Rightarrow> (string list \<times> string) option \<times> RevLeds \<times> led_fs" where
  "write_level leds level w =
     (case backend leds of
        Attr a \<Rightarrow> (case led_write a (dec_nat level) w of (e, w') \<Rightarrow> (map_option (Pair a) e, leds, w'))
      | Classdevs ps bs \<Rightarrow>
          (case write_pairs (lit_count level) 0 ps bs None w of
             (bs', failure, w') \<Rightarrow> (failure, leds\<lparr>backend := Classdevs ps bs'\<rparr>, w')))"

definition target_level :: "RevLeds \<Rightarrow> f32 \<Rightarrow> f32 \<Rightarrow> bool \<Rightarrow> nat \<Rightarrow> nat \<times> RevLeds" where
  "target_level leds rpm max_rpm pit_limiter now =
     (if pit_limiter then
        (let since = (case pit_flash_since leds of Some s \<Rightarrow> s | None \<Rightarrow> now) in
         (pit_flash_level (now - since), leds\<lparr>pit_flash_since := Some since\<rparr>))
      else (rev_level rpm max_rpm, leds\<lparr>pit_flash_since := None\<rparr>))"

definition rev_update :: "RevLeds \<Rightarrow> f32 \<Rightarrow> f32 \<Rightarrow> bool \<Rightarrow> nat \<Rightarrow> led_fs \<Rightarrow> RevLeds \<times> led_fs" where
  "rev_update leds rpm max_rpm pit_limiter now w =
     (case target_level leds rpm max_rpm pit_limiter now of (level, leds1) \<Rightarrow>
      if last_level leds1 = Some level then (leds1, w)
      else if (case last_write leds1 of None \<Rightarrow> False | Some t \<Rightarrow> now - t < MIN_WRITE_INTERVAL) then (leds1, w)
      else case write_level leds1 level w of
          (None, leds2, w') \<Rightarrow> (leds2\<lparr>last_level := Some level, last_write := Some now\<rparr>, w')
        | (Some failure, leds2, w') \<Rightarrow>
            if warned leds2 then (leds2, w')
            else (leds2\<lparr>warned := True\<rparr>, w'\<lparr>lf_log := lf_log w' @ [failure]\<rparr>))"

definition write_ignored :: "string list \<Rightarrow> string \<Rightarrow> led_fs \<Rightarrow> led_fs" where
  "write_ignored p c w = snd (led_write p c w)"

definition rev_stop :: "RevLeds \<Rightarrow> led_fs \<Rightarrow> RevLeds \<times> led_fs" where
  "rev_stop leds w =
     (case backend leds of
        Attr a \<Rightarrow>
          (let w1 = write_ignored a ''0'' w; idle = butlast a @ [IDLE_ATTR] in
           (leds\<lparr>last_level := None, last_write := None\<rparr>,
            case lf_files w1 idle of None \<Rightarrow> w1 | Some current \<Rightarrow> write_ignored idle (trim current) w1))
      | Classdevs ps bs \<Rightarrow>
          (leds\<lparr>backend := Classdevs ps (replicate (length bs) False), last_level := None, last_write := None\<rparr>,
           fold (\<lambda>p w. write_ignored p ''0'' w) ps w))"

section \<open>Runs of the daemon\<close>

text \<open>One sample fed to the display, with the writes the system refuses at that time; the answer
  is the time of a level write that landed.\<close>

record led_input =
  in_refused :: "string list \<rightharpoonup> string"
  in_rpm :: f32
  in_max_rpm :: f32
  in_pit :: bool
  in_now :: nat

definition feed :: "RevLeds \<times> led_fs \<Rightarrow> led_input \<Rightarrow> nat option \<times> RevLeds \<times> led_fs" where
  "feed s x =
     (let (leds, w) = rev_update (fst s) (in_rpm x) (in_max_rpm x) (in_pit x) (in_now x) ((snd s)\<lparr>lf_refused := in_refused x\<rparr>) in
      (if last_level leds = last_level (fst s) then None else Some (in_now x), leds, w))"

text \<open>What the display believes is what its files hold.\<close>

definition pair_shown :: "led_fs \<Rightarrow> string list \<Rightarrow> bool \<Rightarrow> bool" where
  "pair_shown w p b \<longleftrightarrow> lf_files w p = Some (if b then ''1'' else ''0'')"

definition shows_level :: "RevLeds \<Rightarrow> led_fs \<Rightarrow> nat \<Rightarrow> bool" where
  "shows_level leds w level \<longleftrightarrow>
     level \<le> 10 \<and>
     (case backend leds of
        Attr a \<Rightarrow> lf_files w a = Some (dec_nat level)
      | Classdevs ps bs \<Rightarrow> list_all2 (pair_shown w) ps (map (\<lambda>j. j < lit_count level) [0..<5]))"

definition pairs_inv :: "RevLeds \<times> led_fs \<Rightarrow> bool" where
  "pairs_inv s \<longleftrightarrow>
     (case backend (fst s) of
        Attr a \<Rightarrow> True
      | Classdevs ps bs \<Rightarrow> distinct ps \<and> length ps = 5 \<and> list_all2 (pair_shown (snd s)) ps bs)"

definition display_inv :: "RevLeds \<times> led_fs \<Rightarrow> bool" where
  "display_inv s \<longleftrightarrow>
     pairs_inv s \<and> (case last_level (fst s) of None \<Rightarrow> True | Some l \<Rightarrow> shows_level (fst s) (snd s) l)"

text \<open>The same with a system that refuses nothing.\<close>

definition feed_ok :: "RevLeds \<times> led_fs \<Rightarrow> led_input \<Rightarrow> nat option \<times> RevLeds \<times> led_fs" where
  "feed_ok s x = feed s (x\<lparr>in_refused := Map.empty\<rparr>)"

section \<open>The level is a faithful bar\<close>

lemma F_TEN_facts [simp]: "f_key F_TEN = 0x41200000" "\<not> f_is_nan F_TEN" "\<not> f_neg F_TEN" "f_mag F_TEN = 0x41200000"
  "\<not> f_is_inf F_TEN" "\<not> f_is_zero F_TEN" "f_is_finite F_TEN" "f_val F_TEN = 10"
  by (simp_all add: F_TEN_def f_key_def f_neg_def f_mag_def f_is_nan_def f_is_inf_def f_is_zero_def f_is_finite_def F_INF_def units_def f_val_def)

lemma f_zero_facts [simp]: "\<not> f_neg 0" "f_mag 0 = 0" "f_val 0 = 0" "f_to_u8 0 = 0"
  by (simp_all add: f_neg_def f_mag_def f_val_def f_to_u8_def f_is_inf_def F_INF_def)

lemma f_to_u8_ten [simp]: "f_to_u8 F_TEN = 10"
  by (simp add: f_to_u8_def)

text \<open>What the rounding, the clamp and the cast make of a quotient: nothing for a NaN, the
  nearest whole number otherwise, cut off at zero and at ten.\<close>

definition bar :: "f32 \<Rightarrow> nat" where
  "bar x = f_to_u8 (f_clamp f_zero F_TEN (f_round x))"

lemma digit_units:
  assumes "n \<le> (10 :: nat)"
  shows "\<exists>k. units k = n * 2 ^ 149 \<and> k \<le> 0x41200000 \<and> (n < 10 \<longrightarrow> k < 0x41200000)"
proof -
  have "n \<in> {0, 1, 2, 3, 4, 5, 6, 7, 8, 9, 10}" using assms by simp presburger
  then show ?thesis
    by (elim insertE emptyE)
      (rule exI [of _ "0"], simp add: units_def,
       rule exI [of _ "0x3f800000"], simp add: units_def,
       rule exI [of _ "0x40000000"], simp add: units_def,
       rule exI [of _ "0x40400000"], simp add: units_def,
       rule exI [of _ "0x40800000"], simp add: units_def,
       rule exI [of _ "0x40a00000"], simp add: units_def,
       rule exI [of _ "0x40c00000"], simp add: units_def,
       rule exI [of _ "0x40e00000"], simp add: units_def,
       rule exI [of _ "0x41000000"], simp add: units_def,
       rule exI [of _ "0x41100000"], simp add: units_def,
       rule exI [of _ "0x41200000"], simp add: units_def)
qed

lemma f_of_rat_digit:
  assumes "n \<le> (10 :: nat)"
  shows "f_val (f_of_rat s (of_nat n)) = (if s then - of_nat n else of_nat n)" "f_mag (f_of_rat s (of_nat n)) \<le> 0x41200000"
    "n < 10 \<Longrightarrow> f_mag (f_of_rat s (of_nat n)) < 0x41200000"
proof -
  obtain k where k: "units k = n * 2 ^ 149" "k \<le> 0x41200000" "n < 10 \<longrightarrow> k < 0x41200000" using digit_units [OF assms] by blast
  have "\<bar>of_nat n\<bar> * (2 :: rat) ^ 149 = of_nat (units k)" by (simp add: k(1))
  then have m: "f_mag (f_of_rat s (of_nat n)) = k"
    unfolding f_of_rat_mag using k(2) round_mag_units [of k] by (simp add: F_INF_def)
  then show "f_mag (f_of_rat s (of_nat n)) \<le> 0x41200000" "n < 10 \<Longrightarrow> f_mag (f_of_rat s (of_nat n)) < 0x41200000"
    using k by simp_all
  show "f_val (f_of_rat s (of_nat n)) = (if s then - of_nat n else of_nat n)"
    by (cases s) (use m in \<open>simp_all add: f_val_def k(1) f_of_rat_mag(2)\<close>)
qed

lemma f_of_rat_mono: "\<bar>p\<bar> \<le> \<bar>q\<bar> \<Longrightarrow> f_mag (f_of_rat s p) \<le> f_mag (f_of_rat t q)"
  unfolding f_of_rat_mag by (intro round_mag_mono) (simp_all add: mult_right_mono)

lemma f_of_rat_large:
  assumes "10 \<le> q"
  shows "0x41200000 \<le> f_mag (f_of_rat s q)"
proof -
  have "f_mag (f_of_rat s (of_nat 10)) \<le> f_mag (f_of_rat s q)" using assms by (intro f_of_rat_mono) simp
  moreover have "f_mag (f_of_rat s (of_nat 10)) = 0x41200000"
    unfolding f_of_rat_mag using round_mag_units [of "0x41200000"] by (simp add: F_INF_def units_def)
  ultimately show ?thesis by simp
qed

lemma bar_eq:
  "bar x = (if f_is_nan x \<or> f_neg x then 0 else if f_is_inf x then 10 else min 10 (nat \<lfloor>f_val x + 1 / 2\<rfloor>))"
proof -
  consider "f_is_nan x" | "f_is_inf x" | "f_is_finite x" "f_neg x" | "f_is_finite x" "\<not> f_neg x"
    unfolding f_is_nan_def f_is_inf_def f_is_finite_def by (metis nat_neq_iff)
  then show ?thesis
  proof cases
    case 1
    then show ?thesis by (auto simp: bar_def f_round_def f_is_finite_def f_is_nan_def f_clamp_def f_lt_def f_to_u8_def)
  next
    case 2
    then have "f_round x = x" "\<not> f_is_nan x" "f_key x = (if f_neg x then - int F_INF else int F_INF)"
      by (simp_all add: f_round_def f_is_finite_def f_is_inf_def f_is_nan_def f_key_def)
    then show ?thesis using 2 by (simp add: bar_def f_clamp_def f_lt_def F_INF_def)
  next
    case 3
    then have "f_neg (f_round x)" "\<not> f_is_nan (f_round x)" by (simp_all add: f_round_def f_of_rat_mag(2))
    then show ?thesis using 3 by (auto simp: bar_def f_clamp_def f_lt_def f_to_u8_def f_key_def f_is_inf_def F_INF_def)
  next
    case 4
    define n where "n = nat \<lfloor>f_val x + 1 / 2\<rfloor>"
    have nn: "0 \<le> f_val x" using f_val_nonneg [OF 4(2)] .
    have "of_int \<lfloor>\<bar>f_val x\<bar> + 1 / 2\<rfloor> = (of_nat n :: rat)" using nn by (simp add: n_def)
    then have r: "f_round x = f_of_rat False (of_nat n)" using 4 by (simp add: f_round_def)
    have key: "f_key (f_of_rat False (of_nat n)) = int (f_mag (f_of_rat False (of_nat n)))" by (simp add: f_key_def f_of_rat_mag(2))
    have res: "bar x = min 10 n"
    proof (cases "n < 10")
      case True
      note d = f_of_rat_digit [of n False]
      have "bar x = f_to_u8 (f_of_rat False (of_nat n))"
        using d(2) True by (simp add: bar_def r f_clamp_def f_lt_def key)
      also have "\<dots> = n" using d True by (simp add: f_to_u8_def f_of_rat_mag(2) f_is_inf_def F_INF_def)
      finally show ?thesis using True by simp
    next
      case False
      then have ge: "0x41200000 \<le> f_mag (f_of_rat False (of_nat n))" by (intro f_of_rat_large) simp
      show ?thesis
      proof (cases "f_mag (f_of_rat False (of_nat n)) = 0x41200000")
        case True
        then have "f_of_rat False (of_nat n) = F_TEN" using f_make_parts [of F_TEN] f_make_parts [of "f_of_rat False (of_nat n)"]
          by (simp add: f_of_rat_mag(2))
        then show ?thesis using \<open>\<not> n < 10\<close> by (simp add: bar_def r f_clamp_def f_lt_def)
      next
        case False
        then show ?thesis using ge \<open>\<not> n < 10\<close> by (simp add: bar_def r f_clamp_def f_lt_def key)
      qed
    qed
    show ?thesis using 4 res n_def by (simp add: f_is_inf_def f_is_finite_def)
  qed
qed

lemma bar_le: "bar x \<le> 10"
  by (simp add: bar_eq)

lemma f_val_mono: "\<not> f_neg x \<Longrightarrow> \<not> f_neg y \<Longrightarrow> f_mag x \<le> f_mag y \<Longrightarrow> f_val x \<le> f_val y"
  by (simp add: f_val_def divide_right_mono)

lemma bar_mono:
  assumes "\<not> f_neg x" "\<not> f_neg y" "\<not> f_is_nan y" "f_mag x \<le> f_mag y"
  shows "bar x \<le> bar y"
proof -
  have "nat \<lfloor>f_val x + 1 / 2\<rfloor> \<le> nat \<lfloor>f_val y + 1 / 2\<rfloor>"
    using f_val_mono [OF assms(1,2,4)] by (intro nat_mono floor_mono) simp
  then show ?thesis using assms by (auto simp: bar_eq f_is_nan_def f_is_inf_def)
qed

lemma rev_level_bar:
  "rev_level rpm max_rpm = (if f_is_nan max_rpm \<or> f_le max_rpm f_zero then 0 else bar (f_div (f_mul F_TEN rpm) max_rpm))"
  by (simp add: rev_level_def bar_def)

lemma f_of_rat_le_inf: "f_mag (f_of_rat s q) \<le> F_INF"
  using f_of_rat_not_nan [of s q] by (simp add: f_is_nan_def)

lemma f_make_inf [simp]: "f_mag (f_make s F_INF) = F_INF" "f_neg (f_make s F_INF) = s"
  by (simp_all add: F_INF_def)

lemma f_mul_ten_eq:
  "\<not> f_is_nan x \<Longrightarrow>
   f_mul F_TEN x = (if f_is_inf x then f_make (f_neg x) F_INF else f_of_rat (f_neg x) (10 * f_val x))"
  by (simp add: f_mul_def)

lemma f_mul_ten:
  assumes "\<not> f_is_nan x"
  shows "\<not> f_is_nan (f_mul F_TEN x)" "f_neg (f_mul F_TEN x) = f_neg x"
    "\<not> f_is_nan y \<Longrightarrow> f_mag x \<le> f_mag y \<Longrightarrow> f_mag (f_mul F_TEN x) \<le> f_mag (f_mul F_TEN y)"
proof -
  show "\<not> f_is_nan (f_mul F_TEN x)" "f_neg (f_mul F_TEN x) = f_neg x"
    using assms by (simp_all add: f_mul_ten_eq f_of_rat_mag(2)) (simp add: f_is_nan_def)
  assume y: "\<not> f_is_nan y" "f_mag x \<le> f_mag y"
  have "\<bar>10 * f_val x\<bar> \<le> \<bar>10 * f_val y\<bar>" using y(2) by (simp add: abs_mult f_val_abs divide_right_mono)
  then show "f_mag (f_mul F_TEN x) \<le> f_mag (f_mul F_TEN y)"
    using assms y f_of_rat_le_inf f_of_rat_mono by (auto simp: f_mul_ten_eq f_is_nan_def f_is_inf_def)
qed

text \<open>Division of the scaled speed by a positive redline.\<close>

lemma positive_redline:
  assumes "\<not> f_is_nan m" "\<not> f_le m f_zero"
  shows "\<not> f_neg m" "0 < f_mag m" "\<not> f_is_zero m" "0 < f_val m"
proof -
  show m: "\<not> f_neg m" "0 < f_mag m" using assms by (auto simp: f_le_def f_key_def split: if_splits)
  then show "\<not> f_is_zero m" by (simp add: f_is_zero_def)
  have "0 < units (f_mag m)" using m(2) units_less_iff [of 0 "f_mag m"] by simp
  then show "0 < f_val m" using m(1) by (simp add: f_val_def)
qed

lemma f_div_redline:
  assumes "\<not> f_is_nan m" "\<not> f_le m f_zero" "\<not> f_is_nan a"
  shows "f_div a m = (if f_is_inf m then (if f_is_inf a then f_quiet_nan else f_make (f_neg a) 0)
    else if f_is_inf a then f_make (f_neg a) F_INF else f_of_rat (f_neg a) (f_val a / f_val m))"
  using assms positive_redline [OF assms(1,2)] by (auto simp: f_div_def)

lemma bar_zero [simp]: "bar (f_make s 0) = 0" "bar f_quiet_nan = 0"
  by (auto simp: bar_eq f_val_def f_is_inf_def F_INF_def)

lemma bar_div_mono:
  assumes m: "\<not> f_is_nan m" "\<not> f_le m f_zero" and a: "\<not> f_is_nan a" "\<not> f_neg a" and b: "\<not> f_is_nan b" "\<not> f_neg b"
    and le: "f_mag a \<le> f_mag b"
  shows "bar (f_div a m) \<le> bar (f_div b m)"
proof (cases "f_is_inf m")
  case True
  then show ?thesis using f_div_redline [OF m a(1)] by simp
next
  case False
  have "\<bar>f_val a / f_val m\<bar> \<le> \<bar>f_val b / f_val m\<bar>"
    using le by (simp add: f_val_abs divide_right_mono)
  then have "f_mag (f_of_rat False (f_val a / f_val m)) \<le> f_mag (f_of_rat False (f_val b / f_val m))" by (rule f_of_rat_mono)
  then show ?thesis
    using a b le False f_of_rat_le_inf
    by (intro bar_mono) (auto simp: f_div_redline [OF m] f_of_rat_mag(2) f_is_nan_def f_is_inf_def not_less)
qed

lemma bar_div_neg:
  assumes "\<not> f_is_nan m" "\<not> f_le m f_zero" "\<not> f_is_nan a" "f_neg a"
  shows "bar (f_div a m) = 0"
  using assms by (simp add: f_div_redline bar_eq f_of_rat_mag(2))

lemma f_of_rat_zero [simp]: "f_of_rat s 0 = f_make s 0"
  using round_mag_units [of 0] by (simp add: f_of_rat_def F_INF_def)

lemma rev_level_dark:
  assumes "f_le a f_zero"
  shows "rev_level a m = 0"
proof (cases "f_is_nan m \<or> f_le m f_zero")
  case False
  have nan: "\<not> f_is_nan a" using assms by (simp add: f_le_def)
  show ?thesis
  proof (cases "f_neg a")
    case True
    then show ?thesis using False f_mul_ten [OF nan] by (simp add: rev_level_bar bar_div_neg)
  next
    case pos: False
    then have "f_mag a = 0" using assms by (simp add: f_le_def f_key_def)
    then have a: "f_val a = 0" "\<not> f_is_inf a" by (simp_all add: f_val_def f_is_inf_def F_INF_def)
    have z: "\<not> f_is_nan (f_make False 0)" "\<not> f_is_inf (f_make False 0)" "f_val (f_make False 0) = 0"
      by (simp_all add: f_is_nan_def f_is_inf_def F_INF_def f_val_def)
    then show ?thesis using a pos nan False by (simp add: rev_level_bar f_mul_ten_eq f_div_redline)
  qed
qed (simp add: rev_level_def)

lemma rev_level_mono:
  assumes "f_le a b"
  shows "rev_level a m \<le> rev_level b m"
proof (cases "f_is_nan m \<or> f_le m f_zero \<or> f_le a f_zero")
  case True
  then show ?thesis using rev_level_dark [of a m] by (auto simp: rev_level_def)
next
  case False
  have ab: "\<not> f_is_nan a" "\<not> f_is_nan b" "f_key a \<le> f_key b" using assms by (simp_all add: f_le_def)
  have "\<not> f_neg a" "\<not> f_neg b" "f_mag a \<le> f_mag b" using ab False by (auto simp: f_le_def f_key_def split: if_splits)
  then show ?thesis using False f_mul_ten [OF ab(1)] f_mul_ten [OF ab(2)] ab by (simp add: rev_level_bar bar_div_mono)
qed

lemma units_step:
  assumes "8388608 \<le> k"
  shows "units (Suc k) * 8388608 \<le> units k * 8388609"
proof -
  define e f where "e = k div 8388608 - 1" and "f = k mod 8388608"
  have k: "k = 8388608 * Suc e + f" "f < 8388608" using assms by (simp_all add: e_def f_def div_greater_zero_iff)
  have "k div 8388608 = Suc e" "k mod 8388608 = f"
    using k(2) assms by (simp_all add: e_def f_def div_greater_zero_iff)
  note parts = this
  then have "units k = (8388608 + f) * 2 ^ e" by (simp add: units_def)
  moreover have "units (Suc k) = (8388609 + f) * 2 ^ e"
  proof (cases "Suc f < 8388608")
    case True
    then have "Suc k div 8388608 = Suc e" "Suc k mod 8388608 = Suc f" using parts by (simp_all add: div_Suc mod_Suc)
    then show ?thesis by (simp add: units_def)
  next
    case False
    then have f: "f = 8388607" using k(2) by simp
    have "Suc k = 8388608 * Suc (Suc e)" by (simp add: k(1) f)
    then show ?thesis by (simp add: units_def f)
  qed
  ultimately show ?thesis by simp
qed

lemma scaled_close:
  assumes q: "q = of_nat n" and fin: "round_mag q < F_INF"
  shows "19 / 20 * q \<le> of_nat (units (round_mag q))"
proof -
  let ?k = "floor_mag q"
  have q0: "0 \<le> q" by (simp add: q)
  note sp = floor_mag_spec [OF q0] and rb = round_mag_between [OF q0]
  have lt: "q < of_nat (units (Suc ?k))" using sp(3) rb fin by auto
  have "19 / 20 * q \<le> of_nat (units ?k)"
  proof (cases "8388608 \<le> ?k")
    case True
    have "(of_nat (units (Suc ?k) * 8388608) :: rat) \<le> of_nat (units ?k * 8388609)" using units_step [OF True] by (simp only: of_nat_le_iff)
    then show ?thesis using lt q0 by simp
  next
    case False
    have "units ?k = ?k" using False by (simp add: units_def)
    moreover have "units (Suc ?k) = Suc ?k"
    proof (cases "Suc ?k = 8388608")
      case True
      then show ?thesis unfolding True by (simp add: units_def)
    qed (use False in \<open>simp add: units_def\<close>)
    ultimately have "units ?k = ?k" "units (Suc ?k) = Suc ?k" .
    then have "n = ?k" using sp(2) lt q by simp
    then show ?thesis using \<open>units ?k = ?k\<close> q by simp
  qed
  also have "\<dots> \<le> of_nat (units (round_mag q))" using rb by simp
  finally show ?thesis .
qed

lemma bar_redline:
  assumes "\<not> f_neg x" "\<not> f_is_nan x" "0x41180000 \<le> f_mag x"
  shows "bar x = 10"
proof (cases "f_is_inf x")
  case False
  have "units 0x41180000 \<le> units (f_mag x)" using assms(3) by simp
  moreover have "units 0x41180000 = 19 * 2 ^ 148" by (simp add: units_def)
  ultimately have "(of_nat (19 * 2 ^ 148) :: rat) \<le> of_nat (units (f_mag x))" by (simp only: of_nat_le_iff)
  then have "19 / 2 \<le> f_val x" using assms(1) by (simp add: f_val_def)
  then have "10 \<le> \<lfloor>f_val x + 1 / 2\<rfloor>" by (simp add: le_floor_iff)
  then have "10 \<le> nat \<lfloor>f_val x + 1 / 2\<rfloor>" by (simp add: le_nat_iff)
  then show ?thesis using False assms by (simp add: bar_eq)
qed (use assms in \<open>simp add: bar_eq\<close>)

lemma rev_level_redline:
  assumes "f_is_finite m" "f_lt f_zero m"
  shows "rev_level m m = 10"
proof -
  have m: "\<not> f_is_nan m" "\<not> f_le m f_zero" "\<not> f_is_inf m"
    using assms by (auto simp: f_lt_def f_le_def f_is_finite_def f_is_inf_def)
  note pos = positive_redline [OF m(1,2)]
  define a where "a = f_mul F_TEN m"
  have a: "\<not> f_is_nan a" "\<not> f_neg a" "a = f_of_rat False (10 * f_val m)"
    using f_mul_ten [OF m(1)] pos(1) m by (simp_all add: a_def f_mul_ten_eq)
  have "bar (f_div a m) = 10"
  proof (cases "f_is_inf a")
    case True
    then show ?thesis using a m by (simp add: f_div_redline bar_eq f_is_nan_def f_is_inf_def)
  next
    case False
    define q :: rat where "q = of_nat (10 * units (f_mag m))"
    have q: "\<bar>10 * f_val m\<bar> * 2 ^ 149 = q" using pos(1) by (simp add: q_def f_val_def)
    have am: "f_mag a = round_mag q" unfolding a(3) f_of_rat_mag q ..
    have "round_mag q < F_INF" using am False a(1) by (auto simp: f_is_inf_def f_is_nan_def)
    then have "19 / 20 * q \<le> of_nat (units (f_mag a))" unfolding am by (intro scaled_close [OF q_def])
    then have "19 / 2 * f_val m \<le> f_val a" using a(2) pos(1) by (simp add: f_val_def q_def)
    then have "\<bar>19 / 2\<bar> \<le> \<bar>f_val a / f_val m\<bar>" using pos(4) by (simp add: pos_le_divide_eq)
    then have "f_mag (f_of_rat False (19 / 2)) \<le> f_mag (f_of_rat False (f_val a / f_val m))" by (rule f_of_rat_mono)
    moreover have "f_mag (f_of_rat False (19 / 2)) = 0x41180000"
      unfolding f_of_rat_mag using round_mag_units [of "0x41180000"] by (simp add: F_INF_def units_def)
    ultimately show ?thesis using a(2) m f_div_redline [OF m(1,2) a(1)] False by (simp add: bar_redline f_of_rat_mag(2))
  qed
  then show ?thesis using m by (simp add: rev_level_bar a_def)
qed

text \<open>The strip is a bar of the engine speed: never more than ten lights, never fewer at a higher
  speed, dark at a standstill (and for a car with no redline), full at the redline. That holds
  for every pair of floating-point values that are not NaN, infinities and subnormal numbers
  included.\<close>

theorem rev_level_is_a_bar:
  assumes "f_le a b"
  shows "rev_level a m \<le> rev_level b m \<and> rev_level b m \<le> 10 \<and>
    (f_le a f_zero \<longrightarrow> rev_level a m = 0) \<and>
    (f_is_nan m \<or> f_le m f_zero \<longrightarrow> rev_level b m = 0) \<and>
    (f_is_finite a \<and> f_lt f_zero a \<longrightarrow> rev_level b a = 10)"
proof (intro conjI impI)
  show "rev_level a m \<le> rev_level b m" using assms by (rule rev_level_mono)
  show "rev_level b m \<le> 10" using bar_le by (simp add: rev_level_bar)
  show "rev_level a m = 0" if "f_le a f_zero" using that by (rule rev_level_dark)
  show "rev_level b m = 0" if "f_is_nan m \<or> f_le m f_zero" using that by (simp add: rev_level_def)
  assume "f_is_finite a \<and> f_lt f_zero a"
  then have "rev_level a a = 10" by (simp add: rev_level_redline)
  moreover have "rev_level b a \<le> 10" using bar_le by (simp add: rev_level_bar)
  ultimately show "rev_level b a = 10" using rev_level_mono [OF assms, of a] by simp
qed

text \<open>At 8000 rpm of 8000 the strip is full; at 4000 it is no fuller.\<close>

theorem rev_level_is_a_bar_witness:
  "rev_level 0x457a0000 0x45fa0000 \<le> rev_level 0x45fa0000 0x45fa0000 \<and> rev_level 0x45fa0000 0x457a0000 = 10"
  using rev_level_is_a_bar [of "0x457a0000" "0x45fa0000" "0x45fa0000"]
  by (simp add: f_le_def f_lt_def f_is_nan_def f_is_finite_def f_key_def f_neg_def f_mag_def F_INF_def)

section \<open>Driving the strip, call by call\<close>

lemma write_pair_spec:
  assumes "write_pair on p b failure w = (b', failure', w')" "pair_shown w p b"
  shows "pair_shown w' p b'" "lf_refused w' = lf_refused w" "lf_log w' = lf_log w" "q \<noteq> p \<Longrightarrow> lf_files w' q = lf_files w q"
    "failure' = None \<Longrightarrow> failure = None \<and> b' = on" "failure = None \<Longrightarrow> lf_refused w p = None \<Longrightarrow> failure' = None"
  using assms by (auto simp: write_pair_def led_write_def pair_shown_def split: if_splits option.splits)

lemma pairs_shown_cong: "(\<And>p. p \<in> set ps \<Longrightarrow> lf_files w' p = lf_files w p) \<Longrightarrow> list_all2 (pair_shown w) ps bs \<Longrightarrow> list_all2 (pair_shown w') ps bs"
  by (auto simp: list_all2_conv_all_nth pair_shown_def)

lemma write_pairs_spec:
  assumes "write_pairs target i ps bs failure w = (bs', failure', w')" "distinct ps" "list_all2 (pair_shown w) ps bs"
  shows "list_all2 (pair_shown w') ps bs' \<and> lf_refused w' = lf_refused w \<and> lf_log w' = lf_log w \<and>
    (\<forall>q. q \<notin> set ps \<longrightarrow> lf_files w' q = lf_files w q) \<and>
    (failure' = None \<longrightarrow> failure = None \<and> bs' = map (\<lambda>j. j < target) [i..<i + length ps]) \<and>
    (failure = None \<longrightarrow> (\<forall>p\<in>set ps. lf_refused w p = None) \<longrightarrow> failure' = None)"
  using assms
proof (induction ps arbitrary: i bs failure w bs')
  case (Cons p ps)
  from Cons.prems(3) obtain b bs0 where bs: "bs = b # bs0" "pair_shown w p b" "list_all2 (pair_shown w) ps bs0"
    by (auto simp: list_all2_Cons1)
  obtain b1 f1 w1 where one: "write_pair (i < target) p b failure w = (b1, f1, w1)" by (cases "write_pair (i < target) p b failure w")
  obtain bs1 where rest: "write_pairs target (Suc i) ps bs0 f1 w1 = (bs1, failure', w')" "bs' = b1 # bs1"
    using Cons.prems(1) by (auto simp: bs one split: prod.splits)
  note sp = write_pair_spec [OF one bs(2)]
  have p: "p \<notin> set ps" "distinct ps" using Cons.prems(2) by simp_all
  have "list_all2 (pair_shown w1) ps bs0" by (rule pairs_shown_cong [OF _ bs(3)]) (use sp(4) p(1) in metis)
  note IH = Cons.IH [OF rest(1) p(2) this]
  have "lf_files w' p = lf_files w1 p" using IH p(1) by blast
  then have here: "pair_shown w' p b1" using sp(1) by (simp add: pair_shown_def)
  have upt: "[i..<i + length (p # ps)] = i # [Suc i..<Suc i + length ps]" by (subst upt_conv_Cons) simp_all
  have done_all: "failure = None \<and> bs' = map (\<lambda>j. j < target) [i..<i + length (p # ps)]" if "failure' = None"
    unfolding upt rest(2) using IH sp(5) that by simp
  have ok_all: "failure' = None" if "failure = None" "\<forall>q\<in>set (p # ps). lf_refused w q = None"
    using IH sp(2,6) that by simp
  have other: "lf_files w' q = lf_files w q" if "q \<notin> set (p # ps)" for q
    using IH sp(4) that by simp
  have shown: "list_all2 (pair_shown w') (p # ps) bs'" using IH here by (simp add: rest(2))
  have "lf_refused w' = lf_refused w" "lf_log w' = lf_log w" using IH sp(2,3) by simp_all
  then show ?case using shown other done_all ok_all by blast
qed simp

lemma levels_le [simp]: "rev_level rpm m \<le> 10" "pit_flash_level d \<le> 10"
  using bar_le by (simp_all add: rev_level_bar pit_flash_level_def Let_def)

lemma target_level_le: "target_level leds rpm max_rpm pit now = (level, leds') \<Longrightarrow> level \<le> 10"
  by (auto simp: target_level_def Let_def split: if_splits)

lemma target_level_keeps:
  assumes "target_level leds rpm max_rpm pit now = (level, leds')"
  shows "backend leds' = backend leds" "last_level leds' = last_level leds" "last_write leds' = last_write leds"
  using assms by (simp_all add: target_level_def Let_def split: if_splits) auto

lemma pair_shown_cong: "lf_files w' = lf_files w \<Longrightarrow> pair_shown w' = pair_shown w"
  by (intro ext) (simp add: pair_shown_def)

lemma shows_level_cong:
  "backend leds' = backend leds \<Longrightarrow> lf_files w' = lf_files w \<Longrightarrow> shows_level leds' w' l = shows_level leds w l"
  by (simp add: shows_level_def pair_shown_cong [of w' w] split: Backend.splits)

lemma pairs_inv_cong:
  "backend leds' = backend leds \<Longrightarrow> lf_files w' = lf_files w \<Longrightarrow> pairs_inv (leds', w') = pairs_inv (leds, w)"
  by (simp add: pairs_inv_def pair_shown_cong [of w' w] split: Backend.splits)

lemma write_level_spec:
  assumes "write_level leds level w = (r, leds', w')" "pairs_inv (leds, w)"
  shows "pairs_inv (leds', w') \<and> (r = None \<longrightarrow> level \<le> 10 \<longrightarrow> shows_level leds' w' level) \<and>
    (lf_refused w = Map.empty \<longrightarrow> r = None) \<and> last_level leds' = last_level leds \<and> last_write leds' = last_write leds"
proof (cases "backend leds")
  case (Attr a)
  then show ?thesis using assms
    by (auto simp: write_level_def led_write_def pairs_inv_def shows_level_def split: option.splits)
next
  case (Classdevs ps bs)
  have ps: "distinct ps" "length ps = 5" "list_all2 (pair_shown w) ps bs" using assms(2) Classdevs by (simp_all add: pairs_inv_def)
  obtain bs' where r: "write_pairs (lit_count level) 0 ps bs None w = (bs', r, w')" "leds' = leds\<lparr>backend := Classdevs ps bs'\<rparr>"
    using assms(1) Classdevs by (auto simp: write_level_def split: prod.splits)
  note sp = write_pairs_spec [OF r(1) ps(1,3)]
  have "[0..<0 + length ps] = [0..<5]" using ps(2) by simp
  then have "r = None \<longrightarrow> list_all2 (pair_shown w') ps (map (\<lambda>j. j < lit_count level) [0..<5])" using sp by metis
  then show ?thesis using sp ps by (simp add: r(2) pairs_inv_def shows_level_def)
qed

text \<open>One call of \<open>rev_update\<close>, by what it does.\<close>

lemma rev_update_cases:
  assumes "rev_update leds rpm max_rpm pit now w = (leds', w')" "pairs_inv (leds, w)"
  obtains (same) level where "last_level leds' = last_level leds" "last_write leds' = last_write leds" "last_level leds = Some level"
      "level = fst (target_level leds rpm max_rpm pit now)" "backend leds' = backend leds" "w' = w"
  | (early) t where "last_level leds' = last_level leds" "last_write leds' = last_write leds" "last_write leds = Some t"
      "now < t + MIN_WRITE_INTERVAL" "backend leds' = backend leds" "w' = w"
  | (written) level where "last_level leds' = Some level" "last_write leds' = Some now" "last_level leds \<noteq> Some level"
      "level = fst (target_level leds rpm max_rpm pit now)" "pairs_inv (leds', w')" "shows_level leds' w' level"
      "\<forall>t. last_write leds = Some t \<longrightarrow> t + MIN_WRITE_INTERVAL \<le> now"
  | (failed) "last_level leds' = last_level leds" "last_write leds' = last_write leds" "pairs_inv (leds', w')" "lf_refused w \<noteq> Map.empty"
proof -
  obtain level leds1 where t: "target_level leds rpm max_rpm pit now = (level, leds1)" by (cases "target_level leds rpm max_rpm pit now")
  note k = target_level_keeps [OF t]
  obtain r leds2 w2 where wl: "write_level leds1 level w = (r, leds2, w2)" by (cases "write_level leds1 level w") auto
  have "pairs_inv (leds1, w)" using assms(2) pairs_inv_cong [OF k(1) refl] by blast
  note sp = write_level_spec [OF wl this]
  have pos: "0 < MIN_WRITE_INTERVAL" by (simp add: MIN_WRITE_INTERVAL_def)
  consider "last_level leds = Some level"
    | u where "last_level leds \<noteq> Some level" "last_write leds = Some u" "now - u < MIN_WRITE_INTERVAL"
    | "last_level leds \<noteq> Some level" "\<forall>u. last_write leds = Some u \<longrightarrow> \<not> now - u < MIN_WRITE_INTERVAL"
    by blast
  then show ?thesis
  proof cases
    case 1
    then have "leds' = leds1" "w' = w" using assms(1) t k by (simp_all add: rev_update_def)
    then show ?thesis using 1 t k by (intro same [of level]) simp_all
  next
    case (2 u)
    have "now < u + MIN_WRITE_INTERVAL" using 2(3) by linarith
    moreover have "leds' = leds1" "w' = w" using 2 assms(1) t k by (simp_all add: rev_update_def)
    ultimately show ?thesis using 2 k by (intro early [of u]) simp_all
  next
    case 3
    have go: "(leds', w') = (case r of None \<Rightarrow> (leds2\<lparr>last_level := Some level, last_write := Some now\<rparr>, w2)
      | Some failure \<Rightarrow> if warned leds2 then (leds2, w2) else (leds2\<lparr>warned := True\<rparr>, w2\<lparr>lf_log := lf_log w2 @ [failure]\<rparr>))"
      using 3 assms(1) t k wl by (auto simp: rev_update_def split: option.splits if_splits)
    have gap: "\<forall>u. last_write leds = Some u \<longrightarrow> u + MIN_WRITE_INTERVAL \<le> now" using 3(2) pos by fastforce
    show ?thesis
    proof (cases r)
      case None
      then have w: "leds' = leds2\<lparr>last_level := Some level, last_write := Some now\<rparr>" "w' = w2" using go by simp_all
      have "pairs_inv (leds', w')" "shows_level leds' w' level"
        using sp None target_level_le [OF t] pairs_inv_cong [of leds' leds2 w2 w2] shows_level_cong [of leds' leds2 w2 w2]
        by (simp_all add: w)
      then show ?thesis using 3(1) gap t w(1) by (intro written [of level]) simp_all
    next
      case (Some failure)
      then have f: "backend leds' = backend leds2" "lf_files w' = lf_files w2" "last_level leds' = last_level leds2" "last_write leds' = last_write leds2"
        using go by (auto split: if_splits)
      have "pairs_inv (leds', w')" using sp pairs_inv_cong [OF f(1,2)] by blast
      moreover have "lf_refused w \<noteq> Map.empty" using sp Some by auto
      ultimately show ?thesis using sp k f by (intro failed) simp_all
    qed
  qed
qed

text \<open>Two contracts of a run of samples: the pairs are as the display believes under every
  refusal, and on a system that refuses nothing the strip shows the level last written.\<close>

lemma display_inv_cong:
  "backend leds' = backend leds \<Longrightarrow> last_level leds' = last_level leds \<Longrightarrow> lf_files w' = lf_files w \<Longrightarrow>
   display_inv (leds', w') = display_inv (leds, w)"
  using pairs_inv_cong [of leds' leds w' w] shows_level_cong [of leds' leds w' w] by (simp add: display_inv_def split: option.splits)

lemma feed_update:
  assumes "feed (leds, w) x = (r, leds', w')"
  shows "rev_update leds (in_rpm x) (in_max_rpm x) (in_pit x) (in_now x) (w\<lparr>lf_refused := in_refused x\<rparr>) = (leds', w')"
    "r = (if last_level leds' = last_level leds then None else Some (in_now x))"
    "pairs_inv (leds, w\<lparr>lf_refused := in_refused x\<rparr>) = pairs_inv (leds, w)"
  using assms pairs_inv_cong [of leds leds "w\<lparr>lf_refused := in_refused x\<rparr>" w] by (auto simp: feed_def split: prod.splits)

lemma feed_pairs:
  assumes "pairs_inv s" "feed s x = (r, s')"
  shows "pairs_inv s'" "r = None \<Longrightarrow> last_write (fst s') = last_write (fst s)"
    "r = Some t \<Longrightarrow> last_write (fst s') = Some t \<and> (\<forall>u. last_write (fst s) = Some u \<longrightarrow> u + MIN_WRITE_INTERVAL \<le> t)"
proof -
  obtain leds w leds' w' where s: "s = (leds, w)" "s' = (leds', w')" by (cases s, cases s')
  note up = feed_update [OF assms(2) [unfolded s]]
  have inv: "pairs_inv (leds, w\<lparr>lf_refused := in_refused x\<rparr>)" using assms(1) up(3) by (simp add: s)
  from up(1) inv have "pairs_inv (leds', w') \<and> (r = None \<longrightarrow> last_write leds' = last_write leds) \<and>
    (r = Some t \<longrightarrow> last_write leds' = Some t \<and> (\<forall>u. last_write leds = Some u \<longrightarrow> u + MIN_WRITE_INTERVAL \<le> t))" for t
    by (cases rule: rev_update_cases) (use inv up(2) pairs_inv_cong [of leds' leds w' w'] in auto)
  then show "pairs_inv s'" "r = None \<Longrightarrow> last_write (fst s') = last_write (fst s)"
    "r = Some t \<Longrightarrow> last_write (fst s') = Some t \<and> (\<forall>u. last_write (fst s) = Some u \<longrightarrow> u + MIN_WRITE_INTERVAL \<le> t)"
    by (simp_all add: s)
qed

lemma feed_ok_display:
  assumes "display_inv s" "feed_ok s x = (r, s')"
  shows "display_inv s'"
    "\<forall>u. last_write (fst s) = Some u \<longrightarrow> u + MIN_WRITE_INTERVAL \<le> in_now x \<Longrightarrow>
       last_level (fst s') = Some (fst (target_level (fst s) (in_rpm x) (in_max_rpm x) (in_pit x) (in_now x)))"
proof -
  obtain leds w leds' w' where s: "s = (leds, w)" "s' = (leds', w')" by (cases s, cases s')
  note up = feed_update [OF assms(2) [unfolded s feed_ok_def]]
  let ?w = "w\<lparr>lf_refused := Map.empty\<rparr>"
  have "display_inv (leds, ?w)" using assms(1) display_inv_cong [of leds leds ?w w] by (simp add: s)
  moreover have "pairs_inv (leds, ?w)" using assms(1) up(3) by (simp add: s display_inv_def)
  moreover have up1: "rev_update leds (in_rpm x) (in_max_rpm x) (in_pit x) (in_now x) ?w = (leds', w')" using up(1) by simp
  ultimately have "display_inv (leds', w') \<and>
      ((\<forall>u. last_write leds = Some u \<longrightarrow> u + MIN_WRITE_INTERVAL \<le> in_now x) \<longrightarrow>
       last_level leds' = Some (fst (target_level leds (in_rpm x) (in_max_rpm x) (in_pit x) (in_now x))))"
    by (cases rule: rev_update_cases [OF up1]) (use display_inv_cong [of leds' leds w' ?w] in \<open>simp_all add: display_inv_def\<close>)
  then show "display_inv s'"
    "\<forall>u. last_write (fst s) = Some u \<longrightarrow> u + MIN_WRITE_INTERVAL \<le> in_now x \<Longrightarrow>
       last_level (fst s') = Some (fst (target_level (fst s) (in_rpm x) (in_max_rpm x) (in_pit x) (in_now x)))"
    unfolding s by simp_all
qed

interpretation believed: invariant_steps feed pairs_inv
  by unfold_locales (rule feed_pairs(1))

interpretation shown: invariant_steps feed_ok display_inv
  by unfold_locales (rule feed_ok_display(1))

lemma paced_run:
  "pairs_inv s \<Longrightarrow> run_ops feed s xs = (rs, s') \<Longrightarrow>
   sorted_wrt (\<lambda>a b. a + MIN_WRITE_INTERVAL \<le> b) (List.map_filter (\<lambda>r. r) rs) \<and>
   (\<forall>u. last_write (fst s) = Some u \<longrightarrow> (\<forall>t\<in>set (List.map_filter (\<lambda>r. r) rs). u + MIN_WRITE_INTERVAL \<le> t))"
proof (induction xs arbitrary: s rs)
  case (Cons x xs)
  obtain r s1 where one: "feed s x = (r, s1)" by (cases "feed s x")
  obtain rs1 where rest: "run_ops feed s1 xs = (rs1, s')" "rs = r # rs1" using Cons.prems(2) one by (auto split: prod.splits)
  note f = feed_pairs [OF Cons.prems(1) one]
  note IH = Cons.IH [OF f(1) rest(1)]
  show ?case
  proof (cases r)
    case None
    then show ?thesis using IH f(2) by (simp add: rest(2) map_filter_simps)
  next
    case (Some t)
    then have "\<forall>v\<in>set (List.map_filter (\<lambda>r. r) rs1). t + MIN_WRITE_INTERVAL \<le> v" using IH f(3) by blast
    then show ?thesis using IH f(3) [OF Some] Some by (fastforce simp: rest(2) map_filter_simps)
  qed
qed (simp add: map_filter_simps)

section \<open>Properties of the display\<close>


text \<open>Level writes that land are at least 16 ms apart, whatever the times of the samples are and
  whatever writes the system refuses; and the lit pairs are always those the display believes.\<close>

theorem level_writes_paced:
  assumes "pairs_inv s" "run_ops feed s xs = (rs, s')"
  shows "sorted_wrt (\<lambda>a b. a + MIN_WRITE_INTERVAL \<le> b) (List.map_filter (\<lambda>r. r) rs) \<and> pairs_inv s'"
  using paced_run [OF assms] believed.run_inv [OF assms] by blast

lemma collect_brightness_eq:
  "collect_brightness w d prefix ss = Some bs \<Longrightarrow> bs = map (brightness_path d prefix) ss \<and> (\<forall>p\<in>set bs. led_exists w p)"
  by (induction ss arbitrary: bs) (auto simp: Let_def split: if_splits)

definition display_paths :: "RevLeds \<Rightarrow> string list set" where
  "display_paths leds = (case backend leds of Attr a \<Rightarrow> {a, butlast a @ [IDLE_ATTR]} | Classdevs ps bs \<Rightarrow> set ps)"

lemma discover_for_paths:
  assumes "discover_for w hid_id = Some leds"
  shows "display_paths leds \<subseteq> {SYSFS_ROOT @ [hid_id, ATTR], SYSFS_ROOT @ [hid_id, IDLE_ATTR]} \<union>
    brightness_path LEDS_ROOT hid_id ` set RPM_SUFFIXES"
  using assms
  by (auto simp: discover_for_def discover_for_at_def Let_def rev_at_def at_classdevs_def display_paths_def butlast_append
      dest!: collect_brightness_eq split: if_splits)

text \<open>A display belongs to one wheel: what is found for a HID id is only ever written below that
  id's own directories, so the displays of two wheels share no file, and every file of a
  quintet exists.\<close>

theorem displays_belong_to_one_wheel:
  assumes "discover_for w a = Some leds_a" "discover_for w b = Some leds_b" "a \<noteq> b"
  shows "display_paths leds_a \<inter> display_paths leds_b = {}"
proof -
  let ?A = "\<lambda>h. {SYSFS_ROOT @ [h, ATTR], SYSFS_ROOT @ [h, IDLE_ATTR]} \<union> brightness_path LEDS_ROOT h ` set RPM_SUFFIXES"
  have "p \<notin> ?A b" if "p \<in> ?A a" for p
    using that assms(3) by (auto simp: brightness_path_def LEDS_ROOT_def SYSFS_ROOT_def RPM_SUFFIXES_def)
  then show ?thesis using discover_for_paths [OF assms(1)] discover_for_paths [OF assms(2)] by blast
qed

definition bridge_pid :: "string \<times> string option \<Rightarrow> nat option" where
  "bridge_pid e = (case snd e of Some c \<Rightarrow> if trim c = BRIDGE_COMM then parse_unsigned 4294967295 (fst e) else None | None \<Rightarrow> None)"

text \<open>The process named is a running bridge, and the one with the lowest number.\<close>

lemma bridge_pid_pair:
  "bridge_pid (n, c) = (case c of Some c \<Rightarrow> if trim c = BRIDGE_COMM then parse_unsigned 4294967295 n else None | None \<Rightarrow> None)"
  by (simp add: bridge_pid_def split: option.splits)

lemma lowest_bridge_min:
  "lowest_bridge es found =
     (case found of
        Some l \<Rightarrow> Some (fold min (List.map_filter bridge_pid es) l)
      | None \<Rightarrow> (case List.map_filter bridge_pid es of [] \<Rightarrow> None | p # ps \<Rightarrow> Some (fold min ps p)))"
  by (induction es arbitrary: found)
    (auto simp: map_filter_simps bridge_pid_pair min.commute split: option.splits list.splits if_splits)

lemma lowest_bridge_least:
  "lowest_bridge es None = (let pids = set (List.map_filter bridge_pid es) in if pids = {} then None else Some (Min pids))"
  by (cases "List.map_filter bridge_pid es") (simp_all add: lowest_bridge_min Min.set_eq_fold [symmetric])

definition strip_files :: "string list list" where
  "strip_files = map (brightness_path LEDS_ROOT ''wheel'') RPM_SUFFIXES"

definition dark_strip :: "RevLeds \<times> led_fs" where
  "dark_strip = (at_classdevs strip_files,
     \<lparr>lf_files = map_of (map (\<lambda>p. (p, ''0'')) strip_files), lf_refused = Map.empty, lf_log = []\<rparr>)"

definition sample_at :: "nat \<Rightarrow> bool \<Rightarrow> f32 \<Rightarrow> led_input" where
  "sample_at t pit rpm = \<lparr>in_refused = Map.empty, in_rpm = rpm, in_max_rpm = 0x45fa0000, in_pit = pit, in_now = t\<rparr>"

lemma strip_files_eq:
  "strip_files = [[''sys'', ''class'', ''leds'', ''wheel::RPM1'', ''brightness''], [''sys'', ''class'', ''leds'', ''wheel::RPM2'', ''brightness''],
     [''sys'', ''class'', ''leds'', ''wheel::RPM3'', ''brightness''], [''sys'', ''class'', ''leds'', ''wheel::RPM4'', ''brightness''],
     [''sys'', ''class'', ''leds'', ''wheel::RPM5'', ''brightness'']]"
  by (simp add: strip_files_def brightness_path_def LEDS_ROOT_def RPM_SUFFIXES_def)

lemma dark_strip_inv: "display_inv dark_strip" "pairs_inv dark_strip"
  by (simp_all add: dark_strip_def at_classdevs_def display_inv_def pairs_inv_def pair_shown_def strip_files_eq numeral_eq_Suc)


theorem level_writes_paced_witness:
  "\<exists>rs s'. run_ops feed dark_strip [sample_at 0 True 0, sample_at 5 False 0] = (rs, s') \<and>
     sorted_wrt (\<lambda>a b. a + MIN_WRITE_INTERVAL \<le> b) (List.map_filter (\<lambda>r. r) rs)"
proof -
  obtain rs s' where r: "run_ops feed dark_strip [sample_at 0 True 0, sample_at 5 False 0] = (rs, s')"
    by (cases "run_ops feed dark_strip [sample_at 0 True 0, sample_at 5 False 0]")
  then show ?thesis using level_writes_paced [OF dark_strip_inv(2) r] by blast
qed

theorem displays_belong_to_one_wheel_witness:
  "\<exists>a b. discover_for \<lparr>lf_files = (\<lambda>p. Some []), lf_refused = Map.empty, lf_log = []\<rparr> ''w1'' = Some a \<and>
     discover_for \<lparr>lf_files = (\<lambda>p. Some []), lf_refused = Map.empty, lf_log = []\<rparr> ''w2'' = Some b \<and>
     display_paths a \<inter> display_paths b = {}"
  using displays_belong_to_one_wheel [of "\<lparr>lf_files = (\<lambda>p. Some []), lf_refused = Map.empty, lf_log = []\<rparr>" "''w1''" _ "''w2''"]
  by (simp add: discover_for_def discover_for_at_def led_exists_def)

section \<open>A refused pair\<close>

text \<open>A level write that lands on some of the pairs only does not change the level the display
  remembers. When the next level is the remembered one, the call returns at once and the pairs
  that did change keep their light: here the strip is dark, a full strip is refused on the
  outermost pair only, the engine stands still again, and four pairs stay lit although nothing
  is refused any more.\<close>

lemma lit_counts: "lit_count 10 = 5" "lit_count 0 = 0" by (simp_all add: lit_count_def)

lemma five: "replicate 5 False = [False, False, False, False, False]" by (simp add: numeral_eq_Suc)

theorem refused_pair_leaves_lights_on:
  "\<exists>rs s'. run_ops feed dark_strip
       [sample_at 0 False 0, (sample_at 16000000 True 0)\<lparr>in_refused := [hd strip_files \<mapsto> ''EACCES'']\<rparr>, sample_at 32000000 False 0] = (rs, s') \<and>
     last_level (fst s') = Some 0 \<and> lf_files (snd s') (strip_files ! 1) = Some ''1''"
  by (simp add: feed_def sample_at_def dark_strip_def at_classdevs_def rev_update_def target_level_def rev_level_dark f_le_def
      write_level_def lit_counts five strip_files_eq write_pair_def led_write_def pit_flash_level_def as_micros_def MIN_WRITE_INTERVAL_def)

end
