(* ===== verification/Relay.thy ===== *)
theory Relay
  imports F32 Text
begin

text \<open>
  The telemetry relay: the normalized sample of \<open>telemetry.rs\<close>, the wire format and the listener
  of \<open>relay.rs\<close>, and the captured-sample format of \<open>tfstream.rs\<close> (all in \<open>logi-wheel-core\<close>).
  Game ids are their bytes; a byte string that is not UTF-8 equals none of them. Sockets are the
  owners of the ports of one host, and time is milliseconds.
\<close>

section \<open>Samples\<close>

record Telemetry =
  t_rpm :: f32
  t_max_rpm :: f32
  t_throttle :: f32
  t_speed :: f32
  t_pit_limiter :: bool
  t_gear :: i8
  t_brake :: f32
  t_clutch :: f32
  t_abs_active :: bool
  t_traction_control :: bool
  t_wheel_slip :: f32
  t_airborne :: bool
  t_surface_roughness :: f32
  t_impact_g :: f32
  t_drs_active :: bool

definition telemetry_default :: Telemetry where
  "telemetry_default = \<lparr>t_rpm = 0, t_max_rpm = 0, t_throttle = 0, t_speed = 0, t_pit_limiter = False, t_gear = 0,
     t_brake = 0, t_clutch = 0, t_abs_active = False, t_traction_control = False, t_wheel_slip = 0,
     t_airborne = False, t_surface_roughness = 0, t_impact_g = 0, t_drs_active = False\<rparr>"

record RelayTelemetry =
  r_game_id :: string
  r_rpm :: f32
  r_max_rpm :: f32
  r_throttle :: f32
  r_gear :: i16
  r_speed :: f32
  r_brake :: f32
  r_airborne :: bool

definition to_telemetry :: "RelayTelemetry \<Rightarrow> Telemetry" where
  "to_telemetry t = telemetry_default\<lparr>
     t_rpm := r_rpm t,
     t_max_rpm := r_max_rpm t,
     t_throttle := f_clamp f_zero f_one (r_throttle t),
     t_speed := (if f_is_finite (r_speed t) then f_max (r_speed t) f_zero else 0),
     t_brake := (if f_is_finite (r_brake t) then f_clamp f_zero f_one (r_brake t) else 0),
     t_gear := word_of_int (clamp_int (-128) 127 (sint (r_gear t))),
     t_airborne := r_airborne t\<rparr>"

section \<open>Wire format\<close>

definition bytes_of :: "string \<Rightarrow> u8 list" where
  "bytes_of s = map of_char s"

definition RELAY_ID :: string where "RELAY_ID = ''relay''"

definition GAME_IDS :: "string list" where
  "GAME_IDS = [''ets2'', ''ats'', ''iracing'', ''raceroom'', ''assetto'', ''acc'', ''ac-evo'', ''lmu'', ''rf2'', RELAY_ID]"

definition GAME_ID_LEN :: nat where "GAME_ID_LEN = 8"
definition RELAY_PORT :: u16 where "RELAY_PORT = 20780"
definition RELAY_MAGIC :: "u8 list" where "RELAY_MAGIC = bytes_of ''LTFR''"
definition FLAG_AIRBORNE :: u8 where "FLAG_AIRBORNE = 1"
definition RELAY_VERSION :: u8 where "RELAY_VERSION = 2"
definition PACKET_LEN :: nat where "PACKET_LEN = 28"
definition PACKET_LEN_FULL :: nat where "PACKET_LEN_FULL = 40"

definition relay_encode :: "RelayTelemetry \<Rightarrow> u8 list option" where
  "relay_encode t = do {
     let ident = bytes_of (r_game_id t);
     let n = min (length ident) GAME_ID_LEN;
     b0 \<leftarrow> put_slice 0 RELAY_MAGIC (replicate PACKET_LEN_FULL 0);
     b1 \<leftarrow> put_slice 4 [RELAY_VERSION] b0;
     b2 \<leftarrow> put_slice 5 [if r_airborne t then FLAG_AIRBORNE else 0] b1;
     b3 \<leftarrow> put_slice 6 (take n ident) b2;
     b4 \<leftarrow> put_slice 14 (to_le_bytes (r_rpm t)) b3;
     b5 \<leftarrow> put_slice 18 (to_le_bytes (r_max_rpm t)) b4;
     b6 \<leftarrow> put_slice 22 (to_le_bytes (r_throttle t)) b5;
     b7 \<leftarrow> put_slice 26 (to_le_bytes (r_gear t)) b6;
     b8 \<leftarrow> put_slice 32 (to_le_bytes (r_speed t)) b7;
     put_slice 36 (to_le_bytes (r_brake t)) b8 }"

definition appended_f32 :: "u8 list \<Rightarrow> nat \<Rightarrow> f32" where
  "appended_f32 pkt off =
     (case get_range pkt off (off + 4) of None \<Rightarrow> 0
      | Some b \<Rightarrow> (let v = from_le_bytes b in if f_is_finite v then v else 0))"

definition game_id_from_wire :: "u8 list \<Rightarrow> string" where
  "game_id_from_wire raw =
     (let name = takeWhile (\<lambda>b. b \<noteq> 0) raw in
      case find (\<lambda>g. bytes_of g = name) GAME_IDS of None \<Rightarrow> RELAY_ID | Some g \<Rightarrow> g)"

definition relay_decode :: "u8 list \<Rightarrow> RelayTelemetry option" where
  "relay_decode pkt =
     (if length pkt < PACKET_LEN then None
      else if window pkt 0 4 \<noteq> RELAY_MAGIC \<or> pkt ! 4 \<noteq> RELAY_VERSION then None
      else
        let game = game_id_from_wire (window pkt 6 8);
            rpm = from_le_bytes (window pkt 14 4);
            max_rpm = from_le_bytes (window pkt 18 4);
            throttle = from_le_bytes (window pkt 22 4);
            gear = from_le_bytes (window pkt 26 2)
        in if \<not> f_is_finite rpm \<or> \<not> f_is_finite max_rpm \<or> \<not> f_is_finite throttle then None
           else Some \<lparr>r_game_id = game, r_rpm = rpm, r_max_rpm = max_rpm, r_throttle = throttle, r_gear = gear,
             r_speed = appended_f32 pkt 32, r_brake = appended_f32 pkt 36,
             r_airborne = (pkt ! 5 AND FLAG_AIRBORNE \<noteq> 0)\<rparr>)"

definition relay_parse :: "u8 list \<Rightarrow> (string \<times> Telemetry) option" where
  "relay_parse pkt = do {
     rt \<leftarrow> relay_decode pkt;
     if f_le (r_max_rpm rt) f_zero then None else Some (r_game_id rt, to_telemetry rt) }"

text \<open>The captured-sample datagrams of \<open>tfstream.rs\<close>.\<close>

definition TF_MAGIC :: "u8 list" where "TF_MAGIC = bytes_of ''LTFT''"
definition TF_VERSION :: u8 where "TF_VERSION = 1"
definition TF_HEADER_LEN :: nat where "TF_HEADER_LEN = 8"
definition TF_MAX_SAMPLES :: nat where "TF_MAX_SAMPLES = 256"

definition tf_encode :: "f32 list \<Rightarrow> u8 list option" where
  "tf_encode samples =
     (if samples = [] \<or> TF_MAX_SAMPLES < length samples then None
      else Some (TF_MAGIC @ [TF_VERSION, 0] @ to_le_bytes (of_nat (length samples) :: u16) @
        concat (map to_le_bytes samples)))"

definition tf_sample :: "u8 list \<Rightarrow> nat \<Rightarrow> f32 option" where
  "tf_sample pkt i =
     (let v = from_le_bytes (window pkt (TF_HEADER_LEN + i * 4) 4) in
      if f_is_finite v then Some (f_clamp f_minus_one f_one v) else None)"

definition tf_decode :: "u8 list \<Rightarrow> f32 list option" where
  "tf_decode pkt =
     (if length pkt < TF_HEADER_LEN \<or> window pkt 0 4 \<noteq> TF_MAGIC \<or> pkt ! 4 \<noteq> TF_VERSION then None
      else
        let count = unat (from_le_bytes (window pkt 6 2) :: u16) in
        if count = 0 \<or> TF_MAX_SAMPLES < count \<or> length pkt \<noteq> TF_HEADER_LEN + count * 4 then None
        else those (map (tf_sample pkt) [0..<count]))"

section \<open>The listener\<close>

datatype RelayRole = Hub | Follower

record RelayListener =
  rl_base :: u16
  rl_port :: u16
  rl_role :: RelayRole
  rl_fanout :: "u16 list"
  rl_next_promote :: nat

definition FANOUT_PORTS :: nat where "FANOUT_PORTS = 3"
definition PROMOTE_INTERVAL :: nat where "PROMOTE_INTERVAL = 2000"

definition checked_add_u16 :: "u16 \<Rightarrow> nat \<Rightarrow> u16 option" where
  "checked_add_u16 p d = (if unat p + d < 65536 then Some (p + of_nat d) else None)"

definition fanout_ports :: "u16 \<Rightarrow> u16 list" where
  "fanout_ports base = List.map_filter (checked_add_u16 base) [2..<2 + FANOUT_PORTS]"

text \<open>The sockets of the host: the owner of each bound port, and what else can refuse a bind or
  the switch to non-blocking reads.\<close>

datatype bind_error = AddrInUse | OtherError

type_synonym net = "u16 \<rightharpoonup> nat"

record udp_host =
  bind_denied :: "u16 \<Rightarrow> bool"
  nonblocking_fails :: "u16 \<Rightarrow> bool"

definition bind_udp :: "udp_host \<Rightarrow> net \<Rightarrow> nat \<Rightarrow> u16 \<Rightarrow> (bind_error + unit) \<times> net" where
  "bind_udp H n pid port =
     (if bind_denied H port then (Inl OtherError, n)
      else if n port \<noteq> None then (Inl AddrInUse, n)
      else (Inr (), n(port \<mapsto> pid)))"

fun open_first :: "udp_host \<Rightarrow> nat \<Rightarrow> nat \<Rightarrow> u16 \<Rightarrow> nat \<Rightarrow> u16 list \<Rightarrow> net \<Rightarrow> (bind_error + RelayListener) \<times> net" where
  "open_first H pid now base i [] n = (Inl AddrInUse, n)"
| "open_first H pid now base i (port # ports) n =
     (case bind_udp H n pid port of
        (Inr _, n') \<Rightarrow>
          if nonblocking_fails H port then (Inl OtherError, n)
          else (Inr \<lparr>rl_base = base, rl_port = port, rl_role = (if i = 0 then Hub else Follower),
                     rl_fanout = fanout_ports base, rl_next_promote = now + PROMOTE_INTERVAL\<rparr>, n')
      | (Inl AddrInUse, _) \<Rightarrow> open_first H pid now base (Suc i) ports n
      | (Inl OtherError, _) \<Rightarrow> (Inl OtherError, n))"

definition listener_open :: "udp_host \<Rightarrow> nat \<Rightarrow> nat \<Rightarrow> u16 \<Rightarrow> net \<Rightarrow> (bind_error + RelayListener) \<times> net" where
  "listener_open H pid now base n = open_first H pid now base 0 (base # fanout_ports base) n"

text \<open>\<open>drain\<close>: the datagrams handed to the caller, and what is sent on, in order. A read fills at
  most the buffer.\<close>

datatype recv_result = Datagram "u8 list" nat | WouldBlock | Interrupted | RecvError

fun drain :: "RelayListener \<Rightarrow> nat \<Rightarrow> recv_result list \<Rightarrow> (u8 list \<times> nat) list \<times> (u16 \<times> u8 list) list" where
  "drain l buf_len [] = ([], [])"
| "drain l buf_len (Datagram pkt peer # rs) =
     (let got = take buf_len pkt;
          sends = (if rl_role l = Hub then map (\<lambda>addr. (addr, got)) (rl_fanout l) else []);
          (seen, sent) = drain l buf_len rs
      in ((got, peer) # seen, sends @ sent))"
| "drain l buf_len (WouldBlock # rs) = ([], [])"
| "drain l buf_len (Interrupted # rs) = drain l buf_len rs"
| "drain l buf_len (RecvError # rs) = ([], [])"

definition poll_promotion :: "udp_host \<Rightarrow> nat \<Rightarrow> nat \<Rightarrow> RelayListener \<Rightarrow> net \<Rightarrow> bool \<times> RelayListener \<times> net" where
  "poll_promotion H pid now l n =
     (if rl_role l = Hub \<or> now < rl_next_promote l then (False, l, n)
      else
        let l1 = l\<lparr>rl_next_promote := now + PROMOTE_INTERVAL\<rparr> in
        case bind_udp H n pid (rl_base l) of
          (Inl _, _) \<Rightarrow> (False, l1, n)
        | (Inr _, n') \<Rightarrow>
            if nonblocking_fails H (rl_base l) then (False, l1, n)
            else (True, l1\<lparr>rl_port := rl_base l, rl_role := Hub\<rparr>, n'(rl_port l := None)))"

definition describe :: "RelayListener \<Rightarrow> string" where
  "describe l =
     (case rl_role l of
        Hub \<Rightarrow> ''udp/'' @ dec_nat (unat (rl_port l))
      | Follower \<Rightarrow> ''udp/'' @ dec_nat (unat (rl_port l)) @ '' (udp/'' @ dec_nat (unat (rl_base l)) @
          '' is held by another reader, which forwards to us)'')"

lemma length_bytes_of [simp]: "length (bytes_of s) = length s"
  by (simp add: bytes_of_def)

definition id_field :: "string \<Rightarrow> u8 list" where
  "id_field s = take 8 (bytes_of s) @ replicate (8 - length s) 0"

lemma length_id_field [simp]: "length (id_field s) = 8"
  by (simp add: id_field_def)

lemma relay_encode_layout:
  "relay_encode t = Some (RELAY_MAGIC @ [RELAY_VERSION, if r_airborne t then FLAG_AIRBORNE else 0] @ id_field (r_game_id t) @
     to_le_bytes (r_rpm t) @ to_le_bytes (r_max_rpm t) @ to_le_bytes (r_throttle t) @ to_le_bytes (r_gear t) @
     replicate 4 0 @ to_le_bytes (r_speed t) @ to_le_bytes (r_brake t))"
proof -
  have magic: "length RELAY_MAGIC = 4" by (simp add: RELAY_MAGIC_def)
  have start: "put_slice 0 RELAY_MAGIC (replicate 40 0) = Some (RELAY_MAGIC @ replicate 36 0)"
    using put_slice_replicate [of "[]" 0 RELAY_MAGIC 40 0] magic by simp
  show ?thesis
    by (simp add: relay_encode_def PACKET_LEN_FULL_def GAME_ID_LEN_def start put_slice_replicate magic id_field_def
        Let_def min.commute [of 8] del: append_assoc)
      (auto simp: min_def)
qed

lemma game_ids_read_back: "map (\<lambda>g. game_id_from_wire (id_field g)) GAME_IDS = GAME_IDS"
  by code_simp

lemma game_id_round_trip: "g \<in> set GAME_IDS \<Longrightarrow> game_id_from_wire (id_field g) = g"
  using game_ids_read_back by (metis (no_types, lifting) map_eq_conv map_ident)

definition relay_head :: "RelayTelemetry \<Rightarrow> u8 list" where
  "relay_head t = RELAY_MAGIC @ [RELAY_VERSION, if r_airborne t then FLAG_AIRBORNE else 0] @ id_field (r_game_id t) @
     to_le_bytes (r_rpm t) @ to_le_bytes (r_max_rpm t) @ to_le_bytes (r_throttle t) @ to_le_bytes (r_gear t)"

lemma length_relay_head [simp]: "length (relay_head t) = 28"
  by (simp add: relay_head_def RELAY_MAGIC_def)

lemma relay_head_windows:
  "window (relay_head t @ rest) 0 4 = RELAY_MAGIC" "(relay_head t @ rest) ! 4 = RELAY_VERSION"
  "(relay_head t @ rest) ! 5 = (if r_airborne t then FLAG_AIRBORNE else 0)"
  "window (relay_head t @ rest) 6 8 = id_field (r_game_id t)"
  "window (relay_head t @ rest) 14 4 = to_le_bytes (r_rpm t)"
  "window (relay_head t @ rest) 18 4 = to_le_bytes (r_max_rpm t)"
  "window (relay_head t @ rest) 22 4 = to_le_bytes (r_throttle t)"
  "window (relay_head t @ rest) 26 2 = to_le_bytes (r_gear t)"
  by (simp_all add: relay_head_def window_def nth_append RELAY_MAGIC_def)

lemma relay_decode_head:
  assumes "r_game_id t \<in> set GAME_IDS" "f_is_finite (r_rpm t)" "f_is_finite (r_max_rpm t)" "f_is_finite (r_throttle t)"
  shows "relay_decode (relay_head t @ rest) =
    Some (t\<lparr>r_speed := appended_f32 (relay_head t @ rest) 32, r_brake := appended_f32 (relay_head t @ rest) 36\<rparr>)"
  using assms by (simp add: relay_decode_def relay_head_windows PACKET_LEN_def Let_def game_id_round_trip FLAG_AIRBORNE_def)

text \<open>A sample with a known game id and finite numbers is read back from its datagram, also when a
  sender appends more fields; a sender that stops after the first 28 bytes is read with no speed
  and no brake.\<close>

theorem relay_round_trip:
  assumes "r_game_id t \<in> set GAME_IDS" "f_is_finite (r_rpm t)" "f_is_finite (r_max_rpm t)" "f_is_finite (r_throttle t)"
    "f_is_finite (r_speed t)" "f_is_finite (r_brake t)"
  shows "\<exists>pkt. relay_encode t = Some pkt \<and> length pkt = PACKET_LEN_FULL \<and> relay_decode (pkt @ more_fields) = Some t \<and>
    relay_decode (take PACKET_LEN pkt) = Some (t\<lparr>r_speed := 0, r_brake := 0\<rparr>)"
proof -
  let ?rest = "replicate 4 0 @ to_le_bytes (r_speed t) @ to_le_bytes (r_brake t)"
  have enc: "relay_encode t = Some (relay_head t @ ?rest)" by (simp add: relay_encode_layout relay_head_def)
  have app: "appended_f32 (relay_head t @ ?rest @ more_fields) 32 = r_speed t"
    "appended_f32 (relay_head t @ ?rest @ more_fields) 36 = r_brake t"
    using assms(5,6) by (simp_all add: appended_f32_def get_range_def)
  have "appended_f32 (relay_head t) 32 = 0" "appended_f32 (relay_head t) 36 = 0"
    by (simp_all add: appended_f32_def get_range_def)
  then have "relay_decode (relay_head t) = Some (t\<lparr>r_speed := 0, r_brake := 0\<rparr>)"
    using relay_decode_head [OF assms(1-4), of "[]"] by simp
  then show ?thesis using relay_decode_head [OF assms(1-4), of "?rest @ more_fields"] app enc
    by (simp add: PACKET_LEN_FULL_def PACKET_LEN_def)
qed

definition demo_sample :: RelayTelemetry where
  "demo_sample = \<lparr>r_game_id = ''raceroom'', r_rpm = 0x45cb2000, r_max_rpm = 0x45e10000, r_throttle = 0x3f000000,
     r_gear = -1, r_speed = 0x41b40000, r_brake = 0, r_airborne = True\<rparr>"

theorem relay_round_trip_witness:
  "\<exists>pkt. relay_encode demo_sample = Some pkt \<and> length pkt = PACKET_LEN_FULL \<and> relay_decode (pkt @ [1, 2, 3]) = Some demo_sample \<and>
    relay_decode (take PACKET_LEN pkt) = Some (demo_sample\<lparr>r_speed := 0, r_brake := 0\<rparr>)"
  by (rule relay_round_trip) (simp_all add: demo_sample_def GAME_IDS_def f_is_finite_def f_mag_def F_INF_def)

definition usable_sample :: "Telemetry \<Rightarrow> bool" where
  "usable_sample t \<longleftrightarrow> f_is_finite (t_rpm t) \<and> f_lt f_zero (t_max_rpm t) \<and>
     f_le f_zero (t_throttle t) \<and> f_le (t_throttle t) f_one \<and> f_le f_zero (t_brake t) \<and> f_le (t_brake t) f_one \<and>
     f_le f_zero (t_speed t) \<and> f_is_finite (t_speed t)"

lemma game_id_known: "game_id_from_wire raw \<in> set GAME_IDS"
  by (auto simp: game_id_from_wire_def Let_def find_Some_iff GAME_IDS_def split: option.splits)

lemma f_zero_le_one: "f_le f_zero f_one"
  by (simp add: f_le_def)

lemma relay_sample_usable:
  assumes "relay_parse pkt = Some (game, t)"
  shows "game \<in> set GAME_IDS \<and> usable_sample t"
proof -
  from assms obtain rt where rt: "relay_decode pkt = Some rt" "\<not> f_le (r_max_rpm rt) f_zero" "game = r_game_id rt" "t = to_telemetry rt"
    by (auto simp: relay_parse_def split: Option.bind_splits if_splits)
  from rt(1) have fin: "f_is_finite (r_rpm rt)" "f_is_finite (r_max_rpm rt)" "f_is_finite (r_throttle rt)"
    "r_game_id rt \<in> set GAME_IDS"
    by (auto simp: relay_decode_def Let_def game_id_known split: if_splits)
  have speed: "f_le f_zero (f_max v f_zero) \<and> f_is_finite (f_max v f_zero)" if "f_is_finite v" for v
    using that by (auto simp: f_max_def f_lt_def f_le_def)
  have "usable_sample t" unfolding rt(4) usable_sample_def to_telemetry_def
    using fin rt(2) f_clamp_bounds [OF _ f_zero_le_one] speed
    by (auto simp: f_lt_def f_le_def telemetry_default_def)
  with fin rt show ?thesis by simp
qed

text \<open>Whatever a datagram holds, a sample that is accepted is one the rest of the pipeline can use:
  its game id is a known one, the engine speed is finite, the redline is positive, throttle and
  brake lie between 0 and 1 and the speed is finite and not negative.\<close>

theorem relay_samples_usable:
  assumes "relay_parse pkt = Some (game, t)"
  shows "game \<in> set GAME_IDS \<and> usable_sample t"
  by (rule relay_sample_usable [OF assms])

theorem relay_samples_usable_witness:
  "r_game_id demo_sample \<in> set GAME_IDS \<and> usable_sample (to_telemetry (demo_sample\<lparr>r_speed := 0, r_brake := 0\<rparr>))"
proof (rule relay_samples_usable)
  have "relay_decode (relay_head demo_sample @ []) = Some (demo_sample\<lparr>r_speed := 0, r_brake := 0\<rparr>)"
    by (subst relay_decode_head)
      (simp_all add: demo_sample_def GAME_IDS_def f_is_finite_def f_mag_def F_INF_def appended_f32_def get_range_def)
  then show "relay_parse (relay_head demo_sample) =
      Some (r_game_id demo_sample, to_telemetry (demo_sample\<lparr>r_speed := 0, r_brake := 0\<rparr>))"
    by (simp add: relay_parse_def demo_sample_def f_le_def f_key_def f_neg_def f_mag_def)
qed

section \<open>Captured samples\<close>

lemma window_le_stream:
  "i < length ss \<Longrightarrow> window (concat (map to_le_bytes (ss :: f32 list))) (i * 4) 4 = to_le_bytes (ss ! i)"
proof (induction ss arbitrary: i)
  case (Cons s ss)
  then show ?case by (cases i) (auto simp: window_def)
qed simp

lemma length_le_stream: "length (concat (map to_le_bytes (ss :: f32 list))) = length ss * 4"
  by (induction ss) simp_all

lemma window_shift: "length pre = k \<Longrightarrow> window (pre @ xs) (k + i) n = window xs i n"
  by (auto simp: window_def)

lemma those_map_Some: "(\<And>i. i \<in> set is \<Longrightarrow> f i = Some (g i)) \<Longrightarrow> those (map f is) = Some (map g is)"
  by (induction "is") simp_all

lemma those_SomeD: "those xs = Some ys \<Longrightarrow> length ys = length xs \<and> (\<forall>y\<in>set ys. Some y \<in> set xs)"
  by (induction xs arbitrary: ys) (auto split: option.splits)

text \<open>A run of finite samples that fits one datagram is read back as the same run, each sample
  limited to the torque range.\<close>

theorem captured_round_trip:
  assumes "samples \<noteq> []" "length samples \<le> TF_MAX_SAMPLES" "\<forall>v\<in>set samples. f_is_finite v"
  shows "\<exists>pkt. tf_encode samples = Some pkt \<and> tf_decode pkt = Some (map (f_clamp f_minus_one f_one) samples)"
proof (intro exI conjI)
  let ?n = "of_nat (length samples) :: u16"
  let ?head = "TF_MAGIC @ [TF_VERSION, 0] @ to_le_bytes ?n"
  let ?pkt = "?head @ concat (map to_le_bytes samples)"
  show "tf_encode samples = Some ?pkt" using assms by (simp add: tf_encode_def)
  have n: "unat ?n = length samples" using assms(2) by (simp add: TF_MAX_SAMPLES_def unsigned_of_nat take_bit_eq_mod)
  have head: "length ?head = 8" "window ?pkt 0 4 = TF_MAGIC" "?pkt ! 4 = TF_VERSION" "window ?pkt 6 2 = to_le_bytes ?n"
    by (simp_all add: TF_MAGIC_def window_def nth_append)
  have at_i: "tf_sample ?pkt i = Some (f_clamp f_minus_one f_one (samples ! i))" if "i < length samples" for i
    using window_shift [OF head(1), of "concat (map to_le_bytes samples)" "i * 4" 4] window_le_stream [OF that] assms(3) that
    by (simp add: tf_sample_def TF_HEADER_LEN_def Let_def)
  have "those (map (tf_sample ?pkt) [0..<length samples]) = Some (map (\<lambda>i. f_clamp f_minus_one f_one (samples ! i)) [0..<length samples])"
    by (rule those_map_Some, rule at_i) simp
  also have "map (\<lambda>i. f_clamp f_minus_one f_one (samples ! i)) [0..<length samples] = map (f_clamp f_minus_one f_one) samples"
    by (rule nth_equalityI) simp_all
  finally show "tf_decode ?pkt = Some (map (f_clamp f_minus_one f_one) samples)"
    using head n assms(1,2) length_le_stream [of samples]
    by (simp add: tf_decode_def TF_HEADER_LEN_def Let_def del: append_assoc)
qed

theorem captured_round_trip_witness:
  "\<exists>pkt. tf_encode [0x3f000000, 0xbf800000, 0x40000000] = Some pkt \<and>
    tf_decode pkt = Some (map (f_clamp f_minus_one f_one) [0x3f000000, 0xbf800000, 0x40000000])"
  by (rule captured_round_trip) (simp_all add: TF_MAX_SAMPLES_def f_is_finite_def f_mag_def F_INF_def)

text \<open>No datagram, whatever its bytes, puts a sample outside the torque range on the stream.\<close>

theorem captured_samples_bounded:
  assumes "tf_decode pkt = Some samples"
  shows "length samples \<le> TF_MAX_SAMPLES \<and> length pkt = TF_HEADER_LEN + 4 * length samples \<and>
    (\<forall>v\<in>set samples. f_le f_minus_one v \<and> f_le v f_one)"
proof -
  from assms obtain n where n: "n \<le> TF_MAX_SAMPLES" "length pkt = TF_HEADER_LEN + n * 4"
    "those (map (tf_sample pkt) [0..<n]) = Some samples"
    by (auto simp: tf_decode_def Let_def split: if_splits)
  have ord: "f_le f_minus_one f_one" by (simp add: f_le_def)
  have rng: "tf_sample pkt i = Some v \<Longrightarrow> f_le f_minus_one v \<and> f_le v f_one" for i v
    using f_clamp_bounds [OF _ ord] by (auto simp: tf_sample_def Let_def split: if_splits)
  from those_SomeD [OF n(3)] have "length samples = n" "\<forall>v\<in>set samples. \<exists>i. tf_sample pkt i = Some v"
    by (auto simp: image_iff) metis
  then show ?thesis using n rng by auto
qed

section \<open>Sharing the relay port\<close>

lemma checked_add_Some: "checked_add_u16 p d = Some q \<longleftrightarrow> unat p + d < 65536 \<and> unat q = unat p + d"
proof -
  have "unat (p + of_nat d) = unat p + d" if "unat p + d < 65536"
    using that by (simp add: unat_word_ariths unsigned_of_nat take_bit_eq_mod)
  then show ?thesis by (auto simp: checked_add_u16_def word_unat_eq_iff)
qed

lemma set_fanout_ports: "set (fanout_ports base) = {p. \<exists>d\<in>{2, 3, 4}. unat p = unat base + d}"
proof -
  have "set (fanout_ports base) = {p. \<exists>d\<in>{2, 3, 4}. checked_add_u16 base d = Some p}"
    by (auto simp: fanout_ports_def FANOUT_PORTS_def map_filter_def upt_rec numeral_eq_Suc)
  also have "\<dots> = {p. \<exists>d\<in>{2, 3, 4}. unat p = unat base + d}"
    unfolding checked_add_Some using unat_u16_less by (metis (mono_tags, opaque_lifting))
  finally show ?thesis .
qed

lemma fanout_above: "p \<in> set (fanout_ports base) \<Longrightarrow> unat base < unat p"
  by (auto simp: set_fanout_ports)

lemma fanout_distinct: "distinct (fanout_ports base)"
  unfolding fanout_ports_def by (rule map_filter_inj_distinct) (auto simp: checked_add_Some)

text \<open>The readers of one host. Process 0 stands for every program that is not a reader; it may
  take any free port and give it back.\<close>

record relay_sys =
  sys_net :: net
  sys_readers :: "nat \<rightharpoonup> RelayListener"

inductive relay_step :: "udp_host \<Rightarrow> relay_sys \<Rightarrow> relay_sys \<Rightarrow> bool" for H where
  start: "sys_readers s pid = None \<Longrightarrow> pid \<noteq> 0 \<Longrightarrow> listener_open H pid now base (sys_net s) = (Inr l, n) \<Longrightarrow>
    relay_step H s \<lparr>sys_net = n, sys_readers = (sys_readers s)(pid \<mapsto> l)\<rparr>"
| promote: "sys_readers s pid = Some l \<Longrightarrow> poll_promotion H pid now l (sys_net s) = (changed, l', n) \<Longrightarrow>
    relay_step H s \<lparr>sys_net = n, sys_readers = (sys_readers s)(pid \<mapsto> l')\<rparr>"
| exit: "sys_readers s pid = Some l \<Longrightarrow>
    relay_step H s \<lparr>sys_net = (sys_net s)(rl_port l := None), sys_readers = (sys_readers s)(pid := None)\<rparr>"
| other_bind: "sys_net s p = None \<Longrightarrow> relay_step H s (s\<lparr>sys_net := (sys_net s)(p \<mapsto> 0)\<rparr>)"
| other_exit: "sys_net s p = Some 0 \<Longrightarrow> relay_step H s (s\<lparr>sys_net := (sys_net s)(p := None)\<rparr>)"

definition reader_ok :: "net \<Rightarrow> nat \<Rightarrow> RelayListener \<Rightarrow> bool" where
  "reader_ok n pid l \<longleftrightarrow> pid \<noteq> 0 \<and> n (rl_port l) = Some pid \<and> rl_fanout l = fanout_ports (rl_base l) \<and>
     (case rl_role l of Hub \<Rightarrow> rl_port l = rl_base l | Follower \<Rightarrow> rl_port l \<in> set (fanout_ports (rl_base l)))"

definition relay_inv :: "relay_sys \<Rightarrow> bool" where
  "relay_inv s \<longleftrightarrow> (\<forall>pid l. sys_readers s pid = Some l \<longrightarrow> reader_ok (sys_net s) pid l)"

lemma bind_udp_ok: "bind_udp H n pid port = (Inr u, n') \<longleftrightarrow> \<not> bind_denied H port \<and> n port = None \<and> n' = n(port \<mapsto> pid)"
  by (auto simp: bind_udp_def)

lemma open_first_ok:
  assumes "open_first H pid now base i ports n = (Inr l, n')"
  shows "n (rl_port l) = None \<and> n' = n(rl_port l \<mapsto> pid) \<and> rl_port l \<in> set ports \<and> rl_base l = base \<and>
    rl_fanout l = fanout_ports base \<and> rl_next_promote l = now + PROMOTE_INTERVAL \<and>
    (rl_role l = Hub \<longleftrightarrow> i = 0 \<and> rl_port l = hd ports)"
  using assms
proof (induction ports arbitrary: i)
  case (Cons p ps)
  obtain res m where b: "bind_udp H n pid p = (res, m)" by fastforce
  show ?case
  proof (cases res)
    case (Inr u)
    then show ?thesis using Cons.prems b by (auto simp: bind_udp_ok split: if_splits)
  next
    case (Inl e)
    then have e: "e = AddrInUse" using Cons.prems b by (cases e) auto
    with Cons.prems b Inl have "open_first H pid now base (Suc i) ps n = (Inr l, n')" by simp
    from Cons.IH [OF this] e b Inl show ?thesis by (auto simp: bind_udp_def split: if_splits)
  qed
qed simp

lemma listener_open_ok:
  assumes "listener_open H pid now base n = (Inr l, n')" "pid \<noteq> 0"
  shows "reader_ok n' pid l" "n (rl_port l) = None" "n' = n(rl_port l \<mapsto> pid)"
proof -
  note o = open_first_ok [OF assms(1) [unfolded listener_open_def]]
  show "reader_ok n' pid l" using o assms(2) by (cases "rl_role l") (auto simp: reader_ok_def)
  show "n (rl_port l) = None" "n' = n(rl_port l \<mapsto> pid)" using o by auto
qed

lemma reader_ok_upd: "reader_ok n pid l \<Longrightarrow> p \<noteq> rl_port l \<Longrightarrow> reader_ok (n(p := x)) pid l"
  by (simp add: reader_ok_def)

lemma poll_promotion_cases:
  assumes "poll_promotion H pid now l n = (changed, l', n')"
  obtains (idle) "\<not> changed" "n' = n" "l' = l"
  | (failed) "\<not> changed" "n' = n" "l' = l\<lparr>rl_next_promote := now + PROMOTE_INTERVAL\<rparr>"
  | (promoted) "changed" "rl_role l = Follower" "n (rl_base l) = None" "n' = n(rl_base l \<mapsto> pid, rl_port l := None)"
      "l' = l\<lparr>rl_next_promote := now + PROMOTE_INTERVAL, rl_port := rl_base l, rl_role := Hub\<rparr>"
proof (cases "rl_role l = Hub \<or> now < rl_next_promote l")
  case True
  then show ?thesis using assms idle by (simp add: poll_promotion_def)
next
  case False
  then have role: "rl_role l = Follower" by (cases "rl_role l") auto
  obtain res m where b: "bind_udp H n pid (rl_base l) = (res, m)" by fastforce
  show ?thesis
  proof (cases "res = Inr () \<and> \<not> nonblocking_fails H (rl_base l)")
    case True
    then have "bind_udp H n pid (rl_base l) = (Inr (), m)" "n (rl_base l) = None" "m = n(rl_base l \<mapsto> pid)"
      using b bind_udp_ok [of H n pid "rl_base l" "()" m] by auto
    then show ?thesis using assms False role promoted True by (simp add: poll_promotion_def Let_def)
  next
    case fail: False
    then show ?thesis using assms b False failed by (auto simp: poll_promotion_def Let_def split: sum.splits if_splits)
  qed
qed

lemma relay_inv_owner: "relay_inv s \<Longrightarrow> sys_readers s q = Some k \<Longrightarrow> sys_net s (rl_port k) = Some q \<and> q \<noteq> 0"
  by (simp add: relay_inv_def reader_ok_def)

lemma relay_inv_update:
  assumes "relay_inv s" "\<And>q k. q \<noteq> pid \<Longrightarrow> sys_readers s q = Some k \<Longrightarrow> n (rl_port k) = sys_net s (rl_port k)"
    and "\<And>l. x = Some l \<Longrightarrow> reader_ok n pid l"
  shows "relay_inv \<lparr>sys_net = n, sys_readers = (sys_readers s)(pid := x)\<rparr>"
  using assms by (auto simp: relay_inv_def reader_ok_def)

lemma relay_inv_step:
  assumes inv: "relay_inv s" and "relay_step H s s'"
  shows "relay_inv s'"
  using assms(2)
proof cases
  case (start pid now base l n)
  note o = listener_open_ok [OF start(4,3)]
  have "n (rl_port k) = sys_net s (rl_port k)" if "q \<noteq> pid" "sys_readers s q = Some k" for q k
    using relay_inv_owner [OF inv that(2)] o(2,3) by auto
  then show ?thesis unfolding start(1) using o(1) by (intro relay_inv_update [OF inv]) simp_all
next
  case (promote pid l now changed l' n)
  have ok: "reader_ok (sys_net s) pid l" using promote inv by (simp add: relay_inv_def)
  have other: "rl_port k \<noteq> rl_port l" if "q \<noteq> pid" "sys_readers s q = Some k" for q k
    using relay_inv_owner [OF inv that(2)] relay_inv_owner [OF inv promote(2)] that(1) by (metis option.inject)
  from promote(3) have "(\<forall>q k. q \<noteq> pid \<longrightarrow> sys_readers s q = Some k \<longrightarrow> n (rl_port k) = sys_net s (rl_port k)) \<and> reader_ok n pid l'"
  proof (cases rule: poll_promotion_cases)
    case promoted
    then have neq: "rl_base l \<noteq> rl_port l" using ok fanout_above by (auto simp: reader_ok_def)
    have "rl_port k \<noteq> rl_base l" if "sys_readers s q = Some k" for q k
      using relay_inv_owner [OF inv that] promoted(3) by auto
    then show ?thesis using promoted ok neq other by (simp add: reader_ok_def)
  qed (use ok in \<open>auto simp: reader_ok_def split: RelayRole.splits\<close>)
  then show ?thesis unfolding promote(1) by (intro relay_inv_update [OF inv]) auto
next
  case (exit pid l)
  have "rl_port k \<noteq> rl_port l" if "q \<noteq> pid" "sys_readers s q = Some k" for q k
    using relay_inv_owner [OF inv that(2)] relay_inv_owner [OF inv exit(2)] that(1) by (metis option.inject)
  then show ?thesis unfolding exit(1) by (intro relay_inv_update [OF inv]) auto
next
  case (other_bind p)
  have "rl_port k \<noteq> p" if "sys_readers s q = Some k" for q k
    using relay_inv_owner [OF inv that] other_bind by auto
  then show ?thesis unfolding other_bind(1) using inv by (auto simp: relay_inv_def reader_ok_def)
next
  case (other_exit p)
  have "rl_port k \<noteq> p" if "sys_readers s q = Some k" for q k
    using relay_inv_owner [OF inv that] other_exit by auto
  then show ?thesis unfolding other_exit(1) using inv by (auto simp: relay_inv_def reader_ok_def)
qed

definition no_readers :: relay_sys where
  "no_readers = \<lparr>sys_net = Map.empty, sys_readers = Map.empty\<rparr>"

lemma relay_reachable_inv: "(relay_step H)\<^sup>*\<^sup>* no_readers s \<Longrightarrow> relay_inv s"
proof (induction rule: rtranclp_induct)
  case base
  show ?case by (simp add: relay_inv_def no_readers_def)
next
  case (step y z)
  then show ?case using relay_inv_step by blast
qed

lemma drain_one_hub:
  "rl_role l = Hub \<Longrightarrow> drain l buf_len [Datagram pkt peer] =
     ([(take buf_len pkt, peer)], map (\<lambda>addr. (addr, take buf_len pkt)) (rl_fanout l))"
  by (simp add: Let_def)

lemma drain_follower: "rl_role l = Follower \<Longrightarrow> snd (drain l buf_len rs) = []"
  by (induction l buf_len rs rule: drain.induct) (auto split: prod.splits)

lemma count_list_map_pair: "count_list (map (\<lambda>a. (a, v)) xs) (x, v) = count_list xs x"
  by (induction xs) auto

lemma count_list_distinct: "distinct xs \<Longrightarrow> x \<in> set xs \<Longrightarrow> count_list xs x = 1"
  by (induction xs) auto


definition demo_host :: udp_host where
  "demo_host = \<lparr>bind_denied = (\<lambda>_. False), nonblocking_fails = (\<lambda>_. False)\<rparr>"

definition demo_hub :: RelayListener where
  "demo_hub = \<lparr>rl_base = 20780, rl_port = 20780, rl_role = Hub, rl_fanout = fanout_ports 20780, rl_next_promote = 2000\<rparr>"

definition demo_follower :: RelayListener where
  "demo_follower = \<lparr>rl_base = 20780, rl_port = 20782, rl_role = Follower, rl_fanout = fanout_ports 20780, rl_next_promote = 2000\<rparr>"

definition demo_readers :: relay_sys where
  "demo_readers = \<lparr>sys_net = [20780 \<mapsto> 1, 20782 \<mapsto> 2], sys_readers = [1 \<mapsto> demo_hub, 2 \<mapsto> demo_follower]\<rparr>"

lemma demo_fanout: "fanout_ports 20780 = [20782, 20783, 20784]"
  by (simp add: fanout_ports_def FANOUT_PORTS_def map_filter_def checked_add_u16_def upt_rec)

lemma demo_readers_reachable: "(relay_step demo_host)\<^sup>*\<^sup>* no_readers demo_readers"
proof -
  let ?one = "\<lparr>sys_net = [20780 \<mapsto> 1], sys_readers = [1 \<mapsto> demo_hub]\<rparr>"
  have "relay_step demo_host no_readers ?one"
    using relay_step.start [of no_readers 1 demo_host 0 20780 demo_hub "[20780 \<mapsto> 1]"]
    by (simp add: no_readers_def listener_open_def bind_udp_def demo_host_def demo_hub_def PROMOTE_INTERVAL_def)
  moreover have "relay_step demo_host ?one demo_readers"
    using relay_step.start [of ?one 2 demo_host 0 20780 demo_follower "[20780 \<mapsto> 1, 20782 \<mapsto> 2]"]
    by (simp add: listener_open_def bind_udp_def demo_host_def demo_follower_def PROMOTE_INTERVAL_def demo_readers_def demo_fanout)
  ultimately show ?thesis by simp
qed


definition forward_hop :: "relay_sys \<Rightarrow> (u16 \<times> u16) set" where
  "forward_hop s = {(to, via). \<exists>pid l pkt peer. sys_readers s pid = Some l \<and> rl_port l = via \<and>
     to \<in> fst ` set (snd (drain l 2048 [Datagram pkt peer]))}"



text \<open>C28. A reader that was fed by another takes the relay port over: after a poll that did not
  promote it, the first poll at least the promotion interval later that finds the port free makes
  it the one that feeds the others, and gives its old port back.\<close>

theorem follower_takes_over:
  assumes "rl_role l = Follower" "rl_next_promote l \<le> t0 + PROMOTE_INTERVAL"
    and "poll_promotion H pid t0 l n0 = (False, l1, n1)"
    and "t0 + PROMOTE_INTERVAL \<le> t" "n (rl_base l) = None" "rl_base l \<noteq> rl_port l"
    and "\<not> bind_denied H (rl_base l)" "\<not> nonblocking_fails H (rl_base l)"
  shows "\<exists>l' n'. poll_promotion H pid t l1 n = (True, l', n') \<and> rl_role l' = Hub \<and> rl_port l' = rl_base l \<and>
    n' (rl_base l) = Some pid \<and> n' (rl_port l) = None \<and> rl_next_promote l1 \<le> t0 + PROMOTE_INTERVAL"
proof -
  from assms(3) have l1: "l1 = l \<or> l1 = l\<lparr>rl_next_promote := t0 + PROMOTE_INTERVAL\<rparr>"
    by (cases rule: poll_promotion_cases) auto
  then show ?thesis using assms(1,2,4-8) by (auto simp: poll_promotion_def bind_udp_def)
qed

theorem follower_takes_over_witness:
  "\<exists>l' n'. poll_promotion demo_host 2 4000 demo_follower [20782 \<mapsto> 2] = (True, l', n') \<and> rl_role l' = Hub \<and>
    rl_port l' = rl_base demo_follower \<and> n' (rl_base demo_follower) = Some 2 \<and> n' (rl_port demo_follower) = None \<and>
    rl_next_promote demo_follower \<le> 1000 + PROMOTE_INTERVAL"
  by (rule follower_takes_over [where ?t0.0 = 1000 and l = demo_follower and ?n0.0 = "[20780 \<mapsto> 1, 20782 \<mapsto> 2]" and ?n1.0 = "[20780 \<mapsto> 1, 20782 \<mapsto> 2]"])
    (simp_all add: demo_follower_def PROMOTE_INTERVAL_def demo_host_def poll_promotion_def)

end
