(* ===== verification/Telemetry_Formats.thy ===== *)
theory Telemetry_Formats
  imports Relay
begin

text \<open>
  The datagram decoders of \<open>logi-tf-sim\<close>: \<open>codemasters.rs\<close>, \<open>f1.rs\<close>, \<open>pcars.rs\<close>, \<open>wrc.rs\<close> and
  \<open>beamng.rs\<close>, and the part of \<open>daemon.rs\<close> that reads its sockets with them. A decoder with
  state returns the state. The locale \<open>telemetry_decoder\<close> is what the daemon relies on of every
  one of them.
\<close>

section \<open>Fields\<close>

definition f32_at :: "u8 list \<Rightarrow> nat \<Rightarrow> f32 option" where
  "f32_at pkt off = map_option from_le_bytes (get_range pkt off (off + 4))"

definition u32_at :: "u8 list \<Rightarrow> nat \<Rightarrow> u32 option" where
  "u32_at pkt off = map_option from_le_bytes (get_range pkt off (off + 4))"

definition le_u16_at :: "u8 list \<Rightarrow> nat \<Rightarrow> u16 option" where
  "le_u16_at pkt off = map_option from_le_bytes (get_range pkt off (off + 2))"

abbreviation f_ten :: f32 where "f_ten \<equiv> 0x41200000"
abbreviation f_100000 :: f32 where "f_100000 \<equiv> 0x47c35000"
abbreviation f_30000 :: f32 where "f_30000 \<equiv> 0x46ea6000"
abbreviation f_255 :: f32 where "f_255 \<equiv> 0x437f0000"

type_synonym sample = "string \<times> Telemetry"

section \<open>Codemasters float arrays\<close>

definition ID_DIRT_RALLY_2 :: string where "ID_DIRT_RALLY_2 = ''dirt-rally-2''"
definition ID_FAMILY :: string where "ID_FAMILY = ''codemasters''"
definition BASE_LEN :: nat where "BASE_LEN = 64 * 4"
definition DR2_LEN :: nat where "DR2_LEN = 66 * 4"
definition MAX_LEN :: nat where "MAX_LEN = 70 * 4"

definition codemasters_parse :: "u8 list \<Rightarrow> sample option" where
  "codemasters_parse pkt =
     (if length pkt < BASE_LEN \<or> MAX_LEN < length pkt \<or> length pkt mod 4 \<noteq> 0 then None
      else do {
        speed \<leftarrow> f32_at pkt (7 * 4);
        throttle \<leftarrow> f32_at pkt (29 * 4);
        r \<leftarrow> f32_at pkt (37 * 4);
        let rpm = f_mul r f_ten;
        m \<leftarrow> f32_at pkt (63 * 4);
        let max_rpm = f_mul m f_ten;
        if \<not> f_is_finite rpm \<or> \<not> f_is_finite max_rpm \<or> \<not> f_is_finite throttle \<or> \<not> f_is_finite speed then None
        else if f_lt rpm f_zero \<or> f_le max_rpm f_zero \<or> f_lt f_100000 max_rpm \<or> f_lt f_100000 rpm then None
        else Some (if length pkt = DR2_LEN then ID_DIRT_RALLY_2 else ID_FAMILY,
          telemetry_default\<lparr>t_rpm := rpm, t_max_rpm := max_rpm, t_throttle := f_clamp f_zero f_one throttle, t_speed := speed\<rparr>) })"

section \<open>Modern F1\<close>

definition F1_ID :: string where "F1_ID = ''f1''"
definition CAR_TELEMETRY_PACKET_ID :: u8 where "CAR_TELEMETRY_PACKET_ID = 6"
definition ENTRY_LEN :: nat where "ENTRY_LEN = 60"
definition NUM_CARS :: nat where "NUM_CARS = 22"
definition KMH_TO_MS :: f32 where "KMH_TO_MS = f_div 0x447a0000 0x45610000"

record Header =
  h_len :: nat
  h_packet_id :: u8
  h_player_index :: nat

definition header_layout :: "u16 \<Rightarrow> (nat \<times> nat \<times> nat) option" where
  "header_layout fmt =
     (if fmt = 2022 then Some (24, 5, 22) else if 2023 \<le> fmt \<and> fmt \<le> 2025 then Some (29, 6, 27) else None)"

definition parse_header :: "u8 list \<Rightarrow> Header option" where
  "parse_header pkt = do {
     fmt \<leftarrow> le_u16_at pkt 0;
     (len, id_off, player_off) \<leftarrow> header_layout fmt;
     player \<leftarrow> get_at pkt player_off;
     if NUM_CARS \<le> unat player then None
     else do {
       packet_id \<leftarrow> get_at pkt id_off;
       Some \<lparr>h_len = len, h_packet_id = packet_id, h_player_index = unat player\<rparr> } }"

record Decoder =
  running_max_rpm :: f32

definition decoder_new :: Decoder where "decoder_new = \<lparr>running_max_rpm = 0\<rparr>"
definition decoder_reset :: "Decoder \<Rightarrow> Decoder" where "decoder_reset d = d\<lparr>running_max_rpm := 0\<rparr>"

definition f1_parse :: "Decoder \<Rightarrow> u8 list \<Rightarrow> sample option \<times> Decoder" where
  "f1_parse d pkt =
     (case parse_header pkt of None \<Rightarrow> (None, d)
      | Some h \<Rightarrow>
          if h_packet_id h \<noteq> CAR_TELEMETRY_PACKET_ID then (None, d)
          else if length pkt < h_len h + NUM_CARS * ENTRY_LEN then (None, d)
          else
            let base = h_len h + h_player_index h * ENTRY_LEN in
            (case (le_u16_at pkt base, f32_at pkt (base + 2), le_u16_at pkt (base + 16)) of
               (Some kmh, Some throttle, Some revs) \<Rightarrow>
                 let speed = f_mul (f_of_nat (unat kmh)) KMH_TO_MS; rpm = f_of_nat (unat revs) in
                 if \<not> f_is_finite throttle \<or> f_le rpm f_zero \<or> f_lt f_30000 rpm then (None, d)
                 else
                   let d' = d\<lparr>running_max_rpm := f_max (running_max_rpm d) rpm\<rparr> in
                   (Some (F1_ID, telemetry_default\<lparr>t_rpm := rpm, t_max_rpm := f_max (running_max_rpm d') f_one,
                      t_throttle := f_clamp f_zero f_one throttle, t_speed := speed\<rparr>), d')
             | _ \<Rightarrow> (None, d)))"

section \<open>Project CARS 2 and Automobilista 2\<close>

definition PCARS_ID :: string where "PCARS_ID = ''ams2-pcars2''"
definition TELEMETRY_LEN :: nat where "TELEMETRY_LEN = 559"
definition PACKET_TYPE_TELEMETRY :: u8 where "PACKET_TYPE_TELEMETRY = 0"

definition packet_version :: "u8 list \<Rightarrow> u8 option" where
  "packet_version pkt = get_at pkt 11"

definition pcars_parse :: "u8 list \<Rightarrow> sample option" where
  "pcars_parse pkt =
     (if length pkt \<noteq> TELEMETRY_LEN \<or> get_at pkt 10 \<noteq> Some PACKET_TYPE_TELEMETRY then None
      else do {
        t \<leftarrow> get_at pkt 30;
        let throttle = f_div (f_of_nat (unat t)) f_255;
        speed \<leftarrow> f32_at pkt 36;
        r \<leftarrow> le_u16_at pkt 40;
        m \<leftarrow> le_u16_at pkt 42;
        let rpm = f_of_nat (unat r);
        let max_rpm = f_of_nat (unat m);
        if f_le max_rpm f_zero \<or> \<not> f_is_finite speed then None
        else Some (PCARS_ID, telemetry_default\<lparr>t_rpm := rpm, t_max_rpm := max_rpm, t_throttle := throttle, t_speed := speed\<rparr>) })"

section \<open>EA Sports WRC\<close>

definition WRC_ID :: string where "WRC_ID = ''ea-wrc''"
definition WRC_PACKET_LEN :: nat where "WRC_PACKET_LEN = 16"

definition wrc_parse :: "u8 list \<Rightarrow> sample option" where
  "wrc_parse pkt =
     (if length pkt \<noteq> WRC_PACKET_LEN then None
      else do {
        speed \<leftarrow> f32_at pkt 0;
        rpm \<leftarrow> f32_at pkt 4;
        max_rpm \<leftarrow> f32_at pkt 8;
        throttle \<leftarrow> f32_at pkt 12;
        if \<not> f_is_finite speed \<or> \<not> f_is_finite throttle then None
        else if f_lt rpm f_zero \<or> f_le max_rpm f_zero \<or> f_lt f_30000 rpm \<or> f_lt f_30000 max_rpm then None
        else Some (WRC_ID, telemetry_default\<lparr>t_rpm := rpm, t_max_rpm := max_rpm,
          t_throttle := f_clamp f_zero f_one throttle, t_speed := speed\<rparr>) })"

section \<open>BeamNG OutGauge\<close>

definition BEAMNG_ID :: string where "BEAMNG_ID = ''beamng''"
definition LEN_NO_ID :: nat where "LEN_NO_ID = 92"
definition LEN_WITH_ID :: nat where "LEN_WITH_ID = 96"
definition DL_PITSPEED :: u32 where "DL_PITSPEED = 0x8"
definition DL_TC :: u32 where "DL_TC = 0x10"
definition DL_ABS :: u32 where "DL_ABS = 0x400"

definition saturating_dec_i8 :: "u8 \<Rightarrow> i8" where
  "saturating_dec_i8 g = (if sint g = -128 then g else g - 1)"

definition beamng_parse :: "Decoder \<Rightarrow> u8 list \<Rightarrow> sample option \<times> Decoder" where
  "beamng_parse d pkt =
     (if length pkt \<noteq> LEN_NO_ID \<and> length pkt \<noteq> LEN_WITH_ID then (None, d)
      else
        (case (f32_at pkt 12, f32_at pkt 16, f32_at pkt 48) of
           (Some speed, Some rpm, Some throttle) \<Rightarrow>
             if \<not> f_is_finite speed \<or> \<not> f_is_finite throttle \<or> f_le rpm f_zero \<or> f_lt f_30000 rpm then (None, d)
             else
               let d' = d\<lparr>running_max_rpm := f_max (running_max_rpm d) rpm\<rparr>;
                   lamps = (case u32_at pkt 44 of Some v \<Rightarrow> v | None \<Rightarrow> 0);
                   gear = (case get_at pkt 10 of Some g \<Rightarrow> saturating_dec_i8 g | None \<Rightarrow> 0);
                   pedal = (\<lambda>off. f_clamp f_zero f_one (case f32_at pkt off of Some v \<Rightarrow> v | None \<Rightarrow> 0))
               in (Some (BEAMNG_ID, telemetry_default\<lparr>t_rpm := rpm, t_max_rpm := f_max (running_max_rpm d') f_one,
                     t_throttle := f_clamp f_zero f_one throttle, t_speed := speed,
                     t_pit_limiter := (lamps AND DL_PITSPEED \<noteq> 0), t_gear := gear, t_brake := pedal 52, t_clutch := pedal 56,
                     t_abs_active := (lamps AND DL_ABS \<noteq> 0), t_traction_control := (lamps AND DL_TC \<noteq> 0)\<rparr>), d')
         | _ \<Rightarrow> (None, d)))"

section \<open>The sockets of the daemon\<close>

record Decoders =
  dec_f1 :: Decoder
  dec_beamng :: Decoder

definition parse_codemasters_port :: "Decoders \<Rightarrow> u8 list \<Rightarrow> sample option \<times> Decoders" where
  "parse_codemasters_port ds pkt =
     (case codemasters_parse pkt of Some s \<Rightarrow> (Some s, ds)
      | None \<Rightarrow>
          (case f1_parse (dec_f1 ds) pkt of
             (Some s, d) \<Rightarrow> (Some s, ds\<lparr>dec_f1 := d\<rparr>)
           | (None, d) \<Rightarrow> (wrc_parse pkt, ds\<lparr>dec_f1 := d\<rparr>)))"

definition beamng_port :: "Decoders \<Rightarrow> u8 list \<Rightarrow> sample option \<times> Decoders" where
  "beamng_port ds pkt = (case beamng_parse (dec_beamng ds) pkt of (r, d) \<Rightarrow> (r, ds\<lparr>dec_beamng := d\<rparr>))"

definition decoders_reset :: "Decoders \<Rightarrow> Decoders" where
  "decoders_reset ds = ds\<lparr>dec_f1 := decoder_reset (dec_f1 ds), dec_beamng := decoder_reset (dec_beamng ds)\<rparr>"

text \<open>\<open>drain\<close>: every pending datagram through the decoder, keeping the newest accepted sample.\<close>

fun drain_socket :: "('d \<Rightarrow> u8 list \<Rightarrow> sample option \<times> 'd) \<Rightarrow> nat \<Rightarrow> 'd \<Rightarrow> recv_result list \<Rightarrow> sample option \<Rightarrow> sample option \<times> 'd" where
  "drain_socket parse buf_len d [] latest = (latest, d)"
| "drain_socket parse buf_len d (Datagram pkt peer # rs) latest =
     (case parse d (take buf_len pkt) of
        (Some s, d') \<Rightarrow> drain_socket parse buf_len d' rs (Some s)
      | (None, d') \<Rightarrow> drain_socket parse buf_len d' rs latest)"
| "drain_socket parse buf_len d (WouldBlock # rs) latest = (latest, d)"
| "drain_socket parse buf_len d (Interrupted # rs) latest = drain_socket parse buf_len d rs latest"
| "drain_socket parse buf_len d (RecvError # rs) latest = (latest, d)"

section \<open>Bounds of the arithmetic used\<close>

lemma u8_ratio_le_one:
  assumes "n \<le> 255"
  shows "f_le f_zero (f_div (f_of_nat n) f_255) \<and> f_le (f_div (f_of_nat n) f_255) f_one"
proof -
  let ?x = "f_of_nat n"
  have k: "f_neg f_255 = False" "f_mag f_255 = 0x437f0000" by (simp_all add: f_neg_def f_mag_def)
  have v: "f_val f_255 = 255" by (simp add: f_val_def k units_of_ints)
  have x: "f_mag ?x \<le> 0x437f0000" by (rule f_of_nat_le_u8 [OF assms])
  then have "f_val ?x \<le> 255" using f_val_le_units [OF x] by (simp add: units_of_ints)
  then have q: "\<bar>f_val ?x / f_val f_255\<bar> \<le> of_nat (units 0x3f800000) / 2 ^ 149"
    using f_val_nonneg [of ?x] by (simp add: v units_of_ints)
  have "f_div ?x f_255 = f_of_rat False (f_val ?x / f_val f_255)"
    using x k by (simp add: f_div_def f_is_inf_def f_is_zero_def f_is_nan_def F_INF_def)
  moreover have "f_mag (f_of_rat False (f_val ?x / f_val f_255)) \<le> 0x3f800000" by (rule f_of_rat_le [OF q]) (simp add: F_INF_def)
  ultimately have y: "f_mag (f_div ?x f_255) \<le> 0x3f800000" "\<not> f_neg (f_div ?x f_255)" "\<not> f_is_nan (f_div ?x f_255)"
    by (simp_all only: f_of_rat_mag f_of_rat_not_nan simp_thms)
  then have "f_key (f_div ?x f_255) = int (f_mag (f_div ?x f_255))" by (simp add: f_key_def)
  then show ?thesis using y by (simp add: f_le_def)
qed

lemma f1_speed_finite:
  assumes "n \<le> 65536"
  shows "f_is_finite (f_mul (f_of_nat n) KMH_TO_MS)"
proof -
  have c: "f_neg 0x447a0000 = False" "f_mag 0x447a0000 = 0x447a0000" "f_neg 0x45610000 = False" "f_mag 0x45610000 = 0x45610000"
    "f_val 0x447a0000 = 1000" "f_val 0x45610000 = 3600"
    by (simp_all add: f_neg_def f_mag_def f_val_def units_def Let_def)
  have k: "KMH_TO_MS = f_of_rat False (1000 / 3600)"
    using c by (simp add: KMH_TO_MS_def f_div_def f_is_inf_def f_is_zero_def f_is_nan_def F_INF_def)
  have m: "f_mag KMH_TO_MS \<le> 0x3f800000" unfolding k by (rule f_of_rat_le) (simp_all add: units_of_ints F_INF_def)
  have x: "f_mag (f_of_nat n) \<le> 0x47800000" by (rule f_of_nat_le_u16 [OF assms])
  have "\<bar>f_val (f_of_nat n) * f_val KMH_TO_MS\<bar> \<le> (2 ^ 165 / 2 ^ 149) * (2 ^ 149 / 2 ^ 149)"
    unfolding abs_mult using f_val_le_units [OF x] f_val_le_units [OF m]
    by (intro mult_mono) (simp_all add: units_of_ints)
  then have q: "\<bar>f_val (f_of_nat n) * f_val KMH_TO_MS\<bar> \<le> of_nat (units 0x47800000) / 2 ^ 149" by (simp add: units_of_ints)
  have "f_mul (f_of_nat n) KMH_TO_MS = f_of_rat False (f_val (f_of_nat n) * f_val KMH_TO_MS)"
    using x m by (simp add: f_mul_def f_is_inf_def f_is_nan_def F_INF_def k f_of_rat_mag)
  moreover have "f_mag (f_of_rat False (f_val (f_of_nat n) * f_val KMH_TO_MS)) \<le> 0x47800000" by (rule f_of_rat_le [OF q]) (simp add: F_INF_def)
  ultimately show ?thesis by (simp add: f_is_finite_def F_INF_def)
qed

section \<open>What the daemon relies on\<close>

definition sane :: "Telemetry \<Rightarrow> bool" where
  "sane t \<longleftrightarrow> f_le f_zero (t_throttle t) \<and> f_le (t_throttle t) f_one \<and> f_is_finite (t_speed t) \<and>
     \<not> f_le (t_max_rpm t) f_zero \<and> \<not> f_is_nan (t_surface_roughness t)"

lemma default_roughness [simp]: "t_surface_roughness telemetry_default = f_zero"
  by (simp add: telemetry_default_def)

locale telemetry_decoder =
  fixes parse :: "'d \<Rightarrow> u8 list \<Rightarrow> sample option \<times> 'd" and ids :: "string set"
  assumes accepted: "parse d pkt = (Some (game, t), d') \<Longrightarrow> game \<in> ids \<and> sane t"
    and refused: "parse d pkt = (None, d') \<Longrightarrow> d' = d"
begin

lemma drained_sane:
  assumes "drain_socket parse buf_len d rs latest = (Some (game, t), d')"
    and "\<And>g u. latest = Some (g, u) \<Longrightarrow> g \<in> ids \<union> others \<and> sane u"
  shows "game \<in> ids \<union> others \<and> sane t"
  using assms
proof (induction rs arbitrary: d latest)
  case (Cons r rs)
  show ?case
  proof (cases r)
    case (Datagram pkt peer)
    obtain s e where p: "parse d (take buf_len pkt) = (s, e)" by fastforce
    show ?thesis
    proof (cases s)
      case (Some x)
      obtain g u where x: "x = (g, u)" by fastforce
      then have "g \<in> ids \<and> sane u" using p Some accepted by blast
      then show ?thesis using Cons.IH [of e "Some (g, u)"] Cons.prems p Some x Datagram by simp
    next
      case None
      then show ?thesis using Cons.IH [of e latest] Cons.prems p Datagram by simp
    qed
  qed (use Cons in auto)
qed auto

lemma drained_all_refused:
  assumes "\<forall>pkt peer. Datagram pkt peer \<in> set rs \<longrightarrow> fst (parse d (take buf_len pkt)) = None"
  shows "drain_socket parse buf_len d rs latest = (latest, d)"
  using assms
proof (induction rs)
  case (Cons r rs)
  show ?case
  proof (cases r)
    case (Datagram pkt peer)
    then have "fst (parse d (take buf_len pkt)) = None" using Cons.prems by simp
    then have "parse d (take buf_len pkt) = (None, d)" using refused by (metis prod.collapse)
    then show ?thesis using Cons Datagram by simp
  qed (use Cons in auto)
qed simp

end


lemma f32_at_Some: "f32_at pkt off = Some v \<Longrightarrow> off + 4 \<le> length pkt"
  by (auto simp: f32_at_def get_range_def split: if_splits)

interpretation codemasters: telemetry_decoder "\<lambda>(d :: unit) pkt. (codemasters_parse pkt, d)" "{ID_DIRT_RALLY_2, ID_FAMILY}"
proof
  fix d :: unit and pkt game t d'
  assume "(codemasters_parse pkt, d) = (Some (game, t), d')"
  then show "game \<in> {ID_DIRT_RALLY_2, ID_FAMILY} \<and> sane t"
    using f_clamp_bounds [OF finite_not_nan f_zero_le_one]
    by (auto simp: codemasters_parse_def sane_def Let_def split: if_splits Option.bind_splits)
qed simp

interpretation wrc: telemetry_decoder "\<lambda>(d :: unit) pkt. (wrc_parse pkt, d)" "{WRC_ID}"
proof
  fix d :: unit and pkt game t d'
  assume "(wrc_parse pkt, d) = (Some (game, t), d')"
  then show "game \<in> {WRC_ID} \<and> sane t"
    using f_clamp_bounds [OF finite_not_nan f_zero_le_one]
    by (auto simp: wrc_parse_def sane_def Let_def split: if_splits Option.bind_splits)
qed simp

interpretation pcars: telemetry_decoder "\<lambda>(d :: unit) pkt. (pcars_parse pkt, d)" "{PCARS_ID}"
proof
  fix d :: unit and pkt game t d'
  assume "(pcars_parse pkt, d) = (Some (game, t), d')"
  moreover have "unat (b :: u8) \<le> 255" for b using unat_u8_less [of b] by linarith
  ultimately show "game \<in> {PCARS_ID} \<and> sane t"
    using u8_ratio_le_one
    by (auto simp: pcars_parse_def sane_def Let_def telemetry_default_def split: if_splits Option.bind_splits)
qed simp


text \<open>A decoder that learns the redline from the engine speeds it has accepted.\<close>

locale redline_decoder = telemetry_decoder parse ids for parse :: "'d \<Rightarrow> u8 list \<Rightarrow> sample option \<times> 'd" and ids +
  fixes learned :: "'d \<Rightarrow> f32"
  assumes learns: "parse d pkt = (Some (game, t), d') \<Longrightarrow>
      learned d' = f_max (learned d) (t_rpm t) \<and> t_max_rpm t = f_max (learned d') f_one"
begin

lemma learned_grows:
  assumes "run_ops parse d pkts = (rs, d')" "\<not> f_is_nan (learned d)"
    and "\<forall>g t. Some (g, t) \<in> set rs \<longrightarrow> \<not> f_is_nan (t_rpm t)"
  shows "\<not> f_is_nan (learned d') \<and> f_le (learned d) (learned d') \<and>
    (\<forall>g t. Some (g, t) \<in> set rs \<longrightarrow> f_le (t_rpm t) (learned d'))"
  using assms
proof (induction pkts arbitrary: d rs)
  case (Cons pkt pkts)
  obtain r e where p: "parse d pkt = (r, e)" by fastforce
  obtain rs' where rest: "run_ops parse e pkts = (rs', d')" "rs = r # rs'" using Cons.prems(1) p by (auto split: prod.splits)
  show ?case
  proof (cases r)
    case None
    then have "e = d" using p refused by blast
    then show ?thesis using Cons.IH [of e rs'] Cons.prems rest None by simp
  next
    case (Some x)
    obtain g t where x: "x = (g, t)" by fastforce
    have l: "learned e = f_max (learned d) (t_rpm t)" using learns p Some x by blast
    have nn: "\<not> f_is_nan (t_rpm t)" using Cons.prems(3) rest Some x by auto
    have step: "\<not> f_is_nan (learned e)" "f_le (learned d) (learned e)" "f_le (t_rpm t) (learned e)"
      using l nn Cons.prems(2) by (auto simp: f_max_def f_lt_def f_le_def)
    have rec: "\<not> f_is_nan (learned d') \<and> f_le (learned e) (learned d') \<and>
      (\<forall>g t. Some (g, t) \<in> set rs' \<longrightarrow> f_le (t_rpm t) (learned d'))"
      by (rule Cons.IH [OF rest(1) step(1)]) (use Cons.prems(3) rest in auto)
    have trans: "f_le a (learned d')" if "f_le a (learned e)" for a
      using that rec by (auto simp: f_le_def)
    show ?thesis using rec step trans rest Some x by auto
  qed
qed (auto simp: f_le_def)

lemma redline_covers:
  assumes "run_ops parse d pkts = (rs, e)" "parse e pkt = (Some (g, t), e')" "\<not> f_is_nan (learned d)"
    and "\<forall>h u. Some (h, u) \<in> set rs \<or> u = t \<longrightarrow> \<not> f_is_nan (t_rpm u)"
  shows "f_le f_one (t_max_rpm t) \<and> (\<forall>h u. Some (h, u) \<in> set rs \<or> u = t \<longrightarrow> f_le (t_rpm u) (t_max_rpm t))"
proof -
  have g: "\<not> f_is_nan (learned e)" "\<forall>h u. Some (h, u) \<in> set rs \<longrightarrow> f_le (t_rpm u) (learned e)"
    using learned_grows [OF assms(1,3)] assms(4) by auto
  have l: "learned e' = f_max (learned e) (t_rpm t)" "t_max_rpm t = f_max (learned e') f_one" using learns [OF assms(2)] by auto
  have "\<not> f_is_nan (t_rpm t)" using assms(4) by auto
  then show ?thesis using g l by (fastforce simp: f_max_def f_lt_def f_le_def)
qed

end

interpretation f1: redline_decoder f1_parse "{F1_ID}" running_max_rpm
proof
  fix d pkt game t d'
  assume "f1_parse d pkt = (Some (game, t), d')"
  then show "running_max_rpm d' = f_max (running_max_rpm d) (t_rpm t) \<and> t_max_rpm t = f_max (running_max_rpm d') f_one"
    by (auto simp: f1_parse_def Let_def telemetry_default_def split: option.splits if_splits)
next
  fix d pkt d'
  assume "f1_parse d pkt = (None, d')"
  then show "d' = d" by (auto simp: f1_parse_def Let_def split: option.splits if_splits)
next
  fix d pkt game t d'
  assume p: "f1_parse d pkt = (Some (game, t), d')"
  have pos: "\<not> f_le (f_max (f_max m r) f_one) f_zero" if "\<not> f_is_nan r" for m r :: f32
    using that by (auto simp: f_max_def f_lt_def f_le_def)
  have speed: "f_is_finite (f_mul (f_of_nat (unat w)) KMH_TO_MS)" for w :: u16
    using f1_speed_finite [of "unat w"] unat_u16_less [of w] by simp
  from p show "game \<in> {F1_ID} \<and> sane t"
    using f_clamp_bounds [OF finite_not_nan f_zero_le_one] pos speed
    by (auto simp: f1_parse_def Let_def telemetry_default_def sane_def split: option.splits if_splits)
qed

interpretation beamng: redline_decoder beamng_parse "{BEAMNG_ID}" running_max_rpm
proof
  fix d pkt game t d'
  assume "beamng_parse d pkt = (Some (game, t), d')"
  then show "running_max_rpm d' = f_max (running_max_rpm d) (t_rpm t) \<and> t_max_rpm t = f_max (running_max_rpm d') f_one"
    by (auto simp: beamng_parse_def Let_def telemetry_default_def split: option.splits if_splits)
next
  fix d pkt d'
  assume "beamng_parse d pkt = (None, d')"
  then show "d' = d" by (auto simp: beamng_parse_def Let_def split: option.splits if_splits)
next
  fix d pkt game t d'
  assume p: "beamng_parse d pkt = (Some (game, t), d')"
  have pos: "\<not> f_le (f_max m f_one) f_zero" for m :: f32
    by (auto simp: f_max_def f_lt_def f_le_def)
  from p show "game \<in> {BEAMNG_ID} \<and> sane t"
    using f_clamp_bounds [OF finite_not_nan f_zero_le_one] pos
    by (auto simp: beamng_parse_def Let_def telemetry_default_def sane_def split: option.splits if_splits)
qed

section \<open>One pass over the sockets\<close>

text \<open>The datagrams a relay listener hands to the daemon, newest accepted sample last.\<close>

fun relay_latest :: "(u8 list \<times> nat) list \<Rightarrow> sample option \<Rightarrow> sample option" where
  "relay_latest [] latest = latest"
| "relay_latest ((pkt, peer) # ps) latest =
     relay_latest ps (case relay_parse pkt of Some s \<Rightarrow> Some s | None \<Rightarrow> latest)"

definition read_sockets ::
  "nat \<Rightarrow> Decoders \<Rightarrow> recv_result list \<Rightarrow> recv_result list \<Rightarrow> recv_result list \<Rightarrow> (RelayListener \<times> recv_result list) option \<Rightarrow>
   sample option \<times> Decoders" where
  "read_sockets buf_len ds cm pc bn relay =
     (case drain_socket parse_codemasters_port buf_len ds cm None of (l1, ds1) \<Rightarrow>
      case drain_socket (\<lambda>d pkt. (pcars_parse pkt, d)) buf_len () pc l1 of (l2, _) \<Rightarrow>
      case drain_socket beamng_port buf_len ds1 bn l2 of (l3, ds2) \<Rightarrow>
      (case relay of None \<Rightarrow> l3 | Some (l, rs) \<Rightarrow> relay_latest (fst (drain l buf_len rs)) l3, ds2))"

interpretation codemasters_port: telemetry_decoder parse_codemasters_port "{ID_DIRT_RALLY_2, ID_FAMILY, F1_ID, WRC_ID}"
proof
  fix ds pkt game t ds'
  assume "parse_codemasters_port ds pkt = (Some (game, t), ds')"
  then consider "codemasters_parse pkt = Some (game, t)"
    | d where "f1_parse (dec_f1 ds) pkt = (Some (game, t), d)" | "wrc_parse pkt = Some (game, t)"
    by (auto simp: parse_codemasters_port_def split: option.splits prod.splits)
  then show "game \<in> {ID_DIRT_RALLY_2, ID_FAMILY, F1_ID, WRC_ID} \<and> sane t"
    by cases (use codemasters.accepted [of pkt "()" game t] f1.accepted wrc.accepted [of pkt "()" game t] in auto)
next
  fix ds pkt ds'
  assume "parse_codemasters_port ds pkt = (None, ds')"
  then show "ds' = ds" using f1.refused [of "dec_f1 ds" pkt]
    by (auto simp: parse_codemasters_port_def split: option.splits prod.splits)
qed

interpretation beamng_port: telemetry_decoder beamng_port "{BEAMNG_ID}"
proof
  fix ds pkt game t ds'
  assume "beamng_port ds pkt = (Some (game, t), ds')"
  then show "game \<in> {BEAMNG_ID} \<and> sane t"
    using beamng.accepted [of "dec_beamng ds" pkt game t] by (auto simp: beamng_port_def split: prod.splits)
next
  fix ds pkt ds'
  assume "beamng_port ds pkt = (None, ds')"
  then show "ds' = ds" using beamng.refused [of "dec_beamng ds" pkt] by (auto simp: beamng_port_def split: prod.splits)
qed

lemma formats_disjoint:
  "(codemasters_parse pkt = None \<or> fst (f1_parse d pkt) = None) \<and>
   (codemasters_parse pkt = None \<or> wrc_parse pkt = None) \<and>
   (fst (f1_parse d pkt) = None \<or> wrc_parse pkt = None)"
proof -
  have cm: "BASE_LEN \<le> length pkt \<and> length pkt \<le> MAX_LEN" if "codemasters_parse pkt \<noteq> None"
    using that by (auto simp: codemasters_parse_def split: if_splits)
  have f1: "NUM_CARS * ENTRY_LEN \<le> length pkt" if "fst (f1_parse d pkt) \<noteq> None"
    using that by (auto simp: f1_parse_def Let_def split: if_splits option.splits)
  have wrc: "length pkt = WRC_PACKET_LEN" if "wrc_parse pkt \<noteq> None"
    using that by (auto simp: wrc_parse_def split: if_splits)
  show ?thesis using cm f1 wrc
    by (fastforce simp: BASE_LEN_def MAX_LEN_def NUM_CARS_def ENTRY_LEN_def WRC_PACKET_LEN_def)
qed

text \<open>The three formats that share a port are told apart by their length: whatever the bytes, at
  most one of the three decoders accepts a datagram, so the order in which they are tried is
  immaterial.\<close>

theorem port_formats_disjoint:
  "(codemasters_parse pkt = None \<or> fst (f1_parse d pkt) = None) \<and>
   (codemasters_parse pkt = None \<or> wrc_parse pkt = None) \<and>
   (fst (f1_parse d pkt) = None \<or> wrc_parse pkt = None)"
  by (rule formats_disjoint)

lemma relay_sample_sane: "relay_parse pkt = Some (game, t) \<Longrightarrow> game \<in> set GAME_IDS \<and> sane t"
proof -
  assume p: "relay_parse pkt = Some (game, t)"
  then have "t_surface_roughness t = f_zero" by (auto simp: relay_parse_def to_telemetry_def split: Option.bind_splits if_splits)
  then show ?thesis using relay_sample_usable [OF p] by (auto simp: usable_sample_def sane_def f_lt_def f_le_def)
qed

lemma relay_latest_sane:
  assumes "relay_latest ps latest = Some (game, t)" "\<And>g u. latest = Some (g, u) \<Longrightarrow> g \<in> set GAME_IDS \<union> others \<and> sane u"
  shows "game \<in> set GAME_IDS \<union> others \<and> sane t"
  using assms
proof (induction ps latest rule: relay_latest.induct)
  case (2 pkt peer ps latest)
  show ?case
    by (rule "2.IH") (use "2.prems" relay_sample_sane in \<open>auto split: option.splits\<close>)
qed simp

definition known_games :: "string set" where
  "known_games = {ID_DIRT_RALLY_2, ID_FAMILY, F1_ID, WRC_ID, PCARS_ID, BEAMNG_ID} \<union> set GAME_IDS"

lemma read_sockets_sane:
  assumes "read_sockets buf_len ds cm pc bn relay = (Some (game, t), ds')"
  shows "game \<in> known_games \<and> sane t"
proof -
  obtain l1 ds1 where 1: "drain_socket parse_codemasters_port buf_len ds cm None = (l1, ds1)" by fastforce
  obtain l2 where 2: "drain_socket (\<lambda>d pkt. (pcars_parse pkt, d)) buf_len () pc l1 = (l2, ())"
    by (cases "drain_socket (\<lambda>d pkt. (pcars_parse pkt, d)) buf_len () pc l1") auto
  obtain l3 ds2 where 3: "drain_socket beamng_port buf_len ds1 bn l2 = (l3, ds2)" by fastforce
  let ?cm = "{ID_DIRT_RALLY_2, ID_FAMILY, F1_ID, WRC_ID}"
  have a: "g \<in> ?cm \<union> {} \<and> sane s" if "l1 = Some (g, s)" for g s
    by (rule codemasters_port.drained_sane [OF 1 [unfolded that]]) simp
  have b: "g \<in> {PCARS_ID} \<union> ?cm \<and> sane s" if "l2 = Some (g, s)" for g s
    by (rule pcars.drained_sane [OF 2 [unfolded that]]) (use a in auto)
  have c: "g \<in> {BEAMNG_ID} \<union> ({PCARS_ID} \<union> ?cm) \<and> sane s" if "l3 = Some (g, s)" for g s
    by (rule beamng_port.drained_sane [OF 3 [unfolded that]]) (use b in auto)
  show ?thesis
  proof (cases relay)
    case None
    then show ?thesis using assms 1 2 3 c [of game t] by (auto simp: read_sockets_def known_games_def)
  next
    case (Some x)
    then obtain l rs where "relay_latest (fst (drain l buf_len rs)) l3 = Some (game, t)"
      using assms 1 2 3 by (cases x) (auto simp: read_sockets_def)
    from relay_latest_sane [OF this, of "{BEAMNG_ID} \<union> ({PCARS_ID} \<union> ?cm)"] c show ?thesis
      by (auto simp: known_games_def)
  qed
qed


definition wrc_packet :: "f32 \<Rightarrow> f32 \<Rightarrow> u8 list" where
  "wrc_packet rpm max_rpm = to_le_bytes (0 :: f32) @ to_le_bytes rpm @ to_le_bytes max_rpm @ to_le_bytes (0x3f000000 :: f32)"

lemma wrc_packet_parse:
  assumes "\<not> f_lt rpm f_zero" "\<not> f_le max_rpm f_zero" "\<not> f_lt f_30000 rpm" "\<not> f_lt f_30000 max_rpm"
  shows "wrc_parse (wrc_packet rpm max_rpm) =
    Some (WRC_ID, telemetry_default\<lparr>t_rpm := rpm, t_max_rpm := max_rpm, t_throttle := 0x3f000000, t_speed := 0\<rparr>)"
proof -
  have half: "f_is_finite 0x3f000000" "f_clamp f_zero f_one 0x3f000000 = 0x3f000000"
    by (simp_all add: f_is_finite_def f_mag_def F_INF_def f_clamp_def f_lt_def f_key_def f_neg_def f_is_nan_def)
  show ?thesis using assms half
    by (simp add: wrc_parse_def wrc_packet_def WRC_PACKET_LEN_def f32_at_def get_range_def)
qed


text \<open>The F1 packets carry no redline. Whatever datagrams came before since a reset, the redline of
  an accepted sample is at least 1 and at least every engine speed that was accepted, its own
  included.\<close>

lemma f1_rpm_not_nan: "f1_parse d pkt = (Some (g, t), d') \<Longrightarrow> \<not> f_is_nan (t_rpm t)"
  by (auto simp: f1_parse_def Let_def telemetry_default_def split: option.splits if_splits)

lemma run_ops_results: "run_ops step s ops = (rs, s') \<Longrightarrow> r \<in> set rs \<Longrightarrow> \<exists>u op v. step u op = (r, v)"
proof (induction ops arbitrary: s rs)
  case (Cons op ops)
  obtain q t where "step s op = (q, t)" by fastforce
  with Cons show ?case by (fastforce split: prod.splits)
qed simp

theorem learned_redline_covers:
  assumes "run_ops f1_parse (decoder_reset d) pkts = (rs, e)" "f1_parse e pkt = (Some (g, t), e')"
  shows "f_le f_one (t_max_rpm t) \<and> f_le (t_rpm t) (t_max_rpm t) \<and>
    (\<forall>h u. Some (h, u) \<in> set rs \<longrightarrow> f_le (t_rpm u) (t_max_rpm t))"
proof -
  have "\<forall>h u. Some (h, u) \<in> set rs \<or> u = t \<longrightarrow> \<not> f_is_nan (t_rpm u)"
    using run_ops_results [OF assms(1)] f1_rpm_not_nan assms(2) by metis
  from f1.redline_covers [OF assms _ this] show ?thesis by (auto simp: decoder_reset_def)
qed


definition f1_packet :: "u8 list" where
  "f1_packet = [0xe6, 0x07, 0, 0, 0, 6] @ replicate 34 0 @ [1, 0] @ replicate 1302 0"

lemma f_of_nat_1: "f_of_nat 1 = f_one"
proof -
  have "round_mag (2 ^ 149) = 0x3f800000" using round_mag_units [of "0x3f800000"] by (simp add: units_of_ints F_INF_def)
  then show ?thesis by (simp add: f_of_nat_def f_of_rat_def f_make_def)
qed

lemma f1_packet_parse: "\<exists>t. f1_parse (decoder_reset decoder_new) f1_packet = (Some (F1_ID, t), \<lparr>running_max_rpm = f_one\<rparr>) \<and> t_rpm t = f_one"
proof -
  have year: "from_le_bytes [0xe6, 0x07] = (2022 :: u16)" by code_simp
  have zeros: "from_le_bytes (replicate n 0) = 0" for n by (induction n) simp_all
  have at: "le_u16_at f1_packet 0 = Some 2022" "get_at f1_packet 22 = Some 0" "get_at f1_packet 5 = Some 6"
    "le_u16_at f1_packet 24 = Some 0" "f32_at f1_packet 26 = Some 0" "le_u16_at f1_packet 40 = Some 1" "length f1_packet = 1344"
    by (simp_all add: f1_packet_def le_u16_at_def f32_at_def get_range_def nth_append year zeros)
  have h: "parse_header f1_packet = Some \<lparr>h_len = 24, h_packet_id = 6, h_player_index = 0\<rparr>"
    using at by (simp add: parse_header_def header_layout_def NUM_CARS_def get_at_def)
  have one: "\<not> f_le f_one f_zero" "\<not> f_lt f_30000 f_one" "f_max 0 f_one = f_one"
    by (simp_all add: f_le_def f_lt_def f_max_def f_key_def f_neg_def f_mag_def)
  show ?thesis using at h one f_of_nat_1
    by (simp add: f1_parse_def CAR_TELEMETRY_PACKET_ID_def NUM_CARS_def ENTRY_LEN_def Let_def decoder_new_def decoder_reset_def)
qed

theorem learned_redline_covers_witness:
  "\<exists>t. f1_parse (decoder_reset decoder_new) f1_packet = (Some (F1_ID, t), \<lparr>running_max_rpm = f_one\<rparr>) \<and>
    f_le f_one (t_max_rpm t) \<and> f_le (t_rpm t) (t_max_rpm t)"
  using f1_packet_parse learned_redline_covers [where d = decoder_new and pkts = "[]" and rs = "[]" and e = "decoder_reset decoder_new" and pkt = f1_packet] by fastforce

text \<open>Two decoders let an engine speed that is not a number through: the range checks are
  comparisons, which a NaN never fails, and unlike the speed and the throttle the engine speed
  is not tested for being finite.\<close>

theorem nan_engine_speed_accepted:
  "\<exists>t. wrc_parse (wrc_packet f_quiet_nan f_quiet_nan) = Some (WRC_ID, t) \<and> f_is_nan (t_rpm t) \<and> f_is_nan (t_max_rpm t)"
  by (subst wrc_packet_parse) (simp_all add: f_lt_def f_le_def telemetry_default_def)

end
