(* ===== verification/Daemon.thy ===== *)
theory Daemon
  imports Lease Rev_Leds Sim_Config Telemetry_Formats
begin

text \<open>
  The simulator daemon: \<open>daemon.rs\<close> and \<open>game_gain.rs\<close> of \<open>logi-tf-sim\<close>. One iteration of its
  loop is \<open>iteration\<close>, put together from the blocks of the loop body in their order: reading the
  sockets, the telemetry block, the captured block, the watchdog and the generation, the
  teardown. Instants are nanoseconds. What the world answers during an iteration is a record
  \<open>answers\<close>; the lock files and the files of the rev strip are those of the theories \<open>Lease\<close> and
  \<open>Rev_Leds\<close>. The mixer is a parameter, instantiated in the theory \<open>Daemon_Mix\<close>;
  what is sent to a stream is an event here, the stream of a G923 is the theory \<open>G923_Stream\<close>.
\<close>

section \<open>Planning a block\<close>

definition MS :: nat where "MS = 1000000"
definition SILENCE_TIMEOUT_MS :: nat where "SILENCE_TIMEOUT_MS = 500"
definition ZERO_FORCE_STANDBY_MS :: nat where "ZERO_FORCE_STANDBY_MS = 500"
definition MAX_GEN_MS :: nat where "MAX_GEN_MS = 100"
definition OPEN_RETRY :: nat where "OPEN_RETRY = 5000 * MS"
definition SAMPLES_PER_MS :: nat where "SAMPLES_PER_MS = 4"
definition CAPTURED_PRECEDENCE_MS :: nat where "CAPTURED_PRECEDENCE_MS = 250"
definition LEASE_HOLDER :: string where "LEASE_HOLDER = ''logi-tf-sim''"
definition CAPTURED_GAME :: string where "CAPTURED_GAME = ''captured''"

record GenPlan =
  gp_samples :: nat
  gp_audio_ms :: nat
  gp_dropped_backlog :: bool

definition plan_generation :: "nat \<Rightarrow> GenPlan option" where
  "plan_generation elapsed_ms =
     (let audio_ms = min elapsed_ms MAX_GEN_MS in
      if audio_ms = 0 then None
      else Some \<lparr>gp_samples = audio_ms * SAMPLES_PER_MS, gp_audio_ms = audio_ms, gp_dropped_backlog = MAX_GEN_MS < elapsed_ms\<rparr>)"

definition gen_clock :: "nat \<Rightarrow> nat \<Rightarrow> GenPlan \<Rightarrow> nat" where
  "gen_clock now last_gen plan = (if gp_dropped_backlog plan then now else last_gen + gp_audio_ms plan * MS)"

section \<open>The silence gate\<close>

datatype GateAction = Stay | EnterStandby | Resume

record SilenceGate =
  zero_ms :: nat
  standby :: bool

definition gate_default :: SilenceGate where "gate_default = \<lparr>zero_ms = 0, standby = False\<rparr>"

definition hold_standby :: "SilenceGate \<Rightarrow> SilenceGate" where
  "hold_standby g = g\<lparr>standby := True, zero_ms := ZERO_FORCE_STANDBY_MS\<rparr>"

definition observe :: "SilenceGate \<Rightarrow> bool \<Rightarrow> nat \<Rightarrow> GateAction \<times> SilenceGate" where
  "observe g silent audio_ms =
     (if \<not> silent then
        (if standby g then (Resume, g\<lparr>zero_ms := 0, standby := False\<rparr>) else (Stay, g\<lparr>zero_ms := 0\<rparr>))
      else if standby g then (Stay, g)
      else
        let z = zero_ms g + audio_ms in
        if ZERO_FORCE_STANDBY_MS \<le> z then (EnterStandby, g\<lparr>zero_ms := z, standby := True\<rparr>) else (Stay, g\<lparr>zero_ms := z\<rparr>))"

section \<open>The game's own strength\<close>

record GameGain =
  gg_path :: "string option"
  gg_value :: f32
  gg_next :: nat

definition gain_new :: "string option \<Rightarrow> bool \<Rightarrow> nat \<Rightarrow> GameGain" where
  "gain_new owner on now = \<lparr>gg_path = (if on then map_option (\<lambda>hid. path_join (path_join ''/sys/bus/hid/devices'' hid) ''wheel_ffb_game_gain'') owner else None), gg_value = f_one, gg_next = now\<rparr>"

definition gain_scale :: "(string \<Rightarrow> string option) \<Rightarrow> nat \<Rightarrow> GameGain \<Rightarrow> f32 \<times> GameGain" where
  "gain_scale read now g =
     (case gg_path g of
        None \<Rightarrow> (f_one, g)
      | Some p \<Rightarrow>
          if gg_next g \<le> now then
            (let g1 = g\<lparr>gg_next := now + 250 * MS\<rparr>;
                 g2 = (case read p of
                         None \<Rightarrow> g1
                       | Some t \<Rightarrow> (case parse_unsigned 4294967295 (trim t) of
                           None \<Rightarrow> g1 | Some pct \<Rightarrow> g1\<lparr>gg_value := f_div (f_of_nat (min pct 100)) F_HUNDRED\<rparr>))
             in (gg_value g2, g2))
          else (gg_value g, g))"

section \<open>State, world and answers\<close>

datatype WheelStream = StreamDd | StreamG923

datatype sim_error = Unstabilised | SimIo string string | SimBusy string | SimNoWheel | NoHaptics string | StreamError string int

definition sim_error_text :: "sim_error \<Rightarrow> string" where
  "sim_error_text e =
     (case e of
        Unstabilised \<Rightarrow> ''refusing to run: no force-feedback session could be opened, and without one a direct-drive wheel can drive itself into its stops. Check that you can write to the wheel's /dev/input/event* node (the udev rules grant this); see issue #57''
      | SimBusy who \<Rightarrow> ''refusing to stream: '' @ who @ '' is already streaming to this wheel. The wheel's stream endpoint carries one packet per millisecond, so two programs on it do not share it, they take turns, and the motor is square-modulated at 500 Hz (that is the buzz). Stop it and try again''
      | SimIo what err \<Rightarrow> what @ '': '' @ err
      | SimNoWheel \<Rightarrow> ''no supported wheel found''
      | NoHaptics why \<Rightarrow> why
      | StreamError func rc \<Rightarrow> func @ '' failed (rc '' @ (if rc < 0 then ''-'' @ dec_nat (nat (- rc)) else dec_nat (nat rc)) @ '')'')"

record 'm Active =
  a_stream :: "WheelStream option"
  a_gain :: GameGain
  a_mixer :: 'm
  a_game :: string
  a_tel :: Telemetry
  a_last_telemetry :: nat
  a_last_gen :: nat
  a_last_captured :: "nat option"
  a_leds :: "RevLeds option"
  a_screen :: bool
  a_gate :: SilenceGate
  a_lease :: "Lease option"
  a_lease_key :: string
  a_warned_busy :: bool

text \<open>What leaves the daemon. A push carries the lease held at that time and the locks of the
  machine.\<close>

datatype daemon_event =
    StreamOpened WheelStream
  | Pushed (ev_captured: bool) (ev_samples: "f32 list") (ev_lease: "Lease option") (ev_locks: "string \<rightharpoonup> nat")
  | StreamStandby WheelStream
  | StreamResumed WheelStream
  | ScreenUpdated Telemetry
  | ScreenStopped
  | SessionStopped string

record world =
  w_locks :: lock_world
  w_leds :: led_fs
  w_fd :: nat
  w_events :: "daemon_event list"

record G923Paths =
  g_led_owner :: "string option"
  g_has_ffb_output :: bool
  g_kernel_carries_force :: bool

record answers =
  n_now :: nat
  n_cm :: "recv_result list"
  n_pc :: "recv_result list"
  n_bn :: "recv_result list"
  n_tf :: "recv_result list"
  n_relay :: "(RelayListener \<times> recv_result list) option"
  n_lock_fs :: lock_fs
  n_lease_dir :: string
  n_pid :: nat
  n_g923 :: "G923Paths option"
  n_dd_hid :: "string option"
  n_open_g923 :: "string option"
  n_open_dd :: "sim_error option"
  n_env_wheel :: "string option"
  n_marker :: "string \<Rightarrow> bool"
  n_markers :: "string list option"
  n_native_title :: "string \<Rightarrow> bool"
  n_proc :: "(string \<times> string option) list option"
  n_env :: "string \<rightharpoonup> string"
  n_dirs :: "string \<Rightarrow> string list"
  n_listing :: "string list \<Rightarrow> string list option"
  n_screen :: bool
  n_push :: "sim_error option"
  n_gain :: "string \<Rightarrow> string option"

text \<open>The effects mixer: made for a number of cylinders, a pitch and gains, with all layers or the
  engine alone; asked for a block of samples.\<close>

record 'm mixer =
  m_new :: "bool \<Rightarrow> nat \<Rightarrow> f32 \<Rightarrow> nat list \<Rightarrow> 'm"
  m_render :: "'m \<Rightarrow> Telemetry \<Rightarrow> f32 \<Rightarrow> nat \<Rightarrow> f32 list \<times> 'm"

record 'm daemon =
  d_active :: "'m Active option"
  d_decoders :: Decoders
  d_next_open :: nat
  d_world :: world

definition emit :: "daemon_event \<Rightarrow> world \<Rightarrow> world" where
  "emit e w = w\<lparr>w_events := w_events w @ [e]\<rparr>"

definition emit_stream :: "(WheelStream \<Rightarrow> daemon_event) \<Rightarrow> WheelStream option \<Rightarrow> world \<Rightarrow> world" where
  "emit_stream e s w = (case s of None \<Rightarrow> w | Some x \<Rightarrow> emit (e x) w)"

section \<open>Taking and opening the wheel\<close>

definition take_lease :: "answers \<Rightarrow> string \<Rightarrow> world \<Rightarrow> (sim_error + Lease) \<times> world" where
  "take_lease A key w =
     (case try_acquire_in (n_lock_fs A) (n_lease_dir A) key LEASE_HOLDER (n_pid A) (w_fd w) (w_locks w) of
        (Inl busy, lw) \<Rightarrow> (Inl (SimBusy (holder busy)), w\<lparr>w_locks := lw, w_fd := Suc (w_fd w)\<rparr>)
      | (Inr l, lw) \<Rightarrow> (Inr l, w\<lparr>w_locks := lw, w_fd := Suc (w_fd w)\<rparr>))"

definition give_lease :: "answers \<Rightarrow> Lease option \<Rightarrow> world \<Rightarrow> world" where
  "give_lease A l w = (case l of None \<Rightarrow> w | Some x \<Rightarrow> w\<lparr>w_locks := lease_drop (n_lock_fs A) x (w_locks w)\<rparr>)"

record OpenWheel =
  ow_stream :: WheelStream
  ow_led_owner :: "string option"
  ow_lease :: Lease
  ow_lease_key :: string

text \<open>The lease is taken before the stream is opened; it is dropped again when that fails.\<close>

definition open_leased ::
  "answers \<Rightarrow> string option \<Rightarrow> WheelStream \<Rightarrow> sim_error option \<Rightarrow> world \<Rightarrow> (sim_error + OpenWheel) \<times> world" where
  "open_leased A led_owner s failure w =
     (let key = (case led_owner of Some k \<Rightarrow> k | None \<Rightarrow> UNKNOWN_WHEEL_KEY) in
      case take_lease A key w of
        (Inl e, w') \<Rightarrow> (Inl e, w')
      | (Inr l, w') \<Rightarrow>
          (case failure of
             Some e \<Rightarrow> (Inl e, give_lease A (Some l) w')
           | None \<Rightarrow> (Inr \<lparr>ow_stream = s, ow_led_owner = led_owner, ow_lease = l, ow_lease_key = key\<rparr>, emit (StreamOpened s) w')))"

definition NO_MIRROR :: string where
  "NO_MIRROR = ''this G923 publishes no live force to mirror (the Xbox edition), and streaming would silence its force feedback; set g923.stream_without_ffb_mirror=1 to stream anyway and lose force while it runs''"

definition open_g923 :: "Config \<Rightarrow> answers \<Rightarrow> G923Paths \<Rightarrow> world \<Rightarrow> (sim_error + OpenWheel) \<times> world" where
  "open_g923 cfg A paths w =
     (if \<not> g_has_ffb_output paths \<and> \<not> g_kernel_carries_force paths \<and> \<not> g923_stream_without_ffb_mirror cfg
      then (Inl (NoHaptics NO_MIRROR), w)
      else open_leased A (if g_has_ffb_output paths then g_led_owner paths else None) StreamG923
             (map_option (SimIo ''open G923 TrueForce stream'') (n_open_g923 A)) w)"

definition open_dd :: "answers \<Rightarrow> world \<Rightarrow> (sim_error + OpenWheel) \<times> world" where
  "open_dd A w = open_leased A (n_dd_hid A) StreamDd (n_open_dd A) w"

definition wheel_choice :: "Config \<Rightarrow> answers \<Rightarrow> WheelChoice" where
  "wheel_choice cfg A =
     (case n_env_wheel A of
        Some v \<Rightarrow> if trim v \<noteq> [] then (case choice_parse v of Some c \<Rightarrow> c | None \<Rightarrow> wheel cfg) else wheel cfg
      | None \<Rightarrow> wheel cfg)"

definition open_wheel_stream_with_leds :: "Config \<Rightarrow> answers \<Rightarrow> world \<Rightarrow> (sim_error + OpenWheel) \<times> world" where
  "open_wheel_stream_with_leds cfg A w =
     (case wheel_choice cfg A of
        DirectDrive \<Rightarrow> open_dd A w
      | G923 \<Rightarrow>
          (case n_g923 A of
             None \<Rightarrow> (Inl (SimIo ''no G923 found, and the configuration asks for one (wheel = g923)'' ''entity not found''), w)
           | Some paths \<Rightarrow> open_g923 cfg A paths w)
      | Auto \<Rightarrow> (case n_g923 A of Some paths \<Rightarrow> open_g923 cfg A paths w | None \<Rightarrow> open_dd A w))"

section \<open>Whose haptics\<close>

fun drain_captured_tf :: "nat \<Rightarrow> recv_result list \<Rightarrow> f32 list" where
  "drain_captured_tf buf_len (Datagram pkt peer # rs) =
     (let p = take buf_len pkt in
      (case tf_decode p of None \<Rightarrow> [] | Some s \<Rightarrow> s) @ (if p = [] then [] else drain_captured_tf buf_len rs))"
| "drain_captured_tf buf_len rs = []"

definition captured_has_precedence :: "nat option \<Rightarrow> bool" where
  "captured_has_precedence age = (case age of None \<Rightarrow> False | Some d \<Rightarrow> d < CAPTURED_PRECEDENCE_MS * MS)"

definition wants_haptics :: "Config \<Rightarrow> string \<Rightarrow> bool" where
  "wants_haptics cfg game \<longleftrightarrow> f_lt f_zero (effective_intensity cfg game)"

definition targets_direct_drive :: "Config \<Rightarrow> answers \<Rightarrow> bool" where
  "targets_direct_drive cfg A =
     (case wheel_choice cfg A of DirectDrive \<Rightarrow> True | G923 \<Rightarrow> False | Auto \<Rightarrow> n_g923 A = None)"

definition native_trueforce_here :: "Config \<Rightarrow> answers \<Rightarrow> string \<Rightarrow> bool" where
  "native_trueforce_here cfg A game \<longleftrightarrow>
     n_marker A game \<or> targets_direct_drive cfg A \<and> n_native_title A game"

definition captured_stream_wanted :: "Config \<Rightarrow> answers \<Rightarrow> sample option \<Rightarrow> bool" where
  "captured_stream_wanted cfg A latest \<longleftrightarrow>
     \<not> any_active_in (n_markers A) \<and>
     \<not> (case latest of None \<Rightarrow> False | Some (game, _) \<Rightarrow> native_trueforce_here cfg A game)"

text \<open>Two senders for one game, told once.\<close>

record Producers =
  pr_seen :: "(string \<times> nat) list"
  pr_warned :: "string list"

definition note_producer :: "string \<Rightarrow> nat \<Rightarrow> Producers \<Rightarrow> Producers" where
  "note_producer game peer p =
     (if (game, peer) \<in> set (pr_seen p) then p
      else
        let p1 = p\<lparr>pr_seen := pr_seen p @ [(game, peer)]\<rparr> in
        if 1 < length (filter (\<lambda>e. fst e = game) (pr_seen p1)) \<and> game \<notin> set (pr_warned p1)
        then p1\<lparr>pr_warned := pr_warned p1 @ [game]\<rparr> else p1)"

section \<open>The blocks of the loop\<close>

definition discover_leds :: "answers \<Rightarrow> world \<Rightarrow> RevLeds option" where
  "discover_leds A w = Rev_Leds.discover (w_leds w) (n_env A) (n_dirs A) (n_listing A)"

definition pitch_scale :: "Config \<Rightarrow> f32" where
  "pitch_scale cfg = f_div (f_of_nat (pitch_pct cfg)) F_HUNDRED"

definition lights_only :: "'m mixer \<Rightarrow> Config \<Rightarrow> answers \<Rightarrow> string \<Rightarrow> Telemetry \<Rightarrow> RevLeds \<Rightarrow> 'm Active" where
  "lights_only M cfg A game tel display =
     \<lparr>a_stream = None, a_gain = gain_new None False (n_now A), a_mixer = m_new M False (cylinders cfg) (pitch_scale cfg) (effect_gains cfg),
      a_game = game, a_tel = tel, a_last_telemetry = n_now A, a_last_gen = n_now A, a_last_captured = None, a_leds = Some display,
      a_screen = (screen cfg \<and> n_screen A), a_gate = gate_default, a_lease = None, a_lease_key = [], a_warned_busy = False\<rparr>"

definition streaming :: "'m mixer \<Rightarrow> Config \<Rightarrow> answers \<Rightarrow> string \<Rightarrow> Telemetry \<Rightarrow> OpenWheel \<Rightarrow> RevLeds option \<Rightarrow> 'm Active" where
  "streaming M cfg A game tel ow display =
     \<lparr>a_stream = Some (ow_stream ow), a_gain = gain_new (ow_led_owner ow) (follow_game_gain cfg) (n_now A),
      a_mixer = m_new M (effects cfg) (cylinders cfg) (pitch_scale cfg) (effect_gains cfg), a_game = game, a_tel = tel,
      a_last_telemetry = n_now A, a_last_gen = n_now A, a_last_captured = None, a_leds = display,
      a_screen = (screen cfg \<and> n_screen A), a_gate = gate_default, a_lease = Some (ow_lease ow), a_lease_key = ow_lease_key ow,
      a_warned_busy = False\<rparr>"

definition captured_session :: "'m mixer \<Rightarrow> Config \<Rightarrow> answers \<Rightarrow> OpenWheel \<Rightarrow> 'm Active" where
  "captured_session M cfg A ow =
     \<lparr>a_stream = Some (ow_stream ow), a_gain = gain_new None False (n_now A),
      a_mixer = m_new M False (cylinders cfg) (pitch_scale cfg) (effect_gains cfg), a_game = CAPTURED_GAME, a_tel = telemetry_default,
      a_last_telemetry = n_now A, a_last_gen = n_now A, a_last_captured = Some (n_now A), a_leds = None, a_screen = False,
      a_gate = gate_default, a_lease = Some (ow_lease ow), a_lease_key = ow_lease_key ow, a_warned_busy = False\<rparr>"

text \<open>A session is opened for the first sample of an enabled game.\<close>

definition open_session :: "'m mixer \<Rightarrow> Config \<Rightarrow> answers \<Rightarrow> string \<Rightarrow> Telemetry \<Rightarrow> 'm daemon \<Rightarrow> 'm daemon" where
  "open_session M cfg A game tel d =
     (if n_now A < d_next_open d then d
      else if (\<not> wants_haptics cfg game \<or> native_trueforce_here cfg A game) \<and> leds cfg \<and> other_owner_at (n_proc A) = None
      then (case discover_leds A (d_world d) of
              Some display \<Rightarrow> d\<lparr>d_active := Some (lights_only M cfg A game tel display)\<rparr>
            | None \<Rightarrow> d\<lparr>d_next_open := n_now A + OPEN_RETRY\<rparr>)
      else if native_trueforce_here cfg A game then d\<lparr>d_next_open := n_now A + OPEN_RETRY\<rparr>
      else
        case open_wheel_stream_with_leds cfg A (d_world d) of
          (Inr ow, w) \<Rightarrow>
            (let display =
               (if \<not> leds cfg \<or> other_owner_at (n_proc A) \<noteq> None then None
                else case ow_led_owner ow of Some owner \<Rightarrow> discover_for (w_leds w) owner | None \<Rightarrow> discover_leds A w)
             in d\<lparr>d_world := w, d_active := Some (streaming M cfg A game tel ow display)\<rparr>)
        | (Inl e, w) \<Rightarrow>
            (case e of
               NoHaptics why \<Rightarrow>
                 if leds cfg \<and> other_owner_at (n_proc A) = None
                 then (case discover_leds A w of
                         Some display \<Rightarrow> d\<lparr>d_world := w, d_active := Some (lights_only M cfg A game tel display)\<rparr>
                       | None \<Rightarrow> d\<lparr>d_world := w, d_next_open := n_now A + OPEN_RETRY\<rparr>)
                 else d\<lparr>d_world := w, d_next_open := n_now A + OPEN_RETRY\<rparr>
             | _ \<Rightarrow> d\<lparr>d_world := w, d_next_open := n_now A + OPEN_RETRY\<rparr>))"

definition on_telemetry :: "'m mixer \<Rightarrow> Config \<Rightarrow> answers \<Rightarrow> sample option \<Rightarrow> 'm daemon \<Rightarrow> 'm daemon" where
  "on_telemetry M cfg A latest d =
     (case latest of
        None \<Rightarrow> d
      | Some (game, tel) \<Rightarrow>
          if \<not> game_enabled cfg game then d
          else case d_active d of
              Some a \<Rightarrow> d\<lparr>d_active := Some (a\<lparr>a_game := game, a_tel := tel, a_last_telemetry := n_now A\<rparr>)\<rparr>
            | None \<Rightarrow> open_session M cfg A game tel d)"

text \<open>Samples a game produced itself: the lease is taken back when standby gave it up, and they
  go to the wheel as they are.\<close>

definition retake_lease :: "answers \<Rightarrow> 'm Active \<Rightarrow> world \<Rightarrow> 'm Active \<times> world" where
  "retake_lease A a w =
     (if a_lease a \<noteq> None then (a, w)
      else case take_lease A (a_lease_key a) w of
          (Inr l, w') \<Rightarrow> (a\<lparr>a_lease := Some l, a_warned_busy := False, a_gate := gate_default\<rparr>, emit_stream StreamResumed (a_stream a) w')
        | (Inl e, w') \<Rightarrow> (a\<lparr>a_warned_busy := True\<rparr>, w'))"

definition push :: "bool \<Rightarrow> f32 list \<Rightarrow> 'm Active \<Rightarrow> world \<Rightarrow> world" where
  "push is_captured samples a w =
     (if a_stream a = None then w else emit (Pushed is_captured samples (a_lease a) (lw_locks (w_locks w))) w)"

definition on_captured :: "'m mixer \<Rightarrow> Config \<Rightarrow> answers \<Rightarrow> f32 list \<Rightarrow> sample option \<Rightarrow> 'm daemon \<Rightarrow> 'm daemon" where
  "on_captured M cfg A captured latest d =
     (if captured = [] then d
      else case d_active d of
          Some a \<Rightarrow>
            (case retake_lease A (a\<lparr>a_last_telemetry := n_now A, a_last_gen := n_now A, a_last_captured := Some (n_now A)\<rparr>) (d_world d) of
               (a', w) \<Rightarrow> d\<lparr>d_active := Some a', d_world := (if a_lease a' \<noteq> None then push True captured a' w else w)\<rparr>)
        | None \<Rightarrow>
            if n_now A < d_next_open d \<or> \<not> captured_stream_wanted cfg A latest then d
            else case open_wheel_stream_with_leds cfg A (d_world d) of
                (Inr ow, w) \<Rightarrow> d\<lparr>d_world := w, d_active := Some (captured_session M cfg A ow)\<rparr>
              | (Inl e, w) \<Rightarrow> d\<lparr>d_world := w, d_next_open := n_now A + OPEN_RETRY\<rparr>)"

text \<open>What the gate decides about a rendered block.\<close>

definition apply_gate :: "answers \<Rightarrow> bool \<Rightarrow> nat \<Rightarrow> 'm Active \<Rightarrow> world \<Rightarrow> 'm Active \<times> world" where
  "apply_gate A silent audio_ms a w =
     (case observe (a_gate a) silent audio_ms of
        (Stay, g) \<Rightarrow> (a\<lparr>a_gate := g\<rparr>, w)
      | (EnterStandby, g) \<Rightarrow>
          (a\<lparr>a_gate := g, a_lease := None\<rparr>, give_lease A (a_lease a) (emit_stream StreamStandby (a_stream a) w))
      | (Resume, g) \<Rightarrow>
          (case take_lease A (a_lease_key a) w of
             (Inr l, w') \<Rightarrow>
               (a\<lparr>a_gate := g, a_lease := Some l, a_warned_busy := False\<rparr>,
                emit_stream StreamResumed (a_stream a) (give_lease A (a_lease a) w'))
           | (Inl e, w') \<Rightarrow> (a\<lparr>a_gate := hold_standby g, a_warned_busy := True\<rparr>, w')))"

definition generate :: "'m mixer \<Rightarrow> Config \<Rightarrow> answers \<Rightarrow> 'm Active \<Rightarrow> world \<Rightarrow> string option \<times> 'm Active \<times> world" where
  "generate M cfg A a w =
     (case plan_generation ((n_now A - a_last_gen a) div MS) of
        None \<Rightarrow> (None, a, w)
      | Some plan \<Rightarrow>
          (let (sc, gain) = gain_scale (n_gain A) (n_now A) (a_gain a);
               (samples, mx) = m_render M (a_mixer a) (a_tel a) (f_mul (effective_intensity cfg (a_game a)) sc) (gp_samples plan);
               (a1, w1) = apply_gate A (list_all f_is_zero samples) (gp_audio_ms plan)
                 (a\<lparr>a_last_gen := gen_clock (n_now A) (a_last_gen a) plan, a_gain := gain, a_mixer := mx\<rparr>) w
           in if standby (a_gate a1) then (None, a1, w1)
              else (if a_stream a1 = None then None else map_option (\<lambda>e. ''stream push failed: '' @ sim_error_text e) (n_push A), a1, push False samples a1 w1)))"

definition drive_lights :: "answers \<Rightarrow> 'm Active \<Rightarrow> world \<Rightarrow> 'm Active \<times> world" where
  "drive_lights A a w =
     (case (case a_leds a of
              None \<Rightarrow> (a, w)
            | Some l \<Rightarrow>
                (case rev_update l (t_rpm (a_tel a)) (t_max_rpm (a_tel a)) (t_pit_limiter (a_tel a)) (n_now A) (w_leds w) of
                   (l', lw) \<Rightarrow> (a\<lparr>a_leds := Some l'\<rparr>, w\<lparr>w_leds := lw\<rparr>))) of
        (a', w') \<Rightarrow> (a', if a_screen a' then emit (ScreenUpdated (a_tel a')) w' else w'))"

definition watch :: "'m mixer \<Rightarrow> Config \<Rightarrow> answers \<Rightarrow> 'm Active \<Rightarrow> world \<Rightarrow> string option \<times> 'm Active \<times> world" where
  "watch M cfg A a w =
     (if captured_has_precedence (map_option (\<lambda>t. n_now A - t) (a_last_captured a)) then (None, a, w)
      else if SILENCE_TIMEOUT_MS * MS \<le> n_now A - a_last_telemetry a then (Some ''telemetry silent for 500 ms'', a, w)
      else case generate M cfg A a w of (stop, a1, w1) \<Rightarrow>
           case drive_lights A a1 w1 of (a2, w2) \<Rightarrow> (stop, a2, w2))"

text \<open>Ending a session: the strip and the screen are handed back, the stream is closed and the
  lease is dropped.\<close>

definition end_session :: "answers \<Rightarrow> string \<Rightarrow> 'm Active \<Rightarrow> world \<Rightarrow> world" where
  "end_session A reason a w =
     (let w1 = (case a_leds a of None \<Rightarrow> w | Some l \<Rightarrow> w\<lparr>w_leds := snd (rev_stop l (w_leds w))\<rparr>);
          w2 = (if a_screen a then emit ScreenStopped w1 else w1)
      in give_lease A (a_lease a) (emit (SessionStopped reason) w2))"

definition watchdog :: "'m mixer \<Rightarrow> Config \<Rightarrow> answers \<Rightarrow> 'm daemon \<Rightarrow> 'm daemon" where
  "watchdog M cfg A d =
     (case d_active d of
        None \<Rightarrow> d
      | Some a \<Rightarrow>
          (case watch M cfg A a (d_world d) of
             (None, a', w) \<Rightarrow> d\<lparr>d_active := Some a', d_world := w\<rparr>
           | (Some reason, a', w) \<Rightarrow>
               d\<lparr>d_active := None, d_world := end_session A reason a' w, d_decoders := decoders_reset (d_decoders d)\<rparr>))"

definition BUF_LEN :: nat where "BUF_LEN = 2048"

definition iteration :: "'m mixer \<Rightarrow> Config \<Rightarrow> answers \<Rightarrow> 'm daemon \<Rightarrow> 'm daemon" where
  "iteration M cfg A d =
     (let captured = drain_captured_tf BUF_LEN (n_tf A);
          (latest, decs) = read_sockets BUF_LEN (d_decoders d) (n_cm A) (n_pc A) (n_bn A) (n_relay A)
      in watchdog M cfg A (on_captured M cfg A captured latest (on_telemetry M cfg A latest (d\<lparr>d_decoders := decs\<rparr>))))"

definition shutdown :: "answers \<Rightarrow> 'm daemon \<Rightarrow> 'm daemon" where
  "shutdown A d =
     (case d_active d of
        None \<Rightarrow> d
      | Some a \<Rightarrow> d\<lparr>d_active := None, d_world := end_session A ''shutting down'' a (d_world d)\<rparr>)"

end
