(* ===== verification/Daemon_Runs.thy ===== *)
theory Daemon_Runs
  imports Daemon
begin

text \<open>
  Runs of the simulator daemon of the theory \<open>Daemon\<close>: iterations of its loop between which the
  other programs of the machine act on the lock files. The invariant \<open>daemon_ok\<close> ties the lease to
  the silence gate and every push to a held lock; the properties are the lease, the watchdog, the
  precedence of captured samples, the games with TrueForce of their own, the pacing of the
  generated audio and the gate.
\<close>

section \<open>Runs\<close>

text \<open>Between two iterations the other programs of the machine take, drop and rename locks; what
  \<open>flock\<close> rules out is that they take away the lock of the daemon's own lease. Instants do not go
  back.\<close>

definition held :: "Lease \<Rightarrow> (string \<rightharpoonup> nat) \<Rightarrow> bool" where
  "held l locks \<longleftrightarrow>
     l = lease_unsupported \<or> (\<exists>p f. l = \<lparr>lease_file = Some f, lease_path = Some p\<rparr> \<and> locks p = Some f)"

definition clock_ok :: "answers \<Rightarrow> 'm daemon \<Rightarrow> bool" where
  "clock_ok A d \<longleftrightarrow>
     (\<forall>a. d_active d = Some a \<longrightarrow> a_last_telemetry a \<le> n_now A \<and> (\<forall>t. a_last_captured a = Some t \<longrightarrow> t \<le> n_now A))"

inductive daemon_step :: "'m mixer \<Rightarrow> Config \<Rightarrow> 'm daemon \<Rightarrow> 'm daemon \<Rightarrow> bool" for M cfg where
  loop: "clock_ok A d \<Longrightarrow> daemon_step M cfg d (iteration M cfg A d)"
| others: "(\<And>a l. d_active d = Some a \<Longrightarrow> a_lease a = Some l \<Longrightarrow> held l (lw_locks (w_locks (d_world d))) \<Longrightarrow> held l (lw_locks lw)) \<Longrightarrow>
    daemon_step M cfg d (d\<lparr>d_world := (d_world d)\<lparr>w_locks := lw\<rparr>\<rparr>)"

definition daemon_start :: "world \<Rightarrow> 'm daemon" where
  "daemon_start w =
     \<lparr>d_active = None, d_decoders = \<lparr>dec_f1 = decoder_new, dec_beamng = decoder_new\<rparr>, d_next_open = 0, d_world = w\<lparr>w_events := []\<rparr>\<rparr>"

definition active_ok :: "'m Active \<Rightarrow> world \<Rightarrow> bool" where
  "active_ok a w \<longleftrightarrow>
     (standby (a_gate a) \<longrightarrow> a_lease a = None) \<and> (a_stream a \<noteq> None \<and> a_lease a = None \<longrightarrow> standby (a_gate a)) \<and>
     (\<forall>l. a_lease a = Some l \<longrightarrow> held l (lw_locks (w_locks w))) \<and>
     (\<forall>t. a_last_captured a = Some t \<longrightarrow> t \<le> a_last_telemetry a)"

definition push_ok :: "daemon_event \<Rightarrow> bool" where
  "push_ok e = (case e of Pushed c s l locks \<Rightarrow> (\<exists>x. l = Some x \<and> held x locks) | _ \<Rightarrow> True)"

definition events_ok :: "world \<Rightarrow> bool" where
  "events_ok w \<longleftrightarrow> (\<forall>e\<in>set (w_events w). push_ok e)"

definition daemon_ok :: "'m daemon \<Rightarrow> bool" where
  "daemon_ok d \<longleftrightarrow> events_ok (d_world d) \<and> (\<forall>a. d_active d = Some a \<longrightarrow> active_ok a (d_world d))"

lemma held_unsupported [simp]: "held lease_unsupported locks"
  by (simp add: held_def)

lemma take_lease_spec:
  assumes "take_lease A key w = (r, w')"
  shows "w_events w' = w_events w" "w_leds w' = w_leds w" "\<And>l. r = Inr l \<Longrightarrow> held l (lw_locks (w_locks w'))"
    "\<And>x. held x (lw_locks (w_locks w)) \<Longrightarrow> held x (lw_locks (w_locks w'))"
proof -
  obtain q lw where t: "try_acquire_in (n_lock_fs A) (n_lease_dir A) key LEASE_HOLDER (n_pid A) (w_fd w) (w_locks w) = (q, lw)"
    by (cases "try_acquire_in (n_lock_fs A) (n_lease_dir A) key LEASE_HOLDER (n_pid A) (w_fd w) (w_locks w)")
  have w': "w' = w\<lparr>w_locks := lw, w_fd := Suc (w_fd w)\<rparr>" and r: "\<And>l. r = Inr l \<Longrightarrow> q = Inr l"
    using assms t by (auto simp: take_lease_def split: sum.splits)
  show "w_events w' = w_events w" "w_leds w' = w_leds w" by (simp_all add: w')
  have mono: "held x locks'" if "held x locks" "\<And>p f. locks p = Some f \<Longrightarrow> locks' p = Some f" for x locks locks'
    using that by (auto simp: held_def)
  from t have "(\<forall>l. q = Inr l \<longrightarrow> held l (lw_locks lw)) \<and> (\<forall>x. held x (lw_locks (w_locks w)) \<longrightarrow> held x (lw_locks lw))"
  proof (cases rule: try_acquire_cases)
    case granted
    have "lw_locks lw p = Some f" if "lw_locks (w_locks w) p = Some f" for p f using granted(2,3) that by auto
    then show ?thesis using granted(1,3) mono by (auto simp: held_def [of "\<lparr>lease_file = _, lease_path = _\<rparr>"])
  qed (auto simp: held_def)
  then show "\<And>l. r = Inr l \<Longrightarrow> held l (lw_locks (w_locks w'))"
    "\<And>x. held x (lw_locks (w_locks w)) \<Longrightarrow> held x (lw_locks (w_locks w'))"
    using r by (auto simp: w')
qed

lemma give_lease_keeps [simp]: "w_events (give_lease A l w) = w_events w" "w_leds (give_lease A l w) = w_leds w"
  by (simp_all add: give_lease_def split: option.splits)

lemma emit_keeps [simp]: "w_locks (emit e w) = w_locks w" "w_leds (emit e w) = w_leds w" "w_events (emit e w) = w_events w @ [e]"
  by (simp_all add: emit_def)

lemma emit_stream_keeps [simp]: "w_locks (emit_stream e s w) = w_locks w" "w_leds (emit_stream e s w) = w_leds w"
  by (simp_all add: emit_stream_def split: option.splits)

lemma events_ok_emit [simp]: "events_ok (emit e w) \<longleftrightarrow> events_ok w \<and> push_ok e"
  by (auto simp: events_ok_def)

lemma events_ok_give [simp]: "events_ok (give_lease A l w) = events_ok w"
  by (simp add: events_ok_def)

lemma events_ok_emit_stream:
  "events_ok (emit_stream StreamResumed s w) = events_ok w" "events_ok (emit_stream StreamStandby s w) = events_ok w"
  by (simp_all add: emit_stream_def push_ok_def split: option.splits)

lemma events_ok_cong: "w_events w' = w_events w \<Longrightarrow> events_ok w' = events_ok w"
  by (simp add: events_ok_def)

lemma open_leased_spec:
  assumes "open_leased A owner s failure w = (r, w')"
  shows "events_ok w' = events_ok w" "w_leds w' = w_leds w" "\<And>ow. r = Inr ow \<Longrightarrow> held (ow_lease ow) (lw_locks (w_locks w'))"
proof -
  obtain q w1 where t: "take_lease A (case owner of Some k \<Rightarrow> k | None \<Rightarrow> UNKNOWN_WHEEL_KEY) w = (q, w1)"
    by (cases "take_lease A (case owner of Some k \<Rightarrow> k | None \<Rightarrow> UNKNOWN_WHEEL_KEY) w")
  note sp = take_lease_spec [OF t]
  have ev: "events_ok w1 = events_ok w" using sp(1) by (rule events_ok_cong)
  show "events_ok w' = events_ok w" "w_leds w' = w_leds w" "\<And>ow. r = Inr ow \<Longrightarrow> held (ow_lease ow) (lw_locks (w_locks w'))"
    using assms t sp ev by (auto simp: open_leased_def Let_def push_ok_def split: sum.splits option.splits)
qed

lemma open_wheel_spec:
  assumes "open_wheel_stream_with_leds cfg A w = (r, w')"
  shows "events_ok w' = events_ok w" "\<And>ow. r = Inr ow \<Longrightarrow> held (ow_lease ow) (lw_locks (w_locks w'))"
  using assms open_leased_spec
  by (auto simp: open_wheel_stream_with_leds_def open_dd_def open_g923_def split: WheelChoice.splits option.splits if_splits)

lemma open_session_ok:
  assumes "daemon_ok d" "d_active d = None"
  shows "daemon_ok (open_session M cfg A game tel d)"
proof -
  obtain r w where o: "open_wheel_stream_with_leds cfg A (d_world d) = (r, w)" by (cases "open_wheel_stream_with_leds cfg A (d_world d)")
  note sp = open_wheel_spec [OF o]
  have ev: "events_ok (d_world d)" "events_ok w" using assms(1) sp(1) by (simp_all add: daemon_ok_def)
  show ?thesis
    using assms ev o sp(2)
    by (auto simp: open_session_def daemon_ok_def active_ok_def lights_only_def streaming_def gate_default_def Let_def
        split: option.splits sum.splits sim_error.splits)
qed

lemma on_telemetry_ok:
  assumes "daemon_ok d" "clock_ok A d"
  shows "daemon_ok (on_telemetry M cfg A latest d)"
proof (cases "d_active d")
  case None
  then show ?thesis using assms(1) open_session_ok by (auto simp: on_telemetry_def split: option.splits)
next
  case (Some a)
  then have "active_ok a (d_world d)" "events_ok (d_world d)" "\<forall>t. a_last_captured a = Some t \<longrightarrow> t \<le> n_now A"
    using assms by (simp_all add: daemon_ok_def clock_ok_def)
  then show ?thesis using assms(1) Some by (auto simp: on_telemetry_def daemon_ok_def active_ok_def split: option.splits)
qed

lemma retake_lease_ok:
  assumes "retake_lease A a w = (a', w')" "active_ok a w" "events_ok w"
  shows "active_ok a' w'" "events_ok w'" "a_stream a' = a_stream a" "a_last_captured a' = a_last_captured a"
    "a_last_telemetry a' = a_last_telemetry a"
proof -
  obtain r w1 where t: "take_lease A (a_lease_key a) w = (r, w1)" by (cases "take_lease A (a_lease_key a) w")
  note sp = take_lease_spec [OF t]
  have ev: "events_ok w1" using assms(3) events_ok_cong [OF sp(1)] by simp
  have "active_ok a' w' \<and> events_ok w' \<and> a_stream a' = a_stream a \<and> a_last_captured a' = a_last_captured a \<and> a_last_telemetry a' = a_last_telemetry a"
    using assms t sp(3) ev
    by (auto simp: retake_lease_def active_ok_def gate_default_def events_ok_emit_stream split: sum.splits if_splits)
  then show "active_ok a' w'" "events_ok w'" "a_stream a' = a_stream a" "a_last_captured a' = a_last_captured a"
    "a_last_telemetry a' = a_last_telemetry a" by simp_all
qed

lemma active_ok_cong: "w_locks w' = w_locks w \<Longrightarrow> active_ok a w' = active_ok a w"
  by (simp add: active_ok_def)

lemma active_ok_push [simp]: "active_ok b (push c s a w) = active_ok b w"
  by (rule active_ok_cong) (simp add: push_def)

lemma push_ok_world:
  assumes "active_ok a w" "events_ok w" "a_stream a = None \<or> a_lease a \<noteq> None"
  shows "events_ok (push c s a w)"
  using assms by (auto simp: push_def push_ok_def active_ok_def)

lemma on_captured_ok:
  assumes "daemon_ok d"
  shows "daemon_ok (on_captured M cfg A captured latest d)"
proof (cases "d_active d")
  case None
  obtain r w where o: "open_wheel_stream_with_leds cfg A (d_world d) = (r, w)" by (cases "open_wheel_stream_with_leds cfg A (d_world d)")
  note sp = open_wheel_spec [OF o]
  show ?thesis using None assms o sp
    by (auto simp: on_captured_def daemon_ok_def active_ok_def captured_session_def gate_default_def split: sum.splits)
next
  case (Some a)
  let ?a = "a\<lparr>a_last_telemetry := n_now A, a_last_gen := n_now A, a_last_captured := Some (n_now A)\<rparr>"
  obtain a' w where rt: "retake_lease A ?a (d_world d) = (a', w)" by (cases "retake_lease A ?a (d_world d)")
  have "active_ok ?a (d_world d)" "events_ok (d_world d)" using assms Some by (simp_all add: daemon_ok_def active_ok_def)
  note ok = retake_lease_ok [OF rt this]
  show ?thesis using assms Some rt ok push_ok_world [OF ok(1,2)]
    by (auto simp: on_captured_def daemon_ok_def)
qed

lemma apply_gate_ok:
  assumes "apply_gate A silent ms a w = (a', w')" "active_ok a w" "events_ok w"
  shows "active_ok a' w'" "events_ok w'"
    "a_stream a' = a_stream a" "a_last_captured a' = a_last_captured a" "a_last_telemetry a' = a_last_telemetry a"
    "a_last_gen a' = a_last_gen a"
proof -
  obtain r w1 where t: "take_lease A (a_lease_key a) w = (r, w1)" by (cases "take_lease A (a_lease_key a) w")
  note sp = take_lease_spec [OF t]
  have ev: "events_ok w1" using assms(3) events_ok_cong [OF sp(1)] by simp
  have lk: "w_locks (emit_stream e s w2) = w_locks w2" for e s w2 by simp
  obtain act g where g: "observe (a_gate a) silent ms = (act, g)" by (cases "observe (a_gate a) silent ms")
  have st: "standby g = (case act of Stay \<Rightarrow> standby (a_gate a) | EnterStandby \<Rightarrow> True | Resume \<Rightarrow> False)"
    "act = Resume \<Longrightarrow> standby (a_gate a)"
    using g by (auto simp: observe_def Let_def split: if_splits)
  have "active_ok a' w' \<and> events_ok w' \<and> a_stream a' = a_stream a \<and> a_last_captured a' = a_last_captured a \<and>
    a_last_telemetry a' = a_last_telemetry a \<and> a_last_gen a' = a_last_gen a"
  proof (cases act)
    case Stay
    then show ?thesis using assms g st(1) by (auto simp: apply_gate_def active_ok_def)
  next
    case EnterStandby
    then show ?thesis using assms g st(1) by (auto simp: apply_gate_def active_ok_def events_ok_emit_stream)
  next
    case Resume
    then have "a_lease a = None" using st(2) assms(2) by (simp add: active_ok_def)
    then show ?thesis using assms g st(1) Resume t sp(3) ev
      by (auto simp: apply_gate_def active_ok_def events_ok_emit_stream give_lease_def hold_standby_def split: sum.splits)
  qed
  then show "active_ok a' w'" "events_ok w'"
    "a_stream a' = a_stream a" "a_last_captured a' = a_last_captured a" "a_last_telemetry a' = a_last_telemetry a"
    "a_last_gen a' = a_last_gen a" by simp_all
qed

lemma generate_ok:
  assumes "generate M cfg A a w = (stop, a', w')" "active_ok a w" "events_ok w"
  shows "active_ok a' w' \<and> events_ok w' \<and> a_last_captured a' = a_last_captured a \<and> a_last_telemetry a' = a_last_telemetry a"
proof (cases "plan_generation ((n_now A - a_last_gen a) div MS)")
  case None
  then show ?thesis using assms by (simp add: generate_def)
next
  case (Some plan)
  obtain sc gain where sc: "gain_scale (n_gain A) (n_now A) (a_gain a) = (sc, gain)" by (cases "gain_scale (n_gain A) (n_now A) (a_gain a)")
  obtain samples mx where mx: "m_render M (a_mixer a) (a_tel a) (f_mul (effective_intensity cfg (a_game a)) sc) (gp_samples plan) = (samples, mx)"
    by (cases "m_render M (a_mixer a) (a_tel a) (f_mul (effective_intensity cfg (a_game a)) sc) (gp_samples plan)")
  let ?a = "a\<lparr>a_last_gen := gen_clock (n_now A) (a_last_gen a) plan, a_gain := gain, a_mixer := mx\<rparr>"
  obtain a1 w1 where g: "apply_gate A (list_all f_is_zero samples) (gp_audio_ms plan) ?a w = (a1, w1)"
    by (cases "apply_gate A (list_all f_is_zero samples) (gp_audio_ms plan) ?a w")
  have "active_ok ?a w" using assms(2) by (simp add: active_ok_def)
  note ok = apply_gate_ok [OF g this assms(3)]
  have res: "(stop, a', w') = (if standby (a_gate a1) then (None, a1, w1)
      else (if a_stream a1 = None then None else map_option (\<lambda>e. ''stream push failed: '' @ sim_error_text e) (n_push A), a1, push False samples a1 w1))"
    using assms(1) Some sc mx g by (simp add: generate_def)
  have "events_ok (push False samples a1 w1)" if "\<not> standby (a_gate a1)"
    by (rule push_ok_world [OF ok(1,2)]) (use ok(1) that in \<open>auto simp: active_ok_def\<close>)
  then show ?thesis using res ok by (auto split: if_splits)
qed

lemma drive_lights_ok:
  assumes "drive_lights A a w = (a', w')" "active_ok a w" "events_ok w"
  shows "active_ok a' w' \<and> events_ok w' \<and> a_last_captured a' = a_last_captured a \<and> a_last_telemetry a' = a_last_telemetry a"
  using assms by (auto simp: drive_lights_def active_ok_def events_ok_def push_ok_def emit_def split: option.splits prod.splits if_splits)

lemma watch_ok:
  assumes "watch M cfg A a w = (stop, a', w')" "active_ok a w" "events_ok w"
  shows "active_ok a' w' \<and> events_ok w' \<and> a_last_captured a' = a_last_captured a \<and> a_last_telemetry a' = a_last_telemetry a"
proof -
  obtain s1 a1 w1 where g: "generate M cfg A a w = (s1, a1, w1)" by (cases "generate M cfg A a w") auto
  obtain a2 w2 where l: "drive_lights A a1 w1 = (a2, w2)" by (cases "drive_lights A a1 w1")
  note gok = generate_ok [OF g assms(2,3)]
  note lok = drive_lights_ok [OF l]
  show ?thesis using assms g l gok lok by (auto simp: watch_def split: if_splits)
qed

lemma end_session_events: "events_ok w \<Longrightarrow> events_ok (end_session A reason a w)"
  by (auto simp: end_session_def events_ok_def push_ok_def emit_def Let_def split: option.splits)

lemma watchdog_ok: "daemon_ok d \<Longrightarrow> daemon_ok (watchdog M cfg A d)"
  using watch_ok end_session_events by (fastforce simp: watchdog_def daemon_ok_def split: option.splits prod.splits)

lemma iteration_ok:
  assumes "daemon_ok d" "clock_ok A d"
  shows "daemon_ok (iteration M cfg A d)"
proof -
  obtain latest decs where r: "read_sockets BUF_LEN (d_decoders d) (n_cm A) (n_pc A) (n_bn A) (n_relay A) = (latest, decs)"
    by (cases "read_sockets BUF_LEN (d_decoders d) (n_cm A) (n_pc A) (n_bn A) (n_relay A)")
  have "daemon_ok (d\<lparr>d_decoders := decs\<rparr>)" "clock_ok A (d\<lparr>d_decoders := decs\<rparr>)"
    using assms by (simp_all add: daemon_ok_def clock_ok_def)
  then show ?thesis by (simp add: iteration_def r watchdog_ok on_captured_ok on_telemetry_ok)
qed

lemma daemon_reachable_ok: "(daemon_step M cfg)\<^sup>*\<^sup>* (daemon_start w) d \<Longrightarrow> daemon_ok d"
proof (induction rule: rtranclp_induct)
  case base
  show ?case by (simp add: daemon_ok_def daemon_start_def events_ok_def)
next
  case (step d d')
  from step.hyps(2) show ?case
  proof cases
    case (loop A)
    then show ?thesis using step.IH iteration_ok by blast
  next
    case (others lw)
    have "active_ok a ((d_world d)\<lparr>w_locks := lw\<rparr>)" if "d_active d = Some a" for a
      using step.IH that others(2) by (auto simp: daemon_ok_def active_ok_def)
    then show ?thesis using step.IH others(1) by (auto simp: daemon_ok_def events_ok_def)
  qed
qed

section \<open>Properties of the daemon\<close>


lemma watch_silence:
  assumes "watch M cfg A a w = (None, a', w')" "active_ok a w" "events_ok w"
  shows "n_now A - a_last_telemetry a' < SILENCE_TIMEOUT_MS * MS"
proof (cases "captured_has_precedence (map_option (\<lambda>t. n_now A - t) (a_last_captured a))")
  case True
  then obtain t where "a_last_captured a = Some t" "n_now A - t < CAPTURED_PRECEDENCE_MS * MS"
    by (auto simp: captured_has_precedence_def split: option.splits)
  moreover have "a' = a" using assms(1) True by (simp add: watch_def)
  ultimately show ?thesis using assms(2)
    by (auto simp: active_ok_def SILENCE_TIMEOUT_MS_def CAPTURED_PRECEDENCE_MS_def MS_def)
next
  case False
  then show ?thesis using assms watch_ok [OF assms] by (auto simp: watch_def split: if_splits)
qed

lemma on_telemetry_none [simp]: "on_telemetry M cfg A None d = d"
  by (simp add: on_telemetry_def)

lemma on_captured_none [simp]: "on_captured M cfg A [] latest d = d"
  by (simp add: on_captured_def)

lemma watchdog_silence:
  assumes "daemon_ok d" "d_active (watchdog M cfg A d) = Some a"
  shows "n_now A - a_last_telemetry a < SILENCE_TIMEOUT_MS * MS"
proof -
  obtain b where b: "d_active d = Some b" using assms(2) by (cases "d_active d") (auto simp: watchdog_def)
  obtain stop a' w' where w: "watch M cfg A b (d_world d) = (stop, a', w')" by (cases "watch M cfg A b (d_world d)") auto
  then have "stop = None" "a' = a" using assms(2) b by (auto simp: watchdog_def split: option.splits)
  then show ?thesis using watch_silence [of M cfg A b "d_world d" a' w'] w assms(1) b by (simp add: daemon_ok_def)
qed

lemma quiet_iteration:
  assumes "n_cm A = []" "n_pc A = []" "n_bn A = []" "n_tf A = []" "n_relay A = None"
  shows "iteration M cfg A d = watchdog M cfg A d"
  using assms by (simp add: iteration_def read_sockets_def Let_def)

lemma end_session_releases:
  assumes "a_lease a = Some l" "is_enforced l" "lease_path l = Some p" "held l (lw_locks (w_locks w))"
  shows "lw_locks (w_locks (end_session A reason a w)) p = None"
proof -
  obtain f where "l = \<lparr>lease_file = Some f, lease_path = Some p\<rparr>"
    using assms(2-4) by (auto simp: held_def is_enforced_def lease_unsupported_def)
  then show ?thesis using assms(1) by (simp add: end_session_def give_lease_def Let_def)
qed

lemma watchdog_ends:
  assumes "daemon_ok d" "d_active d = Some a" "a_last_telemetry a + SILENCE_TIMEOUT_MS * MS \<le> n_now A"
  shows "d_active (watchdog M cfg A d) = None"
    "a_lease a = Some l \<Longrightarrow> is_enforced l \<Longrightarrow> lease_path l = Some p \<Longrightarrow> lw_locks (w_locks (d_world (watchdog M cfg A d))) p = None"
proof -
  have ok: "active_ok a (d_world d)" using assms(1,2) by (simp add: daemon_ok_def)
  have "\<not> captured_has_precedence (map_option (\<lambda>t. n_now A - t) (a_last_captured a))"
  proof (cases "a_last_captured a")
    case (Some t)
    then have "t \<le> a_last_telemetry a" using ok by (simp add: active_ok_def)
    then show ?thesis using assms(3) Some by (simp add: captured_has_precedence_def CAPTURED_PRECEDENCE_MS_def SILENCE_TIMEOUT_MS_def MS_def)
  qed (simp add: captured_has_precedence_def)
  then have "watch M cfg A a (d_world d) = (Some ''telemetry silent for 500 ms'', a, d_world d)"
    using le_diff_conv2 [of "a_last_telemetry a" "n_now A" "SILENCE_TIMEOUT_MS * MS"] assms(3) by (simp add: watch_def add.commute)
  then have wd: "watchdog M cfg A d = d\<lparr>d_active := None, d_world := end_session A ''telemetry silent for 500 ms'' a (d_world d),
      d_decoders := decoders_reset (d_decoders d)\<rparr>"
    using assms(2) by (simp add: watchdog_def)
  then show "d_active (watchdog M cfg A d) = None" by simp
  show "lw_locks (w_locks (d_world (watchdog M cfg A d))) p = None" if "a_lease a = Some l" "is_enforced l" "lease_path l = Some p"
    using end_session_releases [OF that, of "d_world d" A] ok that(1) by (simp add: wd active_ok_def)
qed


section \<open>Whose samples are pushed\<close>

definition synthesised :: "daemon_event \<Rightarrow> bool" where
  "synthesised e = (case e of Pushed c s l locks \<Rightarrow> \<not> c | _ \<Rightarrow> False)"

text \<open>What a block adds to the events.\<close>

definition adds :: "(daemon_event \<Rightarrow> bool) \<Rightarrow> world \<Rightarrow> world \<Rightarrow> bool" where
  "adds P w w' \<longleftrightarrow> (\<exists>es. w_events w' = w_events w @ es \<and> (\<forall>e\<in>set es. P e))"

lemma adds_refl [simp, intro]: "w_events w' = w_events w \<Longrightarrow> adds P w w'"
  by (simp add: adds_def)

lemma adds_trans [trans]: "adds P w w' \<Longrightarrow> adds P w' w'' \<Longrightarrow> adds P w w''"
  by (fastforce simp: adds_def)

lemma adds_emit: "P e \<Longrightarrow> adds P w (emit e w)"
  by (simp add: adds_def)

lemma adds_emit_stream: "(\<And>x. P (ev x)) \<Longrightarrow> adds P w (emit_stream ev s w)"
  by (simp add: emit_stream_def adds_emit split: option.splits)

lemma adds_take: "take_lease A key w = (r, w') \<Longrightarrow> adds P w w'"
  using take_lease_spec(1) by blast

lemma adds_open_leased:
  assumes "open_leased A owner s failure w = (r, w')" "P (StreamOpened s)"
  shows "adds P w w'"
proof -
  obtain q w1 where t: "take_lease A (case owner of Some k \<Rightarrow> k | None \<Rightarrow> UNKNOWN_WHEEL_KEY) w = (q, w1)"
    by (cases "take_lease A (case owner of Some k \<Rightarrow> k | None \<Rightarrow> UNKNOWN_WHEEL_KEY) w")
  show ?thesis using assms t take_lease_spec(1) [OF t] by (auto simp: open_leased_def Let_def adds_def emit_def split: sum.splits option.splits)
qed

lemma adds_open_wheel:
  assumes "open_wheel_stream_with_leds cfg A w = (r, w')" "\<And>s. P (StreamOpened s)"
  shows "adds P w w'"
  using assms adds_open_leased
  by (auto simp: open_wheel_stream_with_leds_def open_dd_def open_g923_def split: WheelChoice.splits option.splits if_splits)

lemma adds_on_telemetry:
  assumes "\<And>s. P (StreamOpened s)"
  shows "adds P (d_world d) (d_world (on_telemetry M cfg A latest d))"
proof -
  obtain r w where o: "open_wheel_stream_with_leds cfg A (d_world d) = (r, w)" by (cases "open_wheel_stream_with_leds cfg A (d_world d)")
  have "adds P (d_world d) w" using adds_open_wheel [OF o] assms by blast
  then show ?thesis using o
    by (auto simp: on_telemetry_def open_session_def Let_def split: option.splits sum.splits sim_error.splits)
qed

lemma adds_on_captured:
  assumes "\<And>s. P (StreamOpened s)" "\<And>s. P (StreamResumed s)" "\<And>l k. P (Pushed True captured l k)"
  shows "adds P (d_world d) (d_world (on_captured M cfg A captured latest d))"
proof (cases "d_active d")
  case None
  obtain r w where o: "open_wheel_stream_with_leds cfg A (d_world d) = (r, w)" by (cases "open_wheel_stream_with_leds cfg A (d_world d)")
  have "adds P (d_world d) w" using adds_open_wheel [OF o] assms(1) by blast
  then show ?thesis using o None by (auto simp: on_captured_def split: sum.splits)
next
  case (Some a)
  let ?a = "a\<lparr>a_last_telemetry := n_now A, a_last_gen := n_now A, a_last_captured := Some (n_now A)\<rparr>"
  obtain a' w where rt: "retake_lease A ?a (d_world d) = (a', w)" by (cases "retake_lease A ?a (d_world d)")
  obtain q w1 where t: "take_lease A (a_lease_key ?a) (d_world d) = (q, w1)" by (cases "take_lease A (a_lease_key ?a) (d_world d)")
  have "adds P (d_world d) w1" using adds_take [OF t] .
  moreover have "adds P w1 (emit_stream StreamResumed (a_stream ?a) w1)" by (rule adds_emit_stream) (rule assms(2))
  ultimately have "adds P (d_world d) w" using rt t by (auto simp: retake_lease_def intro: adds_trans split: sum.splits if_splits)
  moreover have "adds P w (push True captured a' w)" using assms(3) by (simp add: push_def adds_emit)
  ultimately show ?thesis using Some rt by (auto simp: on_captured_def intro: adds_trans)
qed

lemma on_telemetry_captured:
  assumes "d_active d = Some a"
  shows "\<exists>b. d_active (on_telemetry M cfg A latest d) = Some b \<and> a_last_captured b = a_last_captured a"
  using assms by (auto simp: on_telemetry_def split: option.splits)

lemma on_captured_stamps:
  assumes "captured \<noteq> []" "d_active (on_captured M cfg A captured latest d) = Some b"
  shows "a_last_captured b = Some (n_now A)"
proof (cases "d_active d")
  case None
  then show ?thesis using assms by (auto simp: on_captured_def captured_session_def split: if_splits sum.splits prod.splits)
next
  case (Some a)
  then show ?thesis using assms by (auto simp: on_captured_def retake_lease_def split: if_splits sum.splits prod.splits)
qed

lemma watchdog_precedence:
  assumes "\<And>b. d_active d = Some b \<Longrightarrow> \<exists>t. a_last_captured b = Some t \<and> n_now A - t < CAPTURED_PRECEDENCE_MS * MS"
  shows "d_world (watchdog M cfg A d) = d_world d"
proof (cases "d_active d")
  case (Some b)
  then obtain t where "a_last_captured b = Some t" "n_now A - t < CAPTURED_PRECEDENCE_MS * MS" using assms by blast
  then have "watch M cfg A b (d_world d) = (None, b, d_world d)" by (simp add: watch_def captured_has_precedence_def)
  then show ?thesis using Some by (simp add: watchdog_def)
qed (simp add: watchdog_def)

text \<open>C14. A game's own samples are never covered by synthesised ones: an iteration in which captured
  samples arrive, or that comes less than 250 ms after they last did, pushes nothing the mixer
  made, whichever path opened the session.\<close>

theorem captured_silences_synthesis:
  assumes "drain_captured_tf BUF_LEN (n_tf A) \<noteq> [] \<or>
    (\<exists>a t. d_active d = Some a \<and> a_last_captured a = Some t \<and> n_now A < t + CAPTURED_PRECEDENCE_MS * MS)"
  shows "\<exists>es. w_events (d_world (iteration M cfg A d)) = w_events (d_world d) @ es \<and>
    (\<forall>e\<in>set es. \<not> synthesised e)"
proof -
  define captured where "captured = drain_captured_tf BUF_LEN (n_tf A)"
  obtain latest decs where r: "read_sockets BUF_LEN (d_decoders d) (n_cm A) (n_pc A) (n_bn A) (n_relay A) = (latest, decs)"
    by (cases "read_sockets BUF_LEN (d_decoders d) (n_cm A) (n_pc A) (n_bn A) (n_relay A)")
  let ?d0 = "d\<lparr>d_decoders := decs\<rparr>"
  let ?d1 = "on_telemetry M cfg A latest ?d0"
  let ?d2 = "on_captured M cfg A captured latest ?d1"
  have it: "iteration M cfg A d = watchdog M cfg A ?d2" by (simp add: iteration_def r captured_def)
  have pos: "0 < CAPTURED_PRECEDENCE_MS * MS" by (simp add: CAPTURED_PRECEDENCE_MS_def MS_def)
  have "d_world (watchdog M cfg A ?d2) = d_world ?d2"
  proof (rule watchdog_precedence)
    fix b assume b: "d_active ?d2 = Some b"
    show "\<exists>t. a_last_captured b = Some t \<and> n_now A - t < CAPTURED_PRECEDENCE_MS * MS"
    proof (cases "captured = []")
      case True
      then obtain a t where a: "d_active ?d0 = Some a" "a_last_captured a = Some t" "n_now A < t + CAPTURED_PRECEDENCE_MS * MS"
        using assms by (auto simp: captured_def)
      have "n_now A - t < CAPTURED_PRECEDENCE_MS * MS" using a(3) pos by linarith
      then show ?thesis using on_telemetry_captured [OF a(1), of M cfg A latest] a(2) b True by auto
    next
      case False
      then show ?thesis using on_captured_stamps [OF False b] pos by simp
    qed
  qed
  moreover have "adds (\<lambda>e. \<not> synthesised e) (d_world ?d0) (d_world ?d1)" by (rule adds_on_telemetry) (simp add: synthesised_def)
  moreover have "adds (\<lambda>e. \<not> synthesised e) (d_world ?d1) (d_world ?d2)" by (rule adds_on_captured) (simp_all add: synthesised_def)
  ultimately have "adds (\<lambda>e. \<not> synthesised e) (d_world d) (d_world (iteration M cfg A d))"
    unfolding it using adds_trans by fastforce
  then show ?thesis by (simp add: adds_def)
qed

definition about_a_stream :: "daemon_event \<Rightarrow> bool" where
  "about_a_stream e =
     (case e of StreamOpened s \<Rightarrow> True | Pushed c s l k \<Rightarrow> True | StreamStandby s \<Rightarrow> True | StreamResumed s \<Rightarrow> True | _ \<Rightarrow> False)"

lemma lightless_events:
  assumes "a_stream a = None"
  shows "retake_lease A a w = (a', w') \<Longrightarrow> adds P w w' \<and> a_stream a' = None" "push c s a w = w"
    "apply_gate A silent ms a w = (b, w2) \<Longrightarrow> adds P w w2 \<and> a_stream b = None"
  using assms take_lease_spec(1)
  by (fastforce simp: retake_lease_def push_def apply_gate_def emit_stream_def split: sum.splits if_splits prod.splits GateAction.splits)+

lemma lightless_generate:
  assumes "a_stream a = None" "generate M cfg A a w = (stop, a', w')"
  shows "adds P w w' \<and> a_stream a' = None"
proof (cases "plan_generation ((n_now A - a_last_gen a) div MS)")
  case (Some plan)
  obtain sc gain where sc: "gain_scale (n_gain A) (n_now A) (a_gain a) = (sc, gain)" by (cases "gain_scale (n_gain A) (n_now A) (a_gain a)")
  obtain samples mx where mx: "m_render M (a_mixer a) (a_tel a) (f_mul (effective_intensity cfg (a_game a)) sc) (gp_samples plan) = (samples, mx)"
    by (cases "m_render M (a_mixer a) (a_tel a) (f_mul (effective_intensity cfg (a_game a)) sc) (gp_samples plan)")
  let ?a = "a\<lparr>a_last_gen := gen_clock (n_now A) (a_last_gen a) plan, a_gain := gain, a_mixer := mx\<rparr>"
  obtain a1 w1 where g: "apply_gate A (list_all f_is_zero samples) (gp_audio_ms plan) ?a w = (a1, w1)"
    by (cases "apply_gate A (list_all f_is_zero samples) (gp_audio_ms plan) ?a w")
  have "adds P w w1" "a_stream a1 = None" using lightless_events(3) [OF _ g, of P] assms(1) by simp_all
  then show ?thesis using assms(2) Some sc mx g lightless_events(2) [of a1] by (auto simp: generate_def split: if_splits)
qed (use assms in \<open>simp add: generate_def\<close>)

lemma lightless_watch:
  assumes "a_stream a = None" "watch M cfg A a w = (stop, a', w')" "\<And>tel. P (ScreenUpdated tel)"
  shows "adds P w w' \<and> a_stream a' = None"
proof -
  obtain s1 a1 w1 where g: "generate M cfg A a w = (s1, a1, w1)" by (cases "generate M cfg A a w") auto
  obtain a2 w2 where l: "drive_lights A a1 w1 = (a2, w2)" by (cases "drive_lights A a1 w1")
  have "adds P w w1" "a_stream a1 = None" using lightless_generate [OF assms(1) g, of P] by simp_all
  moreover have "adds P w1 w2" "a_stream a2 = a_stream a1"
    using l assms(3) by (auto simp: drive_lights_def adds_def emit_def split: option.splits prod.splits if_splits)
  ultimately show ?thesis using assms(1,2) g l adds_trans by (fastforce simp: watch_def split: if_splits)
qed

lemma native_session:
  assumes "d_active d = None" "native_trueforce_here cfg A game"
  shows "d_world (on_telemetry M cfg A (Some (game, tel)) d) = d_world d"
    "d_active (on_telemetry M cfg A (Some (game, tel)) d) = Some a \<Longrightarrow> a_stream a = None"
  using assms by (auto simp: on_telemetry_def open_session_def lights_only_def split: option.splits if_splits)

lemma native_captured:
  assumes "\<And>a. d_active d = Some a \<Longrightarrow> a_stream a = None" "native_trueforce_here cfg A game"
  shows "adds P (d_world d) (d_world (on_captured M cfg A captured (Some (game, tel)) d))"
    "d_active (on_captured M cfg A captured (Some (game, tel)) d) = Some b \<Longrightarrow> a_stream b = None"
proof -
  have "adds P (d_world d) (d_world (on_captured M cfg A captured (Some (game, tel)) d)) \<and>
    (\<forall>b. d_active (on_captured M cfg A captured (Some (game, tel)) d) = Some b \<longrightarrow> a_stream b = None)"
  proof (cases "d_active d")
    case None
    then show ?thesis using assms(2) by (simp add: on_captured_def captured_stream_wanted_def)
  next
    case (Some a)
    let ?a = "a\<lparr>a_last_telemetry := n_now A, a_last_gen := n_now A, a_last_captured := Some (n_now A)\<rparr>"
    obtain a' w where rt: "retake_lease A ?a (d_world d) = (a', w)" by (cases "retake_lease A ?a (d_world d)")
    have "a_stream ?a = None" using assms(1) Some by simp
    then have "adds P (d_world d) w" "a_stream a' = None" using lightless_events(1) [OF _ rt, of P] by simp_all
    then show ?thesis using Some rt lightless_events(2) [of a'] assms(1) by (auto simp: on_captured_def)
  qed
  then show "adds P (d_world d) (d_world (on_captured M cfg A captured (Some (game, tel)) d))"
    "d_active (on_captured M cfg A captured (Some (game, tel)) d) = Some b \<Longrightarrow> a_stream b = None" by blast+
qed

lemma lightless_watchdog:
  assumes "\<And>a. d_active d = Some a \<Longrightarrow> a_stream a = None"
    and "\<And>tel. P (ScreenUpdated tel)" "P ScreenStopped" "\<And>r. P (SessionStopped r)"
  shows "adds P (d_world d) (d_world (watchdog M cfg A d))"
proof (cases "d_active d")
  case (Some a)
  obtain stop a' w' where w: "watch M cfg A a (d_world d) = (stop, a', w')" by (cases "watch M cfg A a (d_world d)") auto
  have "adds P (d_world d) w'" using lightless_watch [OF assms(1) [OF Some] w] assms(2) by blast
  moreover have "adds P w' (end_session A reason a' w')" for reason
    using assms(3,4) by (auto simp: end_session_def adds_def emit_def give_lease_def Let_def split: option.splits)
  ultimately show ?thesis using Some w adds_trans by (fastforce simp: watchdog_def split: option.splits)
qed (simp add: watchdog_def)


section \<open>Pacing and standby\<close>

text \<open>The generation clock over a run of iterations at the times \<open>nows\<close>: the audio generated, and
  the clock.\<close>

fun gen_run :: "nat list \<Rightarrow> nat \<Rightarrow> nat list \<times> nat" where
  "gen_run [] lg = ([], lg)"
| "gen_run (now # nows) lg =
     (case plan_generation ((now - lg) div MS) of
        None \<Rightarrow> gen_run nows lg
      | Some plan \<Rightarrow> (case gen_run nows (gen_clock now lg plan) of (blocks, l) \<Rightarrow> (gp_audio_ms plan # blocks, l)))"

lemma plan_clock:
  assumes "plan_generation ((now - lg) div MS) = Some plan"
  shows "lg + gp_audio_ms plan * MS \<le> gen_clock now lg plan" "gen_clock now lg plan \<le> now" "now < gen_clock now lg plan + MS"
    "0 < gp_audio_ms plan" "gp_audio_ms plan \<le> MAX_GEN_MS" "gp_samples plan = SAMPLES_PER_MS * gp_audio_ms plan"
proof -
  define e where "e = (now - lg) div MS"
  have plan: "gp_audio_ms plan = min e MAX_GEN_MS" "gp_dropped_backlog plan = (MAX_GEN_MS < e)" "0 < min e MAX_GEN_MS"
    "gp_samples plan = SAMPLES_PER_MS * gp_audio_ms plan"
    using assms by (auto simp: plan_generation_def e_def Let_def split: if_splits)
  have ms: "0 < MS" by (simp add: MS_def)
  have e: "e * MS \<le> now - lg" "now - lg < e * MS + MS" using ms dividend_less_div_times [of MS "now - lg"] by (simp_all add: e_def)
  have le: "lg \<le> now" using plan(3) e(1) ms by (cases "lg \<le> now") auto
  show "0 < gp_audio_ms plan" "gp_audio_ms plan \<le> MAX_GEN_MS" "gp_samples plan = SAMPLES_PER_MS * gp_audio_ms plan" using plan by simp_all
  show "lg + gp_audio_ms plan * MS \<le> gen_clock now lg plan"
  proof (cases "MAX_GEN_MS < e")
    case True
    then have "MAX_GEN_MS * MS \<le> e * MS" by simp
    then have "lg + MAX_GEN_MS * MS \<le> now" using e(1) le by linarith
    then show ?thesis using True plan(1,2) by (simp add: gen_clock_def)
  qed (use plan in \<open>simp add: gen_clock_def\<close>)
  show "gen_clock now lg plan \<le> now" "now < gen_clock now lg plan + MS"
    using plan e le ms by (auto simp: gen_clock_def min_def)
qed


text \<open>The abstract gate: how long the output has been silent since the last sound.\<close>

definition quiet_ms :: "(bool \<times> nat) list \<Rightarrow> nat" where
  "quiet_ms blocks = sum_list (map snd (takeWhile fst (rev blocks)))"

definition gate_after :: "(bool \<times> nat) list \<Rightarrow> SilenceGate" where
  "gate_after blocks = fold (\<lambda>(silent, ms) g. snd (observe g silent ms)) blocks gate_default"

lemma gate_after_inv:
  "standby (gate_after bs) = (ZERO_FORCE_STANDBY_MS \<le> quiet_ms bs) \<and>
   (\<not> standby (gate_after bs) \<longrightarrow> zero_ms (gate_after bs) = quiet_ms bs)"
proof (induction bs rule: rev_induct)
  case Nil
  show ?case by (simp add: gate_after_def quiet_ms_def gate_default_def ZERO_FORCE_STANDBY_MS_def)
next
  case (snoc b bs)
  obtain silent ms where b: "b = (silent, ms)" by (cases b)
  have g: "gate_after (bs @ [b]) = snd (observe (gate_after bs) silent ms)" by (simp add: gate_after_def b)
  have q: "quiet_ms (bs @ [b]) = (if silent then ms + quiet_ms bs else 0)" by (simp add: quiet_ms_def b)
  show ?case using snoc.IH unfolding g q by (auto simp: observe_def Let_def ZERO_FORCE_STANDBY_MS_def)
qed


section \<open>A run\<close>

definition demo_mixer :: "unit mixer" where
  "demo_mixer = \<lparr>m_new = \<lambda>full cyl pitch gains. (), m_render = \<lambda>m tel gain n. (replicate n f_one, m)\<rparr>"

definition quiet_answers :: "nat \<Rightarrow> answers" where
  "quiet_answers now =
     \<lparr>n_now = now, n_cm = [], n_pc = [], n_bn = [], n_tf = [], n_relay = None, n_lock_fs = answers_all, n_lease_dir = ''/run'',
      n_pid = 42, n_g923 = None, n_dd_hid = Some ''0003:046D:C276.0003'', n_open_g923 = None, n_open_dd = None, n_env_wheel = None,
      n_marker = \<lambda>_. False, n_markers = None, n_native_title = \<lambda>_. False, n_proc = None, n_env = \<lambda>_. None,
      n_dirs = \<lambda>_. [], n_listing = \<lambda>_. None, n_screen = False, n_push = None, n_gain = \<lambda>_. None\<rparr>"

definition demo_world :: world where
  "demo_world =
     \<lparr>w_locks = ls_world no_leases, w_leds = \<lparr>lf_files = \<lambda>_. None, lf_refused = \<lambda>_. None, lf_log = []\<rparr>, w_fd = 7, w_events = []\<rparr>"

definition captured_packet :: "u8 list" where
  "captured_packet = TF_MAGIC @ [1, 0] @ to_le_bytes (1 :: u16) @ to_le_bytes f_one"

definition captured_answers :: "nat \<Rightarrow> answers" where
  "captured_answers now = (quiet_answers now)\<lparr>n_tf := [Datagram captured_packet 0]\<rparr>"

definition demo_lease :: Lease where
  "demo_lease = \<lparr>lease_file = Some 7, lease_path = Some ''/run/tf-stream-0003-046D-C276.0003.lock''\<rparr>"

definition demo_session :: "unit daemon" where
  "demo_session = iteration demo_mixer config_default (captured_answers 0) (daemon_start demo_world)"

lemma captured_drained: "drain_captured_tf BUF_LEN [Datagram captured_packet 0] = [f_one]"
proof -
  have "take BUF_LEN captured_packet = captured_packet" "captured_packet \<noteq> []"
    by (simp_all add: captured_packet_def BUF_LEN_def TF_MAGIC_def)
  moreover have "tf_decode captured_packet = Some [f_one]"
    by (simp add: tf_decode_def captured_packet_def TF_MAGIC_def TF_VERSION_def TF_HEADER_LEN_def TF_MAX_SAMPLES_def tf_sample_def
        window_def nth_append Let_def f_is_finite_def f_mag_def F_INF_def f_clamp_def f_lt_def f_key_def f_neg_def f_is_nan_def)
  ultimately show ?thesis by simp
qed

lemma demo_open:
  "open_wheel_stream_with_leds config_default (captured_answers 0) (demo_world\<lparr>w_events := []\<rparr>) =
     (Inr \<lparr>ow_stream = StreamDd, ow_led_owner = Some ''0003:046D:C276.0003'', ow_lease = demo_lease, ow_lease_key = ''0003:046D:C276.0003''\<rparr>,
      demo_world\<lparr>w_locks := sim_world, w_fd := 8, w_events := [StreamOpened StreamDd]\<rparr>)"
proof -
  have "take_lease (captured_answers 0) ''0003:046D:C276.0003'' (demo_world\<lparr>w_events := []\<rparr>) =
    (Inr demo_lease, demo_world\<lparr>w_locks := sim_world, w_fd := 8, w_events := []\<rparr>)"
    using sim_lease_eq by (simp add: take_lease_def captured_answers_def quiet_answers_def demo_world_def LEASE_HOLDER_def demo_lease_def)
  then show ?thesis
    by (simp add: open_wheel_stream_with_leds_def wheel_choice_def config_default_def open_dd_def open_leased_def emit_def demo_world_def
        captured_answers_def quiet_answers_def Let_def)
qed

lemma captured_answers_sel [simp]:
  "n_now (captured_answers t) = t" "n_cm (captured_answers t) = []" "n_pc (captured_answers t) = []" "n_bn (captured_answers t) = []"
  "n_tf (captured_answers t) = [Datagram captured_packet 0]" "n_relay (captured_answers t) = None" "n_markers (captured_answers t) = None"
  by (simp_all add: captured_answers_def quiet_answers_def)

lemma demo_session_eq:
  "\<exists>a. d_active demo_session = Some a \<and> a_lease a = Some demo_lease \<and> a_stream a = Some StreamDd \<and> a_last_telemetry a = 0 \<and>
     a_last_captured a = Some 0 \<and> d_decoders demo_session = \<lparr>dec_f1 = decoder_new, dec_beamng = decoder_new\<rparr> \<and>
     d_world demo_session = demo_world\<lparr>w_locks := sim_world, w_fd := 8, w_events := [StreamOpened StreamDd]\<rparr>"
  using demo_open captured_drained
  by (simp add: demo_session_def iteration_def daemon_start_def on_telemetry_def on_captured_def captured_stream_wanted_def
      read_sockets_def any_active_in_def watchdog_def watch_def captured_session_def
      captured_has_precedence_def CAPTURED_PRECEDENCE_MS_def MS_def)

lemma demo_session_reached: "(daemon_step demo_mixer config_default)\<^sup>*\<^sup>* (daemon_start demo_world) demo_session"
  unfolding demo_session_def
  by (rule r_into_rtranclp, rule daemon_step.loop) (simp add: clock_ok_def daemon_start_def)



theorem captured_silences_synthesis_witness:
  "\<exists>es. w_events (d_world (iteration demo_mixer config_default (quiet_answers (249 * MS)) demo_session)) =
      w_events (d_world demo_session) @ es \<and> (\<forall>e\<in>set es. \<not> synthesised e)"
proof (rule captured_silences_synthesis, rule disjI2)
  show "\<exists>a t. d_active demo_session = Some a \<and> a_last_captured a = Some t \<and>
      n_now (quiet_answers (249 * MS)) < t + CAPTURED_PRECEDENCE_MS * MS"
    using demo_session_eq by (auto simp: quiet_answers_def CAPTURED_PRECEDENCE_MS_def MS_def)
qed

definition rally_sample :: Telemetry where
  "rally_sample = telemetry_default\<lparr>t_rpm := 0x459c4000, t_max_rpm := 0x45fa0000, t_throttle := 0x3f000000, t_speed := 0\<rparr>"

definition rally_answers :: "nat \<Rightarrow> answers" where
  "rally_answers now = (quiet_answers now)\<lparr>n_cm := [Datagram (wrc_packet 0x459c4000 0x45fa0000) 0, WouldBlock]\<rparr>"

lemma rally_read:
  "read_sockets BUF_LEN \<lparr>dec_f1 = decoder_new, dec_beamng = decoder_new\<rparr> [Datagram (wrc_packet 0x459c4000 0x45fa0000) 0, WouldBlock] [] [] None =
     (Some (WRC_ID, rally_sample), \<lparr>dec_f1 = decoder_new, dec_beamng = decoder_new\<rparr>)"
proof -
  let ?pkt = "wrc_packet 0x459c4000 0x45fa0000"
  have p: "wrc_parse ?pkt = Some (WRC_ID, rally_sample)" unfolding rally_sample_def
    by (rule wrc_packet_parse) (simp_all add: f_lt_def f_le_def F32.f_key_def f_neg_def f_mag_def f_is_nan_def F_INF_def)
  have len: "take BUF_LEN ?pkt = ?pkt" by (simp add: wrc_packet_def BUF_LEN_def)
  have c: "codemasters_parse ?pkt = None" and f: "fst (f1_parse decoder_new ?pkt) = None"
    using formats_disjoint [of ?pkt decoder_new] p by auto
  have "f1_parse decoder_new ?pkt = (None, decoder_new)" using f f1.refused by (metis prod.collapse)
  then show ?thesis using p c len
    by (simp add: read_sockets_def parse_codemasters_port_def)
qed



text \<open>A driver who sets the strength to zero and turns the lights off still gets the wheel's
  TrueForce engine armed and the lease taken: the arm of the loop for a zero strength asks for the
  lights too, and without them the sample falls through to the arm that opens the stream.\<close>

lemma zero_scaled:
  assumes "f_is_zero x" "f_is_finite y"
  shows "f_is_zero (f_mul x y)" "\<not> f_is_zero y \<Longrightarrow> f_is_zero (f_div x y)"
proof -
  have "f_val x = 0" using assms(1) by (simp add: f_val_def f_is_zero_def)
  moreover have "f_is_zero (f_of_rat s 0)" for s using round_mag_units [of 0] by (simp add: f_is_zero_def f_of_rat_mag F_INF_def)
  ultimately show "f_is_zero (f_mul x y)" "\<not> f_is_zero y \<Longrightarrow> f_is_zero (f_div x y)"
    using assms by (auto simp: f_mul_def f_div_def f_is_zero_def f_is_finite_def f_is_nan_def f_is_inf_def F_INF_def)
qed

lemma zero_strength: "\<not> wants_haptics (config_default\<lparr>intensity := 0, leds := False\<rparr>) game"
proof -
  have z: "f_is_zero (f_of_nat 0)" using round_mag_units [of 0] by (simp add: f_is_zero_def f_of_nat_def f_of_rat_mag F_INF_def)
  have h: "f_is_finite F_HUNDRED" "\<not> f_is_zero F_HUNDRED" by (simp_all add: f_is_finite_def f_is_zero_def f_mag_def F_INF_def F_HUNDRED_def)
  have g: "f_is_finite (f_of_nat 100)" using f_of_nat_le_u8 [of 100] by (simp add: f_is_finite_def F_INF_def)
  have "f_is_zero (f_div (f_mul (f_div (f_of_nat 0) F_HUNDRED) (f_of_nat 100)) F_HUNDRED)"
    by (intro zero_scaled z h g)
  then show ?thesis
    by (simp add: wants_haptics_def effective_intensity_def config_default_def DEFAULT_GAME_INTENSITY_def f_clamp_def f_lt_def
        F32.f_key_def f_is_zero_def f_mag_def f_neg_def)
qed

theorem zero_strength_still_opens:
  "\<not> wants_haptics (config_default\<lparr>intensity := 0, leds := False\<rparr>) WRC_ID \<and>
   StreamOpened StreamDd \<in> set (w_events (d_world
     (on_telemetry demo_mixer (config_default\<lparr>intensity := 0, leds := False\<rparr>) (quiet_answers 0) (Some (WRC_ID, rally_sample)) (daemon_start demo_world))))"
proof
  show "\<not> wants_haptics (config_default\<lparr>intensity := 0, leds := False\<rparr>) WRC_ID" by (rule zero_strength)
  have "take_lease (quiet_answers 0) ''0003:046D:C276.0003'' (demo_world\<lparr>w_events := []\<rparr>) =
    (Inr demo_lease, demo_world\<lparr>w_locks := sim_world, w_fd := 8, w_events := []\<rparr>)"
    using sim_lease_eq by (simp add: take_lease_def quiet_answers_def demo_world_def LEASE_HOLDER_def demo_lease_def)
  then show "StreamOpened StreamDd \<in> set (w_events (d_world
     (on_telemetry demo_mixer (config_default\<lparr>intensity := 0, leds := False\<rparr>) (quiet_answers 0) (Some (WRC_ID, rally_sample)) (daemon_start demo_world))))"
    by (simp add: on_telemetry_def game_enabled_def daemon_start_def open_session_def config_default_def native_trueforce_here_def
        open_wheel_stream_with_leds_def wheel_choice_def open_dd_def open_leased_def quiet_answers_def Let_def)
qed

end
