(* ===== verification/F32_Ops.thy ===== *)
theory F32_Ops
  imports F32
begin

text \<open>
  The rest of the \<open>f32\<close> arithmetic of Rust that the effects use: sum and difference, \<open>abs\<close>, \<open>min\<close>,
  \<open>trunc\<close> and \<open>fract\<close>, the casts to an unsigned integer and the correctly rounded \<open>sqrt\<close>. The
  predicate \<open>bounded r x\<close> says that \<open>x\<close> is finite and at most \<open>r\<close> in magnitude; its lemmas carry
  bounds through a computation, with powers of two as bounds because rounding keeps those.
\<close>

section \<open>Operations\<close>

definition f_negate :: "f32 \<Rightarrow> f32" where "f_negate x = f_make (\<not> f_neg x) (f_mag x)"

definition f_abs :: "f32 \<Rightarrow> f32" where "f_abs x = f_make False (f_mag x)"

definition f_add :: "f32 \<Rightarrow> f32 \<Rightarrow> f32" where
  "f_add x y =
     (if f_is_nan x \<or> f_is_nan y \<or> f_is_inf x \<and> f_is_inf y \<and> f_neg x \<noteq> f_neg y then f_quiet_nan
      else if f_is_inf x then x
      else if f_is_inf y then y
      else
        let s = f_val x + f_val y in
        f_of_rat (if s = 0 then f_neg x \<and> f_neg y else s < 0) s)"

definition f_sub :: "f32 \<Rightarrow> f32 \<Rightarrow> f32" where "f_sub x y = f_add x (f_negate y)"

definition f_min :: "f32 \<Rightarrow> f32 \<Rightarrow> f32" where
  "f_min x y = (if f_is_nan x then y else if f_lt y x then y else x)"

definition f_trunc :: "f32 \<Rightarrow> f32" where
  "f_trunc x = (if f_is_finite x then f_of_rat (f_neg x) (of_int \<lfloor>\<bar>f_val x\<bar>\<rfloor>) else x)"

definition f_fract :: "f32 \<Rightarrow> f32" where "f_fract x = f_sub x (f_trunc x)"

definition f_to_nat :: "nat \<Rightarrow> f32 \<Rightarrow> nat" where
  "f_to_nat hi x =
     (if f_is_nan x \<or> f_neg x then 0 else if f_is_inf x then hi else min hi (nat \<lfloor>f_val x\<rfloor>))"

fun bisect_sq :: "nat \<Rightarrow> nat \<Rightarrow> rat \<Rightarrow> nat" where
  "bisect_sq 0 k q = k"
| "bisect_sq (Suc i) k q =
     (if k + 2 ^ i \<le> F_INF \<and> (of_nat (units (k + 2 ^ i)))\<^sup>2 \<le> q then bisect_sq i (k + 2 ^ i) q else bisect_sq i k q)"

definition f_sqrt :: "f32 \<Rightarrow> f32" where
  "f_sqrt x =
     (if f_is_nan x \<or> f_is_zero x then x
      else if f_neg x then f_quiet_nan
      else if f_is_inf x then x
      else
        let q = f_val x * 2 ^ 298; k = bisect_sq 31 0 q; mid = of_nat (units k + units (Suc k)) / 2 in
        f_make False (if q < mid\<^sup>2 then k else if mid\<^sup>2 < q then Suc k else if even k then k else Suc k))"

section \<open>Signs and magnitudes\<close>

lemma mag_le_inf: "\<not> f_is_nan x \<Longrightarrow> f_mag x \<le> F_INF" by (simp add: f_is_nan_def)

lemma f_negate_sel [simp]: "f_mag (f_negate x) = f_mag x" "f_neg (f_negate x) = (\<not> f_neg x)" "f_val (f_negate x) = - f_val x"
  "f_is_nan (f_negate x) = f_is_nan x" "f_is_inf (f_negate x) = f_is_inf x" "f_is_finite (f_negate x) = f_is_finite x"
proof -
  show m: "f_mag (f_negate x) = f_mag x" "f_neg (f_negate x) = (\<not> f_neg x)" by (simp_all add: f_negate_def f_mag_less)
  show "f_val (f_negate x) = - f_val x" by (simp add: f_val_def m)
  show "f_is_nan (f_negate x) = f_is_nan x" "f_is_inf (f_negate x) = f_is_inf x" "f_is_finite (f_negate x) = f_is_finite x"
    by (simp_all add: f_is_nan_def f_is_inf_def f_is_finite_def m)
qed

lemma f_abs_sel [simp]: "f_mag (f_abs x) = f_mag x" "\<not> f_neg (f_abs x)" by (simp_all add: f_abs_def f_mag_less)

lemma finite_not [simp]: "f_is_finite x \<Longrightarrow> \<not> f_is_nan x" "f_is_finite x \<Longrightarrow> \<not> f_is_inf x"
  by (simp_all add: f_is_finite_def f_is_nan_def f_is_inf_def)

lemma f_key_val: "f_is_finite x \<Longrightarrow> f_is_finite y \<Longrightarrow> f_lt x y \<longleftrightarrow> f_val x < f_val y"
proof -
  assume fin: "f_is_finite x" "f_is_finite y"
  have u: "units (f_mag z) = 0 \<longleftrightarrow> f_mag z = 0" for z using units_less_iff [of 0 "f_mag z"] by auto
  have "f_val x < f_val y \<longleftrightarrow> f_key x < f_key y"
    using units_less_iff [of "f_mag x" "f_mag y"] units_less_iff [of "f_mag y" "f_mag x"] u [of x] u [of y]
    by (auto simp: f_val_def f_key_def divide_less_cancel not_less simp del: units_less_iff)
  then show ?thesis using fin by (simp add: f_lt_def)
qed

section \<open>Bounds\<close>

definition bounded :: "rat \<Rightarrow> f32 \<Rightarrow> bool" where "bounded r x \<longleftrightarrow> f_is_finite x \<and> \<bar>f_val x\<bar> \<le> r"

lemma boundedD: "bounded r x \<Longrightarrow> f_is_finite x" "bounded r x \<Longrightarrow> \<bar>f_val x\<bar> \<le> r" by (simp_all add: bounded_def)

lemma bounded_mono: "bounded r x \<Longrightarrow> r \<le> s \<Longrightarrow> bounded s x" by (simp add: bounded_def)

lemma units_pow2: "units ((127 + n) * 8388608) = 2 ^ (149 + n)"
  by (simp add: units_def Let_def power_add)

lemma pow2_below_inf: "n \<le> 127 \<Longrightarrow> (127 + n) * 8388608 < F_INF" by (simp add: F_INF_def)

lemma bounded_round:
  assumes "\<bar>q\<bar> \<le> 2 ^ n" "n \<le> 127"
  shows "bounded (2 ^ n) (f_of_rat s q)"
proof -
  let ?k = "(127 + n) * 8388608"
  have v: "(of_nat (units ?k) :: rat) / 2 ^ 149 = 2 ^ n" unfolding units_pow2 by (simp add: power_add)
  have "f_mag (f_of_rat s q) \<le> ?k" by (rule f_of_rat_le) (use assms v pow2_below_inf in \<open>auto simp: less_imp_le\<close>)
  then show ?thesis
    using pow2_below_inf [OF assms(2)] f_val_le_units [of "f_of_rat s q" ?k] v by (simp add: bounded_def f_is_finite_def)
qed

lemma val_of_rat_sign:
  "f_val (f_of_rat s q) = (if s then -1 else 1) * \<bar>f_val (f_of_rat s q)\<bar>"
  by (simp add: f_val_def f_of_rat_mag)

lemma f_of_rat_lower:
  assumes "of_nat (units k) / 2 ^ 149 \<le> \<bar>q\<bar>" "k \<le> F_INF"
  shows "k \<le> f_mag (f_of_rat s q)"
proof -
  have "of_nat (units k) \<le> \<bar>q\<bar> * 2 ^ 149" using assms(1) by (simp add: pos_divide_le_eq)
  from round_mag_mono [OF _ this] show ?thesis using assms(2) by (simp add: f_of_rat_mag)
qed

lemma finite_add_eq:
  assumes "f_is_finite x" "f_is_finite y"
  shows "f_add x y = f_of_rat (if f_val x + f_val y = 0 then f_neg x \<and> f_neg y else f_val x + f_val y < 0) (f_val x + f_val y)"
  using assms by (simp add: f_add_def Let_def)

lemma bounded_add:
  assumes "bounded (2 ^ n) x" "bounded (2 ^ n) y" "n < 127"
  shows "bounded (2 ^ Suc n) (f_add x y)"
  unfolding finite_add_eq [OF boundedD(1) [OF assms(1)] boundedD(1) [OF assms(2)]]
  by (rule bounded_round) (use assms boundedD(2) [OF assms(1)] boundedD(2) [OF assms(2)] in auto)

lemma bounded_add_val:
  assumes "f_is_finite x" "f_is_finite y" "\<bar>f_val x + f_val y\<bar> \<le> 2 ^ n" "n \<le> 127"
  shows "bounded (2 ^ n) (f_add x y)"
  unfolding finite_add_eq [OF assms(1,2)] by (rule bounded_round) (use assms in auto)

lemma bounded_negate [simp]: "bounded r (f_negate x) = bounded r x" by (simp add: bounded_def)

lemma bounded_sub:
  assumes "bounded (2 ^ n) x" "bounded (2 ^ n) y" "n < 127"
  shows "bounded (2 ^ Suc n) (f_sub x y)"
  unfolding f_sub_def by (rule bounded_add) (use assms in auto)

lemma finite_mul_eq:
  assumes "f_is_finite x" "f_is_finite y"
  shows "f_mul x y = f_of_rat (f_neg x \<noteq> f_neg y) (f_val x * f_val y)"
  using assms by (simp add: f_mul_def)

lemma bounded_mul:
  assumes "bounded (2 ^ m) x" "bounded (2 ^ n) y" "m + n \<le> 127"
  shows "bounded (2 ^ (m + n)) (f_mul x y)"
  unfolding finite_mul_eq [OF boundedD(1) [OF assms(1)] boundedD(1) [OF assms(2)]]
proof (rule bounded_round)
  show "\<bar>f_val x * f_val y\<bar> \<le> 2 ^ (m + n)"
    unfolding abs_mult power_add by (rule mult_mono) (use boundedD(2) assms in auto)
qed (use assms in auto)

lemma bounded_mul1: "bounded (2 ^ m) x \<Longrightarrow> bounded 1 y \<Longrightarrow> m \<le> 127 \<Longrightarrow> bounded (2 ^ m) (f_mul x y)"
  using bounded_mul [of m x 0 y] by simp

lemma finite_div_eq:
  assumes "f_is_finite x" "f_is_finite y" "\<not> f_is_zero y"
  shows "f_div x y = f_of_rat (f_neg x \<noteq> f_neg y) (f_val x / f_val y)"
  using assms by (simp add: f_div_def)

lemma bounded_div:
  assumes "bounded (2 ^ m) x" "f_is_finite y" "1 / 2 ^ j \<le> \<bar>f_val y\<bar>" "m + j \<le> 127"
  shows "bounded (2 ^ (m + j)) (f_div x y)"
proof -
  have pos: "0 < \<bar>f_val y\<bar>" using assms(3) by (rule less_le_trans [rotated]) simp
  moreover have "f_is_zero y \<Longrightarrow> f_val y = 0" by (simp add: f_is_zero_def f_val_def)
  ultimately have "\<not> f_is_zero y" by auto
  then have "f_div x y = f_of_rat (f_neg x \<noteq> f_neg y) (f_val x / f_val y)"
    by (rule finite_div_eq [OF boundedD(1) [OF assms(1)] assms(2)])
  moreover have "\<bar>f_val x / f_val y\<bar> \<le> 2 ^ (m + j)"
  proof -
    have "1 \<le> 2 ^ j * \<bar>f_val y\<bar>" using assms(3) by (simp add: pos_divide_le_eq mult.commute)
    then have "2 ^ m * 1 \<le> 2 ^ m * (2 ^ j * \<bar>f_val y\<bar>)" by (rule mult_left_mono) simp
    then have "\<bar>f_val x\<bar> \<le> 2 ^ m * (2 ^ j * \<bar>f_val y\<bar>)"
      using boundedD(2) [OF assms(1)] by linarith
    then show ?thesis using pos by (simp add: abs_divide pos_divide_le_eq power_add mult.assoc)
  qed
  ultimately show ?thesis using bounded_round [OF _ assms(4)] by simp
qed


section \<open>Errors of rounding and pieces of a number\<close>

lemma units_gap: "units (Suc k) \<le> units k + max 1 (units k div 8388608)"
proof -
  define e f where "e = k div 8388608" and "f = k mod 8388608"
  have k: "k = 8388608 * e + f" and f: "f < 8388608" by (simp_all add: e_def f_def)
  have uk: "units k = (if e = 0 then f else (8388608 + f) * 2 ^ (e - 1))" by (simp add: units_def e_def f_def Let_def)
  have us: "units (Suc k) = (if e = 0 then Suc f else (8388608 + Suc f) * 2 ^ (e - 1))"
  proof (cases "f = 8388607")
    case True
    then have s: "Suc k div 8388608 = Suc e" "Suc k mod 8388608 = 0" using k by simp_all
    show ?thesis
    proof (cases e)
      case (Suc d)
      then show ?thesis using s True by (simp add: units_def)
    qed (use s True in \<open>simp add: units_def\<close>)
  next
    case False
    then have "f + 1 < 8388608" using f by simp
    then have s: "Suc k div 8388608 = e" "Suc k mod 8388608 = Suc f" using k by simp_all
    show ?thesis using s by (simp add: units_def Let_def)
  qed
  show ?thesis
  proof (cases "e = 0")
    case True
    then show ?thesis using uk us by simp
  next
    case False
    have "2 ^ (e - 1) \<le> units k div 8388608" using False uk by (simp add: less_eq_div_iff_mult_less_eq algebra_simps)
    then show ?thesis using False uk us by (simp add: algebra_simps)
  qed
qed

lemma round_error:
  assumes "0 \<le> q" "q < of_nat (units F_INF)"
  shows "\<bar>of_nat (units (round_mag q)) - q\<bar> \<le> max 1 (q / 8388608)"
proof -
  define n where "n = floor_mag q"
  have n: "n < F_INF" "of_nat (units n) \<le> q" "q < of_nat (units (Suc n))"
    using floor_mag_spec [OF assms(1)] assms(2) unfolding n_def by (auto simp: le_less)
  have "(of_nat (units (Suc n)) :: rat) \<le> of_nat (units n + max 1 (units n div 8388608))" using units_gap [of n] by (simp only: of_nat_le_iff)
  moreover have "(of_nat (max 1 (units n div 8388608)) :: rat) \<le> max 1 (q / 8388608)"
  proof -
    have "(of_nat (units n div 8388608) :: rat) \<le> of_nat (units n) / 8388608" using of_nat_div_le_of_nat [of "units n" 8388608, where ?'a = rat] by simp
    also have "\<dots> \<le> q / 8388608" using n(2) by simp
    finally show ?thesis by (simp add: max_def)
  qed
  ultimately have "of_nat (units (Suc n)) - of_nat (units n) \<le> max 1 (q / 8388608)" by simp
  moreover have "\<bar>of_nat (units (round_mag q)) - q\<bar> \<le> \<bar>of_nat (units n) - q\<bar>"
    by (rule round_mag_nearest) (use assms n in auto)
  ultimately show ?thesis using n by linarith
qed

lemma f_of_rat_error:
  assumes "\<bar>q\<bar> \<le> 2 ^ n" "n \<le> 127" "q \<noteq> 0 \<Longrightarrow> s = (q < 0)"
  shows "\<bar>f_val (f_of_rat s q) - q\<bar> \<le> max (1 / 2 ^ 149) (\<bar>q\<bar> / 8388608)"
proof -
  let ?r = "of_nat (units (round_mag (\<bar>q\<bar> * 2 ^ 149))) :: rat"
  have "\<bar>q\<bar> * 2 ^ 149 \<le> 2 ^ n * 2 ^ 149" using assms(1) by simp
  also have "\<dots> = of_nat (units ((127 + n) * 8388608))" unfolding units_pow2 by (simp add: power_add)
  also have "\<dots> < of_nat (units F_INF)" using pow2_below_inf [OF assms(2)] by (simp only: of_nat_less_iff units_less_iff)
  finally have e: "\<bar>?r - \<bar>q\<bar> * 2 ^ 149\<bar> \<le> max 1 (\<bar>q\<bar> * 2 ^ 149 / 8388608)" by (intro round_error) simp_all
  have a: "\<bar>f_val (f_of_rat s q)\<bar> = ?r / 2 ^ 149" by (simp add: f_val_abs f_of_rat_mag)
  have "\<bar>f_val (f_of_rat s q) - q\<bar> = \<bar>?r / 2 ^ 149 - \<bar>q\<bar>\<bar>"
  proof (cases "q = 0")
    case True
    then show ?thesis using a by simp
  next
    case False
    then have "s = (q < 0)" by (rule assms(3))
    then show ?thesis using a by (subst val_of_rat_sign) (auto simp: abs_if)
  qed
  also have "\<dots> = \<bar>?r - \<bar>q\<bar> * 2 ^ 149\<bar> / 2 ^ 149" 
  proof -
    have "?r / 2 ^ 149 - \<bar>q\<bar> = (?r - \<bar>q\<bar> * 2 ^ 149) / 2 ^ 149" by (simp add: diff_divide_distrib)
    then show ?thesis by (simp only: abs_divide) simp
  qed
  also have "\<dots> \<le> max 1 (\<bar>q\<bar> * 2 ^ 149 / 8388608) / 2 ^ 149" using e by (simp add: divide_right_mono)
  also have "\<dots> = max (1 / 2 ^ 149) (\<bar>q\<bar> / 8388608)" by (simp add: max_def field_simps)
  finally show ?thesis .
qed


section \<open>Rounding keeps the order\<close>

definition sign_of :: "bool \<Rightarrow> rat \<Rightarrow> bool" where "sign_of s q \<longleftrightarrow> (q \<noteq> 0 \<longrightarrow> s = (q < 0))"

lemma val_cases: "f_val x = (if f_neg x then - 1 else 1) * (of_nat (units (f_mag x)) / 2 ^ 149)"
  by (simp add: f_val_def)

lemma round_le:
  assumes "sign_of s q" "f_is_finite c" "q \<le> f_val c"
  shows "f_val (f_of_rat s q) \<le> f_val c"
proof (cases "0 \<le> q")
  case True
  then have c: "0 \<le> f_val c" using assms(3) by simp
  have "f_mag (f_of_rat s q) \<le> f_mag c"
    by (rule f_of_rat_le) (use True c assms f_val_abs [of c] in \<open>auto simp: f_is_finite_def\<close>)
  then have "\<bar>f_val (f_of_rat s q)\<bar> \<le> \<bar>f_val c\<bar>" unfolding f_val_abs [of c] by (rule f_val_le_units)
  then show ?thesis using c by simp
next
  case False
  then have s: s using assms(1) by (simp add: sign_of_def)
  have r: "f_val (f_of_rat s q) = - (of_nat (units (f_mag (f_of_rat s q))) / 2 ^ 149)" unfolding val_cases using s by (simp add: f_of_rat_mag)
  show ?thesis
  proof (cases "0 \<le> f_val c")
    case True
    have "f_val (f_of_rat s q) \<le> 0" unfolding r by simp
    then show ?thesis using True by linarith
  next
    case neg: False
    then have c: "f_val c = - (of_nat (units (f_mag c)) / 2 ^ 149)" by (auto simp: val_cases split: if_splits)
    have "f_mag c \<le> f_mag (f_of_rat s q)"
      by (rule f_of_rat_lower) (use c False assms(2,3) in \<open>auto simp: f_is_finite_def\<close>)
    then have "(of_nat (units (f_mag c)) :: rat) \<le> of_nat (units (f_mag (f_of_rat s q)))" by (simp only: of_nat_le_iff units_le_iff)
    then show ?thesis unfolding r c by (simp add: divide_right_mono)
  qed
qed

lemma of_rat_opposite: "f_val (f_of_rat (\<not> s) (- q)) = - f_val (f_of_rat s q)"
  by (simp add: val_cases f_of_rat_mag)

lemma round_ge:
  assumes "sign_of s q" "f_is_finite c" "f_val c \<le> q"
  shows "f_val c \<le> f_val (f_of_rat s q)"
proof -
  have "sign_of (\<not> s) (- q)" using assms(1) by (auto simp: sign_of_def)
  from round_le [OF this, of "f_negate c"] show ?thesis using assms(2,3) of_rat_opposite [of s q] by simp
qed

lemma add_sign: "sign_of (if f_val x + f_val y = 0 then f_neg x \<and> f_neg y else f_val x + f_val y < 0) (f_val x + f_val y)"
  by (simp add: sign_of_def)

lemma val_pos_iff: "f_val x \<noteq> 0 \<Longrightarrow> f_neg x \<longleftrightarrow> f_val x < 0"
  by (auto simp: val_cases zero_less_divide_iff)

lemma mul_sign: "sign_of (f_neg x \<noteq> f_neg y) (f_val x * f_val y)" "sign_of (f_neg x \<noteq> f_neg y) (f_val x / f_val y)"
  using val_pos_iff [of x] val_pos_iff [of y]
  by (auto simp: sign_of_def mult_less_0_iff zero_less_mult_iff divide_less_0_iff)

lemma add_le: "f_is_finite x \<Longrightarrow> f_is_finite y \<Longrightarrow> f_is_finite c \<Longrightarrow> f_val x + f_val y \<le> f_val c \<Longrightarrow> f_val (f_add x y) \<le> f_val c"
  by (simp only: finite_add_eq) (rule round_le [OF add_sign])

lemma add_ge: "f_is_finite x \<Longrightarrow> f_is_finite y \<Longrightarrow> f_is_finite c \<Longrightarrow> f_val c \<le> f_val x + f_val y \<Longrightarrow> f_val c \<le> f_val (f_add x y)"
  by (simp only: finite_add_eq) (rule round_ge [OF add_sign])

lemma mul_le: "f_is_finite x \<Longrightarrow> f_is_finite y \<Longrightarrow> f_is_finite c \<Longrightarrow> f_val x * f_val y \<le> f_val c \<Longrightarrow> f_val (f_mul x y) \<le> f_val c"
  by (simp only: finite_mul_eq) (rule round_le [OF mul_sign(1)])

lemma mul_ge: "f_is_finite x \<Longrightarrow> f_is_finite y \<Longrightarrow> f_is_finite c \<Longrightarrow> f_val c \<le> f_val x * f_val y \<Longrightarrow> f_val c \<le> f_val (f_mul x y)"
  by (simp only: finite_mul_eq) (rule round_ge [OF mul_sign(1)])

lemma div_ge: "f_is_finite x \<Longrightarrow> f_is_finite y \<Longrightarrow> \<not> f_is_zero y \<Longrightarrow> f_is_finite c \<Longrightarrow> f_val c \<le> f_val x / f_val y \<Longrightarrow> f_val c \<le> f_val (f_div x y)"
  by (subst finite_div_eq, assumption+, rule round_ge [OF mul_sign(2)])

lemma val_consts [simp]: "f_val 0 = 0" "f_val f_one = 1" "f_val f_minus_one = - 1" "f_is_finite 0" "f_is_finite f_one" "f_is_finite f_minus_one"
  by (simp_all add: f_val_def f_neg_def f_mag_def units_def Let_def f_is_finite_def F_INF_def)

lemma clamp_unit_range:
  assumes "\<not> f_is_nan x"
  shows "f_is_finite (f_clamp f_zero f_one x)" "0 \<le> f_val (f_clamp f_zero f_one x)" "f_val (f_clamp f_zero f_one x) \<le> 1"
proof -
  have inf: "f_is_inf x \<Longrightarrow> f_lt x f_zero \<or> f_lt f_one x" using assms
    by (auto simp: f_lt_def f_key_def f_is_inf_def f_is_nan_def F_INF_def f_mag_def f_neg_def)
  have fin: "f_is_finite x" if "\<not> f_is_inf x" using that assms by (auto simp: f_is_finite_def f_is_inf_def f_is_nan_def)
  show "f_is_finite (f_clamp f_zero f_one x)" using inf fin by (auto simp: f_clamp_def)
  show "0 \<le> f_val (f_clamp f_zero f_one x)" "f_val (f_clamp f_zero f_one x) \<le> 1"
    using inf fin f_key_val [of x f_zero] f_key_val [of f_one x] by (cases "f_is_inf x"; auto simp: f_clamp_def not_less)+
qed

lemma clamp_unit_bounded: "\<not> f_is_nan x \<Longrightarrow> bounded 1 (f_clamp f_zero f_one x)"
  using clamp_unit_range [of x] by (simp add: bounded_def)

lemma clamp_full_scale:
  assumes "\<not> f_is_nan x"
  shows "bounded 1 (f_clamp f_minus_one f_one x)"
proof -
  have inf: "f_is_inf x \<Longrightarrow> f_lt x f_minus_one \<or> f_lt f_one x" using assms
    by (auto simp: f_lt_def f_key_def f_is_inf_def f_is_nan_def F_INF_def f_mag_def f_neg_def)
  have fin: "f_is_finite x" if "\<not> f_is_inf x" using that assms by (auto simp: f_is_finite_def f_is_inf_def f_is_nan_def)
  show ?thesis unfolding bounded_def
    using inf fin f_key_val [of x f_minus_one] f_key_val [of f_one x] by (cases "f_is_inf x") (auto simp: f_clamp_def not_less abs_le_iff)
qed

lemma bounded_fract:
  assumes "bounded (2 ^ n) x" "n \<le> 20"
  shows "bounded 2 (f_fract x)"
proof -
  let ?t = "of_int \<lfloor>\<bar>f_val x\<bar>\<rfloor> :: rat"
  have x: "f_is_finite x" "\<bar>f_val x\<bar> \<le> 2 ^ n" using assms(1) by (simp_all add: bounded_def)
  have t: "0 \<le> ?t" "?t \<le> \<bar>f_val x\<bar>" "\<bar>f_val x\<bar> < ?t + 1" using floor_correct [of "\<bar>f_val x\<bar>"] by simp_all
  then have tb: "\<bar>?t\<bar> \<le> 2 ^ n" using x(2) by linarith
  have n: "n \<le> 127" using assms(2) by simp
  have tr: "f_trunc x = f_of_rat (f_neg x) ?t" using x(1) by (simp add: f_trunc_def)
  have fin: "f_is_finite (f_trunc x)" unfolding tr using bounded_round [OF tb n] by (simp add: bounded_def)
  have "(2 :: rat) ^ n \<le> 2 ^ 20" using assms(2) by (rule power_increasing) simp
  then have "?t \<le> 2 ^ 20" using tb t(1) by linarith
  then have "?t / 8388608 \<le> 2 ^ 20 / 8388608" by (rule divide_right_mono) simp
  also have "(2 :: rat) ^ 20 / 8388608 = 1 / 8" by simp
  finally have "?t / 8388608 \<le> 1 / 8" .
  then have mx: "max (1 / 2 ^ 149) (\<bar>?t\<bar> / 8388608) \<le> 1 / 8" unfolding abs_of_nonneg [OF t(1)] by (intro max.boundedI) simp_all
  have "\<bar>f_val (f_of_rat False ?t) - ?t\<bar> \<le> max (1 / 2 ^ 149) (\<bar>?t\<bar> / 8388608)"
    by (rule f_of_rat_error [OF tb n]) (use t(1) in auto)
  then have e: "\<bar>f_val (f_of_rat False ?t) - ?t\<bar> \<le> 1 / 8" using mx by (rule order_trans)
  have sg: "f_val (f_trunc x) = (if f_neg x then - 1 else 1) * f_val (f_of_rat False ?t)" unfolding tr by (simp add: val_cases f_of_rat_mag)
  have "f_val x = (if f_neg x then - 1 else 1) * \<bar>f_val x\<bar>" by (simp add: val_cases)
  then have "\<bar>f_val x - f_val (f_trunc x)\<bar> = \<bar>\<bar>f_val x\<bar> - f_val (f_of_rat False ?t)\<bar>" using sg by (auto split: if_splits)
  also have "\<dots> \<le> 2" using e t by linarith
  finally have "\<bar>f_val x - f_val (f_trunc x)\<bar> \<le> 2 ^ 1" by simp
  then have "bounded (2 ^ 1) (f_fract x)" unfolding f_fract_def f_sub_def by (intro bounded_add_val) (use x(1) fin in auto)
  then show ?thesis by simp
qed

lemma f_of_nat_bounded: "k \<le> 2 ^ n \<Longrightarrow> n \<le> 127 \<Longrightarrow> bounded (2 ^ n) (f_of_nat k)"
proof -
  assume k: "k \<le> 2 ^ n" and n: "n \<le> 127"
  have "(of_nat k :: rat) \<le> of_nat (2 ^ n)" using k by (simp only: of_nat_le_iff)
  then have "\<bar>of_nat k :: rat\<bar> \<le> 2 ^ n" by simp
  then show ?thesis unfolding f_of_nat_def by (rule bounded_round [OF _ n])
qed

end
