(* ===== verification/Effects.thy ===== *)
theory Effects
  imports F32_Ops Sim_Config Relay
begin

text \<open>
  The haptic layers of the daemon and their mixer: \<open>synth.rs\<close> and \<open>effects.rs\<close> of \<open>logi-tf-sim\<close>. Every
  sum, product, quotient, root and comparison is that of \<open>f32\<close>. The sine, the exponential and the
  power are those of the platform's mathematical library, whose last digits Rust leaves open: they
  are a parameter \<open>libm\<close>. A layer is a value of \<open>Layer\<close>, which stands for \<open>Box<dyn Effect>\<close>; the
  scratch buffers of the mixer are not part of its state. A literal is written as its bit pattern.
\<close>

section \<open>The engine note\<close>

record libm =
  lm_sin :: "f32 \<Rightarrow> f32"
  lm_exp :: "f32 \<Rightarrow> f32"
  lm_powf :: "f32 \<Rightarrow> f32 \<Rightarrow> f32"

abbreviation f_half :: f32 where "f_half \<equiv> 0x3f000000"
abbreviation f_two :: f32 where "f_two \<equiv> 0x40000000"
abbreviation f_sixty :: f32 where "f_sixty \<equiv> 0x42700000"
abbreviation f_thousand :: f32 where "f_thousand \<equiv> 0x447a0000"

definition TAU :: f32 where "TAU = 0x40c90fdb"
definition PI :: f32 where "PI = 0x40490fdb"

definition SAMPLE_RATE_HZ :: f32 where "SAMPLE_RATE_HZ = 0x457a0000"

definition HARMONIC_GAINS :: "f32 list" where "HARMONIC_GAINS = [f_one, f_half, 0x3e800000]"

definition DEFAULT_CYLINDERS :: nat where "DEFAULT_CYLINDERS = 4"

definition firing_frequency :: "f32 \<Rightarrow> nat \<Rightarrow> f32 \<Rightarrow> f32" where
  "firing_frequency rpm cyls pitch =
     (let cyl = f_of_nat (max cyls 1) in
      f_min (f_mul (f_mul (f_div (f_max rpm f_zero) f_sixty) (f_div cyl f_two)) (f_clamp 0x3dcccccd f_two pitch))
        (f_mul SAMPLE_RATE_HZ 0x3ee66666))"

definition FULL_MIX_LEVEL :: f32 where "FULL_MIX_LEVEL = 0x3f279763"
definition NYQUIST_HZ :: f32 where "NYQUIST_HZ = f_div SAMPLE_RATE_HZ f_two"
definition ROLLOFF_START_HZ :: f32 where "ROLLOFF_START_HZ = f_mul NYQUIST_HZ 0x3f4ccccd"

definition harmonic_rolloff :: "f32 \<Rightarrow> f32" where
  "harmonic_rolloff hz =
     (if f_le hz ROLLOFF_START_HZ then f_one
      else if f_le NYQUIST_HZ hz then f_zero
      else f_div (f_sub NYQUIST_HZ hz) (f_sub NYQUIST_HZ ROLLOFF_START_HZ))"

definition IDLE_FLOOR :: f32 where "IDLE_FLOOR = 0x3e19999a"
definition THROTTLE_GAIN :: f32 where "THROTTLE_GAIN = 0x3f59999a"

record EngineNote =
  en_rpm :: f32
  en_throttle :: f32
  en_cylinders :: nat
  en_pitch_scale :: f32

record EngineSynth =
  es_phase :: f32

definition harmonic_gains :: "f32 \<Rightarrow> f32 list" where
  "harmonic_gains freq =
     map (\<lambda>k. f_mul (HARMONIC_GAINS ! k) (harmonic_rolloff (f_mul freq (f_of_nat (k + 1))))) [0..<length HARMONIC_GAINS]"

definition mix_norm :: "f32 list \<Rightarrow> f32" where
  "mix_norm gains = f_div (f_sqrt (fold (\<lambda>g s. f_add s (f_mul g g)) gains f_zero)) FULL_MIX_LEVEL"

definition note_sample :: "libm \<Rightarrow> f32 list \<Rightarrow> f32 \<Rightarrow> f32 \<Rightarrow> f32" where
  "note_sample L gains nrm phase =
     f_div (fold (\<lambda>k acc. f_add acc (f_mul (gains ! k) (lm_sin L (f_mul (f_mul TAU (f_of_nat (k + 1))) phase)))) [0..<length gains] f_zero)
       nrm"

definition advance :: "f32 \<Rightarrow> f32 \<Rightarrow> f32" where
  "advance phase step = (let p = f_add phase step in if f_le f_one p then f_sub p f_one else p)"

fun note_loop :: "libm \<Rightarrow> f32 list \<Rightarrow> f32 \<Rightarrow> f32 \<Rightarrow> f32 \<Rightarrow> f32 \<Rightarrow> nat \<Rightarrow> f32 \<Rightarrow> f32 list \<times> f32" where
  "note_loop L gains nrm amplitude freq step 0 phase = ([], phase)"
| "note_loop L gains nrm amplitude freq step (Suc n) phase =
     (let s = (if f_lt f_zero amplitude \<and> f_lt f_zero freq \<and> f_lt f_zero nrm
               then f_mul (note_sample L gains nrm phase) amplitude else f_zero)
      in case note_loop L gains nrm amplitude freq step n (advance phase step) of (ss, p) \<Rightarrow> (s # ss, p))"

definition synth_generate :: "libm \<Rightarrow> EngineNote \<Rightarrow> f32 \<Rightarrow> nat \<Rightarrow> EngineSynth \<Rightarrow> f32 list \<times> EngineSynth" where
  "synth_generate L note strength count s =
     (let strength = f_clamp f_zero f_one strength;
          throttle = f_clamp f_zero f_one (en_throttle note);
          freq = firing_frequency (en_rpm note) (en_cylinders note) (en_pitch_scale note);
          amplitude = f_mul (f_add IDLE_FLOOR (f_mul THROTTLE_GAIN throttle)) strength;
          step = f_div freq SAMPLE_RATE_HZ;
          gains = harmonic_gains freq;
          (out, p) = note_loop L gains (mix_norm gains) amplitude freq step count (es_phase s)
      in (out, s\<lparr>es_phase := p\<rparr>))"

section \<open>Shared building blocks\<close>

record Noise =
  nz_state :: u32

definition noise_new :: "u32 \<Rightarrow> Noise" where "noise_new seed = \<lparr>nz_state = seed OR 1\<rparr>"

definition xorshift :: "u32 \<Rightarrow> u32" where
  "xorshift s0 =
     (let s1 = s0 XOR push_bit 13 s0;
          s2 = s1 XOR drop_bit 17 s1
      in s2 XOR push_bit 5 s2)"

definition noise_next :: "Noise \<Rightarrow> f32 \<times> Noise" where
  "noise_next n =
     (let s = xorshift (nz_state n) in
      (f_sub (f_div (f_of_nat (unat (drop_bit 8 s))) 0x4b000000) f_one, \<lparr>nz_state = s\<rparr>))"

record OnePole =
  op_y :: f32

definition onepole_default :: OnePole where "onepole_default = \<lparr>op_y = 0\<rparr>"

definition SMOOTH_SNAP :: f32 where "SMOOTH_SNAP = 0x358637bd"

definition onepole_step :: "f32 \<Rightarrow> f32 \<Rightarrow> OnePole \<Rightarrow> OnePole" where
  "onepole_step x a p =
     (let y = f_add (op_y p) (f_mul (f_sub x (op_y p)) a) in
      \<lparr>op_y = (if f_lt (f_abs (f_sub x y)) SMOOTH_SNAP then x else y)\<rparr>)"

definition smoothing_for :: "f32 \<Rightarrow> f32" where
  "smoothing_for ms = f_clamp f_zero f_one (f_div f_one (f_div (f_mul (f_max ms f_one) SAMPLE_RATE_HZ) f_thousand))"

definition smoothing_for_block :: "libm \<Rightarrow> f32 \<Rightarrow> f32 \<Rightarrow> f32" where
  "smoothing_for_block L ms block_ms =
     (let a = smoothing_for ms;
          n = f_max (f_div (f_mul block_ms SAMPLE_RATE_HZ) f_thousand) f_one
      in f_clamp f_zero f_one (f_sub f_one (lm_powf L (f_sub f_one a) n)))"

record Burst =
  bu_remaining :: nat
  bu_phase :: f32
  bu_amp :: f32
  bu_freq_hz :: f32
  bu_decay :: f32

definition burst_default :: Burst where
  "burst_default = \<lparr>bu_remaining = 0, bu_phase = 0, bu_amp = 0, bu_freq_hz = 0, bu_decay = 0\<rparr>"

definition USIZE_MAX :: nat where "USIZE_MAX = 18446744073709551615"

definition burst_fire :: "libm \<Rightarrow> f32 \<Rightarrow> f32 \<Rightarrow> f32 \<Rightarrow> f32 \<Rightarrow> Burst" where
  "burst_fire L peak freq_hz decay_ms len_ms =
     \<lparr>bu_remaining = f_to_nat USIZE_MAX (f_div (f_mul len_ms SAMPLE_RATE_HZ) f_thousand),
      bu_phase = f_zero, bu_amp = peak, bu_freq_hz = freq_hz,
      bu_decay = lm_exp L (f_div f_minus_one (f_div (f_mul (f_max decay_ms f_one) SAMPLE_RATE_HZ) f_thousand))\<rparr>"

fun burst_loop :: "libm \<Rightarrow> f32 \<Rightarrow> f32 \<Rightarrow> f32 list \<Rightarrow> Burst \<Rightarrow> Burst \<times> f32 list" where
  "burst_loop L step gain [] b = (b, [])"
| "burst_loop L step gain (slot # out) b =
     (if bu_remaining b = 0 then (b, slot # out)
      else
        case burst_loop L step gain out
               (b\<lparr>bu_phase := f_fract (f_add (bu_phase b) step), bu_amp := f_mul (bu_amp b) (bu_decay b),
                  bu_remaining := bu_remaining b - 1\<rparr>) of
          (b', out') \<Rightarrow> (b', f_add slot (f_mul (f_mul (lm_sin L (f_mul TAU (bu_phase b))) (bu_amp b)) gain) # out'))"

definition burst_render :: "libm \<Rightarrow> f32 list \<Rightarrow> f32 \<Rightarrow> Burst \<Rightarrow> Burst \<times> f32 list" where
  "burst_render L out gain b =
     (if f_le gain f_zero then (b\<lparr>bu_remaining := bu_remaining b - length out\<rparr>, out)
      else burst_loop L (f_div (bu_freq_hz b) SAMPLE_RATE_HZ) gain out b)"

section \<open>The layers\<close>

record EnginePulse =
  ep_synth :: EngineSynth
  ep_note :: EngineNote

definition engine_new :: "nat \<Rightarrow> f32 \<Rightarrow> EnginePulse" where
  "engine_new cyls pitch =
     \<lparr>ep_synth = \<lparr>es_phase = 0\<rparr>, ep_note = \<lparr>en_rpm = 0, en_throttle = 0, en_cylinders = cyls, en_pitch_scale = pitch\<rparr>\<rparr>"

definition engine_update :: "Telemetry \<Rightarrow> EnginePulse \<Rightarrow> EnginePulse" where
  "engine_update tel e =
     e\<lparr>ep_note := (ep_note e)
       \<lparr>en_rpm := (if f_lt f_zero (t_max_rpm tel) then f_min (t_rpm tel) (f_mul (t_max_rpm tel) 0x3f866666) else t_rpm tel),
        en_throttle := t_throttle tel\<rparr>\<rparr>"

definition engine_render :: "libm \<Rightarrow> f32 list \<Rightarrow> f32 \<Rightarrow> EnginePulse \<Rightarrow> EnginePulse \<times> f32 list" where
  "engine_render L out gain e =
     (case synth_generate L (ep_note e) f_one (length out) (ep_synth e) of
        (scratch, s) \<Rightarrow> (e\<lparr>ep_synth := s\<rparr>, map2 (\<lambda>slot x. f_add slot (f_mul x gain)) out scratch))"

record RevLimiter =
  rl_engaged :: bool
  rl_dwell :: nat
  rl_last_max_rpm :: f32
  rl_phase :: f32
  rl_level :: OnePole

definition U32_MAX :: nat where "U32_MAX = 4294967295"
definition REV_LIMIT_FRACTION :: f32 where "REV_LIMIT_FRACTION = 0x3f7ae148"
definition REV_LIMIT_DWELL_MS :: nat where "REV_LIMIT_DWELL_MS = 150"
definition REV_LIMIT_SETTLED_FRACTION :: f32 where "REV_LIMIT_SETTLED_FRACTION = 0x3a83126f"
definition REV_LIMIT_HZ :: f32 where "REV_LIMIT_HZ = 0x41c80000"

definition rev_limiter_new :: RevLimiter where
  "rev_limiter_new = \<lparr>rl_engaged = False, rl_dwell = 0, rl_last_max_rpm = 0, rl_phase = 0, rl_level = onepole_default\<rparr>"

definition rev_settled :: "Telemetry \<Rightarrow> f32 \<Rightarrow> bool" where
  "rev_settled tel last_max \<longleftrightarrow>
     f_le (f_abs (f_sub (t_max_rpm tel) last_max)) (f_mul (t_max_rpm tel) REV_LIMIT_SETTLED_FRACTION)"

definition rev_at_limit :: "Telemetry \<Rightarrow> bool" where
  "rev_at_limit tel \<longleftrightarrow>
     f_lt f_zero (t_max_rpm tel) \<and> f_le (f_mul (t_max_rpm tel) REV_LIMIT_FRACTION) (t_rpm tel)"

definition rev_limiter_update :: "Telemetry \<Rightarrow> f32 \<Rightarrow> RevLimiter \<Rightarrow> RevLimiter" where
  "rev_limiter_update tel block_ms r =
     (let dwell = (if rev_at_limit tel \<and> rev_settled tel (rl_last_max_rpm r)
                   then min U32_MAX (rl_dwell r + f_to_nat U32_MAX (f_max block_ms f_zero)) else 0)
      in r\<lparr>rl_last_max_rpm := t_max_rpm tel, rl_dwell := dwell, rl_engaged := (REV_LIMIT_DWELL_MS \<le> dwell)\<rparr>)"

text \<open>A level that follows a target and the square wave it scales, one sample after the other.\<close>

fun square_loop :: "f32 \<Rightarrow> f32 \<Rightarrow> f32 \<Rightarrow> (f32 \<Rightarrow> f32) \<Rightarrow> f32 \<Rightarrow> f32 list \<Rightarrow> f32 \<Rightarrow> OnePole \<Rightarrow> f32 \<times> OnePole \<times> f32 list" where
  "square_loop target a step shape gain [] phase lev = (phase, lev, [])"
| "square_loop target a step shape gain (slot # out) phase lev =
     (let lev' = onepole_step target a lev;
          square = (if f_lt phase f_half then f_one else f_minus_one)
      in case square_loop target a step shape gain out (f_fract (f_add phase step)) lev' of
           (p, l, out') \<Rightarrow> (p, l, f_add slot (f_mul (shape (f_mul square (op_y lev'))) gain) # out'))"

definition rev_limiter_render :: "f32 list \<Rightarrow> f32 \<Rightarrow> RevLimiter \<Rightarrow> RevLimiter \<times> f32 list" where
  "rev_limiter_render out gain r =
     (case square_loop (if rl_engaged r then f_one else f_zero) (smoothing_for 0x41a00000) (f_div REV_LIMIT_HZ SAMPLE_RATE_HZ)
             (\<lambda>x. x) gain out (rl_phase r) (rl_level r) of
        (p, l, out') \<Rightarrow> (r\<lparr>rl_phase := p, rl_level := l\<rparr>, out'))"

record PitLimiter =
  pl_engaged :: bool
  pl_phase :: f32
  pl_level :: OnePole

definition PIT_LIMIT_HZ :: f32 where "PIT_LIMIT_HZ = 0x41200000"

definition pit_limiter_new :: PitLimiter where
  "pit_limiter_new = \<lparr>pl_engaged = False, pl_phase = 0, pl_level = onepole_default\<rparr>"

definition pit_limiter_update :: "Telemetry \<Rightarrow> PitLimiter \<Rightarrow> PitLimiter" where
  "pit_limiter_update tel p = p\<lparr>pl_engaged := t_pit_limiter tel\<rparr>"

definition pit_limiter_render :: "f32 list \<Rightarrow> f32 \<Rightarrow> PitLimiter \<Rightarrow> PitLimiter \<times> f32 list" where
  "pit_limiter_render out gain r =
     (case square_loop (if pl_engaged r then f_one else f_zero) (smoothing_for 0x42200000) (f_div PIT_LIMIT_HZ SAMPLE_RATE_HZ)
             (\<lambda>x. f_mul x 0x3f19999a) gain out (pl_phase r) (pl_level r) of
        (p, l, out') \<Rightarrow> (r\<lparr>pl_phase := p, pl_level := l\<rparr>, out'))"

record GearShift =
  gs_last_gear :: "i8 option"
  gs_burst :: Burst

definition gear_shift_new :: GearShift where "gear_shift_new = \<lparr>gs_last_gear = None, gs_burst = burst_default\<rparr>"

definition gear_shift_update :: "libm \<Rightarrow> Telemetry \<Rightarrow> GearShift \<Rightarrow> GearShift" where
  "gear_shift_update L tel g =
     (case gs_last_gear g of
        None \<Rightarrow> g\<lparr>gs_last_gear := Some (t_gear tel)\<rparr>
      | Some prev \<Rightarrow>
          if prev \<noteq> t_gear tel
          then g\<lparr>gs_last_gear := Some (t_gear tel),
                 gs_burst := burst_fire L (if prev \<noteq> 0 \<and> t_gear tel \<noteq> 0 then 0x3f666666 else f_half) 0x425c0000 0x420c0000 0x42f00000\<rparr>
          else g)"

definition gear_shift_render :: "libm \<Rightarrow> f32 list \<Rightarrow> f32 \<Rightarrow> GearShift \<Rightarrow> GearShift \<times> f32 list" where
  "gear_shift_render L out gain g = (case burst_render L out gain (gs_burst g) of (b, out') \<Rightarrow> (g\<lparr>gs_burst := b\<rparr>, out'))"

record AbsClick =
  ab_active :: bool
  ab_brake :: f32
  ab_phase :: f32
  ab_level :: OnePole

definition ABS_HZ :: f32 where "ABS_HZ = 0x41700000"

definition abs_new :: AbsClick where "abs_new = \<lparr>ab_active = False, ab_brake = 0, ab_phase = 0, ab_level = onepole_default\<rparr>"

definition abs_update :: "Telemetry \<Rightarrow> AbsClick \<Rightarrow> AbsClick" where
  "abs_update tel c = c\<lparr>ab_active := t_abs_active tel, ab_brake := f_clamp f_zero f_one (t_brake tel)\<rparr>"

definition abs_pulse :: "libm \<Rightarrow> f32 \<Rightarrow> f32" where
  "abs_pulse L phase = (if f_lt phase 0x3eb33333 then lm_sin L (f_div (f_mul PI phase) 0x3eb33333) else f_zero)"

fun abs_loop :: "libm \<Rightarrow> f32 \<Rightarrow> f32 \<Rightarrow> f32 \<Rightarrow> f32 \<Rightarrow> f32 list \<Rightarrow> f32 \<Rightarrow> OnePole \<Rightarrow> f32 \<times> OnePole \<times> f32 list" where
  "abs_loop L target a step gain [] phase lev = (phase, lev, [])"
| "abs_loop L target a step gain (slot # out) phase lev =
     (let lev' = onepole_step target a lev in
      case abs_loop L target a step gain out (f_fract (f_add phase step)) lev' of
        (p, l, out') \<Rightarrow> (p, l, f_add slot (f_mul (f_mul (abs_pulse L phase) (op_y lev')) gain) # out'))"

definition abs_render :: "libm \<Rightarrow> f32 list \<Rightarrow> f32 \<Rightarrow> AbsClick \<Rightarrow> AbsClick \<times> f32 list" where
  "abs_render L out gain c =
     (let effort = (if f_lt f_zero (ab_brake c) then ab_brake c else f_one);
          target = (if ab_active c then effort else f_zero)
      in case abs_loop L target (smoothing_for 0x41700000) (f_div ABS_HZ SAMPLE_RATE_HZ) gain out (ab_phase c) (ab_level c) of
           (p, l, out') \<Rightarrow> (c\<lparr>ab_phase := p, ab_level := l\<rparr>, out'))"

record TractionLoss =
  tr_level :: f32
  tr_smooth :: OnePole
  tr_noise :: Noise
  tr_filter :: OnePole

definition TC_LAMP_NOMINAL_SLIP :: f32 where "TC_LAMP_NOMINAL_SLIP = f_half"

definition traction_new :: TractionLoss where
  "traction_new = \<lparr>tr_level = 0, tr_smooth = onepole_default, tr_noise = noise_new 0x5EED1234, tr_filter = onepole_default\<rparr>"

definition traction_update :: "Telemetry \<Rightarrow> TractionLoss \<Rightarrow> TractionLoss" where
  "traction_update tel t =
     t\<lparr>tr_level := f_max (f_clamp f_zero f_one (t_wheel_slip tel)) (if t_traction_control tel then TC_LAMP_NOMINAL_SLIP else f_zero)\<rparr>"

text \<open>Filtered noise under a smoothed level.\<close>

fun noise_loop :: "f32 \<Rightarrow> f32 \<Rightarrow> f32 \<Rightarrow> (f32 \<Rightarrow> f32) \<Rightarrow> f32 \<Rightarrow> f32 list \<Rightarrow> OnePole \<Rightarrow> Noise \<Rightarrow> OnePole \<Rightarrow> OnePole \<times> Noise \<times> OnePole \<times> f32 list" where
  "noise_loop target a cutoff shape gain [] smooth nz filt = (smooth, nz, filt, [])"
| "noise_loop target a cutoff shape gain (slot # out) smooth nz filt =
     (let smooth' = onepole_step target a smooth;
          (x, nz') = noise_next nz;
          filt' = onepole_step x cutoff filt
      in case noise_loop target a cutoff shape gain out smooth' nz' filt' of
           (s, n, f, out') \<Rightarrow> (s, n, f, f_add slot (f_mul (shape (f_mul (op_y filt') (op_y smooth'))) gain) # out'))"

definition traction_render :: "f32 list \<Rightarrow> f32 \<Rightarrow> TractionLoss \<Rightarrow> TractionLoss \<times> f32 list" where
  "traction_render out gain t =
     (case noise_loop (tr_level t) (smoothing_for 0x41f00000) 0x3e800000 (\<lambda>x. f_mul x 0x3f4ccccd) gain out
             (tr_smooth t) (tr_noise t) (tr_filter t) of
        (s, n, f, out') \<Rightarrow> (t\<lparr>tr_smooth := s, tr_noise := n, tr_filter := f\<rparr>, out'))"

record RoadBumps =
  rb_amount :: f32
  rb_smooth :: OnePole
  rb_noise :: Noise
  rb_filter :: OnePole

definition ROAD_FULL_SPEED :: f32 where "ROAD_FULL_SPEED = 0x41a00000"

definition road_new :: RoadBumps where
  "road_new = \<lparr>rb_amount = 0, rb_smooth = onepole_default, rb_noise = noise_new 0xB00B5678, rb_filter = onepole_default\<rparr>"

definition road_update :: "Telemetry \<Rightarrow> RoadBumps \<Rightarrow> RoadBumps" where
  "road_update tel r =
     r\<lparr>rb_amount := f_mul (f_clamp f_zero f_one (t_surface_roughness tel))
         (f_clamp f_zero f_one (f_div (f_abs (t_speed tel)) ROAD_FULL_SPEED))\<rparr>"

definition road_render :: "f32 list \<Rightarrow> f32 \<Rightarrow> RoadBumps \<Rightarrow> RoadBumps \<times> f32 list" where
  "road_render out gain t =
     (case noise_loop (rb_amount t) (smoothing_for 0x42480000) 0x3da3d70a (\<lambda>x. x) gain out
             (rb_smooth t) (rb_noise t) (rb_filter t) of
        (s, n, f, out') \<Rightarrow> (t\<lparr>rb_smooth := s, rb_noise := n, rb_filter := f\<rparr>, out'))"

record Airborne =
  ai_aloft :: bool
  ai_depth :: f32
  ai_duck :: OnePole

definition airborne_new :: "f32 \<Rightarrow> Airborne" where
  "airborne_new depth = \<lparr>ai_aloft = False, ai_depth = f_clamp f_zero f_one depth, ai_duck = \<lparr>op_y = f_one\<rparr>\<rparr>"

definition airborne_update :: "libm \<Rightarrow> Telemetry \<Rightarrow> f32 \<Rightarrow> Airborne \<Rightarrow> Airborne" where
  "airborne_update L tel block_ms a =
     (let target = (if t_airborne tel then f_sub f_one (ai_depth a) else f_one) in
      a\<lparr>ai_aloft := t_airborne tel, ai_duck := onepole_step target (smoothing_for_block L f_sixty block_ms) (ai_duck a)\<rparr>)"

record Collision =
  co_burst :: Burst
  co_last_g :: f32

definition COLLISION_MIN_G :: f32 where "COLLISION_MIN_G = 0x3fc00000"
definition COLLISION_FULL_G :: f32 where "COLLISION_FULL_G = 0x41400000"

definition collision_new :: Collision where "collision_new = \<lparr>co_burst = burst_default, co_last_g = 0\<rparr>"

definition collision_update :: "libm \<Rightarrow> Telemetry \<Rightarrow> Collision \<Rightarrow> Collision" where
  "collision_update L tel c =
     (let g = f_max (t_impact_g tel) f_zero;
          c' = (if f_le COLLISION_MIN_G g \<and> f_lt (co_last_g c) g
                then
                  let scaled = f_clamp f_zero f_one (f_div (f_sub g COLLISION_MIN_G) (f_sub COLLISION_FULL_G COLLISION_MIN_G));
                      freq = f_sub f_sixty (f_mul 0x41c80000 scaled);
                      len = f_add 0x42b40000 (f_mul 0x43200000 scaled)
                  in c\<lparr>co_burst := burst_fire L (f_add f_half (f_mul f_half scaled)) freq (f_mul len 0x3ecccccd) len\<rparr>
                else c)
      in c'\<lparr>co_last_g := g\<rparr>)"

definition collision_render :: "libm \<Rightarrow> f32 list \<Rightarrow> f32 \<Rightarrow> Collision \<Rightarrow> Collision \<times> f32 list" where
  "collision_render L out gain c = (case burst_render L out gain (co_burst c) of (b, out') \<Rightarrow> (c\<lparr>co_burst := b\<rparr>, out'))"

record Drs =
  dr_last :: "bool option"
  dr_burst :: Burst

definition drs_new :: Drs where "drs_new = \<lparr>dr_last = None, dr_burst = burst_default\<rparr>"

definition drs_update :: "libm \<Rightarrow> Telemetry \<Rightarrow> Drs \<Rightarrow> Drs" where
  "drs_update L tel d =
     (case dr_last d of
        None \<Rightarrow> d\<lparr>dr_last := Some (t_drs_active tel)\<rparr>
      | Some prev \<Rightarrow>
          if prev \<noteq> t_drs_active tel
          then d\<lparr>dr_last := Some (t_drs_active tel),
                 dr_burst := burst_fire L (if t_drs_active tel then 0x3f333333 else 0x3ecccccd) 0x42b40000 0x41900000 0x42700000\<rparr>
          else d)"

definition drs_render :: "libm \<Rightarrow> f32 list \<Rightarrow> f32 \<Rightarrow> Drs \<Rightarrow> Drs \<times> f32 list" where
  "drs_render L out gain d = (case burst_render L out gain (dr_burst d) of (b, out') \<Rightarrow> (d\<lparr>dr_burst := b\<rparr>, out'))"

section \<open>The mixer\<close>

datatype Layer =
    LEngine EnginePulse | LRevLimiter RevLimiter | LPitLimiter PitLimiter | LGearShift GearShift | LAbs AbsClick
  | LTraction TractionLoss | LRoad RoadBumps | LAirborne Airborne | LCollision Collision | LDrs Drs

definition layer_id :: "Layer \<Rightarrow> EffectId" where
  "layer_id l =
     (case l of LEngine _ \<Rightarrow> Engine | LRevLimiter _ \<Rightarrow> EffectId.RevLimiter | LPitLimiter _ \<Rightarrow> EffectId.PitLimiter
      | LGearShift _ \<Rightarrow> EffectId.GearShift | LAbs _ \<Rightarrow> Abs | LTraction _ \<Rightarrow> EffectId.TractionLoss | LRoad _ \<Rightarrow> EffectId.RoadBumps
      | LAirborne _ \<Rightarrow> EffectId.Airborne | LCollision _ \<Rightarrow> EffectId.Collision | LDrs _ \<Rightarrow> EffectId.Drs)"

definition layer_update :: "libm \<Rightarrow> Telemetry \<Rightarrow> f32 \<Rightarrow> Layer \<Rightarrow> Layer" where
  "layer_update L tel block_ms l =
     (case l of
        LEngine e \<Rightarrow> LEngine (engine_update tel e)
      | LRevLimiter r \<Rightarrow> LRevLimiter (rev_limiter_update tel block_ms r)
      | LPitLimiter p \<Rightarrow> LPitLimiter (pit_limiter_update tel p)
      | LGearShift g \<Rightarrow> LGearShift (gear_shift_update L tel g)
      | LAbs c \<Rightarrow> LAbs (abs_update tel c)
      | LTraction t \<Rightarrow> LTraction (traction_update tel t)
      | LRoad r \<Rightarrow> LRoad (road_update tel r)
      | LAirborne a \<Rightarrow> LAirborne (airborne_update L tel block_ms a)
      | LCollision c \<Rightarrow> LCollision (collision_update L tel c)
      | LDrs d \<Rightarrow> LDrs (drs_update L tel d))"

definition layer_render :: "libm \<Rightarrow> f32 list \<Rightarrow> f32 \<Rightarrow> Layer \<Rightarrow> Layer \<times> f32 list" where
  "layer_render L out gain l =
     (case l of
        LEngine e \<Rightarrow> map_prod LEngine id (engine_render L out gain e)
      | LRevLimiter r \<Rightarrow> map_prod LRevLimiter id (rev_limiter_render out gain r)
      | LPitLimiter p \<Rightarrow> map_prod LPitLimiter id (pit_limiter_render out gain p)
      | LGearShift g \<Rightarrow> map_prod LGearShift id (gear_shift_render L out gain g)
      | LAbs c \<Rightarrow> map_prod LAbs id (abs_render L out gain c)
      | LTraction t \<Rightarrow> map_prod LTraction id (traction_render out gain t)
      | LRoad r \<Rightarrow> map_prod LRoad id (road_render out gain r)
      | LAirborne a \<Rightarrow> (l, out)
      | LCollision c \<Rightarrow> map_prod LCollision id (collision_render L out gain c)
      | LDrs d \<Rightarrow> map_prod LDrs id (drs_render L out gain d))"

definition layer_continuous :: "Layer \<Rightarrow> bool" where
  "layer_continuous l =
     (case l of LGearShift _ \<Rightarrow> False | LAbs _ \<Rightarrow> False | LCollision _ \<Rightarrow> False | LDrs _ \<Rightarrow> False | _ \<Rightarrow> True)"

definition layer_duck :: "Layer \<Rightarrow> f32" where
  "layer_duck l = (case l of LAirborne a \<Rightarrow> op_y (ai_duck a) | _ \<Rightarrow> f_one)"

record Mixer =
  mx_effects :: "Layer list"
  mx_gains :: "nat list"

definition gains_scale :: "nat list \<Rightarrow> EffectId \<Rightarrow> f32" where
  "gains_scale gains e = f_div (f_of_nat (EffectGains_get gains e)) F_HUNDRED"

definition mixer_new :: "nat \<Rightarrow> f32 \<Rightarrow> nat list \<Rightarrow> Mixer" where
  "mixer_new cyls pitch gains =
     \<lparr>mx_effects =
        [LEngine (engine_new cyls pitch), LRevLimiter rev_limiter_new, LPitLimiter pit_limiter_new, LGearShift gear_shift_new,
         LAbs abs_new, LTraction traction_new, LRoad road_new, LAirborne (airborne_new (gains_scale gains EffectId.Airborne)),
         LCollision collision_new, LDrs drs_new],
      mx_gains = gains\<rparr>"

definition mixer_engine_only :: "nat \<Rightarrow> f32 \<Rightarrow> nat list \<Rightarrow> Mixer" where
  "mixer_engine_only cyls pitch gains = \<lparr>mx_effects = [LEngine (engine_new cyls pitch)], mx_gains = gains\<rparr>"

fun render_layers :: "libm \<Rightarrow> nat list \<Rightarrow> Layer list \<Rightarrow> f32 list \<Rightarrow> f32 list \<Rightarrow> Layer list \<times> f32 list \<times> f32 list" where
  "render_layers L gains [] cont tran = ([], cont, tran)"
| "render_layers L gains (l # ls) cont tran =
     (let g = gains_scale gains (layer_id l) in
      if layer_continuous l
      then (case layer_render L cont g l of (l', cont') \<Rightarrow>
            case render_layers L gains ls cont' tran of (ls', c, t) \<Rightarrow> (l' # ls', c, t))
      else (case layer_render L tran g l of (l', tran') \<Rightarrow>
            case render_layers L gains ls cont tran' of (ls', c, t) \<Rightarrow> (l' # ls', c, t)))"

definition mixer_render :: "libm \<Rightarrow> Mixer \<Rightarrow> Telemetry \<Rightarrow> f32 \<Rightarrow> nat \<Rightarrow> f32 list \<times> Mixer" where
  "mixer_render L mx tel strength count =
     (if count = 0 then ([], mx)
      else
        let strength = f_clamp f_zero f_one strength;
            block_ms = f_div (f_mul (f_of_nat count) f_thousand) SAMPLE_RATE_HZ;
            ls = map (layer_update L tel block_ms) (mx_effects mx);
            duck = fold (\<lambda>l d. f_mul d (layer_duck l)) ls f_one
        in case render_layers L (mx_gains mx) ls (replicate count f_zero) (replicate count f_zero) of
             (ls', cont, tran) \<Rightarrow>
               (map2 (\<lambda>c t. f_clamp f_minus_one f_one (f_mul (f_add (f_mul c duck) t) strength)) cont tran,
                mx\<lparr>mx_effects := ls'\<rparr>))"

end
