(* ===== verification/Effects_Bounds.thy ===== *)
theory Effects_Bounds
  imports Effects
begin

text \<open>
  Bounds of the haptic layers. Every quantity of a layer stays finite under the contract of the
  mathematical library \<open>libm_ok\<close>, whatever the telemetry, except that the surface layer needs a
  speed and a roughness that are numbers; so the mixer emits samples within full scale.
\<close>

definition libm_ok :: "libm \<Rightarrow> bool" where
  "libm_ok L \<longleftrightarrow>
     (\<forall>x. f_is_finite x \<longrightarrow> bounded 1 (lm_sin L x)) \<and>
     (\<forall>x. f_is_finite x \<longrightarrow> f_val x \<le> 0 \<longrightarrow> bounded 1 (lm_exp L x)) \<and>
     (\<forall>b n. f_is_finite b \<longrightarrow> 0 \<le> f_val b \<longrightarrow> f_val b \<le> 1 \<longrightarrow> f_le f_one n \<longrightarrow> \<not> f_is_nan (lm_powf L b n))"

lemma div_le: "f_is_finite x \<Longrightarrow> f_is_finite y \<Longrightarrow> \<not> f_is_zero y \<Longrightarrow> f_is_finite c \<Longrightarrow> f_val x / f_val y \<le> f_val c \<Longrightarrow> f_val (f_div x y) \<le> f_val c"
  by (subst finite_div_eq, assumption+, rule round_le [OF mul_sign(2)])

lemma lit_vals [simp]:
  "f_val f_half = 1 / 2" "f_val f_two = 2" "f_val f_sixty = 60" "f_val f_thousand = 1000" "f_val SAMPLE_RATE_HZ = 4000"
  "f_is_finite f_half" "f_is_finite f_two" "f_is_finite f_sixty" "f_is_finite f_thousand" "f_is_finite SAMPLE_RATE_HZ"
  by (simp_all add: f_val_def f_neg_def f_mag_def units_def Let_def f_is_finite_def F_INF_def SAMPLE_RATE_HZ_def)

lemma zero_val: "f_is_zero x \<Longrightarrow> f_val x = 0" by (simp add: f_is_zero_def f_val_def)

section \<open>Smoothers and noise\<close>

lemma onepole_bounded:
  assumes x: "bounded 1 x" and y: "bounded 2 (op_y p)" and a: "f_is_finite a" "0 \<le> f_val a" "f_val a \<le> 1"
  shows "bounded 2 (op_y (onepole_step x a p))"
proof -
  let ?y = "op_y p"
  let ?d = "f_sub x ?y"
  let ?p = "f_mul ?d a"
  have xy: "f_is_finite x" "\<bar>f_val x\<bar> \<le> 1" "f_is_finite ?y" "\<bar>f_val ?y\<bar> \<le> 2" using x y by (simp_all add: bounded_def)
  have b2: "bounded (2 ^ 1) x" "bounded (2 ^ 1) ?y" using x y by (auto simp: bounded_def)
  then have d: "bounded (2 ^ 2) ?d" using bounded_sub [of 1 x ?y] by (simp add: numeral_2_eq_2)
  then have fd: "f_is_finite ?d" by (rule boundedD)
  have q: "\<bar>f_val x - f_val ?y\<bar> \<le> 3" using xy by linarith
  have eq: "?d = f_of_rat (if f_val x - f_val ?y = 0 then f_neg x \<and> \<not> f_neg ?y else f_val x - f_val ?y < 0) (f_val x - f_val ?y)"
    unfolding f_sub_def using xy(1,3) by (subst finite_add_eq) auto
  have "\<bar>f_val ?d - (f_val x - f_val ?y)\<bar> \<le> max (1 / 2 ^ 149) (\<bar>f_val x - f_val ?y\<bar> / 8388608)"
    unfolding eq by (rule f_of_rat_error [where n = 2]) (use q in auto)
  also have "\<dots> \<le> 1" using q by (intro max.boundedI) auto
  finally have e: "f_val ?d \<le> f_val x - f_val ?y + 1" "f_val x - f_val ?y - 1 \<le> f_val ?d" by linarith+
  have "bounded (2 ^ 2) ?p" using bounded_mul1 [OF d, of a] a by (simp add: bounded_def)
  then have fp: "f_is_finite ?p" by (rule boundedD)
  have "\<bar>f_val ?y + f_val ?p\<bar> \<le> 2"
  proof (cases "0 \<le> f_val ?d")
    case True
    have "f_val 0 \<le> f_val ?p" by (rule mul_ge) (use fd a True in auto)
    moreover have "f_val ?p \<le> f_val ?d" by (rule mul_le) (use fd a True mult_left_le in auto)
    ultimately show ?thesis using xy e unfolding val_consts by linarith
  next
    case False
    have "f_val ?p \<le> f_val 0" by (rule mul_le) (use fd a False in \<open>auto simp: mult_nonpos_nonneg\<close>)
    moreover have "f_val ?d \<le> f_val ?p" by (rule mul_ge) (use fd a False mult_left_le [of "f_val a" "- f_val ?d"] in auto)
    ultimately show ?thesis using xy e unfolding val_consts by linarith
  qed
  then have "bounded (2 ^ 1) (f_add ?y ?p)" by (intro bounded_add_val) (use xy fp in auto)
  then show ?thesis using x by (auto simp: onepole_step_def Let_def intro: bounded_mono)
qed

lemma noise_bounded: "noise_next n = (x, n') \<Longrightarrow> bounded 1 x"
proof -
  assume nx: "noise_next n = (x, n')"
  define w where "w = drop_bit 8 (xorshift (nz_state n))"
  let ?v = "f_of_nat (unat w)"
  let ?d = "f_div ?v 0x4b000000"
  have c: "f_val 0x4b000000 = 8388608" "f_is_finite 0x4b000000" "\<not> f_is_zero 0x4b000000"
    by (simp_all add: f_val_def f_neg_def f_mag_def units_def Let_def f_is_finite_def f_is_zero_def F_INF_def)
  have w: "unat w \<le> 16777216" unfolding w_def unat_drop_bit_eq using unat_u32_less [of "xorshift (nz_state n)"] by (simp add: drop_bit_eq_div)
  have "bounded (2 ^ 24) ?v" by (rule f_of_nat_bounded) (use w in auto)
  then have v: "f_is_finite ?v" "f_val ?v \<le> 16777216" "0 \<le> f_val ?v"
    by (auto simp: bounded_def f_val_nonneg)
  have fd: "f_is_finite ?d"
    using bounded_div [of 24 ?v "0x4b000000" 0] \<open>bounded (2 ^ 24) ?v\<close> c by (simp add: bounded_def)
  have "f_val 0 \<le> f_val ?d" by (rule div_ge) (use v c in auto)
  moreover have "f_val ?d \<le> f_val f_two" by (rule div_le) (use v c in auto)
  ultimately have d: "0 \<le> f_val ?d" "f_val ?d \<le> 2" by simp_all
  have "bounded (2 ^ 0) (f_sub ?d f_one)" unfolding f_sub_def by (rule bounded_add_val) (use fd d in auto)
  then show ?thesis using nx by (simp add: noise_next_def Let_def w_def)
qed

text \<open>The generator never reaches its fixed point zero.\<close>

lemma xorshift_left_zero: "(s :: u32) XOR push_bit n s = 0 \<Longrightarrow> 0 < n \<Longrightarrow> s = 0"
proof (rule bit_word_eqI)
  fix i assume e: "s XOR push_bit n s = 0" "0 < n" and i: "i < LENGTH(32)"
  have b: "bit s j = bit (push_bit n s) j" for j
    using arg_cong [OF e(1), of "\<lambda>w. bit w j"] by (simp add: bit_xor_iff)
  show "bit s i = bit 0 i"
    by (induction i rule: less_induct) (use e(2) in \<open>subst b, auto simp: bit_push_bit_iff\<close>)
qed


lemma xorshift_right_zero: "(s :: u32) XOR drop_bit n s = 0 \<Longrightarrow> 0 < n \<Longrightarrow> s = 0"
proof (rule bit_word_eqI)
  fix i assume e: "s XOR drop_bit n s = 0" "0 < n" and i: "i < LENGTH(32)"
  have b: "bit s j = bit s (n + j)" for j
    using arg_cong [OF e(1), of "\<lambda>w. bit w j"] by (simp add: bit_xor_iff bit_drop_bit_eq)
  have "\<not> bit s j" for j
  proof (induction "32 - j" arbitrary: j rule: less_induct)
    case less
    show ?case
    proof (cases "32 \<le> j")
      case True
      then show ?thesis using bit_imp_le_length [of s j] by auto
    next
      case False
      then have "32 - (n + j) < 32 - j" using e(2) by simp
      from less [OF this] show ?thesis using b [of j] by simp
    qed
  qed
  then show "bit s i = bit 0 i" by simp
qed

lemma xorshift_nonzero: "s \<noteq> 0 \<Longrightarrow> xorshift s \<noteq> 0"
proof -
  assume "s \<noteq> 0"
  then have 1: "s XOR push_bit 13 s \<noteq> 0" (is "?a \<noteq> 0") using xorshift_left_zero [of s 13] by auto
  then have 2: "?a XOR drop_bit 17 ?a \<noteq> 0" (is "?b \<noteq> 0") using xorshift_right_zero [of ?a 17] by auto
  then have "?b XOR push_bit 5 ?b \<noteq> 0" using xorshift_left_zero [of ?b 5] by auto
  then show ?thesis unfolding xorshift_def Let_def .
qed

section \<open>Coefficients and bursts\<close>

lemma nan_mul: "f_is_finite x \<Longrightarrow> f_is_finite y \<Longrightarrow> \<not> f_is_nan (f_mul x y)"
  by (simp add: finite_mul_eq)

lemma make_inf_not_nan: "\<not> f_is_nan (f_make s F_INF)"
  using f_make_sel(1) [of F_INF s] by (simp add: f_is_nan_def F_INF_def)

lemma nan_div: "\<not> f_is_nan x \<Longrightarrow> f_is_finite y \<Longrightarrow> \<not> f_is_zero y \<Longrightarrow> \<not> f_is_nan (f_div x y)"
  using make_inf_not_nan by (simp add: f_div_def)


lemma inverse_not_nan: "\<not> f_is_nan y \<Longrightarrow> \<not> f_is_nan (f_div f_one y)"
proof -
  assume y: "\<not> f_is_nan y"
  have z: "\<not> f_is_zero f_one" by (simp add: f_is_zero_def f_mag_def)
  have n: "\<not> f_is_nan (f_make s 0)" for s using f_make_sel(1) [of 0 s] by (simp add: f_is_nan_def)
  show ?thesis using y z n make_inf_not_nan by (simp add: f_div_def)
qed

lemma smoothing_unit:
  assumes "f_is_finite ms"
  shows "f_is_finite (smoothing_for ms)" "0 \<le> f_val (smoothing_for ms)" "f_val (smoothing_for ms) \<le> 1"
proof -
  have ms: "f_is_finite (f_max ms f_one)" using assms by (auto simp: f_max_def)
  let ?n = "f_mul (f_max ms f_one) SAMPLE_RATE_HZ"
  have "\<not> f_is_nan ?n" using ms by (intro nan_mul) auto
  then have "\<not> f_is_nan (f_div ?n f_thousand)" by (intro nan_div) (simp_all add: f_is_zero_def f_mag_def)
  then have "\<not> f_is_nan (f_div f_one (f_div ?n f_thousand))"
    by (rule inverse_not_nan)
  from clamp_unit_range [OF this] show "f_is_finite (smoothing_for ms)" "0 \<le> f_val (smoothing_for ms)" "f_val (smoothing_for ms) \<le> 1"
    unfolding smoothing_for_def by simp_all
qed

lemma max_one_ge: "f_le f_one (f_max x f_one)" 
  by (auto simp: f_max_def f_le_def f_lt_def f_is_nan_def F_INF_def f_mag_def)

lemma smoothing_block_unit:
  assumes "libm_ok L" "f_is_finite ms"
  shows "f_is_finite (smoothing_for_block L ms b)" "0 \<le> f_val (smoothing_for_block L ms b)" "f_val (smoothing_for_block L ms b) \<le> 1"
proof -
  note a = smoothing_unit [OF assms(2)]
  let ?b = "f_sub f_one (smoothing_for ms)"
  have "bounded (2 ^ 0) ?b" unfolding f_sub_def by (rule bounded_add_val) (use a in auto)
  then have fb: "f_is_finite ?b" by (rule boundedD)
  have "f_val 0 \<le> f_val ?b" unfolding f_sub_def by (rule add_ge) (use a in auto)
  moreover have "f_val ?b \<le> f_val f_one" unfolding f_sub_def by (rule add_le) (use a in auto)
  ultimately have "\<not> f_is_nan (lm_powf L ?b n)" if "f_le f_one n" for n
    using assms(1) fb that by (simp add: libm_ok_def)
  then have p: "\<not> f_is_nan (lm_powf L ?b (f_max (f_div (f_mul b SAMPLE_RATE_HZ) f_thousand) f_one))" using max_one_ge by blast
  have nan_sub: "\<not> f_is_nan x \<Longrightarrow> \<not> f_is_nan (f_sub f_one x)" for x by (auto simp: f_sub_def f_add_def Let_def)
  from clamp_unit_range [OF nan_sub [OF p]] show "f_is_finite (smoothing_for_block L ms b)" "0 \<le> f_val (smoothing_for_block L ms b)"
      "f_val (smoothing_for_block L ms b) \<le> 1"
    unfolding smoothing_for_block_def Let_def by simp_all
qed

definition blk :: "nat \<Rightarrow> f32 list \<Rightarrow> bool" where "blk n out \<longleftrightarrow> list_all (bounded (2 ^ n)) out"

lemma blk_simps [simp]: "blk n []" "blk n (x # xs) \<longleftrightarrow> bounded (2 ^ n) x \<and> blk n xs" by (simp_all add: blk_def)

lemma bounded_Suc: "bounded (2 ^ n) x \<Longrightarrow> bounded (2 ^ Suc n) x" by (erule bounded_mono) simp

lemma blk_Suc: "blk n out \<Longrightarrow> blk (Suc n) out" by (induction out) (auto intro: bounded_Suc simp del: power_Suc)

lemma bounded_le: "bounded (2 ^ m) x \<Longrightarrow> m \<le> n \<Longrightarrow> bounded (2 ^ n) x"
  by (erule bounded_mono) (rule power_increasing, auto)

lemma slot_add:
  assumes "bounded (2 ^ n) slot" "bounded (2 ^ m) x" "m \<le> n" "n < 127"
  shows "bounded (2 ^ Suc n) (f_add slot x)"
  using bounded_add [OF assms(1) bounded_le [OF assms(2,3)] assms(4)] .

definition burst_ok :: "Burst \<Rightarrow> bool" where
  "burst_ok b \<longleftrightarrow> bounded 2 (bu_phase b) \<and> bounded 2 (bu_amp b) \<and> bounded (2 ^ 7) (bu_freq_hz b) \<and> bounded 1 (bu_decay b)"

lemma burst_fire_ok:
  assumes "libm_ok L" "bounded 2 peak" "bounded (2 ^ 7) freq" "bounded (2 ^ 10) decay_ms"
  shows "burst_ok (burst_fire L peak freq decay_ms len)"
proof -
  let ?m = "f_max decay_ms f_one"
  let ?n = "f_mul ?m SAMPLE_RATE_HZ"
  let ?d = "f_div ?n f_thousand"
  have fin: "f_is_finite ?m" using assms(4) by (auto simp: f_max_def bounded_def)
  have one: "1 \<le> f_val ?m" using assms(4) f_key_val [of decay_ms f_one] by (auto simp: f_max_def bounded_def not_less)
  have b: "bounded (2 ^ 10) ?m" using assms(4) by (auto simp: f_max_def bounded_def)
  have sr: "bounded (2 ^ 12) SAMPLE_RATE_HZ" by (simp add: bounded_def)
  have n: "bounded (2 ^ 22) ?n" using bounded_mul [OF b sr] by simp
  have "f_val SAMPLE_RATE_HZ \<le> f_val ?n" by (rule mul_ge) (use fin one in auto)
  then have nv: "4000 \<le> f_val ?n" by simp
  have z: "\<not> f_is_zero f_thousand" by (simp add: f_is_zero_def f_mag_def)
  have d: "bounded (2 ^ 22) ?d" using bounded_div [of 22 ?n f_thousand 0] n by simp
  have "f_val f_one \<le> f_val ?d" by (rule div_ge) (use n nv z in \<open>auto simp: bounded_def\<close>)
  then have dv: "1 \<le> f_val ?d" by simp
  have fd: "f_is_finite ?d" using d by (rule boundedD)
  have zd: "\<not> f_is_zero ?d" using dv zero_val [of ?d] by auto
  have "bounded (2 ^ 0) (f_div f_minus_one ?d)" using bounded_div [of 0 f_minus_one ?d 0] fd dv by (simp add: bounded_def)
  moreover have "f_val (f_div f_minus_one ?d) \<le> f_val 0" by (rule div_le) (use fd zd dv in auto)
  ultimately have "bounded 1 (lm_exp L (f_div f_minus_one ?d))" using assms(1) by (simp add: libm_ok_def bounded_def)
  then show ?thesis using assms(2,3) by (simp add: burst_ok_def burst_fire_def bounded_def)
qed

lemma sin_bounded: "libm_ok L \<Longrightarrow> f_is_finite x \<Longrightarrow> bounded (2 ^ 0) (lm_sin L x)" by (simp add: libm_ok_def)

lemma TAU_bounded: "bounded (2 ^ 3) TAU" "bounded (2 ^ 2) PI"
  by (simp_all add: bounded_def f_val_def f_neg_def f_mag_def units_def Let_def f_is_finite_def F_INF_def TAU_def PI_def)

lemma phase_step:
  assumes "bounded 2 phase" "bounded (2 ^ 8) step"
  shows "bounded 2 (f_fract (f_add phase step))"
proof -
  have "bounded (2 ^ 8) phase" using assms(1) by (rule bounded_mono) simp
  from bounded_add [OF this assms(2)] have "bounded (2 ^ 9) (f_add phase step)" by (simp add: eval_nat_numeral)
  then show ?thesis by (rule bounded_fract) simp
qed

lemma burst_loop_ok:
  assumes "libm_ok L" "bounded (2 ^ 8) step" "bounded (2 ^ 8) gain" "16 \<le> n" "n < 127"
  shows "burst_ok b \<Longrightarrow> blk n out \<Longrightarrow> burst_loop L step gain out b = (b', out') \<Longrightarrow>
    burst_ok b' \<and> length out' = length out \<and> blk (Suc n) out'"
proof (induction out arbitrary: b b' out')
  case Nil
  then show ?case by auto
next
  case (Cons slot out)
  show ?case
  proof (cases "bu_remaining b = 0")
    case True
    then show ?thesis using Cons.prems blk_Suc [of n "slot # out"] by auto
  next
    case False
    let ?b = "b\<lparr>bu_phase := f_fract (f_add (bu_phase b) step), bu_amp := f_mul (bu_amp b) (bu_decay b), bu_remaining := bu_remaining b - 1\<rparr>"
    obtain c ys where r: "burst_loop L step gain out ?b = (c, ys)" by (cases "burst_loop L step gain out ?b")
    have ok: "bounded 2 (bu_phase b)" "bounded (2 ^ 1) (bu_amp b)" "bounded 1 (bu_decay b)" using Cons.prems(1) by (simp_all add: burst_ok_def)
    have "bounded (2 ^ 1) (f_mul (bu_amp b) (bu_decay b))" using bounded_mul1 [OF ok(2,3)] by simp
    then have "burst_ok ?b" using Cons.prems(1) phase_step [OF ok(1) assms(2)] by (simp add: burst_ok_def)
    note ih = Cons.IH [OF this _ r]
    have "bounded (2 ^ 4) (f_mul TAU (bu_phase b))" using bounded_mul [OF TAU_bounded(1), of 1 "bu_phase b"] ok(1) by simp
    then have "bounded (2 ^ 0) (lm_sin L (f_mul TAU (bu_phase b)))" by (intro sin_bounded assms boundedD)
    from bounded_mul [OF this ok(2)] have "bounded (2 ^ 1) (f_mul (lm_sin L (f_mul TAU (bu_phase b))) (bu_amp b))" by simp
    from bounded_mul [OF this assms(3)] have "bounded (2 ^ 9) (f_mul (f_mul (lm_sin L (f_mul TAU (bu_phase b))) (bu_amp b)) gain)" by simp
    from slot_add [OF _ this] have "bounded (2 ^ Suc n) (f_add slot (f_mul (f_mul (lm_sin L (f_mul TAU (bu_phase b))) (bu_amp b)) gain))"
      using Cons.prems(2) assms(4,5) by simp
    then show ?thesis using Cons.prems(2,3) False r ih by (auto simp del: power_Suc)
  qed
qed

lemma burst_render_ok:
  assumes "libm_ok L" "bounded (2 ^ 8) gain" "16 \<le> n" "n < 127" "burst_ok b" "blk n out" "burst_render L out gain b = (b', out')"
  shows "burst_ok b' \<and> length out' = length out \<and> blk (Suc n) out'"
proof (cases "f_le gain f_zero")
  case True
  then show ?thesis using assms blk_Suc by (auto simp: burst_render_def burst_ok_def)
next
  case False
  have "bounded (2 ^ 7) (f_div (bu_freq_hz b) SAMPLE_RATE_HZ)" using bounded_div [of 7 "bu_freq_hz b" SAMPLE_RATE_HZ 0] assms(5) by (simp add: burst_ok_def)
  then have "bounded (2 ^ 8) (f_div (bu_freq_hz b) SAMPLE_RATE_HZ)" by (rule bounded_mono) simp
  from burst_loop_ok [OF assms(1) this assms(2-6)] show ?thesis using assms(7) False by (simp add: burst_render_def)
qed


section \<open>Level-driven layers\<close>

definition unit_coeff :: "f32 \<Rightarrow> bool" where "unit_coeff a \<longleftrightarrow> f_is_finite a \<and> 0 \<le> f_val a \<and> f_val a \<le> 1"

definition shape_ok :: "(f32 \<Rightarrow> f32) \<Rightarrow> bool" where "shape_ok shape \<longleftrightarrow> (\<forall>x. bounded (2 ^ 2) x \<longrightarrow> bounded (2 ^ 2) (shape x))"

lemma shape_oks: "shape_ok (\<lambda>x. x)" "bounded 1 c \<Longrightarrow> shape_ok (\<lambda>x. f_mul x c)"
  using bounded_mul1 [of 2] by (simp_all add: shape_ok_def)

lemma onepole_unit: "bounded 1 x \<Longrightarrow> bounded 2 (op_y p) \<Longrightarrow> unit_coeff a \<Longrightarrow> bounded 2 (op_y (onepole_step x a p))"
  using onepole_bounded by (simp add: unit_coeff_def)

lemma square_loop_ok:
  assumes "bounded 1 target" "unit_coeff a" "bounded (2 ^ 8) step" "shape_ok shape" "bounded (2 ^ 8) gain" "16 \<le> n" "n < 127"
  shows "bounded 2 phase \<Longrightarrow> bounded 2 (op_y lev) \<Longrightarrow> blk n out \<Longrightarrow> square_loop target a step shape gain out phase lev = (p, l, out') \<Longrightarrow>
    bounded 2 p \<and> bounded 2 (op_y l) \<and> length out' = length out \<and> blk (Suc n) out'"
proof (induction out arbitrary: phase lev p l out')
  case (Cons slot out)
  let ?lev = "onepole_step target a lev"
  define sq where "sq = (if f_lt phase f_half then f_one else f_minus_one)"
  obtain q m ys where r: "square_loop target a step shape gain out (f_fract (f_add phase step)) ?lev = (q, m, ys)"
    by (cases "square_loop target a step shape gain out (f_fract (f_add phase step)) ?lev")
  have lev: "bounded (2 ^ 1) (op_y ?lev)" using onepole_unit [OF assms(1) Cons.prems(2) assms(2)] by simp
  have ih: "bounded 2 q \<and> bounded 2 (op_y m) \<and> length ys = length out \<and> blk (Suc n) ys"
    by (rule Cons.IH [OF phase_step [OF Cons.prems(1) assms(3)] _ _ r]) (use lev Cons.prems(3) in auto)
  have "bounded (2 ^ 0) sq" by (simp add: bounded_def sq_def)
  from bounded_mul [OF this lev] have "bounded (2 ^ 1) (f_mul sq (op_y ?lev))" by simp
  then have "bounded (2 ^ 2) (f_mul sq (op_y ?lev))" by (rule bounded_le) simp
  then have "bounded (2 ^ 2) (shape (f_mul sq (op_y ?lev)))" using assms(4) by (simp add: shape_ok_def)
  from bounded_mul [OF this assms(5)] have "bounded (2 ^ 10) (f_mul (shape (f_mul sq (op_y ?lev))) gain)" by simp
  from slot_add [OF _ this] have "bounded (2 ^ Suc n) (f_add slot (f_mul (shape (f_mul sq (op_y ?lev))) gain))"
    using Cons.prems(3) assms(6,7) by simp
  then show ?case using Cons.prems(4) r ih by (auto simp: Let_def sq_def [symmetric] simp del: power_Suc)
qed auto

lemma abs_pulse_bounded: "libm_ok L \<Longrightarrow> bounded 2 phase \<Longrightarrow> bounded (2 ^ 0) (abs_pulse L phase)"
proof -
  assume L: "libm_ok L" and ph: "bounded 2 phase"
  have c: "f_is_finite 0x3eb33333" "1 / 2 ^ 2 \<le> \<bar>f_val 0x3eb33333\<bar>"
    by (simp_all add: f_val_def f_neg_def f_mag_def units_def Let_def f_is_finite_def F_INF_def)
  have "bounded (2 ^ 3) (f_mul PI phase)" using bounded_mul [OF TAU_bounded(2), of 1 phase] ph by simp
  from bounded_div [OF this c] have "f_is_finite (f_div (f_mul PI phase) 0x3eb33333)" by (simp add: bounded_def)
  from sin_bounded [OF L this] show ?thesis by (simp add: abs_pulse_def bounded_def)
qed

lemma abs_loop_ok:
  assumes "libm_ok L" "bounded 1 target" "unit_coeff a" "bounded (2 ^ 8) step" "bounded (2 ^ 8) gain" "16 \<le> n" "n < 127"
  shows "bounded 2 phase \<Longrightarrow> bounded 2 (op_y lev) \<Longrightarrow> blk n out \<Longrightarrow> abs_loop L target a step gain out phase lev = (p, l, out') \<Longrightarrow>
    bounded 2 p \<and> bounded 2 (op_y l) \<and> length out' = length out \<and> blk (Suc n) out'"
proof (induction out arbitrary: phase lev p l out')
  case (Cons slot out)
  let ?lev = "onepole_step target a lev"
  obtain q m ys where r: "abs_loop L target a step gain out (f_fract (f_add phase step)) ?lev = (q, m, ys)"
    by (cases "abs_loop L target a step gain out (f_fract (f_add phase step)) ?lev")
  have lev: "bounded (2 ^ 1) (op_y ?lev)" using onepole_unit [OF assms(2) Cons.prems(2) assms(3)] by simp
  have ih: "bounded 2 q \<and> bounded 2 (op_y m) \<and> length ys = length out \<and> blk (Suc n) ys"
    by (rule Cons.IH [OF phase_step [OF Cons.prems(1) assms(4)] _ _ r]) (use lev Cons.prems(3) in auto)
  from bounded_mul [OF abs_pulse_bounded [OF assms(1) Cons.prems(1)] lev]
  have "bounded (2 ^ 1) (f_mul (abs_pulse L phase) (op_y ?lev))" by simp
  from bounded_mul [OF this assms(5)] have "bounded (2 ^ 9) (f_mul (f_mul (abs_pulse L phase) (op_y ?lev)) gain)" by simp
  from slot_add [OF _ this] have "bounded (2 ^ Suc n) (f_add slot (f_mul (f_mul (abs_pulse L phase) (op_y ?lev)) gain))"
    using Cons.prems(3) assms(6,7) by simp
  then show ?case using Cons.prems(4) r ih by (auto simp: Let_def simp del: power_Suc)
qed auto

lemma noise_loop_ok:
  assumes "bounded 1 target" "unit_coeff a" "unit_coeff cutoff" "shape_ok shape" "bounded (2 ^ 8) gain" "16 \<le> n" "n < 127"
  shows "bounded 2 (op_y smooth) \<Longrightarrow> bounded 2 (op_y filt) \<Longrightarrow> blk n out \<Longrightarrow>
    noise_loop target a cutoff shape gain out smooth nz filt = (s, z, f, out') \<Longrightarrow>
    bounded 2 (op_y s) \<and> bounded 2 (op_y f) \<and> length out' = length out \<and> blk (Suc n) out'"
proof (induction out arbitrary: smooth nz filt s z f out')
  case (Cons slot out)
  obtain x nz' where x: "noise_next nz = (x, nz')" by (cases "noise_next nz")
  let ?sm = "onepole_step target a smooth"
  let ?fi = "onepole_step x cutoff filt"
  obtain s1 z1 f1 ys where r: "noise_loop target a cutoff shape gain out ?sm nz' ?fi = (s1, z1, f1, ys)"
    by (cases "noise_loop target a cutoff shape gain out ?sm nz' ?fi") auto
  have sm: "bounded (2 ^ 1) (op_y ?sm)" using onepole_unit [OF assms(1) Cons.prems(1) assms(2)] by simp
  have fi: "bounded (2 ^ 1) (op_y ?fi)" using onepole_unit [OF noise_bounded [OF x] Cons.prems(2) assms(3)] by simp
  have ih: "bounded 2 (op_y s1) \<and> bounded 2 (op_y f1) \<and> length ys = length out \<and> blk (Suc n) ys"
    by (rule Cons.IH [OF _ _ _ r]) (use sm fi Cons.prems(3) in auto)
  from bounded_mul [OF fi sm] have "bounded (2 ^ 2) (f_mul (op_y ?fi) (op_y ?sm))" by (simp add: eval_nat_numeral)
  then have "bounded (2 ^ 2) (shape (f_mul (op_y ?fi) (op_y ?sm)))" using assms(4) by (simp add: shape_ok_def)
  from bounded_mul [OF this assms(5)] have "bounded (2 ^ 10) (f_mul (shape (f_mul (op_y ?fi) (op_y ?sm))) gain)" by simp
  from slot_add [OF _ this] have "bounded (2 ^ Suc n) (f_add slot (f_mul (shape (f_mul (op_y ?fi) (op_y ?sm))) gain))"
    using Cons.prems(3) assms(6,7) by simp
  then show ?case using Cons.prems(4) x r ih by (auto simp: Let_def simp del: power_Suc)
qed auto


section \<open>The engine note\<close>

lemma f_le_val: "f_is_finite x \<Longrightarrow> f_is_finite y \<Longrightarrow> f_le x y \<longleftrightarrow> f_val x \<le> f_val y"
  using f_key_val [of y x] by (auto simp: f_lt_def f_le_def not_less)

definition nonneg :: "f32 \<Rightarrow> bool" where "nonneg x \<longleftrightarrow> f_is_nan x \<or> \<not> f_neg x \<or> f_is_zero x"

lemma quiet_nan [simp]: "f_is_nan f_quiet_nan" by (simp add: f_is_nan_def f_mag_def F_INF_def)

lemma quiet_nan_mag [simp]: "f_mag f_quiet_nan = 2143289344" by (simp add: f_mag_def)

lemma make_sel_inf: "f_mag (f_make s F_INF) = F_INF" "f_neg (f_make s F_INF) = s" "f_mag (f_make s 0) = 0" "f_neg (f_make s 0) = s"
  by (simp_all add: F_INF_def)

lemma of_rat_zero_mag: "f_mag (f_of_rat s 0) = 0"
  using round_mag_units [of 0] by (simp add: f_of_rat_mag F_INF_def)

lemma nonneg_mul: "nonneg x \<Longrightarrow> f_is_nan y \<or> \<not> f_neg y \<Longrightarrow> nonneg (f_mul x y)"
  using zero_val [of x] of_rat_zero_mag
  by (auto simp: nonneg_def f_mul_def make_sel_inf f_of_rat_mag f_is_zero_def f_is_inf_def F_INF_def f_is_nan_def)

lemma nonneg_div: "nonneg x \<Longrightarrow> f_is_nan y \<or> \<not> f_neg y \<Longrightarrow> nonneg (f_div x y)"
  using zero_val [of x] of_rat_zero_mag
  by (auto simp: nonneg_def f_div_def make_sel_inf f_of_rat_mag f_is_zero_def f_is_inf_def F_INF_def f_is_nan_def)

lemma nonneg_max: "nonneg (f_max x f_zero)"
  by (auto simp: nonneg_def f_max_def f_lt_def F32.f_key_def f_is_zero_def f_is_nan_def f_mag_def f_neg_def split: if_splits)

text \<open>Whatever the engine speed, a NaN or an infinity included, the note stays below 1800 Hz.\<close>

lemma firing_frequency_range:
  "f_is_finite (firing_frequency rpm cyls pitch)" "0 \<le> f_val (firing_frequency rpm cyls pitch)"
  "f_val (firing_frequency rpm cyls pitch) \<le> 1800"
proof -
  let ?cap = "f_mul SAMPLE_RATE_HZ 0x3ee66666"
  define z where "z = f_mul (f_mul (f_div (f_max rpm f_zero) f_sixty) (f_div (f_of_nat (max cyls 1)) f_two)) (f_clamp 0x3dcccccd f_two pitch)"
  have c: "f_is_finite 0x3ee66666" "f_val 0x3ee66666 \<le> 9 / 20" "0 \<le> f_val 0x3ee66666" "f_val 0x44e10000 = 1800" "f_is_finite 0x44e10000"
    by (simp_all add: f_val_def f_neg_def f_mag_def units_def Let_def f_is_finite_def F_INF_def)
  have "bounded (2 ^ 12) ?cap" using bounded_mul [of 12 SAMPLE_RATE_HZ 0 "0x3ee66666"] c by (simp add: bounded_def)
  then have fc: "f_is_finite ?cap" by (rule boundedD)
  have "f_val ?cap \<le> f_val 0x44e10000" by (rule mul_le) (use c in auto)
  then have c1: "f_val ?cap \<le> 1800" using c by simp
  have "f_val 0 \<le> f_val ?cap" by (rule mul_ge) (use c in auto)
  then have c0: "0 \<le> f_val ?cap" by simp
  have cyl: "\<not> f_neg (f_div (f_of_nat (max cyls 1)) f_two) \<or> f_is_nan (f_div (f_of_nat (max cyls 1)) f_two)"
    by (auto simp: f_div_def make_sel_inf f_of_rat_mag f_neg_def [of f_two])
  have pitch: "f_is_nan (f_clamp 0x3dcccccd f_two pitch) \<or> \<not> f_neg (f_clamp 0x3dcccccd f_two pitch)"
    by (auto simp: f_clamp_def f_lt_def F32.f_key_def f_neg_def f_mag_def f_is_nan_def F_INF_def split: if_splits)
  have "nonneg z" unfolding z_def
    by (intro nonneg_mul nonneg_div nonneg_max) (use cyl pitch in \<open>auto simp: f_neg_def\<close>)
  then have zk: "\<not> f_is_nan z \<Longrightarrow> 0 \<le> F32.f_key z" by (auto simp: nonneg_def F32.f_key_def f_is_zero_def)
  have ff: "firing_frequency rpm cyls pitch = f_min z ?cap" by (simp add: firing_frequency_def z_def Let_def)
  have capk: "F32.f_key ?cap < int F_INF" using fc by (auto simp: F32.f_key_def f_is_finite_def)
  have "f_is_finite z \<and> 0 \<le> f_val z \<and> f_val z \<le> f_val ?cap" if "\<not> f_is_nan z" "\<not> f_lt ?cap z"
  proof -
    have le: "F32.f_key z \<le> F32.f_key ?cap" using that fc by (simp add: f_lt_def)
    have "int (f_mag z) \<le> F32.f_key z \<or> f_mag z = 0" using zk [OF that(1)] by (auto simp: F32.f_key_def split: if_splits)
    then have "f_mag z < F_INF" using le capk by (auto simp: F_INF_def)
    then have fz: "f_is_finite z" by (simp add: f_is_finite_def)
    have "\<not> f_lt z 0" using zk [OF that(1)] by (simp add: f_lt_def F32.f_key_def f_mag_def f_neg_def)
    then show ?thesis using fz that(2) f_key_val [OF fz, of 0] f_key_val [OF fc fz] by simp
  qed
  then show "f_is_finite (firing_frequency rpm cyls pitch)" "0 \<le> f_val (firing_frequency rpm cyls pitch)"
    "f_val (firing_frequency rpm cyls pitch) \<le> 1800"
    unfolding ff f_min_def using fc c0 c1 by (auto split: if_splits)
qed


lemma nyquist: "f_is_finite NYQUIST_HZ" "f_val NYQUIST_HZ = 2000"
proof -
  have c: "f_val 0x44fa0000 = 2000" "f_is_finite 0x44fa0000" "\<not> f_is_zero f_two"
    by (simp_all add: f_val_def f_neg_def f_mag_def units_def Let_def f_is_finite_def F_INF_def f_is_zero_def)
  have "bounded (2 ^ 12) NYQUIST_HZ" unfolding NYQUIST_HZ_def using bounded_div [of 12 SAMPLE_RATE_HZ f_two 0] by (simp add: bounded_def)
  then show "f_is_finite NYQUIST_HZ" by (rule boundedD)
  have "f_val NYQUIST_HZ \<le> f_val 0x44fa0000" unfolding NYQUIST_HZ_def by (rule div_le) (use c in auto)
  moreover have "f_val 0x44fa0000 \<le> f_val NYQUIST_HZ" unfolding NYQUIST_HZ_def by (rule div_ge) (use c in auto)
  ultimately show "f_val NYQUIST_HZ = 2000" using c by simp
qed

lemma rolloff_start: "f_is_finite ROLLOFF_START_HZ" "1600 \<le> f_val ROLLOFF_START_HZ" "f_val ROLLOFF_START_HZ \<le> 1601"
proof -
  have c: "f_val 0x44c80000 = 1600" "f_is_finite 0x44c80000" "f_val 0x44c82000 = 1601" "f_is_finite 0x44c82000"
    "f_is_finite 0x3f4ccccd" "8 / 10 \<le> f_val 0x3f4ccccd" "f_val 0x3f4ccccd \<le> 8001 / 10000"
    by (simp_all add: f_val_def f_neg_def f_mag_def units_def Let_def f_is_finite_def F_INF_def)
  have "bounded (2 ^ 11) ROLLOFF_START_HZ" unfolding ROLLOFF_START_HZ_def using bounded_mul [of 11 NYQUIST_HZ 0 "0x3f4ccccd"] nyquist c
    by (simp add: bounded_def)
  then show "f_is_finite ROLLOFF_START_HZ" by (rule boundedD)
  have "f_val ROLLOFF_START_HZ \<le> f_val 0x44c82000" unfolding ROLLOFF_START_HZ_def by (rule mul_le) (use c nyquist in auto)
  then show "f_val ROLLOFF_START_HZ \<le> 1601" using c by simp
  have "f_val 0x44c80000 \<le> f_val ROLLOFF_START_HZ" unfolding ROLLOFF_START_HZ_def by (rule mul_ge) (use c nyquist in auto)
  then show "1600 \<le> f_val ROLLOFF_START_HZ" using c by simp
qed

lemma rolloff_range:
  assumes "f_is_finite hz"
  shows "bounded (2 ^ 1) (harmonic_rolloff hz)" "f_val hz \<le> 1800 \<Longrightarrow> 1 / 2 \<le> f_val (harmonic_rolloff hz)"
proof -
  note r = rolloff_start nyquist
  let ?n = "f_sub NYQUIST_HZ hz" and ?d = "f_sub NYQUIST_HZ ROLLOFF_START_HZ"
  have c: "f_val 0x43c78000 = 399" "f_is_finite 0x43c78000" "f_val 0x43c80000 = 400" "f_is_finite 0x43c80000" "f_val 0x43480000 = 200"
    "f_is_finite 0x43480000"
    by (simp_all add: f_val_def f_neg_def f_mag_def units_def Let_def f_is_finite_def F_INF_def)
  have "bounded (2 ^ 9) ?d" unfolding f_sub_def by (rule bounded_add_val) (use r in auto)
  then have fd: "f_is_finite ?d" by (rule boundedD)
  have "f_val 0x43c78000 \<le> f_val ?d" unfolding f_sub_def by (rule add_ge) (use r c in auto)
  moreover have "f_val ?d \<le> f_val 0x43c80000" unfolding f_sub_def by (rule add_le) (use r c in auto)
  ultimately have d: "399 \<le> f_val ?d" "f_val ?d \<le> 400" using c by simp_all
  then have zd: "\<not> f_is_zero ?d" using zero_val [of ?d] by auto
  have third: "f_is_finite ?n \<and> 0 \<le> f_val ?n \<and> f_val ?n \<le> 400 \<and> (f_val hz \<le> 1800 \<longrightarrow> 200 \<le> f_val ?n)"
    if "\<not> f_le hz ROLLOFF_START_HZ" "\<not> f_le NYQUIST_HZ hz"
  proof -
    have hz: "f_val ROLLOFF_START_HZ < f_val hz" "f_val hz < 2000" using that f_le_val assms r by auto
    have "bounded (2 ^ 9) ?n" unfolding f_sub_def by (rule bounded_add_val) (use assms r hz in auto)
    then have "f_is_finite ?n" by (rule boundedD)
    moreover have "f_val 0 \<le> f_val ?n" unfolding f_sub_def by (rule add_ge) (use r assms hz in auto)
    moreover have "f_val ?n \<le> f_val 0x43c80000" unfolding f_sub_def by (rule add_le) (use r assms hz c in auto)
    moreover have "f_val hz \<le> 1800 \<Longrightarrow> f_val 0x43480000 \<le> f_val ?n" unfolding f_sub_def by (rule add_ge) (use r assms hz c in auto)
    ultimately show ?thesis using c by simp
  qed
  have half: "f_val f_half \<le> f_val ?n / f_val ?d" if "200 \<le> f_val ?n" using that d by (simp add: pos_le_divide_eq)
  have "f_val ?n / f_val ?d \<le> f_val f_two" if "f_val ?n \<le> 400" using that d by (simp add: pos_divide_le_eq)
  moreover have "f_val 0 \<le> f_val ?n / f_val ?d" if "0 \<le> f_val ?n" using that d by simp
  ultimately have q: "0 \<le> f_val (f_div ?n ?d) \<and> f_val (f_div ?n ?d) \<le> 2" if "f_is_finite ?n" "0 \<le> f_val ?n" "f_val ?n \<le> 400"
    using div_ge [OF that(1) fd zd, of 0] div_le [OF that(1) fd zd, of f_two] that(2,3) by simp
  have fin: "f_is_finite (f_div ?n ?d)" if "f_is_finite ?n" "0 \<le> f_val ?n" "f_val ?n \<le> 400"
    using bounded_div [of 9 ?n ?d 0] that fd d by (simp add: bounded_def)
  show "bounded (2 ^ 1) (harmonic_rolloff hz)" using third q fin by (auto simp: harmonic_rolloff_def bounded_def)
  show "1 / 2 \<le> f_val (harmonic_rolloff hz)" if "f_val hz \<le> 1800"
    using third half div_ge [OF _ fd zd, of ?n f_half] that f_le_val [of NYQUIST_HZ hz] assms r by (auto simp: harmonic_rolloff_def)
qed

lemma bisect_sq_spec:
  assumes "(of_nat (units k))\<^sup>2 \<le> q" "k \<le> F_INF" "F_INF < k + 2 ^ i \<or> q < (of_nat (units (k + 2 ^ i)))\<^sup>2"
  shows "bisect_sq i k q \<le> F_INF \<and> (of_nat (units (bisect_sq i k q)))\<^sup>2 \<le> q \<and>
    (bisect_sq i k q = F_INF \<or> q < (of_nat (units (Suc (bisect_sq i k q))))\<^sup>2)"
  using assms
proof (induction i arbitrary: k)
  case 0
  then show ?case by auto
next
  case (Suc i)
  show ?case
  proof (cases "k + 2 ^ i \<le> F_INF \<and> (of_nat (units (k + 2 ^ i)))\<^sup>2 \<le> q")
    case True
    then show ?thesis using Suc.IH [of "k + 2 ^ i"] Suc.prems by (simp add: add.assoc mult_2)
  next
    case False
    then show ?thesis using Suc.IH [of k] Suc.prems by auto
  qed
qed

lemma sqrt_range:
  assumes "f_is_finite x" "1 / 4 \<le> f_val x" "f_val x \<le> 2 ^ 8"
  shows "bounded (2 ^ 5) (f_sqrt x)" "1 / 2 \<le> f_val (f_sqrt x)"
proof -
  define q where "q = f_val x * 2 ^ 298"
  define k where "k = bisect_sq 31 0 q"
  define k' where "k' = (let mid = (of_nat (units k + units (Suc k)) :: rat) / 2 in
    if q < mid\<^sup>2 then k else if mid\<^sup>2 < q then Suc k else if even k then k else Suc k)"
  have pos: "\<not> f_neg x" "\<not> f_is_zero x" using assms(2) zero_val [of x] val_pos_iff [of x] by auto
  have eq: "f_sqrt x = f_make False k'" using assms(1) pos by (simp add: f_sqrt_def q_def k_def k'_def Let_def)
  have q: "2 ^ 296 \<le> q" "q \<le> 2 ^ 306" using assms(2,3) by (simp_all add: q_def)
  have sp: "k \<le> F_INF" "(of_nat (units k))\<^sup>2 \<le> q" "k = F_INF \<or> q < (of_nat (units (Suc k)))\<^sup>2"
    using bisect_sq_spec [of 0 q 31] q(1) by (simp_all add: k_def F_INF_def)
  have kk: "k \<le> k'" "k' \<le> Suc k" by (simp_all add: k'_def Let_def)
  have u1: "units 1056964608 = 2 ^ 148" and u2: "units 1098907648 = 2 ^ 153" and u3: "units 1107296256 = 2 ^ 154" by (simp_all add: units_def Let_def)
  have "q \<le> (of_nat (2 ^ 153) :: rat)\<^sup>2" using q(2) by simp
  with sp(2) have "(of_nat (units k))\<^sup>2 \<le> (of_nat (2 ^ 153) :: rat)\<^sup>2" by (rule order_trans)
  then have "(of_nat (units k) :: rat) \<le> of_nat (2 ^ 153)" by (rule power2_le_imp_le) simp
  then have "units k \<le> units 1098907648" unfolding u2 by (simp only: of_nat_le_iff)
  then have ub: "k \<le> 1098907648" by simp
  then have k'b: "k' \<le> 1107296256" using kk by simp
  have lb: "1056964608 \<le> k"
  proof (rule ccontr)
    assume "\<not> 1056964608 \<le> k"
    then have "units (Suc k) \<le> units 1056964608" by simp
    then have "(of_nat (units (Suc k)) :: rat) \<le> of_nat (2 ^ 148)" unfolding u1 by (simp only: of_nat_le_iff)
    then have "(of_nat (units (Suc k)) :: rat)\<^sup>2 \<le> (of_nat (2 ^ 148))\<^sup>2" by (rule power_mono) simp
    also have "\<dots> \<le> q" using q(1) by simp
    finally show False using sp(3) ub by (simp add: F_INF_def)
  qed
  have mag: "f_mag (f_sqrt x) = k'" "\<not> f_neg (f_sqrt x)" unfolding eq using k'b by simp_all
  have "units k' \<le> 2 ^ 154" "2 ^ 148 \<le> units k'" using k'b lb kk units_le_iff [of k' 1107296256] units_le_iff [of 1056964608 k'] u1 u3 by simp_all
  then have "(of_nat (units k') :: rat) \<le> of_nat (2 ^ 154)" "(of_nat (2 ^ 148) :: rat) \<le> of_nat (units k')" by (simp_all only: of_nat_le_iff)
  then show "bounded (2 ^ 5) (f_sqrt x)" "1 / 2 \<le> f_val (f_sqrt x)"
    using mag k'b by (simp_all add: bounded_def f_val_def f_is_finite_def F_INF_def)
qed


lemma nat_one_val: "f_val (f_of_nat 1) = 1" "f_is_finite (f_of_nat 1)"
proof -
  have "sign_of False 1" by (simp add: sign_of_def)
  from round_le [OF this, of f_one] round_ge [OF this, of f_one] show "f_val (f_of_nat 1) = 1" by (simp add: f_of_nat_def)
  show "f_is_finite (f_of_nat 1)" using f_of_nat_bounded [of 1 0] by (simp add: bounded_def)
qed

lemma harmonic_gains_ok:
  assumes "f_is_finite freq" "0 \<le> f_val freq" "f_val freq \<le> 1800"
  obtains g0 g1 g2 where "harmonic_gains freq = [g0, g1, g2]" "bounded (2 ^ 1) g0" "bounded (2 ^ 1) g1" "bounded (2 ^ 1) g2" "1 / 2 \<le> f_val g0"
proof -
  have fb: "bounded (2 ^ 11) freq" using assms by (simp add: bounded_def)
  have hz: "f_is_finite (f_mul freq (f_of_nat k))" if "k \<le> 4" for k
    using bounded_mul [OF fb f_of_nat_bounded [of k 2]] that by (auto simp: bounded_def)
  have g: "bounded (2 ^ 1) (f_mul c (harmonic_rolloff (f_mul freq (f_of_nat k))))" if "k \<le> 4" "bounded (2 ^ 0) c" for k c
    using bounded_mul [OF that(2) rolloff_range(1) [OF hz [OF that(1)]]] by simp
  have c: "bounded (2 ^ 0) f_one" "bounded (2 ^ 0) f_half" "bounded (2 ^ 0) 0x3e800000"
    by (simp_all add: bounded_def f_val_def f_neg_def f_mag_def units_def Let_def f_is_finite_def F_INF_def)
  have h1: "f_val (f_mul freq (f_of_nat 1)) \<le> f_val freq" by (rule mul_le) (use assms nat_one_val in auto)
  have "1 / 2 \<le> f_val (harmonic_rolloff (f_mul freq (f_of_nat 1)))"
    by (rule rolloff_range(2)) (use hz h1 assms in auto)
  then have "f_val f_half \<le> f_val (f_mul f_one (harmonic_rolloff (f_mul freq (f_of_nat 1))))"
    by (intro mul_ge) (use rolloff_range(1) [OF hz [of 1]] in \<open>auto simp: bounded_def\<close>)
  moreover have "harmonic_gains freq =
    [f_mul f_one (harmonic_rolloff (f_mul freq (f_of_nat 1))), f_mul f_half (harmonic_rolloff (f_mul freq (f_of_nat 2))),
     f_mul 0x3e800000 (harmonic_rolloff (f_mul freq (f_of_nat 3)))]"
    by (simp add: harmonic_gains_def HARMONIC_GAINS_def upt_rec numeral_eq_Suc)
  ultimately show ?thesis using that [OF _ g [OF _ c(1), of 1] g [OF _ c(2), of 2] g [OF _ c(3), of 3]] by simp
qed

lemma square_nonneg: "f_is_finite g \<Longrightarrow> 0 \<le> f_val (f_mul g g)"
  using mul_ge [of g g 0] by simp

lemma mix_norm_ok:
  assumes "bounded (2 ^ 1) g0" "bounded (2 ^ 1) g1" "bounded (2 ^ 1) g2" "1 / 2 \<le> f_val g0"
  shows "f_is_finite (mix_norm [g0, g1, g2])" "1 / 2 \<le> f_val (mix_norm [g0, g1, g2])"
proof -
  have c: "f_val 0x3e800000 = 1 / 4" "f_is_finite 0x3e800000" "f_is_finite FULL_MIX_LEVEL" "1 / 2 ^ 1 \<le> \<bar>f_val FULL_MIX_LEVEL\<bar>"
    "f_val FULL_MIX_LEVEL \<le> 1" "0 < f_val FULL_MIX_LEVEL" "\<not> f_is_zero FULL_MIX_LEVEL"
    by (simp_all add: f_val_def f_neg_def f_mag_def units_def Let_def f_is_finite_def f_is_zero_def F_INF_def FULL_MIX_LEVEL_def)
  have fin: "f_is_finite g0" "f_is_finite g1" "f_is_finite g2" using assms by (simp_all add: bounded_def)
  have sq: "bounded (2 ^ 2) (f_mul g0 g0)" "bounded (2 ^ 2) (f_mul g1 g1)" "bounded (2 ^ 2) (f_mul g2 g2)"
    using bounded_mul [OF assms(1,1)] bounded_mul [OF assms(2,2)] bounded_mul [OF assms(3,3)] by (simp_all add: eval_nat_numeral)
  let ?s1 = "f_add f_zero (f_mul g0 g0)" and ?s2 = "f_add (f_add f_zero (f_mul g0 g0)) (f_mul g1 g1)"
  let ?s3 = "f_add ?s2 (f_mul g2 g2)"
  have b1: "bounded (2 ^ Suc 2) ?s1" by (rule slot_add [OF _ sq(1)]) (simp_all add: bounded_def)
  have b2: "bounded (2 ^ Suc (Suc 2)) ?s2" by (rule slot_add [OF b1 sq(2)]) simp_all
  have b3: "bounded (2 ^ Suc (Suc (Suc 2))) ?s3" by (rule slot_add [OF b2 sq(3)]) simp_all
  have "1 / 2 * (1 / 2) \<le> f_val g0 * f_val g0" by (rule mult_mono) (use assms(4) in auto)
  then have "f_val 0x3e800000 \<le> f_val (f_mul g0 g0)" by (intro mul_ge) (use c fin in auto)
  then have "f_val 0x3e800000 \<le> f_val ?s1" by (intro add_ge) (use c sq in \<open>auto simp: bounded_def\<close>)
  then have "f_val 0x3e800000 \<le> f_val ?s2" by (intro add_ge) (use c sq b1 square_nonneg [OF fin(2)] in \<open>auto simp: bounded_def\<close>)
  then have "f_val 0x3e800000 \<le> f_val ?s3" by (intro add_ge) (use c sq b2 square_nonneg [OF fin(3)] in \<open>auto simp: bounded_def\<close>)
  then have s: "1 / 4 \<le> f_val ?s3" "f_is_finite ?s3" "f_val ?s3 \<le> 2 ^ 8" using c(1) b3 by (auto simp: bounded_def)
  note r = sqrt_range [OF s(2,1,3)]
  have mn: "mix_norm [g0, g1, g2] = f_div (f_sqrt ?s3) FULL_MIX_LEVEL" by (simp add: mix_norm_def)
  show "f_is_finite (mix_norm [g0, g1, g2])" unfolding mn using bounded_div [OF r(1) c(3,4)] by (simp add: bounded_def)
  have "f_val f_half \<le> f_val (f_sqrt ?s3) / f_val FULL_MIX_LEVEL" using r(2) c(5,6) by (simp add: pos_le_divide_eq)
  then have "f_val f_half \<le> f_val (mix_norm [g0, g1, g2])" unfolding mn
    by (intro div_ge) (use r c in \<open>auto simp: bounded_def\<close>)
  then show "1 / 2 \<le> f_val (mix_norm [g0, g1, g2])" by simp
qed


lemma note_sample_ok:
  assumes "libm_ok L" "bounded (2 ^ 1) g0" "bounded (2 ^ 1) g1" "bounded (2 ^ 1) g2" "f_is_finite nrm" "1 / 2 \<le> f_val nrm" "unit_coeff phase"
  shows "bounded (2 ^ 5) (note_sample L [g0, g1, g2] nrm phase)"
proof -
  have ph: "bounded (2 ^ 0) phase" using assms(7) by (simp add: unit_coeff_def bounded_def)
  have arg: "f_is_finite (f_mul (f_mul TAU (f_of_nat k)) phase)" if "k \<le> 4" for k
    using bounded_mul [OF bounded_mul [OF TAU_bounded(1) f_of_nat_bounded [of k 2]] ph] that by (auto simp: bounded_def)
  have t: "bounded (2 ^ 1) (f_mul g (lm_sin L (f_mul (f_mul TAU (f_of_nat k)) phase)))" if "k \<le> 4" "bounded (2 ^ 1) g" for k g
    using bounded_mul [OF that(2) sin_bounded [OF assms(1) arg [OF that(1)]]] by simp
  define t0 t1 t2 where "t0 = f_mul g0 (lm_sin L (f_mul (f_mul TAU (f_of_nat 1)) phase))"
    and "t1 = f_mul g1 (lm_sin L (f_mul (f_mul TAU (f_of_nat 2)) phase))"
    and "t2 = f_mul g2 (lm_sin L (f_mul (f_mul TAU (f_of_nat 3)) phase))"
  have ts: "bounded (2 ^ 1) t0" "bounded (2 ^ 1) t1" "bounded (2 ^ 1) t2" using t assms(2-4) by (simp_all add: t0_def t1_def t2_def)
  have b1: "bounded (2 ^ Suc 1) (f_add f_zero t0)" by (rule slot_add [OF _ ts(1)]) (simp_all add: bounded_def)
  have b2: "bounded (2 ^ Suc (Suc 1)) (f_add (f_add f_zero t0) t1)" by (rule slot_add [OF b1 ts(2)]) simp_all
  have b3: "bounded (2 ^ Suc (Suc (Suc 1))) (f_add (f_add (f_add f_zero t0) t1) t2)" by (rule slot_add [OF b2 ts(3)]) simp_all
  have "note_sample L [g0, g1, g2] nrm phase = f_div (f_add (f_add (f_add f_zero t0) t1) t2) nrm"
    by (simp add: note_sample_def t0_def t1_def t2_def upt_rec numeral_eq_Suc)
  then show ?thesis using bounded_div [OF b3 assms(5), of 1] assms(6) by (simp add: eval_nat_numeral)
qed

lemma advance_unit:
  assumes "unit_coeff phase" "unit_coeff step"
  shows "unit_coeff (advance phase step)"
proof -
  let ?p = "f_add phase step"
  have u: "f_is_finite phase" "0 \<le> f_val phase" "f_val phase \<le> 1" "f_is_finite step" "0 \<le> f_val step" "f_val step \<le> 1"
    using assms by (simp_all add: unit_coeff_def)
  have "bounded (2 ^ 1) ?p" by (rule bounded_add_val) (use u in auto)
  then have fp: "f_is_finite ?p" by (rule boundedD)
  have "f_val 0 \<le> f_val ?p" by (rule add_ge) (use u in auto)
  moreover have "f_val ?p \<le> f_val f_two" by (rule add_le) (use u in auto)
  ultimately have p: "0 \<le> f_val ?p" "f_val ?p \<le> 2" by simp_all
  have "unit_coeff (f_sub ?p f_one)" if "1 \<le> f_val ?p"
  proof -
    have "bounded (2 ^ 0) (f_sub ?p f_one)" unfolding f_sub_def by (rule bounded_add_val) (use fp p that in auto)
    then have "f_is_finite (f_sub ?p f_one)" by (rule boundedD)
    moreover have "f_val 0 \<le> f_val (f_sub ?p f_one)" unfolding f_sub_def by (rule add_ge) (use fp that in auto)
    moreover have "f_val (f_sub ?p f_one) \<le> f_val f_one" unfolding f_sub_def by (rule add_le) (use fp p in auto)
    ultimately show ?thesis by (simp add: unit_coeff_def)
  qed
  then show ?thesis using fp p f_le_val [of f_one ?p] by (auto simp: advance_def Let_def unit_coeff_def)
qed

lemma note_loop_ok:
  assumes "libm_ok L" "bounded (2 ^ 1) g0" "bounded (2 ^ 1) g1" "bounded (2 ^ 1) g2" "f_is_finite nrm" "1 / 2 \<le> f_val nrm" "unit_coeff step"
    and amp: "f_lt f_zero amplitude \<Longrightarrow> bounded (2 ^ 1) amplitude"
  shows "unit_coeff phase \<Longrightarrow> note_loop L [g0, g1, g2] nrm amplitude freq step n phase = (ss, p) \<Longrightarrow>
    unit_coeff p \<and> length ss = n \<and> blk 6 ss"
proof (induction n arbitrary: phase ss p)
  case (Suc n)
  obtain ys q where r: "note_loop L [g0, g1, g2] nrm amplitude freq step n (advance phase step) = (ys, q)"
    by (cases "note_loop L [g0, g1, g2] nrm amplitude freq step n (advance phase step)")
  note ih = Suc.IH [OF advance_unit [OF Suc.prems(1) assms(7)] r]
  have "bounded (2 ^ 6) (f_mul (note_sample L [g0, g1, g2] nrm phase) amplitude)" if "f_lt f_zero amplitude"
    using bounded_mul [OF note_sample_ok [OF assms(1-6) Suc.prems(1)] amp [OF that]] by simp
  then show ?case using Suc.prems(2) r ih by (auto simp: Let_def bounded_def [of _ 0])
qed auto

lemma amplitude_ok:
  assumes "f_lt f_zero (f_mul (f_add IDLE_FLOOR (f_mul THROTTLE_GAIN (f_clamp f_zero f_one throttle))) (f_clamp f_zero f_one f_one))"
  shows "bounded (2 ^ 1) (f_mul (f_add IDLE_FLOOR (f_mul THROTTLE_GAIN (f_clamp f_zero f_one throttle))) (f_clamp f_zero f_one f_one))"
proof (cases "f_is_nan throttle")
  case True
  then have "f_is_nan (f_clamp f_zero f_one throttle)" by (simp add: f_clamp_def f_lt_def)
  then have "f_is_nan (f_mul (f_add IDLE_FLOOR (f_mul THROTTLE_GAIN (f_clamp f_zero f_one throttle))) (f_clamp f_zero f_one f_one))"
    by (simp add: f_mul_def f_add_def)
  then show ?thesis using assms by (simp add: f_lt_def)
next
  case False
  have c: "bounded (2 ^ 0) IDLE_FLOOR" "bounded (2 ^ 0) THROTTLE_GAIN" "f_clamp f_zero f_one f_one = f_one" "bounded (2 ^ 0) f_one"
    by (simp_all add: bounded_def f_val_def f_neg_def f_mag_def units_def Let_def f_is_finite_def F_INF_def IDLE_FLOOR_def THROTTLE_GAIN_def
        f_clamp_def f_lt_def F32.f_key_def)
  have "bounded (2 ^ 0) (f_mul THROTTLE_GAIN (f_clamp f_zero f_one throttle))"
    using bounded_mul [OF c(2), of 0] clamp_unit_bounded [OF False] by simp
  from bounded_add [OF c(1) this] have "bounded (2 ^ 1) (f_add IDLE_FLOOR (f_mul THROTTLE_GAIN (f_clamp f_zero f_one throttle)))" by simp
  from bounded_mul [OF this c(4)] show ?thesis unfolding c(3) by simp
qed

lemma synth_generate_ok:
  assumes "libm_ok L" "unit_coeff (es_phase s)" "synth_generate L note f_one n s = (out, s')"
  shows "unit_coeff (es_phase s') \<and> length out = n \<and> blk 6 out"
proof -
  let ?f = "firing_frequency (en_rpm note) (en_cylinders note) (en_pitch_scale note)"
  note f = firing_frequency_range [of "en_rpm note" "en_cylinders note" "en_pitch_scale note"]
  obtain g0 g1 g2 where g: "harmonic_gains ?f = [g0, g1, g2]" "bounded (2 ^ 1) g0" "bounded (2 ^ 1) g1" "bounded (2 ^ 1) g2" "1 / 2 \<le> f_val g0"
    by (rule harmonic_gains_ok [OF f])
  note m = mix_norm_ok [OF g(2-5)]
  have z: "\<not> f_is_zero SAMPLE_RATE_HZ" by (simp add: f_is_zero_def f_mag_def SAMPLE_RATE_HZ_def)
  have "bounded (2 ^ 11) (f_div ?f SAMPLE_RATE_HZ)" using bounded_div [of 11 ?f SAMPLE_RATE_HZ 0] f by (simp add: bounded_def)
  then have "f_is_finite (f_div ?f SAMPLE_RATE_HZ)" by (rule boundedD)
  moreover have "f_val 0 \<le> f_val (f_div ?f SAMPLE_RATE_HZ)" by (rule div_ge) (use f z in auto)
  moreover have "f_val (f_div ?f SAMPLE_RATE_HZ) \<le> f_val f_one" by (rule div_le) (use f z in auto)
  ultimately have st: "unit_coeff (f_div ?f SAMPLE_RATE_HZ)" by (simp add: unit_coeff_def)
  show ?thesis
    using note_loop_ok [OF assms(1) g(2-4) m st amplitude_ok assms(2)] assms(3)
    by (auto simp: synth_generate_def Let_def g(1) split: prod.splits)
qed


section \<open>The interface of a layer\<close>

text \<open>What the mixer relies on: rendering keeps the invariant of a layer and the length of the
  block, and adds at most \<open>2 ^ 16\<close> to a sample.\<close>

locale haptic_layer =
  fixes ok :: "'s \<Rightarrow> bool" and render :: "f32 list \<Rightarrow> f32 \<Rightarrow> 's \<Rightarrow> 's \<times> f32 list"
  assumes block: "ok s \<Longrightarrow> bounded (2 ^ 8) gain \<Longrightarrow> 16 \<le> n \<Longrightarrow> n < 127 \<Longrightarrow> blk n out \<Longrightarrow> render out gain s = (s', out') \<Longrightarrow>
    ok s' \<and> length out' = length out \<and> blk (Suc n) out'"
begin

lemma silent_block:
  assumes "ok s" "bounded (2 ^ 8) gain" "render (replicate k f_zero) gain s = (s', out')"
  shows "ok s' \<and> length out' = k \<and> (\<forall>x\<in>set out'. f_is_finite x)"
proof -
  have z: "bounded (2 ^ 16) f_zero" by (simp add: bounded_def)
  have "blk 16 (replicate k f_zero)" by (induction k) (simp_all add: z del: power_numeral)
  from block [OF assms(1,2) _ _ this assms(3)] show ?thesis by (auto simp: blk_def list_all_iff bounded_def)
qed

lemma run_blocks:
  assumes "ok s" "bounded (2 ^ 8) gain"
  shows "ok (fold (\<lambda>k s. fst (render (replicate k f_zero) gain s)) ks s)"
  using assms(1)
proof (induction ks arbitrary: s)
  case (Cons k ks)
  have "ok (fst (render (replicate k f_zero) gain s))"
    using silent_block [OF Cons.prems assms(2) prod.collapse [symmetric]] by simp
  then show ?case using Cons.IH by simp
qed simp

end

definition engine_ok :: "EnginePulse \<Rightarrow> bool" where "engine_ok e \<longleftrightarrow> unit_coeff (es_phase (ep_synth e))"

definition rev_ok :: "RevLimiter \<Rightarrow> bool" where "rev_ok r \<longleftrightarrow> bounded 2 (rl_phase r) \<and> bounded 2 (op_y (rl_level r))"

definition pit_ok :: "PitLimiter \<Rightarrow> bool" where "pit_ok r \<longleftrightarrow> bounded 2 (pl_phase r) \<and> bounded 2 (op_y (pl_level r))"

definition abs_ok :: "AbsClick \<Rightarrow> bool" where
  "abs_ok c \<longleftrightarrow> bounded 2 (ab_phase c) \<and> bounded 2 (op_y (ab_level c)) \<and> (f_lt f_zero (ab_brake c) \<longrightarrow> bounded 1 (ab_brake c))"

definition traction_ok :: "TractionLoss \<Rightarrow> bool" where
  "traction_ok t \<longleftrightarrow> bounded 1 (tr_level t) \<and> bounded 2 (op_y (tr_smooth t)) \<and> bounded 2 (op_y (tr_filter t))"

definition road_ok :: "RoadBumps \<Rightarrow> bool" where
  "road_ok t \<longleftrightarrow> bounded 1 (rb_amount t) \<and> bounded 2 (op_y (rb_smooth t)) \<and> bounded 2 (op_y (rb_filter t))"

definition airborne_ok :: "Airborne \<Rightarrow> bool" where "airborne_ok a \<longleftrightarrow> unit_coeff (ai_depth a) \<and> bounded 2 (op_y (ai_duck a))"

lemma zip_add_ok:
  assumes "blk n out" "blk 6 xs" "length xs = length out" "bounded (2 ^ 8) gain" "16 \<le> n" "n < 127"
  shows "blk (Suc n) (map2 (\<lambda>slot x. f_add slot (f_mul x gain)) out xs)"
  using assms(3,1,2)
proof (induction xs out rule: list_induct2)
  case (Cons x xs slot out)
  have "bounded (2 ^ 14) (f_mul x gain)" using bounded_mul [OF _ assms(4), of 6 x] Cons.prems by simp
  from slot_add [OF _ this] have "bounded (2 ^ Suc n) (f_add slot (f_mul x gain))" using Cons.prems assms(5,6) by simp
  then show ?case using Cons by (simp del: power_Suc)
qed simp

interpretation engine: haptic_layer "\<lambda>e. libm_ok L \<and> engine_ok e" "engine_render L" for L
proof
  fix s gain n out s' out'
  assume "libm_ok L \<and> engine_ok s" "bounded (2 ^ 8) gain" "16 \<le> n" "n < 127" "blk n out" "engine_render L out gain s = (s', out')"
  then show "(libm_ok L \<and> engine_ok s') \<and> length out' = length out \<and> blk (Suc n) out'"
    using synth_generate_ok [of L "ep_synth s" "ep_note s" "length out"] zip_add_ok [of n out _ gain]
    by (cases "synth_generate L (ep_note s) f_one (length out) (ep_synth s)") (auto simp: engine_render_def engine_ok_def)
qed

lemma lit_unit:
  "unit_coeff 0x3e800000" "unit_coeff 0x3da3d70a" "bounded 1 0x3f19999a" "bounded 1 0x3f4ccccd"
  "f_is_finite 0x41a00000" "f_is_finite 0x42200000" "f_is_finite 0x41700000" "f_is_finite 0x41f00000" "f_is_finite 0x42480000"
  by (simp_all add: unit_coeff_def bounded_def f_val_def f_neg_def f_mag_def units_def Let_def f_is_finite_def F_INF_def)

lemma unit_smoothing: "f_is_finite ms \<Longrightarrow> unit_coeff (smoothing_for ms)"
  using smoothing_unit [of ms] by (simp add: unit_coeff_def)

lemma rate_step: "bounded (2 ^ 8) hz \<Longrightarrow> bounded (2 ^ 8) (f_div hz SAMPLE_RATE_HZ)"
  using bounded_div [of 8 hz SAMPLE_RATE_HZ 0] by simp

lemma lit_rates: "bounded (2 ^ 8) REV_LIMIT_HZ" "bounded (2 ^ 8) PIT_LIMIT_HZ" "bounded (2 ^ 8) ABS_HZ"
  by (simp_all add: bounded_def f_val_def f_neg_def f_mag_def units_def Let_def f_is_finite_def F_INF_def REV_LIMIT_HZ_def PIT_LIMIT_HZ_def ABS_HZ_def)

lemma lit_targets: "bounded 1 f_one" "bounded 1 f_zero" by (simp_all add: bounded_def)

lemmas layer_coeffs = lit_unit unit_smoothing rate_step lit_rates lit_targets shape_oks

interpretation rev_limiter: haptic_layer rev_ok rev_limiter_render
proof
  fix s gain n out s' out'
  assume a: "rev_ok s" "bounded (2 ^ 8) gain" "16 \<le> n" "n < 127" "blk n out" "rev_limiter_render out gain s = (s', out')"
  obtain p l ys where r: "square_loop (if rl_engaged s then f_one else f_zero) (smoothing_for 0x41a00000) (f_div REV_LIMIT_HZ SAMPLE_RATE_HZ)
      (\<lambda>x. x) gain out (rl_phase s) (rl_level s) = (p, l, ys)" by (rule prod_cases3)
  have "bounded 2 p \<and> bounded 2 (op_y l) \<and> length ys = length out \<and> blk (Suc n) ys"
    by (rule square_loop_ok [OF _ _ _ _ a(2-4) _ _ a(5) r]) (use a(1) layer_coeffs in \<open>auto simp: rev_ok_def\<close>)
  then show "rev_ok s' \<and> length out' = length out \<and> blk (Suc n) out'"
    using a(6) r by (auto simp: rev_limiter_render_def rev_ok_def)
qed

interpretation pit_limiter: haptic_layer pit_ok pit_limiter_render
proof
  fix s gain n out s' out'
  assume a: "pit_ok s" "bounded (2 ^ 8) gain" "16 \<le> n" "n < 127" "blk n out" "pit_limiter_render out gain s = (s', out')"
  obtain p l ys where r: "square_loop (if pl_engaged s then f_one else f_zero) (smoothing_for 0x42200000) (f_div PIT_LIMIT_HZ SAMPLE_RATE_HZ)
      (\<lambda>x. f_mul x 0x3f19999a) gain out (pl_phase s) (pl_level s) = (p, l, ys)" by (rule prod_cases3)
  have "bounded 2 p \<and> bounded 2 (op_y l) \<and> length ys = length out \<and> blk (Suc n) ys"
    by (rule square_loop_ok [OF _ _ _ _ a(2-4) _ _ a(5) r]) (use a(1) layer_coeffs in \<open>auto simp: pit_ok_def\<close>)
  then show "pit_ok s' \<and> length out' = length out \<and> blk (Suc n) out'"
    using a(6) r by (auto simp: pit_limiter_render_def pit_ok_def)
qed

interpretation abs_click: haptic_layer "\<lambda>c. libm_ok L \<and> abs_ok c" "abs_render L" for L
proof
  fix s gain n out s' out'
  assume a: "libm_ok L \<and> abs_ok s" "bounded (2 ^ 8) gain" "16 \<le> n" "n < 127" "blk n out" "abs_render L out gain s = (s', out')"
  define target where "target = (if ab_active s then if f_lt f_zero (ab_brake s) then ab_brake s else f_one else f_zero)"
  obtain p l ys where r: "abs_loop L target (smoothing_for 0x41700000) (f_div ABS_HZ SAMPLE_RATE_HZ) gain out (ab_phase s) (ab_level s) = (p, l, ys)"
    by (rule prod_cases3)
  have t: "bounded 1 target" using a(1) lit_targets by (auto simp: target_def abs_ok_def)
  have "bounded 2 p \<and> bounded 2 (op_y l) \<and> length ys = length out \<and> blk (Suc n) ys"
    by (rule abs_loop_ok [OF _ t _ _ a(2-4) _ _ a(5) r]) (use a(1) layer_coeffs in \<open>auto simp: abs_ok_def\<close>)
  then show "(libm_ok L \<and> abs_ok s') \<and> length out' = length out \<and> blk (Suc n) out'"
    using a(1,6) r by (auto simp: abs_render_def abs_ok_def Let_def target_def [symmetric])
qed

interpretation traction: haptic_layer traction_ok traction_render
proof
  fix s gain n out s' out'
  assume a: "traction_ok s" "bounded (2 ^ 8) gain" "16 \<le> n" "n < 127" "blk n out" "traction_render out gain s = (s', out')"
  obtain p z f ys where r: "noise_loop (tr_level s) (smoothing_for 0x41f00000) 0x3e800000 (\<lambda>x. f_mul x 0x3f4ccccd) gain out
      (tr_smooth s) (tr_noise s) (tr_filter s) = (p, z, f, ys)" by (rule prod_cases4)
  have "bounded 2 (op_y p) \<and> bounded 2 (op_y f) \<and> length ys = length out \<and> blk (Suc n) ys"
    by (rule noise_loop_ok [OF _ _ _ _ a(2-4) _ _ a(5) r]) (use a(1) layer_coeffs in \<open>auto simp: traction_ok_def\<close>)
  then show "traction_ok s' \<and> length out' = length out \<and> blk (Suc n) out'"
    using a(1,6) r by (auto simp: traction_render_def traction_ok_def)
qed

interpretation road: haptic_layer road_ok road_render
proof
  fix s gain n out s' out'
  assume a: "road_ok s" "bounded (2 ^ 8) gain" "16 \<le> n" "n < 127" "blk n out" "road_render out gain s = (s', out')"
  obtain p z f ys where r: "noise_loop (rb_amount s) (smoothing_for 0x42480000) 0x3da3d70a (\<lambda>x. x) gain out
      (rb_smooth s) (rb_noise s) (rb_filter s) = (p, z, f, ys)" by (rule prod_cases4)
  have "bounded 2 (op_y p) \<and> bounded 2 (op_y f) \<and> length ys = length out \<and> blk (Suc n) ys"
    by (rule noise_loop_ok [OF _ _ _ _ a(2-4) _ _ a(5) r]) (use a(1) layer_coeffs in \<open>auto simp: road_ok_def\<close>)
  then show "road_ok s' \<and> length out' = length out \<and> blk (Suc n) out'"
    using a(1,6) r by (auto simp: road_render_def road_ok_def)
qed

interpretation burst: haptic_layer "\<lambda>b. libm_ok L \<and> burst_ok b" "burst_render L" for L
  by unfold_locales (use burst_render_ok in blast)

end
