(* ===== verification/Mixer_Props.thy ===== *)
theory Mixer_Props
  imports Effects_Bounds
begin

text \<open>
  The properties of the mixer: it keeps the invariant of its layers, it emits as many samples as
  it is asked for, each within full scale, and exact silence at strength zero.
\<close>

definition layer_ok :: "Layer \<Rightarrow> bool" where
  "layer_ok l =
     (case l of LEngine e \<Rightarrow> engine_ok e | LRevLimiter r \<Rightarrow> rev_ok r | LPitLimiter p \<Rightarrow> pit_ok p | LGearShift g \<Rightarrow> burst_ok (gs_burst g)
      | LAbs c \<Rightarrow> abs_ok c | LTraction t \<Rightarrow> traction_ok t | LRoad r \<Rightarrow> road_ok r | LAirborne a \<Rightarrow> airborne_ok a
      | LCollision c \<Rightarrow> burst_ok (co_burst c) | LDrs d \<Rightarrow> burst_ok (dr_burst d))"

definition gains_ok :: "nat list \<Rightarrow> bool" where "gains_ok gains \<longleftrightarrow> length gains = 10 \<and> (\<forall>g\<in>set gains. g \<le> 100)"

definition mixer_ok :: "Mixer \<Rightarrow> bool" where
  "mixer_ok mx \<longleftrightarrow> list_all layer_ok (mx_effects mx) \<and> length (mx_effects mx) \<le> 10 \<and> gains_ok (mx_gains mx)"

text \<open>The telemetry the surface layer computes with.\<close>

definition tel_ok :: "Telemetry \<Rightarrow> bool" where
  "tel_ok tel \<longleftrightarrow> \<not> f_is_nan (t_speed tel) \<and> \<not> f_is_nan (t_surface_roughness tel)"

lemma gains_scale_bounded: "gains_ok gains \<Longrightarrow> bounded (2 ^ 8) (gains_scale gains e)"
proof -
  assume g: "gains_ok gains"
  have "effect_index e < length gains" using g by (simp add: gains_ok_def effect_index_def split: EffectId.splits)
  then have "EffectGains_get gains e \<le> 100" using g by (simp add: gains_ok_def EffectGains_get_def)
  then have "bounded (2 ^ 8) (f_of_nat (EffectGains_get gains e))" by (intro f_of_nat_bounded) auto
  moreover have "f_is_finite F_HUNDRED" "1 / 2 ^ 0 \<le> \<bar>f_val F_HUNDRED\<bar>"
    by (simp_all add: f_val_def f_neg_def f_mag_def units_def Let_def f_is_finite_def F_INF_def F_HUNDRED_def)
  ultimately show ?thesis using bounded_div [of 8 _ F_HUNDRED 0] by (simp add: gains_scale_def)
qed

section \<open>Updates\<close>

lemma max_unit: "bounded 1 x \<Longrightarrow> bounded 1 y \<Longrightarrow> bounded 1 (f_max x y)" by (simp add: f_max_def)

lemma clamp_nan: "f_is_nan x \<Longrightarrow> f_is_nan (f_clamp f_zero f_one x)" by (simp add: f_clamp_def f_lt_def)

lemma traction_update_ok: "traction_ok t \<Longrightarrow> traction_ok (traction_update tel t)"
proof -
  assume t: "traction_ok t"
  let ?lamp = "if t_traction_control tel then TC_LAMP_NOMINAL_SLIP else f_zero"
  have l: "bounded 1 ?lamp" by (simp add: TC_LAMP_NOMINAL_SLIP_def bounded_def)
  have "bounded 1 (f_max (f_clamp f_zero f_one (t_wheel_slip tel)) ?lamp)"
  proof (cases "f_is_nan (t_wheel_slip tel)")
    case True
    from clamp_nan [OF this] show ?thesis using l by (simp add: f_max_def)
  qed (use max_unit [OF clamp_unit_bounded l] in blast)
  then show ?thesis using t by (simp add: traction_update_def traction_ok_def)
qed

lemma road_update_ok: "tel_ok tel \<Longrightarrow> road_ok r \<Longrightarrow> road_ok (road_update tel r)"
proof -
  assume tel: "tel_ok tel" and r: "road_ok r"
  have "\<not> f_is_nan (f_abs (t_speed tel))" using tel by (simp add: tel_ok_def f_is_nan_def)
  moreover have "f_is_finite ROAD_FULL_SPEED" "\<not> f_is_zero ROAD_FULL_SPEED"
    by (simp_all add: f_is_finite_def f_is_zero_def f_mag_def F_INF_def ROAD_FULL_SPEED_def)
  ultimately have "\<not> f_is_nan (f_div (f_abs (t_speed tel)) ROAD_FULL_SPEED)" by (rule nan_div)
  from clamp_unit_bounded [OF this] have s: "bounded (2 ^ 0) (f_clamp f_zero f_one (f_div (f_abs (t_speed tel)) ROAD_FULL_SPEED))" by simp
  have "bounded (2 ^ 0) (f_clamp f_zero f_one (t_surface_roughness tel))" using clamp_unit_bounded tel by (simp add: tel_ok_def)
  from bounded_mul [OF this s] show ?thesis using r by (simp add: road_update_def road_ok_def)
qed

lemma airborne_update_ok: "libm_ok L \<Longrightarrow> airborne_ok a \<Longrightarrow> airborne_ok (airborne_update L tel b a)"
proof -
  assume L: "libm_ok L" and a: "airborne_ok a"
  have "bounded (2 ^ 0) (f_sub f_one (ai_depth a))" unfolding f_sub_def by (rule bounded_add_val) (use a in \<open>auto simp: airborne_ok_def unit_coeff_def\<close>)
  then have t: "bounded 1 (if t_airborne tel then f_sub f_one (ai_depth a) else f_one)" using lit_targets by simp
  have c: "unit_coeff (smoothing_for_block L f_sixty b)" using smoothing_block_unit [OF L, of f_sixty b] by (simp add: unit_coeff_def)
  show ?thesis using onepole_unit [OF t _ c, of "ai_duck a"] a by (simp add: airborne_update_def airborne_ok_def Let_def)
qed

lemma collision_update_ok: "libm_ok L \<Longrightarrow> burst_ok (co_burst c) \<Longrightarrow> burst_ok (co_burst (collision_update L tel c))"
proof -
  assume L: "libm_ok L" and c: "burst_ok (co_burst c)"
  let ?g = "f_max (t_impact_g tel) f_zero"
  define span where "span = f_sub COLLISION_FULL_G COLLISION_MIN_G"
  define sc where "sc = f_clamp f_zero f_one (f_div (f_sub ?g COLLISION_MIN_G) span)"
  have k: "f_val COLLISION_MIN_G = 3 / 2" "f_val COLLISION_FULL_G = 12" "f_is_finite COLLISION_MIN_G" "f_is_finite COLLISION_FULL_G"
    "bounded (2 ^ 5) 0x41c80000" "bounded (2 ^ 6) f_sixty" "bounded (2 ^ 8) 0x42b40000" "bounded (2 ^ 8) 0x43200000" "bounded (2 ^ 0) 0x3ecccccd"
    by (simp_all add: bounded_def f_val_def f_neg_def f_mag_def units_def Let_def f_is_finite_def F_INF_def COLLISION_MIN_G_def COLLISION_FULL_G_def)
  have "bounded (2 ^ 4) span" unfolding span_def f_sub_def by (rule bounded_add_val) (use k in auto)
  then have fs: "f_is_finite span" by (rule boundedD)
  have "f_val f_one \<le> f_val span" unfolding span_def f_sub_def by (rule add_ge) (use k in auto)
  then have zs: "\<not> f_is_zero span" using zero_val [of span] by auto
  have "\<not> f_is_nan ?g" by (auto simp: f_max_def f_is_nan_def f_mag_def)
  then have "\<not> f_is_nan (f_sub ?g COLLISION_MIN_G)" using k(3) by (simp add: f_sub_def f_add_def Let_def)
  from nan_div [OF this fs zs] have sc: "bounded (2 ^ 0) sc" using clamp_unit_bounded by (simp add: sc_def)
  have "bounded (2 ^ 5) (f_mul 0x41c80000 sc)" using bounded_mul [OF k(5) sc] by simp
  then have "bounded (2 ^ 6) (f_mul 0x41c80000 sc)" by (rule bounded_le) simp
  from bounded_sub [OF k(6) this] have freq: "bounded (2 ^ 7) (f_sub f_sixty (f_mul 0x41c80000 sc))" by simp
  have "bounded (2 ^ 8) (f_mul 0x43200000 sc)" using bounded_mul [OF k(8) sc] by simp
  from bounded_add [OF k(7) this] have len: "bounded (2 ^ 9) (f_add 0x42b40000 (f_mul 0x43200000 sc))" by simp
  from bounded_mul [OF this k(9)] have "bounded (2 ^ 9) (f_mul (f_add 0x42b40000 (f_mul 0x43200000 sc)) 0x3ecccccd)" by simp
  then have dec: "bounded (2 ^ 10) (f_mul (f_add 0x42b40000 (f_mul 0x43200000 sc)) 0x3ecccccd)" by (rule bounded_le) simp
  have h: "bounded (2 ^ 0) f_half" by (simp add: bounded_def)
  have "bounded (2 ^ 0) (f_mul f_half sc)" using bounded_mul [OF h sc] by simp
  from bounded_add [OF h this] have "bounded 2 (f_add f_half (f_mul f_half sc))" by simp
  from burst_fire_ok [OF L this freq dec] show ?thesis using c by (simp add: collision_update_def Let_def sc_def span_def)
qed

lemma gear_fire_lits:
  "bounded 2 0x3f666666" "bounded 2 f_half" "bounded (2 ^ 7) 0x425c0000" "bounded (2 ^ 10) 0x420c0000"
  "bounded 2 0x3f333333" "bounded 2 0x3ecccccd" "bounded (2 ^ 7) 0x42b40000" "bounded (2 ^ 10) 0x41900000"
  by (simp_all add: bounded_def f_val_def f_neg_def f_mag_def units_def Let_def f_is_finite_def F_INF_def)

lemma gear_update_ok: "libm_ok L \<Longrightarrow> burst_ok (gs_burst g) \<Longrightarrow> burst_ok (gs_burst (gear_shift_update L tel g))"
  using burst_fire_ok gear_fire_lits by (auto simp: gear_shift_update_def split: option.splits)

lemma drs_update_ok: "libm_ok L \<Longrightarrow> burst_ok (dr_burst d) \<Longrightarrow> burst_ok (dr_burst (drs_update L tel d))"
  using burst_fire_ok gear_fire_lits by (auto simp: drs_update_def split: option.splits)

lemma abs_update_ok: "abs_ok c \<Longrightarrow> abs_ok (abs_update tel c)"
  using clamp_unit_bounded [of "t_brake tel"] clamp_nan [of "t_brake tel"] by (auto simp: abs_ok_def abs_update_def f_lt_def)

lemma layer_update_ok:
  assumes "libm_ok L" "tel_ok tel" "layer_ok l"
  shows "layer_ok (layer_update L tel b l)"
  using assms traction_update_ok road_update_ok airborne_update_ok collision_update_ok gear_update_ok drs_update_ok abs_update_ok
  by (auto simp: layer_ok_def layer_update_def engine_update_def engine_ok_def rev_limiter_update_def rev_ok_def Let_def
      pit_limiter_update_def pit_ok_def split: Layer.splits)


section \<open>Rendering\<close>

lemma layer_render_ok:
  assumes "libm_ok L" "layer_ok l" "bounded (2 ^ 8) gain" "16 \<le> n" "n < 127" "blk n out" "layer_render L out gain l = (l', out')"
  shows "layer_ok l' \<and> length out' = length out \<and> blk (Suc n) out'"
proof (cases l)
  case (LEngine e)
  then show ?thesis using assms engine.block [of L e gain n out]
    by (cases "engine_render L out gain e") (auto simp: layer_ok_def layer_render_def)
next
  case (LRevLimiter r)
  then show ?thesis using assms rev_limiter.block [of r gain n out]
    by (cases "rev_limiter_render out gain r") (auto simp: layer_ok_def layer_render_def)
next
  case (LPitLimiter p)
  then show ?thesis using assms pit_limiter.block [of p gain n out]
    by (cases "pit_limiter_render out gain p") (auto simp: layer_ok_def layer_render_def)
next
  case (LGearShift g)
  then show ?thesis using assms burst.block [of L "gs_burst g" gain n out]
    by (cases "burst_render L out gain (gs_burst g)") (auto simp: layer_ok_def layer_render_def gear_shift_render_def)
next
  case (LAbs c)
  then show ?thesis using assms abs_click.block [of L c gain n out]
    by (cases "abs_render L out gain c") (auto simp: layer_ok_def layer_render_def)
next
  case (LTraction t)
  then show ?thesis using assms traction.block [of t gain n out]
    by (cases "traction_render out gain t") (auto simp: layer_ok_def layer_render_def)
next
  case (LRoad r)
  then show ?thesis using assms road.block [of r gain n out]
    by (cases "road_render out gain r") (auto simp: layer_ok_def layer_render_def)
next
  case (LAirborne a)
  then show ?thesis using assms blk_Suc [of n out] by (auto simp: layer_ok_def layer_render_def)
next
  case (LCollision c)
  then show ?thesis using assms burst.block [of L "co_burst c" gain n out]
    by (cases "burst_render L out gain (co_burst c)") (auto simp: layer_ok_def layer_render_def collision_render_def)
next
  case (LDrs d)
  then show ?thesis using assms burst.block [of L "dr_burst d" gain n out]
    by (cases "burst_render L out gain (dr_burst d)") (auto simp: layer_ok_def layer_render_def drs_render_def)
qed

lemma blk_le: "blk m out \<Longrightarrow> m \<le> n \<Longrightarrow> blk n out"
  by (induction out) (auto intro: bounded_le)

lemma render_layers_ok:
  assumes "libm_ok L" "gains_ok gains"
  shows "list_all layer_ok ls \<Longrightarrow> 16 \<le> n \<Longrightarrow> n + length ls \<le> 127 \<Longrightarrow> blk n cont \<Longrightarrow> blk n tran \<Longrightarrow>
    render_layers L gains ls cont tran = (ls', c, t) \<Longrightarrow>
    list_all layer_ok ls' \<and> length ls' = length ls \<and> length c = length cont \<and> length t = length tran \<and>
    blk (n + length ls) c \<and> blk (n + length ls) t"
proof (induction ls arbitrary: n cont tran ls' c t)
  case (Cons l ls)
  let ?g = "gains_scale gains (layer_id l)"
  have g: "bounded (2 ^ 8) ?g" by (rule gains_scale_bounded [OF assms(2)])
  define buf where "buf = (if layer_continuous l then cont else tran)"
  obtain l1 buf1 where r: "layer_render L buf ?g l = (l1, buf1)" by (cases "layer_render L buf ?g l")
  have "blk n buf" using Cons.prems(4,5) by (simp add: buf_def)
  from layer_render_ok [OF assms(1) _ g Cons.prems(2) _ this r] Cons.prems(1,3)
  have ok: "layer_ok l1" "length buf1 = length buf" "blk (Suc n) buf1" by simp_all
  have up: "blk (Suc n) cont" "blk (Suc n) tran" using Cons.prems(4,5) blk_Suc by auto
  let ?cont = "if layer_continuous l then buf1 else cont" and ?tran = "if layer_continuous l then tran else buf1"
  obtain ls2 c2 t2 where r2: "render_layers L gains ls ?cont ?tran = (ls2, c2, t2)" by (rule prod_cases3)
  have "list_all layer_ok ls2 \<and> length ls2 = length ls \<and> length c2 = length ?cont \<and> length t2 = length ?tran \<and>
    blk (Suc n + length ls) c2 \<and> blk (Suc n + length ls) t2"
    by (rule Cons.IH [OF _ _ _ _ _ r2]) (use Cons.prems(1-3) ok up in auto)
  then show ?case using Cons.prems(6) r r2 ok by (auto simp: buf_def Let_def split: if_splits)
qed auto

lemma layer_duck_bounded: "layer_ok l \<Longrightarrow> bounded (2 ^ 1) (layer_duck l)"
  by (auto simp: layer_ok_def layer_duck_def airborne_ok_def bounded_def split: Layer.splits)

lemma duck_bounded:
  "list_all layer_ok ls \<Longrightarrow> bounded (2 ^ n) d \<Longrightarrow> n + length ls \<le> 127 \<Longrightarrow>
    bounded (2 ^ (n + length ls)) (fold (\<lambda>l d. f_mul d (layer_duck l)) ls d)"
proof (induction ls arbitrary: n d)
  case (Cons l ls)
  have "bounded (2 ^ Suc n) (f_mul d (layer_duck l))" using bounded_mul [OF Cons.prems(2) layer_duck_bounded [of l]] Cons.prems(1,3) by simp
  from Cons.IH [OF _ this] Cons.prems(1,3) show ?case by simp
qed simp

lemma update_layers_ok:
  "libm_ok L \<Longrightarrow> tel_ok tel \<Longrightarrow> list_all layer_ok ls \<Longrightarrow> list_all layer_ok (map (layer_update L tel b) ls)"
  by (induction ls) (auto intro: layer_update_ok)

text \<open>What the mixer does with a sample of each layer.\<close>

lemma mixed_sample:
  assumes "bounded (2 ^ 26) c" "bounded (2 ^ 26) t" "bounded (2 ^ 10) duck" "bounded 1 g"
  shows "bounded 1 (f_clamp f_minus_one f_one (f_mul (f_add (f_mul c duck) t) g))"
    "f_is_zero g \<Longrightarrow> f_is_zero (f_clamp f_minus_one f_one (f_mul (f_add (f_mul c duck) t) g))"
proof -
  have "bounded (2 ^ 36) (f_mul c duck)" using bounded_mul [OF assms(1,3)] by simp
  then have m: "bounded (2 ^ 37) (f_add (f_mul c duck) t)" using bounded_add [OF _ bounded_le [OF assms(2), of 36]] by simp
  from bounded_mul1 [OF this assms(4)] have "f_is_finite (f_mul (f_add (f_mul c duck) t) g)" by (simp add: bounded_def)
  then show "bounded 1 (f_clamp f_minus_one f_one (f_mul (f_add (f_mul c duck) t) g))" by (intro clamp_full_scale) simp
  assume z: "f_is_zero g"
  have "f_mul (f_add (f_mul c duck) t) g = f_of_rat (f_neg (f_add (f_mul c duck) t) \<noteq> f_neg g) (f_val (f_add (f_mul c duck) t) * f_val g)"
    by (rule finite_mul_eq) (use m assms(4) in \<open>simp_all add: bounded_def\<close>)
  then have "f_is_zero (f_mul (f_add (f_mul c duck) t) g)" using zero_val [OF z] of_rat_zero_mag by (simp add: f_is_zero_def)
  then show "f_is_zero (f_clamp f_minus_one f_one (f_mul (f_add (f_mul c duck) t) g))"
    by (auto simp: f_clamp_def f_lt_def F32.f_key_def f_is_zero_def f_neg_def f_mag_def)
qed

lemma mixer_render_ok:
  assumes "libm_ok L" "mixer_ok mx" "tel_ok tel" "\<not> f_is_nan strength" "mixer_render L mx tel strength count = (out, mx')"
  shows "mixer_ok mx'" "length out = count" "\<forall>s\<in>set out. bounded 1 s"
    "f_is_zero (f_clamp f_zero f_one strength) \<Longrightarrow> list_all f_is_zero out"
proof -
  let ?b = "f_div (f_mul (f_of_nat count) f_thousand) SAMPLE_RATE_HZ"
  let ?ls = "map (layer_update L tel ?b) (mx_effects mx)"
  let ?g = "f_clamp f_zero f_one strength"
  define duck where "duck = fold (\<lambda>l d. f_mul d (layer_duck l)) ?ls f_one"
  obtain ls' c t where r: "render_layers L (mx_gains mx) ?ls (replicate count f_zero) (replicate count f_zero) = (ls', c, t)" by (rule prod_cases3)
  have lsok: "list_all layer_ok ?ls" using update_layers_ok [OF assms(1,3)] assms(2) by (simp add: mixer_ok_def)
  have z: "bounded (2 ^ 16) f_zero" by (simp add: bounded_def)
  have zs: "blk 16 (replicate count f_zero)" by (induction count) (simp_all add: z del: power_numeral)
  have len: "length ?ls \<le> 10" using assms(2) by (simp add: mixer_ok_def)
  have "list_all layer_ok ls' \<and> length ls' = length ?ls \<and> length c = length (replicate count f_zero) \<and> length t = length (replicate count f_zero) \<and>
    blk (16 + length ?ls) c \<and> blk (16 + length ?ls) t"
    by (rule render_layers_ok [OF assms(1) _ lsok _ _ zs zs r]) (use assms(2) in \<open>auto simp: mixer_ok_def\<close>)
  then have ok: "list_all layer_ok ls'" "length ls' \<le> 10" "length c = count" "length t = count" "blk 26 c" "blk 26 t"
    using len blk_le [of "16 + length ?ls" _ 26] by auto
  have "bounded (2 ^ 0) f_one" by (simp add: bounded_def)
  from duck_bounded [OF lsok this] len have "bounded (2 ^ length ?ls) duck" unfolding duck_def by simp
  then have d: "bounded (2 ^ 10) duck" by (rule bounded_le) (use len in simp)
  have g: "bounded 1 ?g" by (rule clamp_unit_bounded [OF assms(4)])
  let ?mix = "\<lambda>c t. f_clamp f_minus_one f_one (f_mul (f_add (f_mul c duck) t) ?g)"
  have out: "count \<noteq> 0 \<Longrightarrow> out = map2 ?mix c t" "count \<noteq> 0 \<Longrightarrow> mx' = mx\<lparr>mx_effects := ls'\<rparr>" "count = 0 \<Longrightarrow> out = [] \<and> mx' = mx"
    using assms(5) r by (auto simp: mixer_render_def Let_def duck_def split: if_splits)
  show "mixer_ok mx'" using out(2,3) ok assms(2) by (cases "count = 0") (auto simp: mixer_ok_def)
  show "length out = count" using out(1,3) ok by (cases "count = 0") auto
  have el: "bounded (2 ^ 26) x \<and> bounded (2 ^ 26) y" if "(x, y) \<in> set (zip c t)" for x y
    using that ok(5,6) by (auto simp: blk_def list_all_iff dest: set_zip_leftD set_zip_rightD)
  show "\<forall>s\<in>set out. bounded 1 s" using out(1,3) mixed_sample(1) [OF _ _ d g] el by (cases "count = 0") auto
  show "list_all f_is_zero out" if "f_is_zero ?g"
    using out(1,3) mixed_sample(2) [OF _ _ d g that] el by (cases "count = 0") (auto simp: list_all_iff)
qed

lemma burst_default_ok: "burst_ok burst_default" "bounded 2 (op_y onepole_default)" "unit_coeff 0"
  by (simp_all add: burst_ok_def burst_default_def onepole_default_def bounded_def unit_coeff_def)

lemma mixer_new_ok: "gains_ok gains \<Longrightarrow> mixer_ok (mixer_new cyls pitch gains)" "gains_ok gains \<Longrightarrow> mixer_ok (mixer_engine_only cyls pitch gains)"
proof -
  assume g: "gains_ok gains"
  have "\<not> f_is_nan (gains_scale gains EffectId.Airborne)" using gains_scale_bounded [OF g] by (simp add: bounded_def)
  from clamp_unit_range [OF this] have "unit_coeff (f_clamp f_zero f_one (gains_scale gains EffectId.Airborne))" by (simp add: unit_coeff_def)
  then show "mixer_ok (mixer_new cyls pitch gains)" using g burst_default_ok
    by (simp add: mixer_ok_def mixer_new_def layer_ok_def engine_ok_def engine_new_def rev_ok_def rev_limiter_new_def pit_ok_def pit_limiter_new_def
        gear_shift_new_def abs_ok_def abs_new_def traction_ok_def traction_new_def road_ok_def road_new_def airborne_ok_def airborne_new_def
        collision_new_def drs_new_def bounded_def [of _ 0] bounded_def [of _ f_one] f_lt_def)
  show "mixer_ok (mixer_engine_only cyls pitch gains)" using g burst_default_ok
    by (simp add: mixer_ok_def mixer_engine_only_def layer_ok_def engine_ok_def engine_new_def)
qed

end
