(* ===== verification/Mixer_Runs.thy ===== *)
theory Mixer_Runs
  imports Mixer_Props
begin

text \<open>
  Runs of the mixer and of its layers over many blocks: samples within full scale, silence at
  strength zero, the dwell of the rev limiter against its history, and that a layer whose cause is
  gone falls exactly silent.
\<close>

section \<open>Smoothers reach zero\<close>

lemma sub_from_zero:
  assumes "bounded 2 y"
  shows "f_is_finite (f_sub f_zero y)" "f_val (f_sub f_zero y) = - f_val y"
proof -
  have y: "f_is_finite y" using assms by (rule boundedD)
  have "f_val (f_sub f_zero y) \<le> f_val (f_negate y)" unfolding f_sub_def by (rule add_le) (use y in simp_all)
  moreover have "f_val (f_negate y) \<le> f_val (f_sub f_zero y)" unfolding f_sub_def by (rule add_ge) (use y in simp_all)
  ultimately show "f_val (f_sub f_zero y) = - f_val y" by simp
  have "bounded (2 ^ 1) (f_sub f_zero y)" unfolding f_sub_def by (rule bounded_add_val) (use y assms in \<open>auto simp: bounded_def\<close>)
  then show "f_is_finite (f_sub f_zero y)" by (rule boundedD)
qed

lemma rounding:
  assumes "sign_of s q" "\<bar>q\<bar> \<le> 4"
  shows "\<bar>f_val (f_of_rat s q) - q\<bar> \<le> 1 / 2 ^ 149 + \<bar>q\<bar> / 8388608"
proof -
  have "\<bar>f_val (f_of_rat s q) - q\<bar> \<le> max (1 / 2 ^ 149) (\<bar>q\<bar> / 8388608)"
    by (rule f_of_rat_error [where n = 2]) (use assms in \<open>auto simp: sign_of_def\<close>)
  also have "\<dots> \<le> 1 / 2 ^ 149 + \<bar>q\<bar> / 8388608" by (simp add: max_def)
  finally show ?thesis .
qed

text \<open>One sample towards zero takes its share of the level away, up to rounding.\<close>

lemma decay_step:
  assumes "bounded 2 y" "f_is_finite a" "k \<le> f_val a" "f_val a \<le> 1" "0 \<le> k"
  shows "\<bar>f_val (f_add y (f_mul (f_sub f_zero y) a))\<bar> \<le> \<bar>f_val y\<bar> * (1 - k + 1 / 2 ^ 20) + 1 / 2 ^ 140"
    "f_is_finite (f_add y (f_mul (f_sub f_zero y) a))"
proof -
  let ?y = "f_val y" and ?a = "f_val a" and ?d = "f_sub f_zero y"
  let ?m = "f_mul ?d a"
  have y: "f_is_finite y" "\<bar>?y\<bar> \<le> 2" using assms(1) by (simp_all add: bounded_def)
  note d = sub_from_zero [OF assms(1)]
  have q: "\<bar>f_val ?d * ?a\<bar> = \<bar>?y\<bar> * ?a" using assms d by (simp add: abs_mult)
  have ya: "\<bar>?y\<bar> * ?a \<le> \<bar>?y\<bar>" using assms(4) by (simp add: mult_left_le)
  have "\<bar>f_val ?m - f_val ?d * ?a\<bar> \<le> 1 / 2 ^ 149 + \<bar>f_val ?d * ?a\<bar> / 8388608"
    unfolding finite_mul_eq [OF d(1) assms(2)] by (rule rounding [OF mul_sign(1)]) (use q ya y in linarith)
  then have m: "\<bar>f_val ?m + ?y * ?a\<bar> \<le> 1 / 2 ^ 149 + \<bar>?y\<bar> / 8388608" using q ya d by simp
  have ba: "bounded 1 a" using assms by (simp add: bounded_def)
  have "bounded (2 ^ 1) ?d" using d y by (simp add: bounded_def)
  from bounded_mul1 [OF this ba] have fm: "f_is_finite ?m" by (simp add: bounded_def)
  have s: "\<bar>?y * (1 - ?a)\<bar> = \<bar>?y\<bar> * (1 - ?a)" using assms(4) by (simp add: abs_mult)
  have e: "?y + f_val ?m = ?y * (1 - ?a) + (f_val ?m + ?y * ?a)" by (simp add: algebra_simps)
  have sum: "\<bar>?y + f_val ?m\<bar> \<le> \<bar>?y\<bar> * (1 - ?a) + (1 / 2 ^ 149 + \<bar>?y\<bar> / 8388608)"
    unfolding e using s m by linarith
  have k: "\<bar>?y\<bar> * (1 - ?a) \<le> \<bar>?y\<bar> * (1 - k)" by (rule mult_left_mono) (use assms(3) in auto)
  have "\<bar>?y\<bar> * (1 - k) \<le> \<bar>?y\<bar>" using assms(5) by (simp add: mult_left_le)
  with sum k have two: "\<bar>?y + f_val ?m\<bar> \<le> 2 * \<bar>?y\<bar> + 1 / 2 ^ 149" by linarith
  have "(1 :: rat) / 2 ^ 149 \<le> 1 / 10" by simp
  with sum k \<open>\<bar>?y\<bar> * (1 - k) \<le> \<bar>?y\<bar>\<close> y have "\<bar>?y + f_val ?m\<bar> \<le> 4" by linarith
  then have four: "\<bar>?y + f_val ?m\<bar> \<le> 2 ^ 2" by simp
  from bounded_add_val [OF y(1) fm four] show "f_is_finite (f_add y ?m)" by (simp add: bounded_def)
  have "\<bar>f_val (f_add y ?m) - (?y + f_val ?m)\<bar> \<le> 1 / 2 ^ 149 + \<bar>?y + f_val ?m\<bar> / 8388608"
    unfolding finite_add_eq [OF y(1) fm] by (rule rounding [OF add_sign]) (use four in simp)
  moreover have "\<bar>?y + f_val ?m\<bar> / 8388608 \<le> 2 * \<bar>?y\<bar> / 8388608 + 1 / 2 ^ 149" using two by simp
  ultimately have "\<bar>f_val (f_add y ?m)\<bar> \<le> \<bar>?y\<bar> * (1 - k) + 3 * \<bar>?y\<bar> / 8388608 + 3 / 2 ^ 149"
    using sum k by linarith
  also have "\<dots> \<le> \<bar>?y\<bar> * (1 - k + 1 / 2 ^ 20) + 1 / 2 ^ 140" by (simp add: algebra_simps)
  finally show "\<bar>f_val (f_add y ?m)\<bar> \<le> \<bar>?y\<bar> * (1 - k + 1 / 2 ^ 20) + 1 / 2 ^ 140" .
qed

lemma snap_val: "f_is_finite SMOOTH_SNAP" "1 / 2 ^ 20 \<le> f_val SMOOTH_SNAP"
  by (simp_all add: SMOOTH_SNAP_def f_val_def f_neg_def f_mag_def units_def Let_def f_is_finite_def F_INF_def)

lemma abs_val: "f_val (f_abs x) = \<bar>f_val x\<bar>" "f_is_finite (f_abs x) = f_is_finite x"
  by (simp_all add: f_val_def f_is_finite_def)

lemma onepole_zero_step:
  assumes "bounded 2 (op_y p)" "f_is_finite a" "k \<le> f_val a" "f_val a \<le> 1" "1 / 2 ^ 10 \<le> k"
  shows "op_y (onepole_step f_zero a p) = f_zero \<or>
    bounded 2 (op_y (onepole_step f_zero a p)) \<and> 1 / 2 ^ 20 \<le> \<bar>f_val (op_y (onepole_step f_zero a p))\<bar> \<and>
    \<bar>f_val (op_y (onepole_step f_zero a p))\<bar> \<le> \<bar>f_val (op_y p)\<bar> * (1 - k + 1 / 2 ^ 19)"
proof (cases "op_y (onepole_step f_zero a p) = f_zero")
  case False
  define y where "y = f_add (op_y p) (f_mul (f_sub f_zero (op_y p)) a)"
  have k: "0 \<le> k" using assms(5) by (rule order_trans [rotated]) simp
  note d = decay_step [OF assms(1-4) k, folded y_def]
  have st: "op_y (onepole_step f_zero a p) = y" and ns: "\<not> f_lt (f_abs (f_sub f_zero y)) SMOOTH_SNAP"
    using False by (simp_all add: onepole_step_def Let_def y_def split: if_splits)
  have "unit_coeff a" using assms(2-4) k by (simp add: unit_coeff_def)
  from onepole_unit [OF lit_targets(2) assms(1) this] have b: "bounded 2 y" by (simp add: st)
  from sub_from_zero [OF b] have "f_is_finite (f_abs (f_sub f_zero y))" "f_val (f_abs (f_sub f_zero y)) = \<bar>f_val y\<bar>"
    by (simp_all add: abs_val)
  with ns snap_val have big: "1 / 2 ^ 20 \<le> \<bar>f_val y\<bar>" by (simp add: f_key_val)
  have "\<bar>f_val (op_y p)\<bar> * (1 - k + 1 / 2 ^ 20) \<le> \<bar>f_val (op_y p)\<bar> * (1 + 1 / 2 ^ 20)" by (rule mult_left_mono) (use k in auto)
  with d(1) big have "1 / 2 ^ 21 \<le> \<bar>f_val (op_y p)\<bar>" by (simp add: algebra_simps)
  then have "\<bar>f_val (op_y p)\<bar> * (1 - k + 1 / 2 ^ 20) + 1 / 2 ^ 140 \<le> \<bar>f_val (op_y p)\<bar> * (1 - k + 1 / 2 ^ 19)"
    by (simp add: algebra_simps)
  from order_trans [OF d(1) this] b big show ?thesis unfolding st by blast
qed simp

text \<open>After enough samples the level is the zero the layer asked for, and it stays.\<close>

lemma zero_stays:
  assumes "unit_coeff a" "op_y p = f_zero"
  shows "op_y (onepole_step f_zero a p) = f_zero"
proof (rule ccontr)
  assume n: "op_y (onepole_step f_zero a p) \<noteq> f_zero"
  define y where "y = f_add (op_y p) (f_mul (f_sub f_zero (op_y p)) a)"
  have b: "bounded 2 (op_y p)" using assms(2) by (simp add: bounded_def)
  note d = decay_step [OF b, of a 0, folded y_def]
  have "\<bar>f_val y\<bar> \<le> 1 / 2 ^ 140" using d assms by (simp add: unit_coeff_def)
  moreover have "op_y (onepole_step f_zero a p) = y" "\<not> f_lt (f_abs (f_sub f_zero y)) SMOOTH_SNAP"
    using n by (simp_all add: onepole_step_def Let_def y_def split: if_splits)
  moreover have "bounded 2 y" using onepole_unit [OF lit_targets(2) b assms(1)] calculation(2) by simp
  moreover have "\<not> (1 :: rat) / 2 ^ 20 \<le> 1 / 2 ^ 140" by simp
  ultimately show False using sub_from_zero [of y] snap_val by (simp add: f_key_val abs_val)
qed

lemma zero_stays_run: "unit_coeff a \<Longrightarrow> op_y p = f_zero \<Longrightarrow> op_y ((onepole_step f_zero a ^^ n) p) = f_zero"
  by (induction n) (simp_all add: zero_stays)

lemma level_run:
  assumes "f_is_finite a" "k \<le> f_val a" "f_val a \<le> 1" "1 / 2 ^ 10 \<le> k" "bounded 2 (op_y p)"
  shows "op_y ((onepole_step f_zero a ^^ n) p) = f_zero \<or>
    bounded 2 (op_y ((onepole_step f_zero a ^^ n) p)) \<and>
    \<bar>f_val (op_y ((onepole_step f_zero a ^^ n) p))\<bar> \<le> 2 * (1 - k + 1 / 2 ^ 19) ^ n \<and>
    (n \<noteq> 0 \<longrightarrow> 1 / 2 ^ 20 \<le> \<bar>f_val (op_y ((onepole_step f_zero a ^^ n) p))\<bar>)"
proof (induction n)
  case 0
  then show ?case using assms(5) by (simp add: bounded_def)
next
  case (Suc n)
  let ?p = "(onepole_step f_zero a ^^ n) p" and ?r = "1 - k + 1 / 2 ^ 19 :: rat"
  have k: "0 \<le> k" using assms(4) by (rule order_trans [rotated]) simp
  have u: "unit_coeff a" using assms(1-3) k by (simp add: unit_coeff_def)
  show ?case
  proof (cases "op_y ?p = f_zero")
    case True
    then show ?thesis using zero_stays [OF u] by simp
  next
    case False
    then have b: "bounded 2 (op_y ?p)" and v: "\<bar>f_val (op_y ?p)\<bar> \<le> 2 * ?r ^ n" using Suc.IH by blast+
    have "\<bar>f_val (op_y ?p)\<bar> * ?r \<le> 2 * ?r ^ n * ?r" by (rule mult_right_mono [OF v]) (use assms(2,3) in simp)
    with onepole_zero_step [OF b assms(1-4)] show ?thesis by (auto simp: mult_ac)
  qed
qed


lemma level_gone:
  assumes "f_is_finite a" "1 / 81 \<le> f_val a" "f_val a \<le> 1" "bounded 2 (op_y p)" "1386 \<le> n"
  shows "op_y ((onepole_step f_zero a ^^ n) p) = f_zero"
proof (rule ccontr)
  let ?y = "op_y ((onepole_step f_zero a ^^ n) p)"
  define r where "r = (1 - 1 / 81 + 1 / 2 ^ 19 :: rat)"
  have r: "0 \<le> r" "r \<le> 89 / 90" by (simp_all add: r_def)
  assume "?y \<noteq> f_zero"
  with level_run [OF assms(1-3) _ assms(4), of n] assms(5)
  have y: "1 / 2 ^ 20 \<le> \<bar>f_val ?y\<bar>" "\<bar>f_val ?y\<bar> \<le> 2 * r ^ n" by (auto simp: r_def)
  have "r ^ n \<le> r ^ (63 * 22)" by (rule power_decreasing) (use assms(5) r in auto)
  moreover have "r ^ 63 \<le> (89 / 90) ^ 63" by (rule power_mono) (use r in auto)
  then have "r ^ 63 \<le> 1 / 2" by (rule order_trans) (simp add: power_divide)
  then have "(r ^ 63) ^ 22 \<le> (1 / 2) ^ 22" by (rule power_mono) (use r in simp)
  moreover have "(r ^ 63) ^ 22 = r ^ (63 * 22)" by (simp only: power_mult)
  ultimately have "2 * r ^ n \<le> 2 * (1 / 2) ^ 22" by linarith
  moreover have "2 * (1 / 2) ^ 22 < (1 :: rat) / 2 ^ 20" by (simp add: power_divide)
  ultimately show False using y by linarith
qed

section \<open>Layers fall silent\<close>

lemma zero_mul: "f_is_zero x \<Longrightarrow> f_is_finite y \<Longrightarrow> f_is_zero (f_mul x y) \<and> f_is_zero (f_mul y x)"
proof -
  assume x: "f_is_zero x" and y: "f_is_finite y"
  have "f_is_finite x" using x by (simp add: f_is_zero_def f_is_finite_def F_INF_def)
  then show ?thesis using zero_val [OF x] of_rat_zero_mag y by (simp add: finite_mul_eq f_is_zero_def)
qed

lemma zero_add: "f_is_zero x \<Longrightarrow> f_is_zero y \<Longrightarrow> f_is_zero (f_add x y)"
proof -
  assume z: "f_is_zero x" "f_is_zero y"
  have "f_is_finite x" "f_is_finite y" using z by (simp_all add: f_is_zero_def f_is_finite_def F_INF_def)
  then show ?thesis using zero_val [OF z(1)] zero_val [OF z(2)] of_rat_zero_mag by (simp add: finite_add_eq f_is_zero_def)
qed

lemma square_loop_level:
  "square_loop target a step shape gain out phase lev = (p, l, out') \<Longrightarrow> l = (onepole_step target a ^^ length out) lev"
  by (induction out arbitrary: phase lev p l out') (auto simp: Let_def funpow_swap1 split: prod.splits)

lemma square_loop_silent:
  assumes "unit_coeff a" "f_is_finite gain" "\<And>x. f_is_zero x \<Longrightarrow> f_is_zero (shape x)"
  shows "op_y lev = f_zero \<Longrightarrow> list_all f_is_zero out \<Longrightarrow> square_loop f_zero a step shape gain out phase lev = (p, l, out') \<Longrightarrow> list_all f_is_zero out'"
proof (induction out arbitrary: phase lev p l out')
  case (Cons slot out)
  let ?sq = "if f_lt phase f_half then f_one else f_minus_one"
  have z: "op_y (onepole_step f_zero a lev) = f_zero" by (rule zero_stays [OF assms(1) Cons.prems(1)])
  have "f_is_zero (f_mul ?sq f_zero)" using zero_mul [of f_zero] by (simp add: f_is_zero_def f_mag_def)
  from zero_mul [OF assms(3) [OF this] assms(2)] have "f_is_zero (f_mul (shape (f_mul ?sq f_zero)) gain)" ..
  with Cons.prems z have "f_is_zero (f_add slot (f_mul (shape (f_mul ?sq (op_y (onepole_step f_zero a lev)))) gain))"
    by (simp add: zero_add)
  with Cons.prems Cons.IH [OF z] show ?case by (auto simp: Let_def split: prod.splits)
qed simp

lemma rev_smoothing: "1 / 81 \<le> f_val (smoothing_for 0x41a00000)"
proof -
  define ms where "ms = (0x41a00000 :: f32)"
  have lit: "f_is_finite ms" "f_val ms = 20" "f_is_finite 0x479c4000" "f_val 0x479c4000 = 80000"
    "f_is_finite 0x42a00000" "f_val 0x42a00000 = 80" "f_is_finite 0x3c4ccccc" "1 / 81 \<le> f_val 0x3c4ccccc" "f_val 0x3c4ccccc \<le> 1 / 80"
    by (simp_all add: ms_def f_val_def f_neg_def f_mag_def units_def Let_def f_is_finite_def F_INF_def)
  have z: "\<not> f_is_zero f_thousand" by (simp add: f_is_zero_def f_mag_def)
  have mx: "f_max ms f_one = ms" using lit(1,2) by (simp add: f_max_def f_key_val)
  define m where "m = f_mul ms SAMPLE_RATE_HZ"
  define d where "d = f_div m f_thousand"
  have b: "bounded (2 ^ 5) ms" "bounded (2 ^ 12) SAMPLE_RATE_HZ" using lit(1,2) by (simp_all add: bounded_def)
  from bounded_mul [OF this] have m: "bounded (2 ^ 17) m" by (simp add: m_def)
  from bounded_div [OF this, of f_thousand 0] have fd: "f_is_finite d" by (simp add: d_def bounded_def)
  have fm: "f_is_finite m" using m by (rule boundedD)
  have "f_val m \<le> f_val 0x479c4000" unfolding m_def by (rule mul_le) (use lit in auto)
  moreover have "f_val 0x479c4000 \<le> f_val m" unfolding m_def by (rule mul_ge) (use lit in auto)
  ultimately have vm: "f_val m = 80000" using lit by simp
  have "f_val d \<le> f_val 0x42a00000" unfolding d_def by (rule div_le) (use lit vm fm z in auto)
  moreover have "f_val 0x42a00000 \<le> f_val d" unfolding d_def by (rule div_ge) (use lit vm fm z in auto)
  ultimately have vd: "f_val d = 80" using lit by simp
  then have zd: "\<not> f_is_zero d" using zero_val [of d] by auto
  have q: "f_val 0x3c4ccccc \<le> f_val (f_div f_one d)" by (rule div_ge) (use lit vd fd zd in auto)
  have "bounded (2 ^ 0) (f_div f_one d)" using bounded_div [of 0 f_one d 0] fd vd by (simp add: bounded_def)
  then have "f_is_finite (f_div f_one d)" by (rule boundedD)
  then show ?thesis using q lit(8) unfolding smoothing_for_def ms_def [symmetric] mx m_def [symmetric] d_def [symmetric]
    by (simp add: f_clamp_def f_key_val)
qed

lemma rev_render_sel:
  assumes "rev_limiter_render out gain r = (r', out')"
  shows "rl_engaged r' = rl_engaged r"
    "rl_level r' = (onepole_step (if rl_engaged r then f_one else f_zero) (smoothing_for 0x41a00000) ^^ length out) (rl_level r)"
  using assms square_loop_level by (auto simp: rev_limiter_render_def split: prod.splits)

text \<open>A run of blocks of a layer that adds to silence.\<close>

definition rev_blocks :: "f32 \<Rightarrow> nat list \<Rightarrow> RevLimiter \<Rightarrow> RevLimiter" where
  "rev_blocks gain ks r = fold (\<lambda>k r. fst (rev_limiter_render (replicate k f_zero) gain r)) ks r"

lemma rev_blocks_level:
  "\<not> rl_engaged r \<Longrightarrow> \<not> rl_engaged (rev_blocks gain ks r) \<and>
    rl_level (rev_blocks gain ks r) = (onepole_step f_zero (smoothing_for 0x41a00000) ^^ sum_list ks) (rl_level r)"
proof (induction ks arbitrary: r)
  case (Cons k ks)
  obtain r' out' where e: "rev_limiter_render (replicate k f_zero) gain r = (r', out')" by (cases "rev_limiter_render (replicate k f_zero) gain r")
  from rev_render_sel [OF e] Cons.prems
  have "\<not> rl_engaged r'" and l: "rl_level r' = (onepole_step f_zero (smoothing_for 0x41a00000) ^^ k) (rl_level r)" by auto
  from Cons.IH [OF this(1)] show ?case
    using e l by (simp add: rev_blocks_def add.commute [of k] funpow_add)
qed (simp add: rev_blocks_def)

text \<open>C21. 
  A rev limiter that has let go falls exactly silent. The smoother that ends its buzz is an
  exponential approach in single precision, which would emit ever smaller samples for ever; the
  snap makes it arrive. However the daemon cuts the time into blocks, after 1386 samples (under 350
  ms of the stream) its level is zero, and every block after that adds nothing but zeros, at
  whatever level and phase it was when it let go.
\<close>

theorem rev_limiter_falls_silent:
  assumes "rev_ok r" "\<not> rl_engaged r" "f_is_finite gain" "1386 \<le> sum_list ks"
  shows "op_y (rl_level (rev_blocks gain ks r)) = f_zero \<and>
    list_all f_is_zero (snd (rev_limiter_render (replicate n f_zero) gain (rev_blocks gain ks r)))"
proof -
  let ?a = "smoothing_for 0x41a00000" and ?r = "rev_blocks gain ks r"
  have a: "unit_coeff ?a" by (rule unit_smoothing [OF lit_unit(5)])
  have l: "\<not> rl_engaged ?r" "rl_level ?r = (onepole_step f_zero ?a ^^ sum_list ks) (rl_level r)"
    using rev_blocks_level [OF assms(2)] by auto
  have z: "op_y (rl_level ?r) = f_zero" unfolding l(2)
    by (rule level_gone [OF _ rev_smoothing _ _ assms(4)]) (use a assms(1) in \<open>auto simp: unit_coeff_def rev_ok_def\<close>)
  have "list_all f_is_zero (replicate n f_zero)" by (simp add: list_all_iff f_is_zero_def f_mag_def)
  with square_loop_silent [OF a assms(3) _ z] l(1)
  have "list_all f_is_zero (snd (rev_limiter_render (replicate n f_zero) gain ?r))"
    by (auto simp: rev_limiter_render_def split: prod.splits)
  with z show ?thesis ..
qed

theorem rev_limiter_falls_silent_witness:
  "op_y (rl_level (rev_blocks f_one (replicate 7 200) (rev_limiter_new\<lparr>rl_level := \<lparr>op_y = f_one\<rparr>\<rparr>))) = f_zero \<and>
   list_all f_is_zero (snd (rev_limiter_render (replicate 200 f_zero) f_one
     (rev_blocks f_one (replicate 7 200) (rev_limiter_new\<lparr>rl_level := \<lparr>op_y = f_one\<rparr>\<rparr>))))"
  by (rule rev_limiter_falls_silent) (simp_all add: rev_ok_def rev_limiter_new_def bounded_def sum_list_replicate)

section \<open>The dwell of the rev limiter\<close>

definition rev_history :: "(Telemetry \<times> f32) list \<Rightarrow> RevLimiter" where
  "rev_history h = fold (\<lambda>(tel, block_ms) r. rev_limiter_update tel block_ms r) h rev_limiter_new"

definition block_time :: "Telemetry \<times> f32 \<Rightarrow> nat" where "block_time b = f_to_nat U32_MAX (f_max (snd b) f_zero)"

text \<open>Sample \<open>i\<close> sits at the limit, and the redline has not moved since the sample before it.\<close>

definition rev_calm :: "(Telemetry \<times> f32) list \<Rightarrow> nat \<Rightarrow> bool" where
  "rev_calm h i \<longleftrightarrow> rev_at_limit (fst (h ! i)) \<and> rev_settled (fst (h ! i)) (if i = 0 then f_zero else t_max_rpm (fst (h ! (i - 1))))"

definition calm_since :: "nat \<Rightarrow> (Telemetry \<times> f32) list \<Rightarrow> nat \<Rightarrow> bool" where
  "calm_since m h k \<longleftrightarrow> k \<le> length h \<and> list_all (rev_calm h) [k..<length h] \<and> m \<le> sum_list (map block_time (drop k h))"

lemma rev_history_snoc: "rev_history (h @ [b]) = rev_limiter_update (fst b) (snd b) (rev_history h)"
  by (simp add: rev_history_def case_prod_beta)

lemma rev_history_max: "rl_last_max_rpm (rev_history h) = (if h = [] then f_zero else t_max_rpm (fst (last h)))"
proof (cases h rule: rev_cases)
  case Nil
  then show ?thesis by (simp add: rev_history_def rev_limiter_new_def)
next
  case (snoc h' b)
  then show ?thesis by (simp add: rev_history_snoc rev_limiter_update_def Let_def)
qed

lemma rev_calm_prefix: "i < length h \<Longrightarrow> rev_calm (h @ [b]) i = rev_calm h i"
proof -
  assume i: "i < length h"
  then have "i - 1 < length h" by linarith
  with i show ?thesis by (simp add: rev_calm_def nth_append)
qed

lemma rev_calm_last:
  "rev_calm (h @ [b]) (length h) \<longleftrightarrow> rev_at_limit (fst b) \<and> rev_settled (fst b) (rl_last_max_rpm (rev_history h))"
  by (auto simp: rev_calm_def rev_history_max nth_append last_conv_nth)

lemma calm_since_snoc:
  assumes "rev_calm (h @ [b]) (length h)"
  shows "(\<exists>k. calm_since m (h @ [b]) k) \<longleftrightarrow> (\<exists>k. calm_since (m - block_time b) h k)"
proof -
  have pre: "list_all (rev_calm (h @ [b])) [k..<length h] = list_all (rev_calm h) [k..<length h]" for k
    by (simp add: list_all_iff rev_calm_prefix)
  have "calm_since m (h @ [b]) k \<longleftrightarrow> calm_since (m - block_time b) h k" if "k \<le> length h" for k
    using that assms pre [of k] by (auto simp: calm_since_def)
  moreover have "calm_since m (h @ [b]) (length h)" if "calm_since m (h @ [b]) (Suc (length h))"
    using that assms by (auto simp: calm_since_def)
  moreover have "k \<le> Suc (length h)" if "calm_since m (h @ [b]) k" for k using that by (simp add: calm_since_def)
  moreover have "k \<le> length h" if "calm_since (m - block_time b) h k" for k using that by (simp add: calm_since_def)
  ultimately show ?thesis by (metis le_SucE le_refl)
qed

lemma rev_dwell_spec: "m \<le> U32_MAX \<Longrightarrow> m \<le> rl_dwell (rev_history h) \<longleftrightarrow> (\<exists>k. calm_since m h k)"
proof (induction h arbitrary: m rule: rev_induct)
  case Nil
  then show ?case by (auto simp: rev_history_def rev_limiter_new_def calm_since_def)
next
  case (snoc b h)
  show ?case
  proof (cases "rev_calm (h @ [b]) (length h)")
    case True
    then have "rl_dwell (rev_history (h @ [b])) = min U32_MAX (rl_dwell (rev_history h) + block_time b)"
      by (simp add: rev_calm_last rev_history_snoc rev_limiter_update_def block_time_def)
    then have "m \<le> rl_dwell (rev_history (h @ [b])) \<longleftrightarrow> m - block_time b \<le> rl_dwell (rev_history h)" using snoc.prems by auto
    then show ?thesis using snoc.IH [of "m - block_time b"] snoc.prems calm_since_snoc [OF True] by simp
  next
    case False
    then have "rl_dwell (rev_history (h @ [b])) = 0" unfolding rev_calm_last by (auto simp: rev_history_snoc rev_limiter_update_def Let_def)
    moreover have "m = 0" if c: "calm_since m (h @ [b]) k" for k
    proof -
      have "k = Suc (length h)" using c False by (auto simp: calm_since_def list_all_iff split: if_splits)
      with c show ?thesis by (simp add: calm_since_def)
    qed
    moreover have "calm_since 0 (h @ [b]) (Suc (length h))" by (simp add: calm_since_def)
    ultimately show ?thesis by (metis le_zero_eq)
  qed
qed

text \<open>C20. 
  When the rev limiter cuts. After any history of samples and blocks the layer is engaged exactly
  when the history ends in a stretch of samples that all sit within two per cent of the redline,
  with a redline that does not move from one sample to the next, and the blocks of that stretch
  last 150 ms or more. So an acceleration, during which a learned redline follows the engine, never
  sets it off, and the saturating counter of the code loses nothing.
\<close>

theorem rev_limiter_needs_a_dwell:
  "rl_engaged (rev_history h) \<longleftrightarrow>
     (\<exists>k\<le>length h. list_all (rev_calm h) [k..<length h] \<and> REV_LIMIT_DWELL_MS \<le> sum_list (map block_time (drop k h)))"
proof -
  have "rl_engaged (rev_history h) \<longleftrightarrow> REV_LIMIT_DWELL_MS \<le> rl_dwell (rev_history h)"
  proof (cases h rule: rev_cases)
    case Nil
    then show ?thesis by (simp add: rev_history_def rev_limiter_new_def REV_LIMIT_DWELL_MS_def)
  next
    case (snoc h' b)
    then show ?thesis by (simp add: rev_history_snoc rev_limiter_update_def Let_def)
  qed
  also have "\<dots> \<longleftrightarrow> (\<exists>k. calm_since REV_LIMIT_DWELL_MS h k)" by (rule rev_dwell_spec) (simp add: REV_LIMIT_DWELL_MS_def U32_MAX_def)
  finally show ?thesis by (auto simp: calm_since_def)
qed

section \<open>Runs of the mixer\<close>

text \<open>What the daemon's loop asks of the mixer: a telemetry sample, a strength and a count for every block.\<close>

fun mixer_blocks :: "libm \<Rightarrow> Mixer \<Rightarrow> (Telemetry \<times> f32 \<times> nat) list \<Rightarrow> f32 list" where
  "mixer_blocks L mx [] = []"
| "mixer_blocks L mx ((tel, strength, count) # bs) =
     (case mixer_render L mx tel strength count of (out, mx') \<Rightarrow> out @ mixer_blocks L mx' bs)"

definition block_ok :: "Telemetry \<times> f32 \<times> nat \<Rightarrow> bool" where
  "block_ok b = (case b of (tel, strength, count) \<Rightarrow> tel_ok tel \<and> \<not> f_is_nan strength)"

lemma mixer_blocks_ok:
  assumes "libm_ok L"
  shows "mixer_ok mx \<Longrightarrow> list_all block_ok bs \<Longrightarrow>
    length (mixer_blocks L mx bs) = sum_list (map (snd \<circ> snd) bs) \<and> list_all (bounded 1) (mixer_blocks L mx bs)"
proof (induction bs arbitrary: mx)
  case (Cons b bs)
  obtain tel strength count where b: "b = (tel, strength, count)" by (cases b)
  obtain out mx' where r: "mixer_render L mx tel strength count = (out, mx')" by (cases "mixer_render L mx tel strength count")
  have t: "tel_ok tel" "\<not> f_is_nan strength" using Cons.prems(2) b by (simp_all add: block_ok_def)
  note ok = mixer_render_ok [OF assms Cons.prems(1) t r]
  show ?case using Cons.IH [OF ok(1)] Cons.prems(2) ok(2,3) b r by (auto simp: list_all_iff)
qed simp

text \<open>
  The stream the mixer emits is within full scale. From a new mixer, with all the layers or with
  the engine alone, at any gains the configuration can hold and whatever telemetry follows, the
  blocks hold as many samples as were asked for, and every one of them is a finite number between
  \<open>-1\<close> and \<open>1\<close>: no combination of layers, no NaN throttle or wheel slip and no phase the oscillators
  reach makes a sample that is not. The sine, the exponential and the power of the platform are
  only asked to stay in their ranges.
\<close>

theorem mixer_within_full_scale:
  assumes "libm_ok L" "gains_ok gains" "list_all block_ok bs"
    and "mx = mixer_new cyls pitch gains \<or> mx = mixer_engine_only cyls pitch gains"
  shows "length (mixer_blocks L mx bs) = sum_list (map (snd \<circ> snd) bs) \<and> list_all (bounded 1) (mixer_blocks L mx bs)"
  by (rule mixer_blocks_ok) (use assms mixer_new_ok in auto)

text \<open>A mathematical library good enough for the stream.\<close>

definition plain_libm :: libm where
  "plain_libm = \<lparr>lm_sin = f_clamp f_minus_one f_one, lm_exp = (\<lambda>_. f_one), lm_powf = (\<lambda>b n. b)\<rparr>"

lemma plain_libm_ok: "libm_ok plain_libm"
  by (auto simp: libm_ok_def plain_libm_def intro: clamp_full_scale) (simp add: bounded_def)

lemma default_gains_ok: "gains_ok EffectGains_default"
  by (simp add: gains_ok_def gains_default_eq gains_default_def EFFECTS_def)

lemma demo_blocks_ok: "list_all block_ok [(telemetry_default, f_one, 4), (telemetry_default, f_half, 8)]"
  by (simp add: block_ok_def tel_ok_def telemetry_default_def)

theorem mixer_within_full_scale_witness:
  "length (mixer_blocks plain_libm (mixer_new 4 f_one EffectGains_default) [(telemetry_default, f_one, 4), (telemetry_default, f_half, 8)]) = 12 \<and>
   list_all (bounded 1) (mixer_blocks plain_libm (mixer_new 4 f_one EffectGains_default) [(telemetry_default, f_one, 4), (telemetry_default, f_half, 8)])"
  using mixer_within_full_scale [OF plain_libm_ok default_gains_ok demo_blocks_ok, of "mixer_new 4 f_one EffectGains_default" 4 f_one]
  by (simp del: mixer_blocks.simps)

lemma clamp_nonpos: "f_le x f_zero \<Longrightarrow> f_is_zero (f_clamp f_zero f_one x) \<and> \<not> f_is_nan x"
proof -
  assume x: "f_le x f_zero"
  then have n: "\<not> f_is_nan x" by (simp add: f_le_def)
  show ?thesis
  proof (cases "f_lt x f_zero")
    case True
    then show ?thesis using n by (simp add: f_clamp_def f_is_zero_def f_mag_def)
  next
    case False
    with x have "F32.f_key x = 0" by (simp add: f_le_def f_lt_def F32.f_key_def f_mag_def f_neg_def split: if_splits)
    then have "f_is_zero x" by (simp add: F32.f_key_def f_is_zero_def split: if_splits)
    with False n show ?thesis using zero_val [of x] by (auto simp: f_clamp_def f_is_zero_def f_lt_def F32.f_key_def f_mag_def f_neg_def)
  qed
qed

lemma mixer_blocks_silent:
  assumes "libm_ok L"
  shows "mixer_ok mx \<Longrightarrow> list_all (\<lambda>(tel, strength, count). tel_ok tel \<and> f_le strength f_zero) bs \<Longrightarrow> list_all f_is_zero (mixer_blocks L mx bs)"
proof (induction bs arbitrary: mx)
  case (Cons b bs)
  obtain tel strength count where b: "b = (tel, strength, count)" by (cases b)
  obtain out mx' where r: "mixer_render L mx tel strength count = (out, mx')" by (cases "mixer_render L mx tel strength count")
  have t: "tel_ok tel" and z: "f_is_zero (f_clamp f_zero f_one strength)" "\<not> f_is_nan strength" using Cons.prems(2) b clamp_nonpos by auto
  note ok = mixer_render_ok [OF assms Cons.prems(1) t z(2) r]
  show ?case using Cons.IH [OF ok(1)] Cons.prems(2) ok(4) [OF z(1)] b r by (auto simp: list_all_iff)
qed simp

text \<open>
  Strength zero is exact silence. A mixer that renders at a strength of zero or below, the master
  level or the level of one game, emits only zeros, whatever its layers are in the middle of.
\<close>

theorem zero_strength_is_silence:
  assumes "libm_ok L" "mixer_ok mx" "list_all (\<lambda>(tel, strength, count). tel_ok tel \<and> f_le strength f_zero) bs"
  shows "list_all f_is_zero (mixer_blocks L mx bs)"
  by (rule mixer_blocks_silent [OF assms])

theorem zero_strength_is_silence_witness:
  "list_all f_is_zero (mixer_blocks plain_libm (mixer_new 8 f_two EffectGains_default)
     [(telemetry_default\<lparr>t_rpm := 0x45bb8000, t_throttle := f_one\<rparr>, f_zero, 200)])"
  by (rule zero_strength_is_silence [OF plain_libm_ok mixer_new_ok(1) [OF default_gains_ok]])
    (simp add: tel_ok_def telemetry_default_def f_le_def F32.f_key_def f_is_nan_def f_mag_def f_neg_def)

section \<open>The pitch of the note and the noise\<close>

text \<open>
  The fundamental of the engine note is a finite number of at most 1800 Hz, below the Nyquist rate
  of the stream, and not negative, for every engine speed, cylinder count and pitch there is, the
  infinities and the NaN of a broken packet included.
\<close>

theorem firing_frequency_below_nyquist:
  "f_is_finite (firing_frequency rpm cyls pitch) \<and> f_le f_zero (firing_frequency rpm cyls pitch) \<and>
   f_lt (firing_frequency rpm cyls pitch) NYQUIST_HZ \<and> f_val (firing_frequency rpm cyls pitch) \<le> 1800"
proof -
  note r = firing_frequency_range [of rpm cyls pitch]
  have "f_lt (firing_frequency rpm cyls pitch) NYQUIST_HZ" using r nyquist by (simp add: f_key_val)
  moreover have "f_le f_zero (firing_frequency rpm cyls pitch)" using r by (simp add: f_le_val)
  ultimately show ?thesis using r by blast
qed

fun noise_run :: "nat \<Rightarrow> Noise \<Rightarrow> f32 list \<times> Noise" where
  "noise_run 0 n = ([], n)"
| "noise_run (Suc k) n = (let (x, n') = noise_next n; (xs, n'') = noise_run k n' in (x # xs, n''))"

text \<open>
  The noise behind the slip and surface layers never dies. From every seed the generator starts in
  a nonzero state and no number of samples brings it to zero, where an xorshift is stuck and the
  layers would feel like one constant push, and each sample lies between \<open>-1\<close> and \<open>1\<close>.
\<close>

theorem noise_never_sticks:
  "nz_state (snd (noise_run k (noise_new seed))) \<noteq> 0 \<and> list_all (bounded 1) (fst (noise_run k (noise_new seed)))"
proof -
  have "nz_state n \<noteq> 0 \<Longrightarrow> nz_state (snd (noise_run k n)) \<noteq> 0 \<and> list_all (bounded 1) (fst (noise_run k n))" for n
  proof (induction k arbitrary: n)
    case (Suc k)
    obtain x n' where x: "noise_next n = (x, n')" by (cases "noise_next n")
    then have "nz_state n' \<noteq> 0" using xorshift_nonzero [OF Suc.prems] by (auto simp: noise_next_def Let_def)
    from Suc.IH [OF this] noise_bounded [OF x] show ?case using x by (auto split: prod.splits)
  qed simp
  moreover have "nz_state (noise_new seed) \<noteq> 0"
  proof
    assume "nz_state (noise_new seed) = 0"
    then have "bit (seed OR 1) 0 = bit (0 :: u32) 0" by (simp add: noise_new_def)
    then show False by (simp add: bit_or_iff)
  qed
  ultimately show ?thesis by blast
qed

end
