(* ===== verification/Daemon_Mix.thy ===== *)
theory Daemon_Mix
  imports Daemon_Runs Mixer_Runs
begin

text \<open>
  The daemon with its mixer. The parameter of the theory \<open>Daemon\<close> is instantiated by the mixer of
  \<open>Effects\<close>, made and asked the way \<open>daemon.rs\<close> makes and asks it; what holds of the decoders, of the
  configuration, of the game's own strength and of the layers then gives what holds of every sample
  that reaches the wheel.
\<close>

definition sim_mixer :: "libm \<Rightarrow> Mixer mixer" where
  "sim_mixer L =
     \<lparr>m_new = (\<lambda>full cyls pitch gains. if full then mixer_new cyls pitch gains else mixer_engine_only cyls pitch gains),
      m_render = mixer_render L\<rparr>"

section \<open>The strength\<close>

definition gain_ok :: "GameGain \<Rightarrow> bool" where "gain_ok g \<longleftrightarrow> f_is_finite (gg_value g)"

lemma percent_finite: "n \<le> 128 \<Longrightarrow> bounded (2 ^ 7) (f_of_nat n) \<and> bounded (2 ^ 7) (f_div (f_of_nat n) F_HUNDRED)"
proof -
  assume n: "n \<le> 128"
  have b: "bounded (2 ^ 7) (f_of_nat n)" by (rule f_of_nat_bounded) (use n in auto)
  have "f_is_finite F_HUNDRED" "1 / 2 ^ 0 \<le> \<bar>f_val F_HUNDRED\<bar>"
    by (simp_all add: f_val_def f_neg_def f_mag_def units_def Let_def f_is_finite_def F_INF_def F_HUNDRED_def)
  with bounded_div [OF b, of F_HUNDRED 0] b show ?thesis by simp
qed

lemma gain_scale_ok:
  assumes "gain_ok g" "gain_scale read now g = (sc, g')"
  shows "f_is_finite sc" "gain_ok g'"
  using assms percent_finite [of "min _ 100"]
  by (auto simp: gain_scale_def gain_ok_def bounded_def Let_def split: option.splits if_splits)

lemma gain_new_ok: "gain_ok (gain_new owner on now)" by (simp add: gain_ok_def gain_new_def)

lemma effective_unit:
  assumes "config_ok cfg"
  shows "bounded 1 (effective_intensity cfg game)"
proof -
  define g where "g = (case map_of (games cfg) game of None \<Rightarrow> DEFAULT_GAME_INTENSITY | Some g \<Rightarrow> g_intensity g)"
  have "g_intensity x \<le> 100" if "map_of (games cfg) game = Some x" for x
    using assms map_of_SomeD [OF that] by (fastforce simp: config_ok_def game_ok_def)
  then have "g \<le> 100" by (simp add: g_def DEFAULT_GAME_INTENSITY_def split: option.splits)
  then have bg: "bounded (2 ^ 7) (f_of_nat g)" using percent_finite [of g] by simp
  have "bounded (2 ^ 7) (f_div (f_of_nat (intensity cfg)) F_HUNDRED)" using percent_finite [of "intensity cfg"] assms by (simp add: config_ok_def)
  from bounded_mul [OF this bg] have b: "bounded (2 ^ 14) (f_mul (f_div (f_of_nat (intensity cfg)) F_HUNDRED) (f_of_nat g))" by simp
  have "f_is_finite F_HUNDRED" "1 / 2 ^ 0 \<le> \<bar>f_val F_HUNDRED\<bar>"
    by (simp_all add: f_val_def f_neg_def f_mag_def units_def Let_def f_is_finite_def F_INF_def F_HUNDRED_def)
  from bounded_div [OF b this] have "\<not> f_is_nan (f_div (f_mul (f_div (f_of_nat (intensity cfg)) F_HUNDRED) (f_of_nat g)) F_HUNDRED)"
    by (simp add: bounded_def)
  from clamp_unit_bounded [OF this] show ?thesis by (simp add: effective_intensity_def g_def Let_def)
qed

definition muted :: "Config \<Rightarrow> bool" where "muted cfg \<longleftrightarrow> (\<forall>game. f_is_zero (effective_intensity cfg game))"

section \<open>The invariant\<close>

definition session_ok :: "Mixer Active \<Rightarrow> bool" where
  "session_ok a \<longleftrightarrow> mixer_ok (a_mixer a) \<and> tel_ok (a_tel a) \<and> gain_ok (a_gain a)"

text \<open>A push of samples within full scale, of zeros only when the daemon is muted and made them itself.\<close>

definition sound_push :: "Config \<Rightarrow> daemon_event \<Rightarrow> bool" where
  "sound_push cfg e =
     (case e of Pushed c s l k \<Rightarrow> list_all (bounded 1) s \<and> (muted cfg \<and> \<not> c \<longrightarrow> list_all f_is_zero s) | _ \<Rightarrow> True)"

definition stream_ok :: "Config \<Rightarrow> Mixer daemon \<Rightarrow> bool" where
  "stream_ok cfg d \<longleftrightarrow> list_all (sound_push cfg) (w_events (d_world d)) \<and> (\<forall>a. d_active d = Some a \<longrightarrow> session_ok a)"

lemma sane_tel_ok: "sane t \<Longrightarrow> tel_ok t" by (simp add: sane_def tel_ok_def)

lemma sound_push_simps [simp]:
  "sound_push cfg (StreamOpened s)" "sound_push cfg (StreamStandby s)" "sound_push cfg (StreamResumed s)" "sound_push cfg (ScreenUpdated t)"
  "sound_push cfg ScreenStopped" "sound_push cfg (SessionStopped r)"
  "sound_push cfg (Pushed True samples l k) = list_all (bounded 1) samples"
  by (simp_all add: sound_push_def)

lemma stream_ok_adds:
  "list_all P (w_events w) \<Longrightarrow> adds P w w' \<Longrightarrow> list_all P (w_events w')"
  by (auto simp: adds_def list_all_iff)

lemma new_mixers_ok: "gains_ok gains \<Longrightarrow> mixer_ok (m_new (sim_mixer L) full cyls pitch gains)"
  using mixer_new_ok by (simp add: sim_mixer_def)

lemma new_sessions_ok:
  assumes "gains_ok (effect_gains cfg)"
  shows "tel_ok tel \<Longrightarrow> session_ok (lights_only (sim_mixer L) cfg A game tel display)"
    "tel_ok tel \<Longrightarrow> session_ok (streaming (sim_mixer L) cfg A game tel ow display')"
    "session_ok (captured_session (sim_mixer L) cfg A ow)"
  using new_mixers_ok [OF assms] gain_new_ok
  by (simp_all add: session_ok_def lights_only_def streaming_def captured_session_def tel_ok_def telemetry_default_def)

lemma on_telemetry_session:
  assumes "gains_ok (effect_gains cfg)" "\<And>game tel. latest = Some (game, tel) \<Longrightarrow> tel_ok tel"
    and "\<And>a. d_active d = Some a \<Longrightarrow> session_ok a" "d_active (on_telemetry (sim_mixer L) cfg A latest d) = Some a"
  shows "session_ok a"
proof (cases "d_active d")
  case None
  have "session_ok a" if "d_active (open_session (sim_mixer L) cfg A game tel d) = Some a" "tel_ok tel" for game tel
    using that None new_sessions_ok(1,2) [OF assms(1) that(2)]
    by (auto simp: open_session_def Let_def split: option.splits if_splits prod.splits sum.splits sim_error.splits)
  then show ?thesis using assms(2,4) None by (auto simp: on_telemetry_def split: option.splits if_splits prod.splits)
next
  case (Some b)
  then show ?thesis using assms(2,4) assms(3) [OF Some]
    by (auto simp: on_telemetry_def session_ok_def split: option.splits if_splits prod.splits)
qed

lemma on_captured_session:
  assumes "gains_ok (effect_gains cfg)" "\<And>a. d_active d = Some a \<Longrightarrow> session_ok a"
    and "d_active (on_captured (sim_mixer L) cfg A captured latest d) = Some a"
  shows "session_ok a"
proof (cases "d_active d")
  case None
  then show ?thesis using assms(3) new_sessions_ok(3) [OF assms(1)]
    by (auto simp: on_captured_def split: if_splits prod.splits sum.splits)
next
  case (Some b)
  then show ?thesis using assms(2) [OF Some] assms(3)
    by (auto simp: on_captured_def retake_lease_def session_ok_def split: if_splits prod.splits sum.splits)
qed

lemma gate_keeps:
  assumes "apply_gate A silent ms a w = (a', w')" "\<And>s. P (StreamStandby s)" "\<And>s. P (StreamResumed s)"
  shows "a_mixer a' = a_mixer a" "a_tel a' = a_tel a" "a_gain a' = a_gain a" "adds P w w'"
proof -
  obtain act g where g: "observe (a_gate a) silent ms = (act, g)" by (cases "observe (a_gate a) silent ms")
  obtain r w1 where t: "take_lease A (a_lease_key a) w = (r, w1)" by (cases "take_lease A (a_lease_key a) w")
  have t1: "adds P w w1" by (rule adds_take [OF t])
  have s: "adds P w2 (emit_stream StreamStandby x w2)" "adds P w2 (emit_stream StreamResumed x w2)" for x w2
    by (rule adds_emit_stream, rule assms)+
  have k: "adds P w2 (give_lease A l w2)" for l w2 by (rule adds_refl) simp
  show "a_mixer a' = a_mixer a" "a_tel a' = a_tel a" "a_gain a' = a_gain a"
    using assms(1) g t by (auto simp: apply_gate_def split: GateAction.splits sum.splits)
  show "adds P w w'"
  proof (cases act)
    case Resume
    then show ?thesis using assms(1) g t adds_trans [OF adds_trans [OF t1 k] s(2)] t1 by (auto simp: apply_gate_def split: sum.splits)
  qed (use assms(1) g adds_trans [OF s(1) k] in \<open>auto simp: apply_gate_def\<close>)
qed

lemma generate_stream:
  assumes "libm_ok L" "config_ok cfg" "session_ok a" "generate (sim_mixer L) cfg A a w = (stop, a', w')"
  shows "session_ok a' \<and> adds (sound_push cfg) w w'"
proof (cases "plan_generation ((n_now A - a_last_gen a) div MS)")
  case None
  then show ?thesis using assms(3,4) by (simp add: generate_def adds_refl)
next
  case (Some plan)
  obtain sc gain where sc: "gain_scale (n_gain A) (n_now A) (a_gain a) = (sc, gain)" by (cases "gain_scale (n_gain A) (n_now A) (a_gain a)")
  let ?g = "f_mul (effective_intensity cfg (a_game a)) sc"
  obtain samples mx where mx: "mixer_render L (a_mixer a) (a_tel a) ?g (gp_samples plan) = (samples, mx)"
    by (cases "mixer_render L (a_mixer a) (a_tel a) ?g (gp_samples plan)")
  let ?a = "a\<lparr>a_last_gen := gen_clock (n_now A) (a_last_gen a) plan, a_gain := gain, a_mixer := mx\<rparr>"
  obtain a1 w1 where g: "apply_gate A (list_all f_is_zero samples) (gp_audio_ms plan) ?a w = (a1, w1)"
    by (cases "apply_gate A (list_all f_is_zero samples) (gp_audio_ms plan) ?a w")
  have gok: "gain_ok (a_gain a)" "mixer_ok (a_mixer a)" "tel_ok (a_tel a)" using assms(3) by (simp_all add: session_ok_def)
  note sc_ok = gain_scale_ok [OF gok(1) sc]
  have e: "f_is_finite (effective_intensity cfg (a_game a))" using effective_unit [OF assms(2)] by (rule boundedD)
  have nn: "\<not> f_is_nan ?g" by (rule nan_mul [OF e sc_ok(1)])
  note r = mixer_render_ok [OF assms(1) gok(2,3) nn mx]
  have z: "list_all f_is_zero samples" if "muted cfg"
  proof (rule r(4))
    have "f_is_zero ?g" using zero_mul [OF _ sc_ok(1)] that by (simp add: muted_def)
    then have "f_le ?g f_zero" by (simp add: f_le_def F32.f_key_def f_is_zero_def f_is_nan_def F_INF_def f_mag_def)
    from clamp_nonpos [OF this] show "f_is_zero (f_clamp f_zero f_one ?g)" ..
  qed
  have p: "sound_push cfg (Pushed False samples l k)" for l k
    using r(3) z by (auto simp: sound_push_def list_all_iff)
  note k = gate_keeps [OF g, of "sound_push cfg", simplified]
  have s1: "session_ok a1" using k(1-3) r(1) gok sc_ok by (simp add: session_ok_def)
  have "adds (sound_push cfg) w1 (push False samples a1 w1)" using p by (simp add: push_def adds_emit adds_refl)
  from adds_trans [OF k(4) this] s1 k(4) show ?thesis using assms(4) Some sc mx g by (auto simp: generate_def sim_mixer_def split: if_splits)
qed

lemma watch_stream:
  assumes "libm_ok L" "config_ok cfg" "session_ok a" "watch (sim_mixer L) cfg A a w = (stop, a', w')"
  shows "session_ok a' \<and> adds (sound_push cfg) w w'"
proof -
  obtain s1 a1 w1 where g: "generate (sim_mixer L) cfg A a w = (s1, a1, w1)" by (cases "generate (sim_mixer L) cfg A a w") auto
  obtain a2 w2 where l: "drive_lights A a1 w1 = (a2, w2)" by (cases "drive_lights A a1 w1")
  note gs = generate_stream [OF assms(1-3) g]
  have lt: "adds (sound_push cfg) w1 w2" "session_ok a2 = session_ok a1"
    using l by (auto simp: drive_lights_def adds_def emit_def session_ok_def split: option.splits prod.splits if_splits)
  have tr: "adds (sound_push cfg) w w2" by (rule adds_trans [OF _ lt(1)]) (use gs in blast)
  show ?thesis using assms(3,4) g l gs lt(2) tr by (auto simp: watch_def split: if_splits)
qed

lemma watchdog_stream:
  assumes "libm_ok L" "config_ok cfg" "stream_ok cfg d"
  shows "stream_ok cfg (watchdog (sim_mixer L) cfg A d)"
proof (cases "d_active d")
  case (Some a)
  obtain stop a' w' where w: "watch (sim_mixer L) cfg A a (d_world d) = (stop, a', w')" by (cases "watch (sim_mixer L) cfg A a (d_world d)") auto
  have "session_ok a" using assms(3) Some by (simp add: stream_ok_def)
  from watch_stream [OF assms(1,2) this w] have s: "session_ok a'" and ad: "adds (sound_push cfg) (d_world d) w'" by auto
  have e: "adds (sound_push cfg) w' (end_session A reason a' w')" for reason
    by (auto simp: end_session_def adds_def emit_def give_lease_def Let_def split: option.splits)
  have "list_all (sound_push cfg) (w_events (d_world d))" using assms(3) by (simp add: stream_ok_def)
  with ad e s adds_trans [OF ad e] show ?thesis using Some w stream_ok_adds
    by (auto simp: watchdog_def stream_ok_def split: option.splits)
qed (use assms in \<open>simp add: watchdog_def\<close>)

lemma captured_bounded: "list_all (bounded 1) (drain_captured_tf n rs)"
proof -
  have d: "list_all (bounded 1) s" if "tf_decode p = Some s" for p s
  proof -
    from that obtain k where k: "those (map (tf_sample p) [0..<k]) = Some s" by (auto simp: tf_decode_def Let_def split: if_splits)
    have "bounded 1 v" if "tf_sample p i = Some v" for i v
      using that clamp_full_scale by (auto simp: tf_sample_def Let_def split: if_splits)
    then show ?thesis using those_SomeD [OF k] by (fastforce simp: list_all_iff)
  qed
  show ?thesis by (induction n rs rule: drain_captured_tf.induct) (auto simp: Let_def d split: option.splits)
qed

lemma config_gains_ok: "config_ok cfg \<Longrightarrow> gains_ok (effect_gains cfg)" by (simp add: config_ok_def gains_ok_def)

lemma iteration_stream:
  assumes "libm_ok L" "config_ok cfg" "stream_ok cfg d"
  shows "stream_ok cfg (iteration (sim_mixer L) cfg A d)"
proof -
  define captured where "captured = drain_captured_tf BUF_LEN (n_tf A)"
  obtain latest decs where r: "read_sockets BUF_LEN (d_decoders d) (n_cm A) (n_pc A) (n_bn A) (n_relay A) = (latest, decs)"
    by (cases "read_sockets BUF_LEN (d_decoders d) (n_cm A) (n_pc A) (n_bn A) (n_relay A)")
  let ?d0 = "d\<lparr>d_decoders := decs\<rparr>"
  let ?d1 = "on_telemetry (sim_mixer L) cfg A latest ?d0"
  let ?d2 = "on_captured (sim_mixer L) cfg A captured latest ?d1"
  note gains = config_gains_ok [OF assms(2)]
  have tel: "tel_ok t" if "latest = Some (game, t)" for game t
    using read_sockets_sane [of BUF_LEN "d_decoders d" "n_cm A" "n_pc A" "n_bn A" "n_relay A" game t decs] r that sane_tel_ok by simp
  have s1: "session_ok a" if "d_active ?d1 = Some a" for a
    by (rule on_telemetry_session [OF gains tel _ that]) (use assms(3) in \<open>auto simp: stream_ok_def\<close>)
  have s2: "session_ok a" if "d_active ?d2 = Some a" for a
    by (rule on_captured_session [OF gains s1 that])
  have a1: "adds (sound_push cfg) (d_world ?d0) (d_world ?d1)" by (rule adds_on_telemetry) simp
  have a2: "adds (sound_push cfg) (d_world ?d1) (d_world ?d2)" by (rule adds_on_captured) (simp_all add: captured_def captured_bounded)
  have "list_all (sound_push cfg) (w_events (d_world ?d0))" using assms(3) by (simp add: stream_ok_def)
  from stream_ok_adds [OF this adds_trans [OF a1 a2]] s2 have "stream_ok cfg ?d2" by (simp add: stream_ok_def)
  from watchdog_stream [OF assms(1,2) this] show ?thesis by (simp add: iteration_def r captured_def)
qed

lemma run_stream:
  assumes "libm_ok L" "config_ok cfg"
  shows "(daemon_step (sim_mixer L) cfg)\<^sup>*\<^sup>* (daemon_start w) d \<Longrightarrow> stream_ok cfg d"
proof (induction rule: rtranclp_induct)
  case base
  then show ?case by (simp add: stream_ok_def daemon_start_def)
next
  case (step d d')
  from step.hyps(2) show ?case
  proof cases
    case (loop A)
    then show ?thesis using iteration_stream [OF assms step.IH] by simp
  next
    case (others lw)
    then show ?thesis using step.IH by (simp add: stream_ok_def)
  qed
qed

section \<open>The stream of the daemon\<close>

text \<open>C3. 
  Everything the daemon sends to a wheel is within full scale. Whatever arrives on the sockets, in
  whatever order and from whichever game, and however the sessions open, stand by and end, every
  sample of every push, captured or synthesised, is a finite number between \<open>-1\<close> and \<open>1\<close>.
\<close>

theorem stream_within_full_scale:
  assumes "libm_ok L" "config_ok cfg" "(daemon_step (sim_mixer L) cfg)\<^sup>*\<^sup>* (daemon_start w) d"
    and "Pushed is_captured samples l k \<in> set (w_events (d_world d))"
  shows "list_all (bounded 1) samples"
  using run_stream [OF assms(1-3)] assms(4) by (auto simp: stream_ok_def sound_push_def list_all_iff)

text \<open>C22. 
  A daemon whose strength is zero makes no force. With the master strength or the strength of every
  game at zero, each block the daemon synthesises and pushes, in any run, holds zeros only.
\<close>

theorem muted_daemon_is_silent:
  assumes "libm_ok L" "config_ok cfg" "muted cfg" "(daemon_step (sim_mixer L) cfg)\<^sup>*\<^sup>* (daemon_start w) d"
    and "Pushed False samples l k \<in> set (w_events (d_world d))"
  shows "list_all f_is_zero samples"
  using run_stream [OF assms(1,2,4)] assms(3,5) by (fastforce simp: stream_ok_def sound_push_def list_all_iff)

text \<open>A session captured samples opened, which the mixer takes over when they stop.\<close>

definition taken_over :: "Config \<Rightarrow> Mixer daemon" where
  "taken_over cfg =
     iteration (sim_mixer plain_libm) cfg (quiet_answers (300 * MS))
       (iteration (sim_mixer plain_libm) cfg (captured_answers 0) (daemon_start demo_world))"

lemma captured_open:
  assumes "wheel cfg = Auto"
  shows "\<exists>a w. iteration (sim_mixer plain_libm) cfg (captured_answers 0) (daemon_start demo_world) =
    \<lparr>d_active = Some a, d_decoders = \<lparr>dec_f1 = decoder_new, dec_beamng = decoder_new\<rparr>, d_next_open = 0, d_world = w\<rparr> \<and>
    a_stream a = Some StreamDd \<and> a_last_telemetry a = 0 \<and> a_last_gen a = 0 \<and> a_last_captured a = Some 0 \<and> a_gate a = gate_default \<and>
    a_gain a = gain_new None False 0 \<and> a_mixer a = mixer_engine_only (cylinders cfg) (pitch_scale cfg) (effect_gains cfg) \<and> a_tel a = telemetry_default \<and>
    a_leds a = None \<and> \<not> a_screen a"
proof -
  have "take_lease (captured_answers 0) ''0003:046D:C276.0003'' (demo_world\<lparr>w_events := []\<rparr>) =
    (Inr demo_lease, demo_world\<lparr>w_locks := sim_world, w_fd := 8, w_events := []\<rparr>)"
    using sim_lease_eq by (simp add: take_lease_def captured_answers_def quiet_answers_def demo_world_def LEASE_HOLDER_def demo_lease_def)
  then obtain ow w where ow: "open_wheel_stream_with_leds cfg (captured_answers 0) (demo_world\<lparr>w_events := []\<rparr>) = (Inr ow, w)" "ow_stream ow = StreamDd"
    using assms by (simp add: open_wheel_stream_with_leds_def wheel_choice_def open_dd_def open_leased_def captured_answers_def quiet_answers_def Let_def)
  show ?thesis using ow captured_drained
    by (simp add: iteration_def daemon_start_def on_telemetry_def on_captured_def captured_stream_wanted_def
        read_sockets_def any_active_in_def watchdog_def watch_def captured_session_def sim_mixer_def
        captured_has_precedence_def CAPTURED_PRECEDENCE_MS_def MS_def)
qed

lemma taken_over_pushes:
  assumes "wheel cfg = Auto" "config_ok cfg"
  shows "(daemon_step (sim_mixer plain_libm) cfg)\<^sup>*\<^sup>* (daemon_start demo_world) (taken_over cfg)"
    "\<exists>samples l k. Pushed False samples l k \<in> set (w_events (d_world (taken_over cfg))) \<and> length samples = 400"
proof -
  let ?d = "iteration (sim_mixer plain_libm) cfg (captured_answers 0) (daemon_start demo_world)"
  obtain a w where d: "?d = \<lparr>d_active = Some a, d_decoders = \<lparr>dec_f1 = decoder_new, dec_beamng = decoder_new\<rparr>, d_next_open = 0, d_world = w\<rparr>"
    and a: "a_stream a = Some StreamDd" "a_last_telemetry a = 0" "a_last_gen a = 0" "a_last_captured a = Some 0" "a_gate a = gate_default"
      "a_gain a = gain_new None False 0" "a_mixer a = mixer_engine_only (cylinders cfg) (pitch_scale cfg) (effect_gains cfg)" "a_tel a = telemetry_default"
      "a_leds a = None" "\<not> a_screen a"
    using captured_open [OF assms(1)] by blast
  have "daemon_step (sim_mixer plain_libm) cfg (daemon_start demo_world) ?d"
    by (rule daemon_step.loop) (simp add: clock_ok_def daemon_start_def)
  moreover have "daemon_step (sim_mixer plain_libm) cfg ?d (taken_over cfg)" unfolding taken_over_def
    by (rule daemon_step.loop) (simp add: clock_ok_def d a)
  ultimately show "(daemon_step (sim_mixer plain_libm) cfg)\<^sup>*\<^sup>* (daemon_start demo_world) (taken_over cfg)" by simp
  let ?g = "f_mul (effective_intensity cfg (a_game a)) f_one"
  obtain samples mx where mx: "mixer_render plain_libm (a_mixer a) (a_tel a) ?g 400 = (samples, mx)"
    by (cases "mixer_render plain_libm (a_mixer a) (a_tel a) ?g 400")
  have "length samples = 400"
  proof (rule mixer_render_ok(2) [OF plain_libm_ok _ _ _ mx])
    show "mixer_ok (a_mixer a)" unfolding a by (rule mixer_new_ok(2) [OF config_gains_ok [OF assms(2)]])
    show "tel_ok (a_tel a)" by (simp add: a tel_ok_def telemetry_default_def)
    show "\<not> f_is_nan ?g" using effective_unit [OF assms(2)] by (intro nan_mul) (auto simp: bounded_def)
  qed
  moreover have "Pushed False samples (a_lease a) (lw_locks (w_locks w)) \<in> set (w_events (d_world (taken_over cfg)))"
    using mx unfolding taken_over_def d
    by (simp add: iteration_def read_sockets_def quiet_answers_def on_telemetry_def on_captured_def
        watchdog_def watch_def captured_has_precedence_def a CAPTURED_PRECEDENCE_MS_def SILENCE_TIMEOUT_MS_def MS_def generate_def
        plan_generation_def MAX_GEN_MS_def SAMPLES_PER_MS_def gain_scale_def gain_new_def sim_mixer_def apply_gate_def observe_def
        gate_default_def ZERO_FORCE_STANDBY_MS_def drive_lights_def Let_def push_def split: option.splits)
  ultimately show "\<exists>samples l k. Pushed False samples l k \<in> set (w_events (d_world (taken_over cfg))) \<and> length samples = 400" by blast
qed

lemma default_config_ok: "config_ok config_default" "config_ok (config_default\<lparr>intensity := 0\<rparr>)"
proof -
  have t: "plain ''G|{gear}|{speed}''" by (simp add: plain_def is_space_def)
  show "config_ok config_default" "config_ok (config_default\<lparr>intensity := 0\<rparr>)"
    by (simp_all add: config_ok_def config_default_def gains_default_eq gains_default_def EFFECTS_def template_ok_def plain_one_line [OF t])
qed

lemma master_off_muted: "config_ok cfg \<Longrightarrow> intensity cfg = 0 \<Longrightarrow> muted cfg"
  unfolding muted_def
proof
  fix game
  assume ok: "config_ok cfg" and off: "intensity cfg = 0"
  define g where "g = (case map_of (games cfg) game of None \<Rightarrow> DEFAULT_GAME_INTENSITY | Some g \<Rightarrow> g_intensity g)"
  have z: "f_is_zero (f_of_nat 0)" using of_rat_zero_mag by (simp add: f_is_zero_def f_of_nat_def)
  have h: "f_is_finite F_HUNDRED" "\<not> f_is_zero F_HUNDRED" by (simp_all add: f_is_finite_def f_is_zero_def f_mag_def F_INF_def F_HUNDRED_def)
  have "g_intensity x \<le> 100" if "map_of (games cfg) game = Some x" for x
    using ok map_of_SomeD [OF that] by (fastforce simp: config_ok_def game_ok_def)
  then have "g \<le> 100" by (simp add: g_def DEFAULT_GAME_INTENSITY_def split: option.splits)
  then have "f_is_finite (f_of_nat g)" using percent_finite [of g] by (simp add: bounded_def)
  then have e: "f_is_zero (f_div (f_mul (f_div (f_of_nat 0) F_HUNDRED) (f_of_nat g)) F_HUNDRED)" by (intro zero_scaled z h)
  then have "f_le (f_div (f_mul (f_div (f_of_nat 0) F_HUNDRED) (f_of_nat g)) F_HUNDRED) f_zero"
    by (simp add: f_le_def F32.f_key_def f_is_zero_def f_is_nan_def F_INF_def f_mag_def)
  from clamp_nonpos [OF this] show "f_is_zero (effective_intensity cfg game)" by (simp add: effective_intensity_def off g_def Let_def)
qed

theorem stream_within_full_scale_witness:
  "\<exists>samples l k. Pushed False samples l k \<in> set (w_events (d_world (taken_over config_default))) \<and>
     length samples = 400 \<and> list_all (bounded 1) samples"
proof -
  have w: "wheel config_default = Auto" by (simp add: config_default_def)
  from taken_over_pushes(2) [OF w default_config_ok(1)] stream_within_full_scale [OF plain_libm_ok default_config_ok(1) taken_over_pushes(1) [OF w default_config_ok(1)]]
  show ?thesis by blast
qed

theorem muted_daemon_is_silent_witness:
  "\<exists>samples l k. Pushed False samples l k \<in> set (w_events (d_world (taken_over (config_default\<lparr>intensity := 0\<rparr>)))) \<and>
     length samples = 400 \<and> list_all f_is_zero samples"
proof -
  let ?c = "config_default\<lparr>intensity := 0\<rparr>"
  have w: "wheel ?c = Auto" by (simp add: config_default_def)
  have "muted ?c" by (rule master_off_muted [OF default_config_ok(2)]) simp
  from taken_over_pushes(2) [OF w default_config_ok(2)]
    muted_daemon_is_silent [OF plain_libm_ok default_config_ok(2) this taken_over_pushes(1) [OF w default_config_ok(2)]]
  show ?thesis by blast
qed

end
