(* ===== verification/G923_Stream.thy ===== *)
theory G923_Stream
  imports Daemon_Runs F32_Ops
begin

text \<open>
  The stream to a G923: \<open>g923.rs\<close> of \<open>logi-tf-sim\<close>. Discovery of the interface, the force merge and
  the wire conversions, the packet, the idle policy, the writer that owns the hidraw node, its
  thread, and the handle of the daemon. The packets of the init sequence are generated by the
  build, so they are an argument \<open>init\<close>. Whether the node takes a write is an argument too: \<open>io n\<close> is
  the error of the \<open>n\<close>-th write, if it fails. What was written, and in which role, is kept in
  \<open>wr_log\<close>. The pauses between packets are not modelled; instants are nanoseconds.
\<close>

section \<open>Constants\<close>

definition VID :: u16 where "VID = 0x046D"
definition PID_PS :: u16 where "PID_PS = 0xC266"
definition PID_XBOX :: u16 where "PID_XBOX = 0xC26E"
definition PID_PS_PC :: u16 where "PID_PS_PC = 0xC267"
definition PIDS :: "u16 list" where "PIDS = [PID_PS, PID_PS_PC, PID_XBOX]"
definition VENDOR_PAGE_PREFIX :: "u8 list" where "VENDOR_PAGE_PREFIX = [0x06, 0xFD, 0xFF]"
definition FFB_OUTPUT_ATTR :: string where "FFB_OUTPUT_ATTR = ''ffb_output''"
definition DD_ENGINE_ATTR :: string where "DD_ENGINE_ATTR = ''wheel_strength''"
definition WINDOW :: nat where "WINDOW = 13"
definition NEW_PER_PACKET :: nat where "NEW_PER_PACKET = 4"
definition MAX_PENDING_HEADROOM_MS :: nat where "MAX_PENDING_HEADROOM_MS = 28"
definition MAX_PENDING_MS :: nat where "MAX_PENDING_MS = MAX_GEN_MS + MAX_PENDING_HEADROOM_MS"
definition MAX_PENDING :: nat where "MAX_PENDING = MAX_PENDING_MS * SAMPLES_PER_MS"
definition CENTER :: u16 where "CENTER = 0x8000"
definition IDLE_TIMEOUT :: nat where "IDLE_TIMEOUT = 5000 * MS"
definition TICK_INTERVAL :: nat where "TICK_INTERVAL = MS"
definition CMD_CHANNEL_CAPACITY :: nat where "CMD_CHANNEL_CAPACITY = 16"
definition DROP_WARN_INTERVAL :: nat where "DROP_WARN_INTERVAL = 5000 * MS"

section \<open>Discovery\<close>

text \<open>The entries of \<open>/sys/class/hidraw\<close> and of \<open>/sys/bus/hid/devices\<close>, where a link leads, and the files.\<close>

record g923_fs =
  gf_hidraw :: "string list option"
  gf_device :: "string \<Rightarrow> path option"
  gf_descriptor :: "string \<Rightarrow> u8 list option"
  gf_hid_bus :: "string list option"
  gf_hid_real :: "string \<Rightarrow> path option"
  gf_attr :: "string \<Rightarrow> string \<Rightarrow> bool"
  gf_text :: "path \<Rightarrow> string \<Rightarrow> string option"

record G923Nodes =
  gn_hidraw :: path
  gn_ffb_output :: "(string \<times> string) option"
  gn_kernel_carries_force :: bool

definition is_stream_pid :: "u16 \<Rightarrow> bool" where "is_stream_pid pid \<longleftrightarrow> pid \<in> set PIDS"

definition parse_hex_u16 :: "string \<Rightarrow> u16 option" where
  "parse_hex_u16 s = map_option of_nat (parse_hex_unsigned 65535 (trim_start_matches ''0X'' (trim_start_matches ''0x'' s)))"

definition usb_root :: "path \<Rightarrow> path option" where
  "usb_root dir = Option.bind (parent dir) parent"

definition is_g923_device :: "g923_fs \<Rightarrow> path \<Rightarrow> bool" where
  "is_g923_device fs dir =
     (case usb_root dir of
        None \<Rightarrow> False
      | Some usb \<Rightarrow>
          (let vid = Option.bind (map_option trim (gf_text fs usb ''idVendor'')) parse_hex_u16;
               pid = Option.bind (map_option trim (gf_text fs usb ''idProduct'')) parse_hex_u16
           in vid = Some VID \<and> (case pid of None \<Rightarrow> False | Some p \<Rightarrow> is_stream_pid p)))"

definition report_descriptor_matches :: "g923_fs \<Rightarrow> string \<Rightarrow> bool" where
  "report_descriptor_matches fs name =
     (case gf_descriptor fs name of None \<Rightarrow> False | Some bytes \<Rightarrow> starts_with bytes VENDOR_PAGE_PREFIX)"

definition find_sibling_attr :: "g923_fs \<Rightarrow> path \<Rightarrow> string \<Rightarrow> (string \<times> string) option" where
  "find_sibling_attr fs dir name = do {
     usb \<leftarrow> usb_root dir;
     entries \<leftarrow> gf_hid_bus fs;
     e \<leftarrow> find (\<lambda>e. (case gf_hid_real fs e of None \<Rightarrow> False | Some c \<Rightarrow> starts_with c usb) \<and> gf_attr fs e name) entries;
     Some (e, name) }"

definition hidraw_candidate :: "g923_fs \<Rightarrow> string \<Rightarrow> bool" where
  "hidraw_candidate fs name \<longleftrightarrow>
     starts_with name ''hidraw'' \<and>
     (case gf_device fs name of None \<Rightarrow> False | Some dir \<Rightarrow> is_g923_device fs dir) \<and> report_descriptor_matches fs name"

definition discover_at :: "g923_fs \<Rightarrow> G923Nodes option" where
  "discover_at fs = do {
     entries \<leftarrow> gf_hidraw fs;
     name \<leftarrow> find (hidraw_candidate fs) entries;
     dir \<leftarrow> gf_device fs name;
     Some \<lparr>gn_hidraw = [''dev'', name], gn_ffb_output = find_sibling_attr fs dir FFB_OUTPUT_ATTR,
           gn_kernel_carries_force = (find_sibling_attr fs dir DD_ENGINE_ATTR \<noteq> None)\<rparr> }"

section \<open>Wire conversions\<close>

datatype Sign = Normal | Inverted

definition sign_resolve :: "string option \<Rightarrow> bool \<Rightarrow> Sign" where
  "sign_resolve env cfg_invert =
     (case env of
        Some v \<Rightarrow> if v \<in> {''invert'', ''inverted'', ''1''} then Inverted else Normal
      | None \<Rightarrow> if cfg_invert then Inverted else Normal)"

definition sign_apply :: "Sign \<Rightarrow> i16 \<Rightarrow> i16" where
  "sign_apply sg v =
     (case sg of Normal \<Rightarrow> v | Inverted \<Rightarrow> if sint v = -32768 then word_of_int 32767 else word_of_int (- sint v))"

definition clamp_ffb :: "int \<Rightarrow> i16" where
  "clamp_ffb raw = word_of_int (clamp_int (-32768) 32767 raw)"

text \<open>The cast of a float to a signed integer: towards zero, to the nearest bound when it is out of
  range, a NaN to zero.\<close>

definition f_to_int :: "int \<Rightarrow> int \<Rightarrow> f32 \<Rightarrow> int" where
  "f_to_int lo hi x =
     (if f_is_nan x then 0
      else if f_is_inf x then (if f_neg x then lo else hi)
      else clamp_int lo hi (if f_neg x then - \<lfloor>\<bar>f_val x\<bar>\<rfloor> else \<lfloor>f_val x\<rfloor>))"

abbreviation f_32767 :: f32 where "f_32767 \<equiv> 0x46fffe00"

definition float_to_i16 :: "f32 \<Rightarrow> i16" where
  "float_to_i16 sample = word_of_int (f_to_int (-32768) 32767 (f_mul (f_clamp f_minus_one f_one sample) f_32767))"

definition i16_to_wire :: "i16 \<Rightarrow> u16" where
  "i16_to_wire sample = word_of_int (sint sample + 0x8000)"

definition float_to_wire :: "f32 \<Rightarrow> u16" where
  "float_to_wire sample = i16_to_wire (float_to_i16 sample)"

definition mix_to_wire :: "f32 \<Rightarrow> int \<Rightarrow> Sign \<Rightarrow> u16" where
  "mix_to_wire sample ffb_raw sg =
     (let sample_i = sint (float_to_i16 sample);
          ffb_i = sint (sign_apply sg (clamp_ffb ffb_raw))
      in i16_to_wire (word_of_int (clamp_int (-32768) 32767 (sample_i + ffb_i))))"

section \<open>Packets\<close>

definition slide_window :: "u16 list \<Rightarrow> u16 list \<Rightarrow> u16 list" where
  "slide_window win new = (let n = min (length new) WINDOW in drop n win @ take n new)"

definition lo_byte :: "u16 \<Rightarrow> u8" where "lo_byte v = ucast (v AND 0xff)"
definition hi_byte :: "u16 \<Rightarrow> u8" where "hi_byte v = ucast (drop_bit 8 v)"

definition build_sample_packet :: "u8 \<Rightarrow> u16 list \<Rightarrow> u8 list" where
  "build_sample_packet seq win =
     (let cur = win ! (WINDOW - 1) in
      [0x01, 0, 0, 0, 0x01, seq, lo_byte cur, hi_byte cur, lo_byte cur, hi_byte cur, of_nat NEW_PER_PACKET, 0x0d] @
      concat (map (\<lambda>v. [lo_byte v, hi_byte v, lo_byte v, hi_byte v]) win))"

definition stop_packet :: "u8 list list \<Rightarrow> u8 \<Rightarrow> u8 list" where
  "stop_packet init seq = (init ! (length init - 2))[5 := seq]"

text \<open>The force mirror: the first 16 bytes of the attribute, or zero when it cannot be read as a
  number. \<open>None\<close> is a mirror that was not found or a read that failed.\<close>

definition read_raw :: "string option \<Rightarrow> int" where
  "read_raw content =
     (case content of None \<Rightarrow> 0
      | Some t \<Rightarrow> (case parse_signed (-2147483648) 2147483647 (trim (take 16 t)) of None \<Rightarrow> 0 | Some v \<Rightarrow> v))"

section \<open>The idle policy\<close>

datatype IdleAction = ActStream | ActEnterIdle | ActStayIdle | ActResume

record IdlePolicy =
  ip_silent_since :: "nat option"
  ip_idle :: bool

definition idle_new :: IdlePolicy where "idle_new = \<lparr>ip_silent_since = None, ip_idle = False\<rparr>"

definition idle_policy_tick :: "nat \<Rightarrow> bool \<Rightarrow> nat \<Rightarrow> IdlePolicy \<Rightarrow> IdleAction \<times> IdlePolicy" where
  "idle_policy_tick now silent timeout p =
     (if silent then
        if ip_idle p then (ActStayIdle, p)
        else
          let since = (case ip_silent_since p of Some t \<Rightarrow> t | None \<Rightarrow> now);
              p1 = p\<lparr>ip_silent_since := Some since\<rparr>
          in if timeout \<le> now - since then (ActEnterIdle, p1\<lparr>ip_idle := True\<rparr>) else (ActStream, p1)
      else
        let p1 = p\<lparr>ip_silent_since := None\<rparr> in
        if ip_idle p1 then (ActResume, p1\<lparr>ip_idle := False\<rparr>) else (ActStream, p1))"

section \<open>Pacing\<close>

text \<open>One wait of \<open>SteadyPacer\<close>: the clock before and after the sleep, and the next deadline. The
  sleep itself returns no earlier than asked.\<close>

definition pacer_deadline :: "nat option \<Rightarrow> nat \<Rightarrow> nat" where
  "pacer_deadline next_at now = (case next_at of Some d \<Rightarrow> d | None \<Rightarrow> now + TICK_INTERVAL)"

definition pacer_wait :: "nat option \<Rightarrow> nat \<Rightarrow> nat \<Rightarrow> nat option" where
  "pacer_wait next_at before after =
     (let deadline = pacer_deadline next_at before in
      Some (if TICK_INTERVAL < after - deadline then after + TICK_INTERVAL else deadline + TICK_INTERVAL))"

section \<open>The writer\<close>

datatype wire_event = InitPkt (pkt_bytes: "u8 list") | SamplePkt (pkt_bytes: "u8 list") | StopPkt (pkt_bytes: "u8 list")

record Writer =
  wr_log :: "(wire_event \<times> string option) list"
  wr_sign :: Sign
  wr_seq :: u8
  wr_window :: "u16 list"
  wr_pending :: "f32 list"
  wr_dropped_stale :: nat
  wr_idle :: IdlePolicy

type_synonym io_errors = "nat \<Rightarrow> string option"

definition writer_new :: "Sign \<Rightarrow> Writer" where
  "writer_new sg =
     \<lparr>wr_log = [], wr_sign = sg, wr_seq = 0, wr_window = replicate WINDOW CENTER, wr_pending = [], wr_dropped_stale = 0,
      wr_idle = idle_new\<rparr>"

definition write_all :: "io_errors \<Rightarrow> wire_event \<Rightarrow> Writer \<Rightarrow> string option \<times> Writer" where
  "write_all io pkt w = (let r = io (length (wr_log w)) in (r, w\<lparr>wr_log := wr_log w @ [(pkt, r)]\<rparr>))"

fun init_pass :: "io_errors \<Rightarrow> nat \<Rightarrow> u8 list list \<Rightarrow> Writer \<Rightarrow> string option \<times> Writer" where
  "init_pass io i [] w = (None, w)"
| "init_pass io i (p # ps) w =
     (case write_all io (InitPkt (p[5 := of_nat (i + 1)])) w of
        (Some e, w') \<Rightarrow> (Some e, w')
      | (None, w') \<Rightarrow> init_pass io (i + 1) ps w')"

definition send_init :: "io_errors \<Rightarrow> u8 list list \<Rightarrow> Writer \<Rightarrow> string option \<times> Writer" where
  "send_init io init w =
     (case init_pass io 0 init w of
        (Some e, w') \<Rightarrow> (Some e, w')
      | (None, w') \<Rightarrow>
          (case init_pass io 0 init w' of
             (Some e, w'') \<Rightarrow> (Some e, w'')
           | (None, w'') \<Rightarrow> (None, w''\<lparr>wr_seq := of_nat (length init + 1), wr_window := replicate WINDOW CENTER\<rparr>)))"

definition next_seq :: "Writer \<Rightarrow> u8 \<times> Writer" where
  "next_seq w = (wr_seq w, w\<lparr>wr_seq := wr_seq w + 1\<rparr>)"

definition send_stop :: "io_errors \<Rightarrow> u8 list list \<Rightarrow> Writer \<Rightarrow> string option \<times> Writer" where
  "send_stop io init w = (case next_seq w of (seq, w') \<Rightarrow> write_all io (StopPkt (stop_packet init seq)) w')"

definition push_pending :: "f32 list \<Rightarrow> Writer \<Rightarrow> Writer" where
  "push_pending samples w =
     (let p = wr_pending w @ samples in
      if MAX_PENDING < length p
      then w\<lparr>wr_pending := drop (length p - MAX_PENDING) p, wr_dropped_stale := wr_dropped_stale w + (length p - MAX_PENDING)\<rparr>
      else w\<lparr>wr_pending := p\<rparr>)"

definition take_chunk :: "Writer \<Rightarrow> f32 list \<times> Writer" where
  "take_chunk w =
     (let n = min (length (wr_pending w)) NEW_PER_PACKET;
          c = take n (wr_pending w);
          fill = (if 0 < n then c ! (n - 1) else f_zero)
      in (c @ replicate (NEW_PER_PACKET - n) fill, w\<lparr>wr_pending := drop n (wr_pending w)\<rparr>))"

definition send_samples :: "io_errors \<Rightarrow> f32 list \<Rightarrow> int \<Rightarrow> Writer \<Rightarrow> string option \<times> Writer" where
  "send_samples io chunk ffb_raw w =
     (let w1 = w\<lparr>wr_window := slide_window (wr_window w) (map (\<lambda>s. mix_to_wire s ffb_raw (wr_sign w)) chunk)\<rparr>
      in case next_seq w1 of (seq, w2) \<Rightarrow> write_all io (SamplePkt (build_sample_packet seq (wr_window w2))) w2)"

definition writer_tick :: "io_errors \<Rightarrow> u8 list list \<Rightarrow> nat \<Rightarrow> string option \<Rightarrow> Writer \<Rightarrow> string option \<times> Writer" where
  "writer_tick io init now ffb w =
     (let ffb_raw = read_raw ffb;
          (chunk, w1) = take_chunk w;
          silent = (ffb_raw = 0 \<and> list_all f_is_zero chunk);
          (act, p) = idle_policy_tick now silent IDLE_TIMEOUT (wr_idle w1);
          w2 = w1\<lparr>wr_idle := p\<rparr>
      in case act of
           ActEnterIdle \<Rightarrow> send_stop io init w2
         | ActStayIdle \<Rightarrow> (None, w2)
         | ActStream \<Rightarrow> send_samples io chunk ffb_raw w2
         | ActResume \<Rightarrow> (case send_init io init w2 of (Some e, w3) \<Rightarrow> (Some e, w3) | (None, w3) \<Rightarrow> send_samples io chunk ffb_raw w3))"

section \<open>The writer thread and the handle\<close>

datatype Cmd = CmdPush "f32 list" | CmdStop

text \<open>What one tick finds: the clock, the commands that wait, whether the handle is gone, and the
  content of the force mirror.\<close>

record tick_input =
  tk_now :: nat
  tk_cmds :: "Cmd list"
  tk_disconnected :: bool
  tk_ffb :: "string option"

fun drain_cmds :: "Cmd list \<Rightarrow> Writer \<Rightarrow> bool \<times> Writer" where
  "drain_cmds [] w = (False, w)"
| "drain_cmds (CmdPush samples # cs) w = drain_cmds cs (push_pending samples w)"
| "drain_cmds (CmdStop # cs) w = (True, snd (drain_cmds cs w))"

text \<open>One turn of the loop of \<open>run_writer\<close>: \<open>True\<close> when the thread returns.\<close>

definition writer_turn :: "io_errors \<Rightarrow> u8 list list \<Rightarrow> tick_input \<Rightarrow> Writer \<Rightarrow> bool \<times> Writer" where
  "writer_turn io init t w =
     (let (stop, w1) = drain_cmds (tk_cmds t) w in
      if stop \<or> tk_disconnected t then (True, snd (send_stop io init w1))
      else case writer_tick io init (tk_now t) (tk_ffb t) w1 of
          (Some e, w2) \<Rightarrow> (True, snd (send_stop io init w2))
        | (None, w2) \<Rightarrow> (False, w2))"

fun run_writer :: "io_errors \<Rightarrow> u8 list list \<Rightarrow> tick_input list \<Rightarrow> Writer \<Rightarrow> Writer" where
  "run_writer io init [] w = snd (send_stop io init w)"
| "run_writer io init (t # ts) w =
     (case writer_turn io init t w of (True, w') \<Rightarrow> w' | (False, w') \<Rightarrow> run_writer io init ts w')"

text \<open>Opening: the init sequence is sent on the calling thread before the writer starts.\<close>

definition open_with_sink :: "io_errors \<Rightarrow> u8 list list \<Rightarrow> Sign \<Rightarrow> string + Writer" where
  "open_with_sink io init sg =
     (case send_init io init (writer_new sg) of (Some e, w) \<Rightarrow> Inl e | (None, w) \<Rightarrow> Inr w)"

text \<open>The handle, the bounded channel and the thread.\<close>

record G923Stream =
  g_chan :: "Cmd list"
  g_alive :: bool
  g_writer :: Writer
  g_stopped :: bool
  g_dropped :: nat
  g_last_drop_warn :: "nat option"

definition stream_new :: "Writer \<Rightarrow> G923Stream" where
  "stream_new w = \<lparr>g_chan = [], g_alive = True, g_writer = w, g_stopped = False, g_dropped = 0, g_last_drop_warn = None\<rparr>"

definition g923_push :: "nat \<Rightarrow> f32 list \<Rightarrow> G923Stream \<Rightarrow> string option \<times> G923Stream" where
  "g923_push now samples s =
     (if samples = [] then (None, s)
      else if \<not> g_alive s then (Some ''G923 TrueForce writer thread has stopped'', s)
      else if length (g_chan s) < CMD_CHANNEL_CAPACITY then (None, s\<lparr>g_chan := g_chan s @ [CmdPush samples]\<rparr>)
      else
        let warn = (case g_last_drop_warn s of Some t \<Rightarrow> DROP_WARN_INTERVAL \<le> now - t | None \<Rightarrow> True)
        in (None, s\<lparr>g_dropped := g_dropped s + 1, g_last_drop_warn := (if warn then Some now else g_last_drop_warn s)\<rparr>))"

text \<open>The thread and its owner, interleaved: a push, the send of \<open>stop\<close> as soon as the channel has
  room for it or the thread is gone, and a turn of the writer, which takes all that waits.\<close>

inductive g923_step :: "io_errors \<Rightarrow> u8 list list \<Rightarrow> G923Stream \<Rightarrow> G923Stream \<Rightarrow> bool" for io init where
  pushed: "\<not> g_stopped s \<Longrightarrow> g923_push now samples s = (r, s') \<Longrightarrow> g923_step io init s s'"
| stopped: "\<not> g_stopped s \<Longrightarrow> g_alive s \<Longrightarrow> length (g_chan s) < CMD_CHANNEL_CAPACITY \<Longrightarrow>
    g923_step io init s (s\<lparr>g_stopped := True, g_chan := g_chan s @ [CmdStop]\<rparr>)"
| stopped_dead: "\<not> g_stopped s \<Longrightarrow> \<not> g_alive s \<Longrightarrow> g923_step io init s (s\<lparr>g_stopped := True\<rparr>)"
| turn: "g_alive s \<Longrightarrow> writer_turn io init \<lparr>tk_now = now, tk_cmds = g_chan s, tk_disconnected = False, tk_ffb = ffb\<rparr> (g_writer s) = (over, w) \<Longrightarrow>
    g923_step io init s (s\<lparr>g_chan := [], g_alive := \<not> over, g_writer := w\<rparr>)"

end
