(* ===== verification/G923_Props.thy ===== *)
theory G923_Props
  imports G923_Stream
begin

text \<open>
  Properties of the G923 stream: the order of the packets on the wire as an automaton, the stop that
  ends every run, the bounds of the backlog and of the channel, the force merge as saturating
  arithmetic, the layout of a packet and the idle policy as a predicate on its history.
\<close>

section \<open>The order on the wire\<close>

text \<open>The wheel as the sequence of writes sees it. \<open>Arming k\<close> has taken \<open>k\<close> packets of the init
  sequence, which is sent twice; \<open>Broken\<close> follows a failed write, after which only a stop may be
  tried.\<close>

datatype link = Off | Arming nat | On | Broken | Illegal

definition armed :: "nat \<Rightarrow> nat \<Rightarrow> link" where
  "armed n k = (if k = 0 then Off else if k = 2 * n then On else Arming k)"

fun link_step :: "nat \<Rightarrow> wire_event \<times> string option \<Rightarrow> link \<Rightarrow> link" where
  "link_step n (e, r) Illegal = Illegal"
| "link_step n (StopPkt p, r) s = (if r = None then Off else Broken)"
| "link_step n (InitPkt p, r) Off = (if r = None then armed n 1 else Broken)"
| "link_step n (InitPkt p, r) (Arming k) = (if r = None then armed n (k + 1) else Broken)"
| "link_step n (InitPkt p, r) s = Illegal"
| "link_step n (SamplePkt p, r) On = (if r = None then On else Broken)"
| "link_step n (SamplePkt p, r) s = Illegal"

definition link_of :: "nat \<Rightarrow> Writer \<Rightarrow> link" where
  "link_of n w = fold (link_step n) (wr_log w) Off"

lemma link_step_stop: "s \<noteq> Illegal \<Longrightarrow> link_step n (StopPkt p, r) s = (if r = None then Off else Broken)"
  by (cases s) simp_all

lemma write_all_log: "write_all io pkt w = (r, w') \<Longrightarrow> wr_log w' = wr_log w @ [(pkt, r)]"
  by (auto simp: write_all_def Let_def)

lemma link_write: "write_all io pkt w = (r, w') \<Longrightarrow> link_of n w' = link_step n (pkt, r) (link_of n w)"
  by (simp add: link_of_def write_all_log)

lemma write_all_keeps:
  "write_all io pkt w = (r, w') \<Longrightarrow> wr_idle w' = wr_idle w \<and> wr_pending w' = wr_pending w \<and> wr_window w' = wr_window w \<and> wr_sign w' = wr_sign w"
  by (auto simp: write_all_def Let_def)

lemma armed_step: "k < 2 * n \<Longrightarrow> link_step n (InitPkt p, None) (armed n k) = armed n (Suc k)"
  by (auto simp: armed_def)

lemma armed_broken: "k < 2 * n \<Longrightarrow> link_step n (InitPkt p, Some e) (armed n k) = Broken"
  by (auto simp: armed_def)

lemma init_pass_link:
  "link_of n w = armed n k \<Longrightarrow> k + length ps \<le> 2 * n \<Longrightarrow> init_pass io i ps w = (r, w') \<Longrightarrow>
    wr_idle w' = wr_idle w \<and> wr_pending w' = wr_pending w \<and> link_of n w' = (if r = None then armed n (k + length ps) else Broken)"
proof (induction ps arbitrary: i w k)
  case (Cons p ps)
  obtain q w1 where w: "write_all io (InitPkt (p[5 := of_nat (i + 1)])) w = (q, w1)" by (cases "write_all io (InitPkt (p[5 := of_nat (i + 1)])) w")
  have k: "k < 2 * n" using Cons.prems(2) by simp
  note l = link_write [OF w, of n] and kp = write_all_keeps [OF w]
  show ?case
  proof (cases q)
    case None
    then have "link_of n w1 = armed n (Suc k)" using l Cons.prems(1) armed_step [OF k] by simp
    then show ?thesis using Cons.IH [of w1 "Suc k" "i + 1"] Cons.prems w None kp by simp
  next
    case (Some e)
    then show ?thesis using l Cons.prems armed_broken [OF k] w kp by auto
  qed
qed simp

lemma send_init_link:
  assumes "link_of (length init) w = Off" "0 < length init" "send_init io init w = (r, w')"
  shows "wr_idle w' = wr_idle w" "wr_pending w' = wr_pending w" "link_of (length init) w' = (if r = None then On else Broken)"
proof -
  let ?n = "length init"
  obtain q w1 where p1: "init_pass io 0 init w = (q, w1)" by (cases "init_pass io 0 init w")
  have z: "link_of ?n w = armed ?n 0" using assms(1) by (simp add: armed_def)
  note a = init_pass_link [OF z _ p1, simplified]
  obtain q' w2 where p2: "init_pass io 0 init w1 = (q', w2)" by (cases "init_pass io 0 init w1")
  have b: "wr_idle w2 = wr_idle w1 \<and> wr_pending w2 = wr_pending w1 \<and> link_of ?n w2 = (if q' = None then armed ?n (?n + ?n) else Broken)" if "q = None"
    by (rule init_pass_link [OF _ _ p2]) (use a that in auto)
  have on: "armed ?n (?n + ?n) = On" using assms(2) by (auto simp: armed_def)
  have u: "link_of ?n (w2\<lparr>wr_seq := s, wr_window := x\<rparr>) = link_of ?n w2" for s x by (simp add: link_of_def)
  show "wr_idle w' = wr_idle w" "wr_pending w' = wr_pending w" "link_of ?n w' = (if r = None then On else Broken)"
    using assms(3) a b on u p1 p2 by (cases q; cases q'; auto simp: send_init_def)+
qed

lemma send_stop_link:
  assumes "send_stop io init w = (r, w')" "link_of n w \<noteq> Illegal"
  shows "link_of n w' = (if r = None then Off else Broken)" "wr_idle w' = wr_idle w" "wr_pending w' = wr_pending w"
    "wr_log w' = wr_log w @ [(StopPkt (stop_packet init (wr_seq w)), r)]"
proof -
  let ?w = "w\<lparr>wr_seq := wr_seq w + 1\<rparr>"
  have w: "write_all io (StopPkt (stop_packet init (wr_seq w))) ?w = (r, w')" using assms(1) by (simp add: send_stop_def next_seq_def)
  have "link_of n ?w = link_of n w" by (simp add: link_of_def)
  then show "link_of n w' = (if r = None then Off else Broken)" using link_write [OF w, of n] link_step_stop assms(2) by simp
  show "wr_idle w' = wr_idle w" "wr_pending w' = wr_pending w" using write_all_keeps [OF w] by simp_all
  show "wr_log w' = wr_log w @ [(StopPkt (stop_packet init (wr_seq w)), r)]" using write_all_log [OF w] by simp
qed

lemma send_samples_link:
  assumes "send_samples io chunk ffb w = (r, w')" "link_of n w = On"
  shows "link_of n w' = (if r = None then On else Broken)" "wr_idle w' = wr_idle w" "wr_pending w' = wr_pending w"
proof -
  let ?w = "w\<lparr>wr_window := slide_window (wr_window w) (map (\<lambda>s. mix_to_wire s ffb (wr_sign w)) chunk), wr_seq := wr_seq w + 1\<rparr>"
  have w: "write_all io (SamplePkt (build_sample_packet (wr_seq w) (wr_window ?w))) ?w = (r, w')"
    using assms(1) by (simp add: send_samples_def next_seq_def Let_def)
  have "link_of n ?w = On" using assms(2) by (simp add: link_of_def)
  then show "link_of n w' = (if r = None then On else Broken)" using link_write [OF w, of n] by simp
  show "wr_idle w' = wr_idle w" "wr_pending w' = wr_pending w" using write_all_keeps [OF w] by simp_all
qed

text \<open>Between two ticks the wheel is armed exactly when the policy is not idle.\<close>

definition writer_ok :: "u8 list list \<Rightarrow> Writer \<Rightarrow> bool" where
  "writer_ok init w \<longleftrightarrow> link_of (length init) w = (if ip_idle (wr_idle w) then Off else On)"

lemma idle_policy_tick_cases:
  assumes "idle_policy_tick now silent t p = (act, p')"
  shows "ip_idle p' = (case act of ActStream \<Rightarrow> False | ActEnterIdle \<Rightarrow> True | ActStayIdle \<Rightarrow> True | ActResume \<Rightarrow> False)"
    "ip_idle p = (case act of ActStream \<Rightarrow> False | ActEnterIdle \<Rightarrow> False | ActStayIdle \<Rightarrow> True | ActResume \<Rightarrow> True)"
  using assms by (auto simp: idle_policy_tick_def Let_def split: if_splits)

lemma writer_tick_link:
  assumes "writer_ok init w" "0 < length init" "writer_tick io init now ffb w = (r, w')"
  shows "(r = None \<longrightarrow> writer_ok init w') \<and> (r \<noteq> None \<longrightarrow> link_of (length init) w' = Broken)"
proof -
  let ?n = "length init"
  obtain chunk w1 where c: "take_chunk w = (chunk, w1)" by (cases "take_chunk w")
  obtain act p where p: "idle_policy_tick now (read_raw ffb = 0 \<and> list_all f_is_zero chunk) IDLE_TIMEOUT (wr_idle w1) = (act, p)"
    by (cases "idle_policy_tick now (read_raw ffb = 0 \<and> list_all f_is_zero chunk) IDLE_TIMEOUT (wr_idle w1)")
  let ?w = "w1\<lparr>wr_idle := p\<rparr>"
  have k: "wr_idle w1 = wr_idle w" "link_of ?n ?w = link_of ?n w" using c by (auto simp: take_chunk_def Let_def link_of_def)
  note i = idle_policy_tick_cases [OF p]
  have t: "writer_tick io init now ffb w = (case act of
       ActEnterIdle \<Rightarrow> send_stop io init ?w
     | ActStayIdle \<Rightarrow> (None, ?w)
     | ActStream \<Rightarrow> send_samples io chunk (read_raw ffb) ?w
     | ActResume \<Rightarrow> (case send_init io init ?w of (Some e, w3) \<Rightarrow> (Some e, w3) | (None, w3) \<Rightarrow> send_samples io chunk (read_raw ffb) w3))"
    using c p by (simp add: writer_tick_def Let_def)
  show ?thesis
  proof (cases act)
    case ActStream
    then have "link_of ?n ?w = On" using k i assms(1) by (simp add: writer_ok_def)
    moreover have "send_samples io chunk (read_raw ffb) ?w = (r, w')" using t ActStream assms(3) by simp
    ultimately show ?thesis using send_samples_link [of io chunk "read_raw ffb" ?w r w' ?n] i ActStream by (auto simp: writer_ok_def)
  next
    case ActEnterIdle
    then have "link_of ?n ?w \<noteq> Illegal" using k i assms(1) by (simp add: writer_ok_def)
    moreover have "send_stop io init ?w = (r, w')" using t ActEnterIdle assms(3) by simp
    ultimately show ?thesis using send_stop_link [of io init ?w r w' ?n] i ActEnterIdle by (auto simp: writer_ok_def)
  next
    case ActStayIdle
    then show ?thesis using t assms(1,3) k i by (auto simp: writer_ok_def)
  next
    case ActResume
    then have off: "link_of ?n ?w = Off" using k i assms(1) by (simp add: writer_ok_def)
    obtain q w3 where s: "send_init io init ?w = (q, w3)" by (cases "send_init io init ?w")
    note si = send_init_link [OF off assms(2) s]
    show ?thesis
    proof (cases q)
      case None
      then have "link_of ?n w3 = On" using si by simp
      moreover have "send_samples io chunk (read_raw ffb) w3 = (r, w')" using t ActResume s None assms(3) by simp
      ultimately show ?thesis using send_samples_link [of io chunk "read_raw ffb" w3 r w' ?n] si i ActResume by (auto simp: writer_ok_def)
    next
      case (Some e)
      then show ?thesis using t ActResume s assms(3) si by auto
    qed
  qed
qed

lemma drain_keeps:
  "wr_idle (snd (drain_cmds cs w)) = wr_idle w \<and> wr_log (snd (drain_cmds cs w)) = wr_log w \<and> wr_window (snd (drain_cmds cs w)) = wr_window w"
  by (induction cs w rule: drain_cmds.induct) (auto simp: push_pending_def Let_def)

lemma writer_turn_link:
  assumes "writer_ok init w" "0 < length init" "writer_turn io init t w = (over, w')"
  shows "(\<not> over \<longrightarrow> writer_ok init w') \<and> (over \<longrightarrow> link_of (length init) w' \<in> {Off, Broken} \<and> (\<exists>seq r. last (wr_log w') = (StopPkt (stop_packet init seq), r)))"
proof -
  obtain stop w1 where d: "drain_cmds (tk_cmds t) w = (stop, w1)" by (cases "drain_cmds (tk_cmds t) w")
  have ok1: "writer_ok init w1" using drain_keeps [of "tk_cmds t" w] d assms(1) by (simp add: writer_ok_def link_of_def)
  then have l1: "link_of (length init) w1 \<noteq> Illegal" by (simp add: writer_ok_def)
  obtain r w2 where tk: "writer_tick io init (tk_now t) (tk_ffb t) w1 = (r, w2)" by (cases "writer_tick io init (tk_now t) (tk_ffb t) w1")
  note l2 = writer_tick_link [OF ok1 assms(2) tk]
  have st: "link_of (length init) w4 \<in> {Off, Broken} \<and> (\<exists>seq r. last (wr_log w4) = (StopPkt (stop_packet init seq), r))"
    if l: "link_of (length init) w3 \<noteq> Illegal" and e: "snd (send_stop io init w3) = w4" for w3 w4
  proof -
    obtain q where "send_stop io init w3 = (q, w4)" using e by (metis prod.collapse)
    from send_stop_link [OF this l] show ?thesis by auto
  qed
  have l2': "r \<noteq> None \<Longrightarrow> link_of (length init) w2 \<noteq> Illegal" using l2 by auto
  show ?thesis using assms(3) d tk l2 st [OF l1 refl] st [OF l2' refl] by (auto simp: writer_turn_def split: if_splits option.splits)
qed

lemma open_ok: "open_with_sink io init sg = Inr w \<Longrightarrow> 0 < length init \<Longrightarrow> writer_ok init w \<and> wr_pending w = []"
proof -
  assume o: "open_with_sink io init sg = Inr w" and n: "0 < length init"
  have s: "send_init io init (writer_new sg) = (None, w)" using o by (auto simp: open_with_sink_def split: prod.splits option.splits)
  have "link_of (length init) (writer_new sg) = Off" by (simp add: link_of_def writer_new_def)
  from send_init_link [OF this n s] show ?thesis by (simp add: writer_ok_def writer_new_def idle_new_def)
qed

lemma run_writer_link:
  assumes "0 < length init"
  shows "writer_ok init w \<Longrightarrow> link_of (length init) (run_writer io init ts w) \<in> {Off, Broken} \<and>
    (\<exists>seq r. last (wr_log (run_writer io init ts w)) = (StopPkt (stop_packet init seq), r))"
proof (induction ts arbitrary: w)
  case Nil
  obtain q w4 where s: "send_stop io init w = (q, w4)" by (cases "send_stop io init w")
  have "link_of (length init) w \<noteq> Illegal" using Nil by (simp add: writer_ok_def)
  from send_stop_link [OF s this] show ?case using s by auto
next
  case (Cons t ts)
  obtain over w' where t: "writer_turn io init t w = (over, w')" by (cases "writer_turn io init t w")
  from writer_turn_link [OF Cons.prems assms t] Cons.IH [of w'] show ?case using t by (cases over) auto
qed

text \<open>C11. The order of the packets to a G923. Whatever ticks, commands and force readings the writer meets
  and whichever of its writes fail, from an opened stream to the return of its thread: samples are
  only written to a wheel that took the whole init sequence twice since it was last stopped, the
  init sequence is never interrupted or started on an armed wheel, and after a failed write nothing
  but a stop is tried. At the end the wheel is off, or its node failed, and the last packet tried
  was the stop, so no wheel is left following a stale sample.
\<close>

theorem g923_wire_order:
  assumes "0 < length init" "open_with_sink io init sg = Inr w"
  shows "link_of (length init) (run_writer io init ts w) \<in> {Off, Broken} \<and>
    (\<exists>seq r. last (wr_log (run_writer io init ts w)) = (StopPkt (stop_packet init seq), r))"
  by (rule run_writer_link [OF assms(1)]) (use open_ok [OF assms(2,1)] in simp)

section \<open>The thread and its owner\<close>

definition stream_inv :: "u8 list list \<Rightarrow> G923Stream \<Rightarrow> bool" where
  "stream_inv init s \<longleftrightarrow>
     length (g_chan s) \<le> CMD_CHANNEL_CAPACITY \<and> length (wr_pending (g_writer s)) \<le> MAX_PENDING \<and>
     (g_alive s \<longrightarrow> writer_ok init (g_writer s) \<and> (g_stopped s \<longrightarrow> CmdStop \<in> set (g_chan s))) \<and>
     (\<not> g_alive s \<longrightarrow> link_of (length init) (g_writer s) \<in> {Off, Broken} \<and>
        (\<exists>seq r. last (wr_log (g_writer s)) = (StopPkt (stop_packet init seq), r)))"

lemma push_pending_bound: "length (wr_pending (push_pending samples w)) \<le> MAX_PENDING"
  by (auto simp: push_pending_def Let_def simp del: drop_append)

lemma drain_pending: "length (wr_pending w) \<le> MAX_PENDING \<Longrightarrow> length (wr_pending (snd (drain_cmds cs w))) \<le> MAX_PENDING"
  by (induction cs w rule: drain_cmds.induct) (auto simp: push_pending_bound)

lemma drain_stop: "CmdStop \<in> set cs \<Longrightarrow> fst (drain_cmds cs w)"
  by (induction cs w rule: drain_cmds.induct) auto

lemma init_pass_pending: "wr_pending (snd (init_pass io i ps w)) = wr_pending w"
  by (induction io i ps w rule: init_pass.induct) (auto simp: write_all_def Let_def split: option.splits)

lemma send_init_pending: "wr_pending (snd (send_init io init w)) = wr_pending w"
proof -
  obtain q w1 where a: "init_pass io 0 init w = (q, w1)" by (cases "init_pass io 0 init w")
  obtain q' w2 where b: "init_pass io 0 init w1 = (q', w2)" by (cases "init_pass io 0 init w1")
  have "wr_pending w1 = wr_pending w" "wr_pending w2 = wr_pending w1"
    using init_pass_pending [of io 0 init w] init_pass_pending [of io 0 init w1] a b by simp_all
  then show ?thesis using a b by (auto simp: send_init_def split: option.splits)
qed

lemma tick_pending: "length (wr_pending (snd (writer_tick io init now ffb w))) \<le> length (wr_pending w)"
proof -
  obtain chunk w1 where c: "take_chunk w = (chunk, w1)" by (cases "take_chunk w")
  have l: "length (wr_pending w1) \<le> length (wr_pending w)" using c by (auto simp: take_chunk_def Let_def)
  have s: "wr_pending (snd (send_samples io chunk ffb_raw w2)) = wr_pending w2" "wr_pending (snd (send_stop io init w2)) = wr_pending w2" for ffb_raw w2
    by (simp_all add: send_samples_def send_stop_def next_seq_def write_all_def Let_def)
  have i: "wr_pending w3 = wr_pending w1" if "send_init io init (w1\<lparr>wr_idle := p\<rparr>) = (r, w3)" for p r w3
    using send_init_pending [of io init "w1\<lparr>wr_idle := p\<rparr>"] that by simp
  show ?thesis using c l by (auto simp: writer_tick_def Let_def s i split: IdleAction.splits prod.splits option.splits)
qed

lemma turn_pending:
  assumes "length (wr_pending w) \<le> MAX_PENDING"
  shows "length (wr_pending (snd (writer_turn io init t w))) \<le> MAX_PENDING"
proof -
  obtain stop w1 where d: "drain_cmds (tk_cmds t) w = (stop, w1)" by (cases "drain_cmds (tk_cmds t) w")
  have b: "length (wr_pending w1) \<le> MAX_PENDING" using drain_pending [OF assms, of "tk_cmds t"] d by simp
  have s: "wr_pending (snd (send_stop io init w2)) = wr_pending w2" for w2
    by (simp add: send_stop_def next_seq_def write_all_def Let_def)
  obtain r w2 where tk: "writer_tick io init (tk_now t) (tk_ffb t) w1 = (r, w2)" by (cases "writer_tick io init (tk_now t) (tk_ffb t) w1")
  have "length (wr_pending w2) \<le> MAX_PENDING" using tick_pending [of io init "tk_now t" "tk_ffb t" w1] tk b by simp
  then show ?thesis using d b tk by (auto simp: writer_turn_def s split: option.splits)
qed

lemma stream_step_inv:
  assumes "0 < length init" "g923_step io init s s'" "stream_inv init s"
  shows "stream_inv init s'"
  using assms(2)
proof cases
  case (pushed now samples r)
  then show ?thesis using assms(3) by (auto simp: stream_inv_def g923_push_def Let_def split: if_splits)
next
  case stopped
  then show ?thesis using assms(3) by (auto simp: stream_inv_def)
next
  case stopped_dead
  then show ?thesis using assms(3) by (auto simp: stream_inv_def)
next
  case (turn now ffb over w)
  let ?t = "\<lparr>tk_now = now, tk_cmds = g_chan s, tk_disconnected = False, tk_ffb = ffb\<rparr>"
  have ok: "writer_ok init (g_writer s)" "length (wr_pending (g_writer s)) \<le> MAX_PENDING" using assms(3) turn(2) by (auto simp: stream_inv_def)
  note l = writer_turn_link [OF ok(1) assms(1) turn(3)]
  have b: "length (wr_pending w) \<le> MAX_PENDING" using turn_pending [OF ok(2), of io init ?t] turn(3) by simp
  have "over" if "g_stopped s"
  proof -
    have "CmdStop \<in> set (g_chan s)" using assms(3) turn(2) that by (auto simp: stream_inv_def)
    from drain_stop [OF this, of "g_writer s"] show ?thesis using turn(3) by (auto simp: writer_turn_def split: prod.splits)
  qed
  then show ?thesis using l b turn by (auto simp: stream_inv_def)
qed

lemma stream_reach_inv:
  assumes "0 < length init" "open_with_sink io init sg = Inr w" "(g923_step io init)\<^sup>*\<^sup>* (stream_new w) s"
  shows "stream_inv init s"
  using assms(3)
proof (induction rule: rtranclp_induct)
  case base
  then show ?case using open_ok [OF assms(2,1)] by (simp add: stream_inv_def stream_new_def)
next
  case (step s s')
  then show ?case using stream_step_inv [OF assms(1)] by blast
qed

text \<open>C15. Stopping a stream reaches the wheel. Under every interleaving of the daemon's pushes and its stop
  with the turns of the writer thread: the channel and the backlog stay within their bounds (16
  commands, 128 ms of samples), a thread that has ended tried the stop packet last, and once \<open>stop\<close>
  has been called the next turn of the thread, whatever it finds, ends it.
\<close>

theorem g923_stop_is_final:
  assumes "0 < length init" "open_with_sink io init sg = Inr w" "(g923_step io init)\<^sup>*\<^sup>* (stream_new w) s"
  shows "length (g_chan s) \<le> 16 \<and> length (wr_pending (g_writer s)) \<le> 128 * SAMPLES_PER_MS \<and>
    (g_alive s \<or> (\<exists>seq r. last (wr_log (g_writer s)) = (StopPkt (stop_packet init seq), r))) \<and>
    (g_stopped s \<and> g_alive s \<longrightarrow>
       fst (writer_turn io init \<lparr>tk_now = now, tk_cmds = g_chan s, tk_disconnected = False, tk_ffb = ffb\<rparr> (g_writer s)))"
proof -
  have i: "stream_inv init s" by (rule stream_reach_inv [OF assms])
  have "fst (writer_turn io init \<lparr>tk_now = now, tk_cmds = g_chan s, tk_disconnected = False, tk_ffb = ffb\<rparr> (g_writer s))"
    if "g_stopped s" "g_alive s"
  proof -
    have "CmdStop \<in> set (g_chan s)" using i that by (simp add: stream_inv_def)
    from drain_stop [OF this, of "g_writer s"] show ?thesis by (auto simp: writer_turn_def split: prod.splits)
  qed
  then show ?thesis using i
    by (auto simp: stream_inv_def CMD_CHANNEL_CAPACITY_def MAX_PENDING_def MAX_PENDING_MS_def MAX_GEN_MS_def MAX_PENDING_HEADROOM_MS_def SAMPLES_PER_MS_def)
qed

section \<open>The force merge\<close>

lemma sint16_range: "- 32768 \<le> sint (x :: i16) \<and> sint x \<le> 32767"
  using sint_range_size [of x] by (simp add: word_size)

lemma float_to_i16_range: "\<bar>sint (float_to_i16 sample)\<bar> \<le> 32767"
proof -
  let ?x = "f_clamp f_minus_one f_one sample"
  let ?m = "f_mul ?x f_32767"
  have c: "f_val f_32767 = 32767" "f_is_finite f_32767" by (simp_all add: f_val_def f_neg_def f_mag_def units_def Let_def f_is_finite_def F_INF_def)
  have "\<bar>f_to_int (-32768) 32767 ?m\<bar> \<le> 32767"
  proof (cases "f_is_nan sample")
    case True
    then have "f_is_nan ?x" by (simp add: f_clamp_def f_lt_def)
    then have "f_is_nan ?m" by (simp add: f_mul_def f_is_nan_def f_mag_def F_INF_def)
    then show ?thesis by (simp add: f_to_int_def)
  next
    case False
    from clamp_full_scale [OF this] have b: "bounded (2 ^ 0) ?x" by simp
    have x: "f_is_finite ?x" "\<bar>f_val ?x\<bar> \<le> 1" using b by (simp_all add: bounded_def)
    have "bounded (2 ^ 15) f_32767" using c by (simp add: bounded_def)
    from bounded_mul [OF b this] have fm: "f_is_finite ?m" by (simp add: bounded_def)
    have "\<bar>f_val ?x * 32767\<bar> \<le> 32767" using x(2) by (simp add: abs_mult)
    then have "f_val ?m \<le> f_val f_32767" "f_val (f_negate f_32767) \<le> f_val ?m"
      by (intro mul_le mul_ge; use x c in \<open>auto simp: abs_le_iff\<close>)+
    then have v: "\<bar>f_val ?m\<bar> \<le> 32767" using c by (simp add: abs_le_iff)
    have "\<lfloor>\<bar>f_val ?m\<bar>\<rfloor> \<le> 32767" "0 \<le> \<lfloor>\<bar>f_val ?m\<bar>\<rfloor>" using v by (simp_all add: floor_le_iff)
    moreover have "f_val ?m = \<bar>f_val ?m\<bar>" if "\<not> f_neg ?m" using that by (simp add: f_val_def)
    ultimately show ?thesis using fm by (auto simp: f_to_int_def clamp_int_def)
  qed
  then show ?thesis unfolding float_to_i16_def by (subst sint_word_of_int_16) auto
qed

lemma uint_wire: "uint (i16_to_wire v) = sint v + 32768"
  unfolding i16_to_wire_def by (subst uint_word_of_int_eq, rule take_bit_int_eq_self) (use sint16_range [of v] in simp_all)

text \<open>C24. The force merge is saturating arithmetic. The offset-binary value on the wire is 32768 plus the
  sum of the sample, scaled to at most 32767 either way, and the force of the classic engine,
  limited to 16 bits and negated as the sign says, the sum limited to 16 bits: for every sample, a
  NaN or one out of range included, and every force the attribute can read as, nothing wraps.
\<close>

theorem force_merge_saturates:
  "uint (mix_to_wire sample ffb_raw sg) =
     32768 + clamp_int (-32768) 32767 (sint (float_to_i16 sample) +
       (case sg of Normal \<Rightarrow> clamp_int (-32768) 32767 ffb_raw | Inverted \<Rightarrow> clamp_int (-32767) 32767 (- clamp_int (-32768) 32767 ffb_raw))) \<and>
   \<bar>sint (float_to_i16 sample)\<bar> \<le> 32767"
proof -
  define c where "c = clamp_int (-32768) 32767 ffb_raw"
  have c: "-32768 \<le> c" "c \<le> 32767" by (simp_all add: c_def clamp_int_def)
  have f: "sint (clamp_ffb ffb_raw) = c" unfolding clamp_ffb_def c_def [symmetric] by (rule sint_word_of_int_16) (use c in auto)
  have s: "sint (sign_apply sg (clamp_ffb ffb_raw)) = (case sg of Normal \<Rightarrow> c | Inverted \<Rightarrow> clamp_int (-32767) 32767 (- c))"
  proof (cases sg)
    case Inverted
    have "sint (word_of_int (- c) :: i16) = - c" if "c \<noteq> -32768" by (rule sint_word_of_int_16) (use c that in auto)
    then show ?thesis using Inverted c by (auto simp: sign_apply_def f clamp_int_def sint_word_of_int_16 [of 32767])
  qed (simp add: sign_apply_def f)
  let ?sum = "sint (float_to_i16 sample) + sint (sign_apply sg (clamp_ffb ffb_raw))"
  have "sint (word_of_int (clamp_int (-32768) 32767 ?sum) :: i16) = clamp_int (-32768) 32767 ?sum"
    by (rule sint_word_of_int_16) (simp_all add: clamp_int_def)
  then show ?thesis unfolding c_def [symmetric] using float_to_i16_range [of sample] by (simp add: mix_to_wire_def Let_def uint_wire s)
qed

section \<open>The packet\<close>

definition slot :: "u8 list \<Rightarrow> nat \<Rightarrow> u16" where
  "slot pkt off = ucast (pkt ! off) OR push_bit 8 (ucast (pkt ! (off + 1)))"

lemma bytes_join: "(ucast (lo_byte v) :: u16) OR push_bit 8 (ucast (hi_byte v)) = v"
proof (rule bit_word_eqI)
  fix n assume "n < LENGTH(16)"
  have m: "bit (0xff :: u16) n \<longleftrightarrow> n < 8" if "n < 16" for n
  proof -
    have "bit (mask 8 :: u16) n \<longleftrightarrow> n < 8" using that by (auto simp: bit_mask_iff)
    moreover have "(mask 8 :: u16) = 0xff" by (simp add: mask_eq_exp_minus_1)
    ultimately show ?thesis by simp
  qed
  show "bit ((ucast (lo_byte v) :: u16) OR push_bit 8 (ucast (hi_byte v))) n = bit v n"
    using \<open>n < LENGTH(16)\<close> m [of n]
    by (auto simp: bit_or_iff bit_push_bit_iff bit_ucast_iff lo_byte_def hi_byte_def bit_and_iff bit_drop_bit_eq)
qed

lemma concat_slots: "i < length ws \<Longrightarrow> j < 4 \<Longrightarrow>
    concat (map (\<lambda>v. [lo_byte v, hi_byte v, lo_byte v, hi_byte v]) ws) ! (i * 4 + j) = [lo_byte (ws ! i), hi_byte (ws ! i), lo_byte (ws ! i), hi_byte (ws ! i)] ! j"
proof (induction ws arbitrary: i)
  case (Cons w ws)
  show ?case
  proof (cases i)
    case 0
    have "j = 0 \<or> j = 1 \<or> j = 2 \<or> j = 3" using Cons.prems(2) by linarith
    then show ?thesis using 0 by auto
  next
    case (Suc k)
    then show ?thesis using Cons.IH [of k] Cons.prems by simp
  qed
qed simp

text \<open>
  A sample packet shows its window: it is 64 bytes long, carries its sequence number, and both
  copies of every slot read as the window, oldest first, the current value as the newest.
\<close>

theorem packet_shows_the_window:
  assumes "length win = WINDOW"
  shows "length (build_sample_packet seq win) = 64 \<and> build_sample_packet seq win ! 5 = seq \<and>
    slot (build_sample_packet seq win) 6 = last win \<and> slot (build_sample_packet seq win) 8 = last win \<and>
    map (\<lambda>i. slot (build_sample_packet seq win) (12 + i * 4)) [0..<WINDOW] = win \<and>
    map (\<lambda>i. slot (build_sample_packet seq win) (14 + i * 4)) [0..<WINDOW] = win"
proof -
  let ?p = "build_sample_packet seq win"
  let ?c = "concat (map (\<lambda>v. [lo_byte v, hi_byte v, lo_byte v, hi_byte v]) win)"
  have len: "length ?c = length win * 4" by (induction win) simp_all
  have l: "last win = win ! 12" using assms by (subst last_conv_nth) (auto simp: WINDOW_def)
  have at: "?p ! (12 + k) = ?c ! k" for k by (simp add: build_sample_packet_def Let_def nth_append)
  have sl: "slot ?p (12 + i * 4) = win ! i" "slot ?p (14 + i * 4) = win ! i" if "i < 13" for i
  proof -
    have c: "?p ! (12 + (i * 4 + j)) = [lo_byte (win ! i), hi_byte (win ! i), lo_byte (win ! i), hi_byte (win ! i)] ! j" if "j < 4" for j
      using concat_slots [of i win j] \<open>i < 13\<close> that assms by (simp add: at WINDOW_def)
    have "?p ! (12 + i * 4) = lo_byte (win ! i)" "?p ! (12 + i * 4 + 1) = hi_byte (win ! i)"
      "?p ! (14 + i * 4) = lo_byte (win ! i)" "?p ! (14 + i * 4 + 1) = hi_byte (win ! i)"
      using c [of 0] c [of 1] c [of 2] c [of 3] by (simp_all add: ac_simps)
    then show "slot ?p (12 + i * 4) = win ! i" "slot ?p (14 + i * 4) = win ! i" by (simp_all only: slot_def bytes_join)
  qed
  have m: "map (\<lambda>i. slot ?p (12 + i * 4)) [0..<WINDOW] = win" "map (\<lambda>i. slot ?p (14 + i * 4)) [0..<WINDOW] = win"
    by (rule nth_equalityI; use assms sl in \<open>auto simp: WINDOW_def\<close>)+
  have "length ?p = 64" using len assms by (simp add: build_sample_packet_def Let_def WINDOW_def)
  moreover have h: "?p ! 5 = seq" "?p ! 6 = lo_byte (win ! 12)" "?p ! 7 = hi_byte (win ! 12)" "?p ! 8 = lo_byte (win ! 12)" "?p ! 9 = hi_byte (win ! 12)"
    by (simp_all add: build_sample_packet_def Let_def WINDOW_def)
  moreover have "slot ?p 6 = last win" "slot ?p 8 = last win" by (simp_all add: slot_def h bytes_join l)
  ultimately show ?thesis using m by blast
qed

section \<open>The idle policy\<close>

definition idle_history :: "nat \<Rightarrow> (nat \<times> bool) list \<Rightarrow> IdlePolicy" where
  "idle_history timeout h = fold (\<lambda>(now, silent) p. snd (idle_policy_tick now silent timeout p)) h idle_new"

lemma idle_history_snoc: "idle_history timeout (h @ [t]) = snd (idle_policy_tick (fst t) (snd t) timeout (idle_history timeout h))"
  by (simp add: idle_history_def case_prod_beta)

text \<open>The ticks since the last one that was not silent, newest first.\<close>

definition quiet :: "(nat \<times> bool) list \<Rightarrow> nat list" where
  "quiet h = map fst (takeWhile snd (rev h))"

lemma quiet_snoc: "quiet (h @ [t]) = (if snd t then fst t # quiet h else [])"
  by (simp add: quiet_def)

lemma quiet_bound: "sorted (map fst (h @ [t])) \<Longrightarrow> x \<in> set (quiet h) \<Longrightarrow> x \<le> fst t"
  by (auto simp: quiet_def sorted_append dest!: set_takeWhileD)

lemma idle_history_spec:
  "0 < timeout \<Longrightarrow> sorted (map fst h) \<Longrightarrow>
    ip_silent_since (idle_history timeout h) = (if quiet h = [] then None else Some (last (quiet h))) \<and>
    ip_idle (idle_history timeout h) = (quiet h \<noteq> [] \<and> timeout \<le> hd (quiet h) - last (quiet h))"
proof (induction h rule: rev_induct)
  case Nil
  then show ?case by (simp add: idle_history_def idle_new_def quiet_def)
next
  case (snoc t h)
  let ?p = "idle_history timeout h"
  have s: "sorted (map fst h)" using snoc.prems(2) by (simp add: sorted_append)
  note IH = snoc.IH [OF snoc.prems(1) s]
  have le: "hd (quiet h) \<le> fst t" if "quiet h \<noteq> []" using quiet_bound [OF snoc.prems(2), of "hd (quiet h)"] that by simp
  show ?case
  proof (cases "snd t")
    case False
    then show ?thesis using IH by (auto simp: idle_history_snoc quiet_snoc idle_policy_tick_def Let_def)
  next
    case True
    show ?thesis
    proof (cases "quiet h = []")
      case e: True
      then show ?thesis using IH True snoc.prems(1) by (auto simp: idle_history_snoc quiet_snoc idle_policy_tick_def Let_def)
    next
      case ne: False
      then show ?thesis using IH True le by (auto simp: idle_history_snoc quiet_snoc idle_policy_tick_def Let_def)
    qed
  qed
qed

lemma quiet_span:
  assumes "0 < timeout" "sorted (map fst h)"
  shows "quiet h \<noteq> [] \<and> timeout \<le> hd (quiet h) - last (quiet h) \<longleftrightarrow>
    (\<exists>k<length h. list_all snd (drop k h) \<and> timeout \<le> fst (last h) - fst (h ! k))"
proof -
  define suf pre where "suf = rev (takeWhile snd (rev h))" and "pre = rev (dropWhile snd (rev h))"
  have "takeWhile snd (rev h) @ dropWhile snd (rev h) = rev h" by (rule takeWhile_dropWhile_id)
  then have h: "h = pre @ suf" unfolding suf_def pre_def by (metis rev_append rev_rev_ident)
  have q: "quiet h = rev (map fst suf)" by (simp add: quiet_def suf_def rev_map)
  have sil: "list_all snd suf" by (auto simp: suf_def list_all_iff dest: set_takeWhileD)
  have loud: "\<not> snd (last pre)" if "pre \<noteq> []"
  proof -
    have "dropWhile snd (rev h) \<noteq> []" using that by (simp add: pre_def)
    from hd_dropWhile [OF this] show ?thesis by (simp add: pre_def last_rev)
  qed
  have silent: "list_all snd (drop k h) \<longleftrightarrow> length pre \<le> k" for k
  proof
    assume a: "list_all snd (drop k h)"
    show "length pre \<le> k"
    proof (rule ccontr)
      assume "\<not> length pre \<le> k"
      then have k: "k < length pre" by simp
      then have "drop k pre \<noteq> []" "last (drop k pre) = last pre" by simp_all
      then have "last pre \<in> set (drop k pre)" by (metis last_in_set)
      then have "pre \<noteq> []" "last pre \<in> set (drop k h)" using k by (auto simp: h)
      then show False using loud a by (auto simp: list_all_iff)
    qed
  qed (use sil in \<open>auto simp: h list_all_iff dest: in_set_dropD\<close>)
  have mono: "fst (h ! length pre) \<le> fst (h ! k)" if "length pre \<le> k" "k < length h" for k
    using sorted_nth_mono [OF assms(2), of "length pre" k] that by simp
  show ?thesis
  proof (cases "suf = []")
    case True
    then show ?thesis using silent q by (auto simp: h)
  next
    case False
    have e: "hd (quiet h) = fst (last h)" "last (quiet h) = fst (h ! length pre)"
    proof -
      have "last h = last suf" "h ! length pre = hd suf" using False by (simp_all add: h nth_append hd_conv_nth)
      then show "hd (quiet h) = fst (last h)" "last (quiet h) = fst (h ! length pre)"
        using False by (simp_all add: q hd_rev last_rev last_map hd_map)
    qed
    have len: "length pre < length h" using False by (simp add: h)
    show ?thesis
    proof
      assume "quiet h \<noteq> [] \<and> timeout \<le> hd (quiet h) - last (quiet h)"
      then show "\<exists>k<length h. list_all snd (drop k h) \<and> timeout \<le> fst (last h) - fst (h ! k)"
        using silent len e by (intro exI [of _ "length pre"]) simp
    next
      assume "\<exists>k<length h. list_all snd (drop k h) \<and> timeout \<le> fst (last h) - fst (h ! k)"
      then obtain k where k: "k < length h" "list_all snd (drop k h)" "timeout \<le> fst (last h) - fst (h ! k)" by blast
      with mono [of k] silent have "timeout \<le> fst (last h) - fst (h ! length pre)" by (meson diff_le_mono2 order_trans)
      then show "quiet h \<noteq> [] \<and> timeout \<le> hd (quiet h) - last (quiet h)" using e False by (simp add: q)
    qed
  qed
qed

text \<open>
  The wheel is handed back after five silent seconds and not before. After any history of ticks in
  the order of the clock the policy is idle exactly when the ticks since the last one that was not
  silent span the timeout.
\<close>

theorem idle_means_silent_for_the_timeout:
  assumes "sorted (map fst h)"
  shows "ip_idle (idle_history IDLE_TIMEOUT h) \<longleftrightarrow>
    (\<exists>k<length h. list_all snd (drop k h) \<and> IDLE_TIMEOUT \<le> fst (last h) - fst (h ! k))"
proof -
  have t: "0 < IDLE_TIMEOUT" by (simp add: IDLE_TIMEOUT_def MS_def)
  show ?thesis using idle_history_spec [OF t assms] quiet_span [OF t assms] by simp
qed

section \<open>Witnesses\<close>

text \<open>An init sequence of two packets, a node that takes every write, and two ticks: one push, then
  the stop.\<close>

definition demo_init :: "u8 list list" where
  "demo_init = [replicate 64 0, (replicate 64 0)[4 := 4]]"

definition demo_ticks :: "tick_input list" where
  "demo_ticks =
     [\<lparr>tk_now = 0, tk_cmds = [CmdPush [f_one]], tk_disconnected = False, tk_ffb = None\<rparr>,
      \<lparr>tk_now = MS, tk_cmds = [CmdStop], tk_disconnected = False, tk_ffb = None\<rparr>]"

definition demo_writer :: Writer where
  "demo_writer = snd (send_init (\<lambda>_. None) demo_init (writer_new Inverted))"

lemma demo_opened: "0 < length demo_init" "open_with_sink (\<lambda>_. None) demo_init Inverted = Inr demo_writer"
  by (simp_all add: demo_writer_def open_with_sink_def demo_init_def send_init_def write_all_def Let_def)

theorem g923_wire_order_witness:
  "link_of (length demo_init) (run_writer (\<lambda>_. None) demo_init demo_ticks demo_writer) \<in> {Off, Broken} \<and>
    (\<exists>seq r. last (wr_log (run_writer (\<lambda>_. None) demo_init demo_ticks demo_writer)) = (StopPkt (stop_packet demo_init seq), r))"
  by (rule g923_wire_order [OF demo_opened])

theorem g923_stop_is_final_witness:
  "\<exists>s. (g923_step (\<lambda>_. None) demo_init)\<^sup>*\<^sup>* (stream_new demo_writer) s \<and> g_stopped s \<and> g_alive s \<and>
     fst (writer_turn (\<lambda>_. None) demo_init \<lparr>tk_now = 7, tk_cmds = g_chan s, tk_disconnected = False, tk_ffb = Some ''0''\<rparr> (g_writer s))"
proof -
  let ?s = "(stream_new demo_writer)\<lparr>g_stopped := True, g_chan := [CmdStop]\<rparr>"
  have "g923_step (\<lambda>_. None) demo_init (stream_new demo_writer) ((stream_new demo_writer)\<lparr>g_stopped := True, g_chan := g_chan (stream_new demo_writer) @ [CmdStop]\<rparr>)"
    by (rule g923_step.stopped) (simp_all add: stream_new_def CMD_CHANNEL_CAPACITY_def)
  then have r: "(g923_step (\<lambda>_. None) demo_init)\<^sup>*\<^sup>* (stream_new demo_writer) ?s" by (simp add: stream_new_def)
  have "g_stopped ?s \<and> g_alive ?s" by (simp add: stream_new_def)
  with g923_stop_is_final [OF demo_opened r, of 7 "Some ''0''"] r show ?thesis by blast
qed

theorem packet_shows_the_window_witness:
  "slot (build_sample_packet 7 (replicate 12 CENTER @ [0x1234])) 6 = 0x1234 \<and> build_sample_packet 7 (replicate 12 CENTER @ [0x1234]) ! 5 = 7"
  using packet_shows_the_window [of "replicate 12 CENTER @ [0x1234]" 7] by (simp add: WINDOW_def)

theorem idle_means_silent_for_the_timeout_witness:
  "ip_idle (idle_history IDLE_TIMEOUT [(0, False), (MS, True), (5001 * MS, True)])"
proof -
  have s: "sorted (map fst [(0, False), (MS, True), (5001 * MS, True)])" by (simp add: MS_def)
  have "1 < length [(0, False), (MS, True), (5001 * MS, True)] \<and> list_all snd (drop 1 [(0, False), (MS, True), (5001 * MS, True)]) \<and>
    IDLE_TIMEOUT \<le> fst (last [(0, False), (MS, True), (5001 * MS, True)]) - fst ([(0, False), (MS, True), (5001 * MS, True)] ! 1)"
    by (simp add: IDLE_TIMEOUT_def MS_def)
  with idle_means_silent_for_the_timeout [OF s] show ?thesis by blast
qed

end
