(* ===== verification/Views.thy ===== *)
theory Views
  imports Tfsim
begin

text \<open>
  What both front ends show, and how a selection becomes writes: the LIGHTSYNC selector
  (\<open>lightsync.rs\<close>) and the choice between a sensitivity and a curve per axis (\<open>shaping.rs\<close>). The
  attributes are those of the registry.
\<close>

section \<open>LIGHTSYNC\<close>

definition EFFECT_LABELS :: "string list" where
  "EFFECT_LABELS = [''Inside out'', ''Outside in'', ''Left to right'', ''Right to left'']"

definition CUSTOM_SLOTS :: nat where "CUSTOM_SLOTS = 5"
definition SELECTION_COUNT :: nat where "SELECTION_COUNT = 9"

datatype Selection = SelEffect u8 | SelCustom u8

definition selection_index :: "u8 \<Rightarrow> u8 \<Rightarrow> nat" where
  "selection_index effect sl =
     (if 1 \<le> effect \<and> effect \<le> 4 then unat effect - 1
      else if effect = 5 then 4 + unat (min sl (of_nat CUSTOM_SLOTS - 1))
      else if 6 \<le> effect \<and> effect \<le> 9 then 4 + unat (effect - 5)
      else SELECTION_COUNT)"

definition index_selection :: "nat \<Rightarrow> u8 \<Rightarrow> Selection" where
  "index_selection idx current_effect =
     (if idx \<le> 3 then SelEffect (of_nat idx + 1)
      else if idx \<le> 8 then SelCustom (of_nat idx - 4)
      else SelEffect current_effect)"

definition custom_label :: "string list \<Rightarrow> nat \<Rightarrow> string" where
  "custom_label slot_names n =
     (let default = ''CUSTOM '' @ dec_nat n in
      case get_at slot_names (n - 1) of
        None \<Rightarrow> default
      | Some s \<Rightarrow>
          (let t = trim s in
           if t \<noteq> [] \<and> to_ascii_lowercase t \<noteq> to_ascii_lowercase default then default @ '': '' @ t else default))"

definition dropdown_labels :: "string list \<Rightarrow> u8 \<Rightarrow> string list" where
  "dropdown_labels slot_names current_effect =
     EFFECT_LABELS @ map (custom_label slot_names) [1..<CUSTOM_SLOTS + 1] @
     (if 1 \<le> current_effect \<and> current_effect \<le> 9 then [] else [''Effect '' @ dec_nat (unat current_effect)])"

definition effect_direction :: "u8 \<Rightarrow> u8 option" where
  "effect_direction effect =
     (if effect = 1 then Some 2 else if effect = 2 then Some 3 else if effect = 3 then Some 1 else if effect = 4 then Some 0 else None)"

definition mirrored :: "u8 \<Rightarrow> bool" where "mirrored direction \<longleftrightarrow> direction = 2 \<or> direction = 3"

text \<open>The subtraction of an index above nine overflows.\<close>

definition mirror_index :: "nat \<Rightarrow> nat option" where
  "mirror_index i = (if i \<le> 9 then Some (9 - i) else None)"

definition mirror_left_half :: "'a list \<Rightarrow> 'a list" where
  "mirror_left_half items = fold (\<lambda>i xs. xs[length items - 1 - i := xs ! i]) [0..<length items div 2] items"

section \<open>Response shaping\<close>

datatype ShapingRole = Simple | Advanced | Neutral
datatype Axis = Steering | Throttle | Brake | Clutch | Handbrake

definition ALL_AXES :: "Axis list" where "ALL_AXES = [Steering, Throttle, Brake, Clutch, Handbrake]"

definition axis_index :: "Axis \<Rightarrow> nat" where
  "axis_index a = (case a of Steering \<Rightarrow> 0 | Throttle \<Rightarrow> 1 | Brake \<Rightarrow> 2 | Clutch \<Rightarrow> 3 | Handbrake \<Rightarrow> 4)"

definition axis_of :: "string \<Rightarrow> Axis option" where
  "axis_of name =
     (if name \<in> {''wheel_sensitivity'', ''wheel_response_curve''} then Some Steering
      else if name \<in> {''wheel_throttle_sensitivity'', ''wheel_throttle_curve'', ''wheel_throttle_deadzone''} then Some Throttle
      else if name \<in> {''wheel_brake_sensitivity'', ''wheel_brake_curve'', ''wheel_brake_deadzone''} then Some Brake
      else if name \<in> {''wheel_clutch_sensitivity'', ''wheel_clutch_curve'', ''wheel_clutch_deadzone''} then Some Clutch
      else if name \<in> {''wheel_handbrake_sensitivity'', ''wheel_handbrake_curve''} then Some Handbrake
      else None)"

definition shaping_role :: "string \<Rightarrow> ShapingRole" where
  "shaping_role name =
     (if name \<in> {''wheel_sensitivity'', ''wheel_throttle_sensitivity'', ''wheel_brake_sensitivity'', ''wheel_clutch_sensitivity'',
                 ''wheel_handbrake_sensitivity''} then Simple
      else if name \<in> {''wheel_response_curve'', ''wheel_throttle_curve'', ''wheel_brake_curve'', ''wheel_clutch_curve'',
                 ''wheel_handbrake_curve''} then Advanced
      else Neutral)"

definition toggle_attr :: "Axis \<Rightarrow> string" where
  "toggle_attr a =
     (case a of Steering \<Rightarrow> ''ui:shaping:steering'' | Throttle \<Rightarrow> ''ui:shaping:throttle'' | Brake \<Rightarrow> ''ui:shaping:brake''
      | Clutch \<Rightarrow> ''ui:shaping:clutch'' | Handbrake \<Rightarrow> ''ui:shaping:handbrake'')"

definition toggle_axis :: "string \<Rightarrow> Axis option" where
  "toggle_axis name = find (\<lambda>a. toggle_attr a = name) ALL_AXES"

definition toggle_label :: "Axis \<Rightarrow> string" where
  "toggle_label a =
     (case a of Steering \<Rightarrow> ''Steering shaping'' | Throttle \<Rightarrow> ''Throttle shaping'' | Brake \<Rightarrow> ''Brake shaping''
      | Clutch \<Rightarrow> ''Clutch shaping'' | Handbrake \<Rightarrow> ''Handbrake shaping'')"

record AxisToggles =
  at_curve :: "bool list"

definition toggles_default :: AxisToggles where "toggles_default = \<lparr>at_curve = replicate 5 False\<rparr>"

definition toggles_get :: "AxisToggles \<Rightarrow> Axis \<Rightarrow> bool" where "toggles_get t a = at_curve t ! axis_index a"

definition toggles_set :: "Axis \<Rightarrow> bool \<Rightarrow> AxisToggles \<Rightarrow> AxisToggles" where
  "toggles_set a curve t = t\<lparr>at_curve := (at_curve t)[axis_index a := curve]\<rparr>"

definition toggles_toggle :: "Axis \<Rightarrow> AxisToggles \<Rightarrow> AxisToggles" where
  "toggles_toggle a t = t\<lparr>at_curve := (at_curve t)[axis_index a := \<not> at_curve t ! axis_index a]\<rparr>"

definition row_visible :: "string \<Rightarrow> AxisToggles \<Rightarrow> bool" where
  "row_visible name t =
     (let curve = (case axis_of name of None \<Rightarrow> False | Some a \<Rightarrow> toggles_get t a) in
      case shaping_role name of Simple \<Rightarrow> \<not> curve | Advanced \<Rightarrow> curve | Neutral \<Rightarrow> True)"

section \<open>Properties\<close>

lemma small_u8: "(e :: u8) \<in> {0, 1, 2, 3, 4, 5, 6, 7, 8, 9} \<or> 9 < e"
proof (cases "unat e < 10")
  case True
  then have "unat e \<in> {0, 1, 2, 3, 4, 5, 6, 7, 8, 9}" by auto
  moreover have "e = of_nat (unat e)" by simp
  ultimately show ?thesis by fastforce
qed (simp add: word_less_nat_alt)

lemma large_u8: "9 < (e :: u8) \<Longrightarrow> \<not> e \<le> 4 \<and> e \<noteq> 5 \<and> \<not> e \<le> 9"
  by (auto simp: word_le_nat_alt word_less_nat_alt)

lemma dropdown_length: "length (dropdown_labels names e) = (if 1 \<le> e \<and> e \<le> 9 then 9 else 10)"
  by (simp add: dropdown_labels_def EFFECT_LABELS_def CUSTOM_SLOTS_def)

lemma custom_slot: "unat (min sl (4 :: u8)) \<le> 4 \<and> of_nat (4 + unat (min sl 4)) - 4 = min sl (4 :: u8)"
  by (auto simp: min_def word_le_nat_alt)

text \<open>
  The selector always shows the state of the wheel: whatever effect and slot the device reports,
  the entry shown exists, and picking it writes back the state shown.
\<close>

theorem selector_shows_the_device:
  "selection_index effect sl < length (dropdown_labels names effect) \<and>
   index_selection (selection_index effect sl) effect =
     (if 5 \<le> effect \<and> effect \<le> 9 then SelCustom (if effect = 5 then min sl 4 else effect - 5) else SelEffect effect)"
proof (cases "9 < effect")
  case True
  then show ?thesis using large_u8 [OF True]
    by (simp add: selection_index_def index_selection_def dropdown_length SELECTION_COUNT_def)
next
  case False
  then have "effect \<in> {0, 1, 2, 3, 4, 5, 6, 7, 8, 9}" using small_u8 [of effect] by blast
  moreover have "\<not> (5 :: u8) \<le> 1" "\<not> (6 :: u8) \<le> 1" by (simp_all add: word_le_nat_alt)
  ultimately show ?thesis using custom_slot [of sl]
    by (elim insertE emptyE) (simp_all add: selection_index_def index_selection_def dropdown_length SELECTION_COUNT_def CUSTOM_SLOTS_def)
qed

text \<open>
  A mirrored strip reads the same from both ends and keeps its left half; mirroring it again
  changes nothing.
\<close>

lemma mirror_prefix:
  "k \<le> length items div 2 \<Longrightarrow>
    length (fold (\<lambda>i xs. xs[length items - 1 - i := xs ! i]) [0..<k] items) = length items \<and>
    (\<forall>j<length items. fold (\<lambda>i xs. xs[length items - 1 - i := xs ! i]) [0..<k] items ! j =
       (if length items - k \<le> j then items ! (length items - 1 - j) else items ! j))"
proof (induction k)
  case (Suc k)
  let ?f = "\<lambda>k. fold (\<lambda>i xs. xs[length items - 1 - i := xs ! i]) [0..<k] items"
  have IH: "length (?f k) = length items" "\<And>j. j < length items \<Longrightarrow> ?f k ! j = (if length items - k \<le> j then items ! (length items - 1 - j) else items ! j)"
    using Suc by auto
  have e: "?f (Suc k) = (?f k)[length items - 1 - k := ?f k ! k]" by simp
  have b: "k < length items - k - 1 \<or> k < length items - k" "k < length items" "\<not> length items - k \<le> k" using Suc.prems by auto
  show ?case unfolding e
  proof (intro conjI allI impI)
    fix j assume j: "j < length items"
    show "(?f k)[length items - 1 - k := ?f k ! k] ! j = (if length items - Suc k \<le> j then items ! (length items - 1 - j) else items ! j)"
    proof (cases "j = length items - 1 - k")
      case True
      then show ?thesis using IH j b by (auto simp: nth_list_update)
    next
      case False
      then have "(length items - Suc k \<le> j) = (length items - k \<le> j)" using j b by auto
      then show ?thesis using IH j False by (simp add: nth_list_update)
    qed
  qed (use IH in simp)
qed simp

lemma mirror_spec:
  "length (mirror_left_half items) = length items"
  "j < length items \<Longrightarrow> mirror_left_half items ! j = items ! (if length items - length items div 2 \<le> j then length items - 1 - j else j)"
  using mirror_prefix [of "length items div 2" items] by (auto simp: mirror_left_half_def)

theorem mirrored_strip_is_symmetric:
  "rev (mirror_left_half items) = mirror_left_half items \<and>
   take (length items - length items div 2) (mirror_left_half items) = take (length items - length items div 2) items \<and>
   mirror_left_half (mirror_left_half items) = mirror_left_half items"
proof (intro conjI; rule nth_equalityI)
  fix j assume j: "j < length (rev (mirror_left_half items))"
  then have "j < length items" by (simp add: mirror_spec)
  then show "rev (mirror_left_half items) ! j = mirror_left_half items ! j"
    by (auto simp: rev_nth mirror_spec intro!: arg_cong [where f = "nth items"])
next
  fix j assume "j < length (mirror_left_half (mirror_left_half items))"
  then have "j < length items" by (simp add: mirror_spec)
  then show "mirror_left_half (mirror_left_half items) ! j = mirror_left_half items ! j"
    by (auto simp: mirror_spec intro!: arg_cong [where f = "nth items"])
qed (auto simp: mirror_spec)

text \<open>
  For every axis exactly one of its two generators of the device curve is shown, the one the toggle
  of that axis asks for, and toggling an axis changes no other axis.
\<close>

definition toggles_ok :: "AxisToggles \<Rightarrow> bool" where "toggles_ok t \<longleftrightarrow> length (at_curve t) = 5"

lemma axis_index_inj: "axis_index a = axis_index b \<longleftrightarrow> a = b" "axis_index a < 5"
  by (cases a; cases b; simp add: axis_index_def)+

theorem one_generator_per_axis:
  assumes "toggles_ok t" "axis_of simple = Some a" "shaping_role simple = Simple" "axis_of adv = Some a" "shaping_role adv = Advanced"
  shows "row_visible adv t = toggles_get t a \<and> row_visible simple t = (\<not> row_visible adv t) \<and>
    row_visible simple (toggles_toggle b t) = (if a = b then \<not> row_visible simple t else row_visible simple t)"
  using assms axis_index_inj by (auto simp: row_visible_def toggles_get_def toggles_toggle_def toggles_ok_def nth_list_update)

end
