(* ===== verification/Oled.thy ===== *)
theory Oled
  imports Relay Tfsim F32_Ops
begin

text \<open>
  The screen of the base: the layouts, composing and reading a \<open>wheel_oled\<close> frame, the presets and
  the preview of \<open>oled.rs\<close> (\<open>logi-wheel-core\<close>), and the screen of the daemon with its templates,
  \<open>screen.rs\<close> (\<open>logi-tf-sim\<close>). A string is its bytes; the separator and the placeholders are ASCII.
\<close>

section \<open>Layouts\<close>

datatype Field = FNumber string | FText string nat

definition field_label :: "Field \<Rightarrow> string" where
  "field_label f = (case f of FNumber l \<Rightarrow> l | FText l w \<Rightarrow> l)"

datatype Size = Small | Medium | Large | VeryLarge
datatype Align = AlignLeft | Centre | AlignRight | TwoZone

record Layout =
  ly_index :: nat
  ly_letter :: char
  ly_name :: string
  ly_fields :: "Field list"

definition LAYOUTS :: "Layout list" where
  "LAYOUTS =
    [\<lparr>ly_index = 0, ly_letter = CHR ''A'', ly_name = ''Black screen'', ly_fields = []\<rparr>,
     \<lparr>ly_index = 1, ly_letter = CHR ''B'', ly_name = ''Firmware test pattern'', ly_fields = []\<rparr>,
     \<lparr>ly_index = 2, ly_letter = CHR ''C'', ly_name = ''Gauge'', ly_fields = [FNumber ''Fill'']\<rparr>,
     \<lparr>ly_index = 3, ly_letter = CHR ''D'', ly_name = ''Gauge with a label'',
      ly_fields = [FNumber ''Fill'', FNumber ''Mark'', FText ''Label'' 11]\<rparr>,
     \<lparr>ly_index = 4, ly_letter = CHR ''E'', ly_name = ''Gauge with two values'',
      ly_fields = [FNumber ''Fill'', FNumber ''Mark'', FText ''Right'' 3, FText ''Left'' 7]\<rparr>,
     \<lparr>ly_index = 5, ly_letter = CHR ''F'', ly_name = ''Small gear, big value'', ly_fields = [FText ''Gear'' 1, FText ''Value'' 3]\<rparr>,
     \<lparr>ly_index = 6, ly_letter = CHR ''G'', ly_name = ''Big gear, value beside it'', ly_fields = [FText ''Gear'' 1, FText ''Value'' 3]\<rparr>,
     \<lparr>ly_index = 7, ly_letter = CHR ''H'', ly_name = ''Small row over a large row'', ly_fields = [FText ''Top'' 21, FText ''Bottom'' 10]\<rparr>,
     \<lparr>ly_index = 8, ly_letter = CHR ''I'', ly_name = ''Four rows, right-aligned'',
      ly_fields = [FText ''Row 1'' 19, FText ''Row 2, large'' 10, FText ''Row 3'' 19, FText ''Row 4, large'' 10]\<rparr>,
     \<lparr>ly_index = 9, ly_letter = CHR ''J'', ly_name = ''Four rows, centred'',
      ly_fields = [FText ''Row 1'' 19, FText ''Row 2, large'' 10, FText ''Row 3'' 19, FText ''Row 4, large'' 10]\<rparr>]"

definition find_layout :: "char \<Rightarrow> Layout option" where
  "find_layout key = (let k = to_upper_char key in find (\<lambda>l. ly_letter l = k \<or> digit_char (ly_index l) = k) LAYOUTS)"

definition picker_labels :: "string list" where "picker_labels = map ly_name LAYOUTS"

section \<open>Composing and reading a frame\<close>

datatype ComposeError = TooLong nat nat | NotANumber nat | Separator nat

definition compose_error_text :: "ComposeError \<Rightarrow> string" where
  "compose_error_text e =
     (case e of
        TooLong i w \<Rightarrow> ''field '' @ dec_nat (i + 1) @ '' is wider than '' @ dec_nat w @ '' characters''
      | NotANumber i \<Rightarrow> ''field '' @ dec_nat (i + 1) @ '' must be 0 to 255''
      | Separator i \<Rightarrow> ''field '' @ dec_nat (i + 1) @ '' cannot contain |'')"

abbreviation bar_char :: char where "bar_char \<equiv> CHR ''|''"
abbreviation open_brace :: char where "open_brace \<equiv> CHR 0x7B"
abbreviation close_brace :: char where "close_brace \<equiv> CHR 0x7D"

definition compose_field :: "nat \<Rightarrow> Field \<Rightarrow> string \<Rightarrow> ComposeError + string" where
  "compose_field i f raw =
     (case f of
        FNumber l \<Rightarrow>
          (let t = trim raw in
           if t = [] then Inr ''0''
           else if hd t = open_brace then Inr t
           else case parse_unsigned 4294967295 t of
               None \<Rightarrow> Inl (NotANumber i)
             | Some n \<Rightarrow> if 255 < n then Inl (NotANumber i) else Inr (dec_nat n))
      | FText l w \<Rightarrow>
          if bar_char \<in> set raw then Inl (Separator i)
          else
            let t = trim_end raw in
            if open_brace \<notin> set t \<and> w < chars_count t then Inl (TooLong i w) else Inr t)"

fun compose_fields :: "nat \<Rightarrow> Field list \<Rightarrow> string list \<Rightarrow> ComposeError + string" where
  "compose_fields i [] values = Inr []"
| "compose_fields i (f # fs) values =
     (case compose_field i f (case get_at values i of Some v \<Rightarrow> v | None \<Rightarrow> []) of
        Inl e \<Rightarrow> Inl e
      | Inr t \<Rightarrow> (case compose_fields (i + 1) fs values of Inl e \<Rightarrow> Inl e | Inr rest \<Rightarrow> Inr (bar_char # t @ rest)))"

definition strip_bars :: "string \<Rightarrow> string" where
  "strip_bars s = rev (dropWhile (\<lambda>c. c = bar_char) (rev s))"

definition compose_frame :: "Layout \<Rightarrow> string list \<Rightarrow> ComposeError + string" where
  "compose_frame ly values =
     (case compose_fields 0 (ly_fields ly) values of Inl e \<Rightarrow> Inl e | Inr rest \<Rightarrow> Inr (strip_bars (ly_letter ly # rest)))"

definition resize :: "nat \<Rightarrow> 'a \<Rightarrow> 'a list \<Rightarrow> 'a list" where
  "resize n x xs = take n xs @ replicate (n - length xs) x"

definition parse_frame :: "string \<Rightarrow> (Layout \<times> string list) option" where
  "parse_frame frame =
     (case split_char bar_char (trim frame) of
        [] \<Rightarrow> None
      | head # parts \<Rightarrow>
          (case trim head of
             [key] \<Rightarrow> (case find_layout key of None \<Rightarrow> None | Some ly \<Rightarrow> Some (ly, resize (length (ly_fields ly)) [] parts))
           | _ \<Rightarrow> None))"

section \<open>Placeholders and presets\<close>

definition braced :: "string \<Rightarrow> string" where "braced k = open_brace # k @ [close_brace]"

definition SAMPLES :: "(string \<times> string) list" where
  "SAMPLES =
     [(braced ''gear'', ''3''), (braced ''speed'', ''142''), (braced ''speed_mph'', ''88''), (braced ''rpm'', ''6000''),
      (braced ''rpm_pct'', ''191''), (braced ''throttle_pct'', ''128''), (braced ''brake_pct'', ''255'')]"

function replace_sub :: "string \<Rightarrow> string \<Rightarrow> string \<Rightarrow> string" where
  "replace_sub k r [] = []"
| "replace_sub k r (c # s) =
     (if k \<noteq> [] \<and> starts_with (c # s) k then r @ replace_sub k r (drop (length k) (c # s)) else c # replace_sub k r s)"
  by pat_completeness auto
termination
  by (relation "measure (\<lambda>(k, r, s). length s)") auto

definition sample_values :: "string list \<Rightarrow> string list" where
  "sample_values values = map (\<lambda>v. fold (\<lambda>(k, r) v. replace_sub k r v) SAMPLES v) values"

definition is_live :: "string list \<Rightarrow> bool" where "is_live values \<longleftrightarrow> (\<exists>v\<in>set values. open_brace \<in> set v)"

record Preset =
  pt_name :: string
  pt_layout :: char
  pt_values :: "string list"

definition PRESETS :: "Preset list" where
  "PRESETS =
     [\<lparr>pt_name = ''Gear and speed'', pt_layout = CHR ''G'', pt_values = [braced ''gear'', braced ''speed'']\<rparr>,
      \<lparr>pt_name = ''Speed, big'', pt_layout = CHR ''F'', pt_values = [braced ''gear'', braced ''speed'']\<rparr>,
      \<lparr>pt_name = ''Rev bar'', pt_layout = CHR ''C'', pt_values = [braced ''rpm_pct'']\<rparr>,
      \<lparr>pt_name = ''Revs, gear and speed'', pt_layout = CHR ''E'', pt_values = [braced ''rpm_pct'', ''0'', braced ''gear'', braced ''speed'' @ ''kmh'']\<rparr>,
      \<lparr>pt_name = ''Race board'', pt_layout = CHR ''J'', pt_values = [''GEAR   SPEED'', braced ''gear'' @ ''  '' @ braced ''speed'', ''REVS'', braced ''rpm'']\<rparr>,
      \<lparr>pt_name = ''Pedals'', pt_layout = CHR ''H'', pt_values = [''THROTTLE   BRAKE'', '' '' @ braced ''throttle_pct'' @ ''/'' @ braced ''brake_pct'']\<rparr>,
      \<lparr>pt_name = ''Throttle gauge'', pt_layout = CHR ''D'', pt_values = [braced ''throttle_pct'', ''0'', ''THROTTLE'']\<rparr>,
      \<lparr>pt_name = ''Brake gauge'', pt_layout = CHR ''D'', pt_values = [braced ''brake_pct'', ''0'', ''BRAKE'']\<rparr>,
      \<lparr>pt_name = ''Ready to race'', pt_layout = CHR ''J'', pt_values = [''HELLO'', ''DRIVER'', ''READY TO'', ''RACE'']\<rparr>,
      \<lparr>pt_name = ''TrueForce on Linux'', pt_layout = CHR ''H'', pt_values = [''logitech-trueforce'', '' Linux'']\<rparr>,
      \<lparr>pt_name = ''Blank'', pt_layout = CHR ''A'', pt_values = []\<rparr>]"

definition preset_live :: "Preset \<Rightarrow> bool" where "preset_live p = is_live (pt_values p)"

text \<open>A preset whose layout or frame does not exist panics.\<close>

definition preset_frame :: "Preset \<Rightarrow> string option" where
  "preset_frame p =
     (case find_layout (pt_layout p) of
        None \<Rightarrow> None
      | Some ly \<Rightarrow> (case compose_frame ly (resize (length (ly_fields ly)) [] (pt_values p)) of Inl e \<Rightarrow> None | Inr f \<Rightarrow> Some f))"

definition preset_index :: "Layout \<Rightarrow> string list \<Rightarrow> nat option" where
  "preset_index ly values =
     (case compose_frame ly values of
        Inl e \<Rightarrow> None
      | Inr ours \<Rightarrow> find (\<lambda>i. preset_frame (PRESETS ! i) = Some ours) [0..<length PRESETS])"

definition describe_frame :: "string \<Rightarrow> string" where
  "describe_frame frame =
     (let f = trim frame in
      if f = [] \<or> f = ''off'' then ''The wheel'' @ [CHR 0x27] @ ''s own menu''
      else case parse_frame f of
          None \<Rightarrow> f
        | Some (ly, values) \<Rightarrow>
            (case preset_index ly values of Some i \<Rightarrow> pt_name (PRESETS ! i) | None \<Rightarrow> ''Custom: '' @ ly_name ly))"

section \<open>Preview\<close>

record PreviewRow =
  pv_text :: string
  pv_size :: Size
  pv_align :: Align

definition fill_bar :: "nat \<Rightarrow> string" where
  "fill_bar fill = (let filled = (fill * 16 + 127) div 255 in replicate filled (CHR ''#'') @ replicate (16 - filled) (CHR ''-''))"

definition pad_right :: "nat \<Rightarrow> string \<Rightarrow> string" where "pad_right n s = s @ replicate (n - chars_count s) (CHR '' '')"
definition pad_left :: "nat \<Rightarrow> string \<Rightarrow> string" where "pad_left n s = replicate (n - chars_count s) (CHR '' '') @ s"

definition preview :: "Layout \<Rightarrow> string list \<Rightarrow> PreviewRow list" where
  "preview ly values =
     (let v = (\<lambda>i. case get_at values i of Some s \<Rightarrow> trim_end s | None \<Rightarrow> []);
          n = (\<lambda>i. min 255 (case Option.bind (get_at values i) (\<lambda>s. parse_unsigned 4294967295 (trim s)) of Some k \<Rightarrow> k | None \<Rightarrow> 0));
          row = (\<lambda>t s a. \<lparr>pv_text = t, pv_size = s, pv_align = a\<rparr>);
          c = ly_letter ly
      in if c = CHR ''B'' then [row ''(firmware test pattern)'' Small Centre]
         else if c = CHR ''C'' then [row (fill_bar (n 0)) Medium Centre]
         else if c = CHR ''D'' then [row (v 2) Small Centre, row (fill_bar (n 0)) Medium Centre]
         else if c = CHR ''E'' then [row (pad_right 7 (v 3) @ '' '' @ pad_left 3 (v 2)) Small Centre, row (fill_bar (n 0)) Medium Centre]
         else if c = CHR ''F'' \<or> c = CHR ''G'' then [row (v 0 @ '' '' @ v 1) VeryLarge Centre]
         else if c = CHR ''H'' then [row (v 0) Small AlignLeft, row (v 1) Large TwoZone]
         else if c = CHR ''I'' then [row (v 0) Small AlignRight, row (v 1) Large TwoZone, row (v 2) Small AlignRight, row (v 3) Large TwoZone]
         else if c = CHR ''J'' then [row (v 0) Small Centre, row (v 1) Large Centre, row (v 2) Small Centre, row (v 3) Large Centre]
         else [])"

section \<open>The screen of the daemon\<close>

definition gear_text :: "i8 \<Rightarrow> string" where
  "gear_text g = (if sint g < 0 then ''R'' else if g = 0 then ''N'' else dec_int (sint g))"

text \<open>\<open>f32::round\<close> and the casts: to the nearest integer, halves away from zero; out of range to the
  nearest bound.\<close>

definition f_round_away :: "f32 \<Rightarrow> f32" where
  "f_round_away x = (if f_is_finite x then f_of_rat (f_neg x) (of_int \<lfloor>\<bar>f_val x\<bar> + 1 / 2\<rfloor>) else x)"

definition f_to_i64 :: "f32 \<Rightarrow> int" where
  "f_to_i64 x =
     (if f_is_nan x then 0
      else if f_is_inf x then (if f_neg x then -9223372036854775808 else 9223372036854775807)
      else clamp_int (-9223372036854775808) 9223372036854775807 (if f_neg x then - \<lfloor>\<bar>f_val x\<bar>\<rfloor> else \<lfloor>f_val x\<rfloor>))"

definition pct255 :: "f32 \<Rightarrow> nat" where
  "pct255 v = f_to_nat 4294967295 (f_round_away (f_mul (f_clamp f_zero f_one v) 0x437f0000))"

definition placeholder :: "Telemetry \<Rightarrow> string \<Rightarrow> string option" where
  "placeholder tel key =
     (if key = ''gear'' then Some (gear_text (t_gear tel))
      else if key = ''speed'' then Some (dec_int (f_to_i64 (f_round_away (f_mul (t_speed tel) 0x40666666))))
      else if key = ''speed_mph'' then Some (dec_int (f_to_i64 (f_round_away (f_mul (t_speed tel) 0x400f2a06))))
      else if key = ''rpm'' then Some (dec_int (f_to_i64 (f_round_away (t_rpm tel))))
      else if key = ''rpm_pct'' then
        Some (dec_nat (pct255 (if f_lt f_zero (t_max_rpm tel) then f_div (t_rpm tel) (t_max_rpm tel) else f_zero)))
      else if key = ''throttle_pct'' then Some (dec_nat (pct255 (t_throttle tel)))
      else if key = ''brake_pct'' then Some (dec_nat (pct255 (t_brake tel)))
      else None)"

fun cut_at :: "char \<Rightarrow> string \<Rightarrow> (string \<times> string) option" where
  "cut_at c [] = None"
| "cut_at c (x # xs) = (if x = c then Some ([], xs) else map_option (\<lambda>(a, b). (x # a, b)) (cut_at c xs))"

lemma cut_at_Some: "cut_at c s = Some (a, b) \<Longrightarrow> s = a @ c # b \<and> c \<notin> set a"
  by (induction s arbitrary: a b) (auto split: if_splits)

function render :: "Telemetry \<Rightarrow> string \<Rightarrow> string" where
  "render tel template =
     (case cut_at open_brace template of
        None \<Rightarrow> template
      | Some (pre, after) \<Rightarrow>
          (case cut_at close_brace after of
             None \<Rightarrow> template
           | Some (key, rest) \<Rightarrow>
               pre @ (case placeholder tel key of Some v \<Rightarrow> v | None \<Rightarrow> braced key) @ render tel rest))"
  by pat_completeness auto
termination
  by (relation "measure (\<lambda>(t, s). length s)") (auto dest!: cut_at_Some)

declare render.simps [simp del]

definition SCREEN_WRITE_INTERVAL :: nat where "SCREEN_WRITE_INTERVAL = 100000000"

text \<open>The writes that were tried, with their time and error.\<close>

record Screen =
  sc_last :: "string option"
  sc_last_write :: "nat option"
  sc_warned :: bool
  sc_log :: "(nat \<times> string \<times> string option) list"

definition screen_at :: Screen where "screen_at = \<lparr>sc_last = None, sc_last_write = None, sc_warned = False, sc_log = []\<rparr>"

definition screen_update :: "Telemetry \<Rightarrow> string \<Rightarrow> nat \<Rightarrow> string option \<Rightarrow> Screen \<Rightarrow> Screen" where
  "screen_update tel template now err s =
     (let txt = render tel template in
      if sc_last s = Some txt then s
      else if (case sc_last_write s of Some t \<Rightarrow> now - t < SCREEN_WRITE_INTERVAL | None \<Rightarrow> False) then s
      else
        let s1 = s\<lparr>sc_last_write := Some now, sc_log := sc_log s @ [(now, txt @ [newline], err)]\<rparr>
        in case err of None \<Rightarrow> s1\<lparr>sc_last := Some txt, sc_warned := False\<rparr> | Some e \<Rightarrow> s1\<lparr>sc_warned := True\<rparr>)"

definition screen_stop :: "nat \<Rightarrow> string option \<Rightarrow> Screen \<Rightarrow> Screen" where
  "screen_stop now err s = s\<lparr>sc_last := None, sc_log := sc_log s @ [(now, ''off'' @ [newline], err)]\<rparr>"

end
