(* ===== verification/Oled_Props.thy ===== *)
theory Oled_Props
  imports Oled
begin

text \<open>
  Properties of the screen: a composed frame reads back as the fields it was composed from, the
  presets name themselves, a gauge fits its field, and the daemon does not write faster than its
  floor.
\<close>

section \<open>Frames read back\<close>

text \<open>A number above 255 is refused either way, which bounds the numbers the kernel evaluates.\<close>

lemma compose_field_code [code]:
  "compose_field i f raw =
     (case f of
        FNumber l \<Rightarrow>
          (let t = trim raw in
           if t = [] then Inr ''0''
           else if hd t = open_brace then Inr t
           else case parse_unsigned 255 t of None \<Rightarrow> Inl (NotANumber i) | Some n \<Rightarrow> Inr (dec_nat n))
      | FText l w \<Rightarrow>
          if bar_char \<in> set raw then Inl (Separator i)
          else
            let t = trim_end raw in
            if open_brace \<notin> set t \<and> w < chars_count t then Inl (TooLong i w) else Inr t)"
  by (auto simp: compose_field_def parse_unsigned_def in_range_def Let_def split: Field.split option.split)

definition value_at :: "string list \<Rightarrow> nat \<Rightarrow> string" where
  "value_at values i = (case get_at values i of Some v \<Rightarrow> v | None \<Rightarrow> [])"

definition bars :: "string list \<Rightarrow> string" where "bars ts = concat (map (\<lambda>t. bar_char # t) ts)"

lemma bars_simps [simp]: "bars [] = []" "bars (t # ts) = bar_char # t @ bars ts" "bars (ts @ us) = bars ts @ bars us"
  by (simp_all add: bars_def)

lemma compose_fields_texts:
  "compose_fields i fs values = Inr rest \<Longrightarrow>
    \<exists>ts. rest = bars ts \<and> length ts = length fs \<and> (\<forall>j<length fs. compose_field (i + j) (fs ! j) (value_at values (i + j)) = Inr (ts ! j))"
proof (induction fs arbitrary: i rest)
  case (Cons f fs)
  from Cons.prems obtain t r where t: "compose_field i f (value_at values i) = Inr t" and r: "compose_fields (i + 1) fs values = Inr r" "rest = bar_char # t @ r"
    by (auto simp: value_at_def split: sum.splits)
  from Cons.IH [OF r(1)] obtain ts where ts: "r = bars ts" "length ts = length fs"
    "\<And>j. j < length fs \<Longrightarrow> compose_field (i + 1 + j) (fs ! j) (value_at values (i + 1 + j)) = Inr (ts ! j)" by auto
  have "compose_field (i + j) ((f # fs) ! j) (value_at values (i + j)) = Inr ((t # ts) ! j)" if "j < Suc (length fs)" for j
    using that t ts(3) [of "j - 1"] by (cases j) auto
  then show ?case using r ts by (intro exI [of _ "t # ts"]) auto
qed simp

text \<open>Texts that stand in a frame: no separator inside, no blank at the end.\<close>

definition tidy :: "string \<Rightarrow> bool" where
  "tidy t \<longleftrightarrow> bar_char \<notin> set t \<and> (t \<noteq> [] \<longrightarrow> \<not> is_space (last t))"

definition drop_empty :: "string list \<Rightarrow> string list" where
  "drop_empty ts = rev (dropWhile (\<lambda>t. t = []) (rev ts))"

lemma strip_bars_last: "s \<noteq> [] \<Longrightarrow> last s \<noteq> bar_char \<Longrightarrow> strip_bars s = s"
proof -
  assume s: "s \<noteq> []" "last s \<noteq> bar_char"
  then obtain u x where "s = u @ [x]" by (metis rev_exhaust)
  then show ?thesis using s by (simp add: strip_bars_def)
qed

lemma strip_bars_snoc: "strip_bars (s @ [bar_char]) = strip_bars s"
  by (simp add: strip_bars_def)

lemma strip_bars_frame:
  "list_all tidy ts \<Longrightarrow> c \<noteq> bar_char \<Longrightarrow> strip_bars (c # bars ts) = c # bars (drop_empty ts)"
proof (induction ts rule: rev_induct)
  case Nil
  then show ?case by (simp add: strip_bars_last drop_empty_def)
next
  case (snoc t ts)
  show ?case
  proof (cases "t = []")
    case True
    then have "strip_bars (c # bars (ts @ [t])) = strip_bars ((c # bars ts) @ [bar_char])" by simp
    also have "\<dots> = c # bars (drop_empty ts)" unfolding strip_bars_snoc using snoc by simp
    finally show ?thesis using True by (simp add: drop_empty_def)
  next
    case False
    then have "last (c # bars (ts @ [t])) \<noteq> bar_char" using snoc.prems by (auto simp: tidy_def dest: last_in_set)
    from strip_bars_last [OF _ this] show ?thesis using False by (simp add: drop_empty_def)
  qed
qed

lemma drop_empty_cases: "drop_empty ts = [] \<or> (drop_empty ts \<noteq> [] \<and> last (drop_empty ts) \<noteq> [])"
proof (cases "drop_empty ts = []")
  case False
  then have "dropWhile (\<lambda>t. t = []) (rev ts) \<noteq> []" by (simp add: drop_empty_def)
  from hd_dropWhile [OF this] have "last (drop_empty ts) \<noteq> []" by (simp add: drop_empty_def last_rev)
  with False show ?thesis by simp
qed simp

lemma resize_drop_empty: "resize (length ts) [] (drop_empty ts) = ts"
proof (induction ts rule: rev_induct)
  case (snoc t ts)
  show ?case
  proof (cases "t = []")
    case True
    have "length (drop_empty ts) \<le> length ts" using length_dropWhile_le [of "\<lambda>t. t = []" "rev ts"] by (simp add: drop_empty_def)
    moreover have "drop_empty (ts @ [t]) = drop_empty ts" using True by (simp add: drop_empty_def)
    moreover have "drop_empty ts @ replicate (length ts - length (drop_empty ts)) [] = ts" using snoc.IH calculation by (simp add: resize_def)
    ultimately show ?thesis using True
      by (simp add: resize_def Suc_diff_le replicate_append_same [symmetric] flip: append_assoc)
  qed (simp add: resize_def drop_empty_def)
qed (simp add: resize_def drop_empty_def)

lemma tidy_drop_empty: "list_all tidy ts \<Longrightarrow> list_all tidy (drop_empty ts)"
  by (auto simp: list_all_iff drop_empty_def dest: set_dropWhileD)

lemma split_bars:
  "list_all tidy ts \<Longrightarrow> bar_char \<notin> set h \<Longrightarrow> split_char bar_char (h @ bars ts) = h # ts"
proof (induction ts arbitrary: h)
  case (Cons t ts)
  have t: "bar_char \<notin> set t" using Cons.prems by (simp add: tidy_def)
  have "split_char bar_char (h @ bars (t # ts)) = split_char bar_char h @ split_char bar_char (t @ bars ts)"
    using split_char_append [of bar_char h "t @ bars ts"] by simp
  also have "\<dots> = [h] @ t # ts" using Cons.IH [OF _ t] Cons.prems split_char_none by simp
  finally show ?case by simp
qed (simp add: split_char_none)

lemma trim_frame:
  assumes "list_all tidy ts" "\<not> is_space c"
  shows "trim (c # bars (drop_empty ts)) = c # bars (drop_empty ts)"
proof (rule trim_ends)
  have "\<not> is_space (last (c # bars (drop_empty ts)))"
  proof (cases "drop_empty ts = []")
    case False
    then obtain us u where e: "drop_empty ts = us @ [u]" "u \<noteq> []" using drop_empty_cases [of ts] by (metis last_snoc rev_exhaust)
    then have "tidy u" using tidy_drop_empty [OF assms(1)] by simp
    then show ?thesis using e by (simp add: tidy_def)
  qed (use assms(2) in simp)
  then show "\<not> is_space (hd (c # bars (drop_empty ts))) \<and> \<not> is_space (last (c # bars (drop_empty ts)))"
    using assms(2) by simp
qed

definition letter_ok :: "Layout \<Rightarrow> bool" where
  "letter_ok ly \<longleftrightarrow> find_layout (ly_letter ly) = Some ly \<and> ly_letter ly \<noteq> bar_char \<and> \<not> is_space (ly_letter ly)"

lemma layouts_ok: "list_all letter_ok LAYOUTS" by code_simp

lemma layout_letters: "ly \<in> set LAYOUTS \<Longrightarrow> find_layout (ly_letter ly) = Some ly \<and> ly_letter ly \<noteq> bar_char \<and> \<not> is_space (ly_letter ly)"
  using layouts_ok by (simp add: list_all_iff letter_ok_def)

lemma frame_reads_back:
  assumes "ly \<in> set LAYOUTS" "list_all tidy ts" "length ts = length (ly_fields ly)"
  shows "parse_frame (strip_bars (ly_letter ly # bars ts)) = Some (ly, ts)"
proof -
  note l = layout_letters [OF assms(1)]
  have s: "strip_bars (ly_letter ly # bars ts) = ly_letter ly # bars (drop_empty ts)" using strip_bars_frame [OF assms(2)] l by blast
  have t: "trim (ly_letter ly # bars (drop_empty ts)) = ly_letter ly # bars (drop_empty ts)" using trim_frame [OF assms(2)] l by blast
  have p: "split_char bar_char (ly_letter ly # bars (drop_empty ts)) = [ly_letter ly] # drop_empty ts"
    using split_bars [OF tidy_drop_empty [OF assms(2)], of "[ly_letter ly]"] l by auto
  have h: "trim [ly_letter ly] = [ly_letter ly]" by (rule trim_ends) (use l in simp)
  show ?thesis using s t p h l resize_drop_empty [of ts] assms(3) by (simp add: parse_frame_def)
qed


lemma trim_end_last: "trim_end t \<noteq> [] \<Longrightarrow> \<not> is_space (last (trim_end t))"
  using hd_dropWhile [of is_space "rev t"] by (simp add: trim_end_def last_rev)

lemma trim_end_idem [simp]: "trim_end (trim_end t) = trim_end t"
  by (simp add: trim_end_def)

lemma set_trim_end: "c \<in> set (trim_end t) \<Longrightarrow> c \<in> set t"
  by (auto simp: trim_end_def dest: set_dropWhileD)

lemma set_trim: "c \<in> set (trim t) \<Longrightarrow> c \<in> set t"
  by (auto simp: trim_def trim_start_def dest!: set_trim_end set_dropWhileD)

lemma dec_nat_tidy: "tidy (dec_nat n)" "trim (dec_nat n) = dec_nat n" "hd (dec_nat n) \<noteq> open_brace"
proof -
  have d: "is_digit c" if "c \<in> set (dec_nat n)" for c using that by (rule dec_nat_digits)
  have ns: "\<not> is_space c" if "c \<in> set (dec_nat n)" for c using d [OF that] by (rule is_digit_not_space)
  have b: "bar_char \<notin> set (dec_nat n)" "open_brace \<notin> set (dec_nat n)" using d by (force simp: is_digit_code)+
  show "tidy (dec_nat n)" using b ns by (simp add: tidy_def)
  show "trim (dec_nat n) = dec_nat n" by (rule trim_ends) (use ns in simp)
  show "hd (dec_nat n) \<noteq> open_brace" using b(2) by (metis dec_nat_nonempty hd_in_set)
qed

lemma dec_zero: "dec_nat 0 = ''0''" by code_simp

lemma compose_field_tidy:
  assumes "compose_field i f raw = Inr t" "bar_char \<notin> set raw"
  shows "tidy t \<and> compose_field i f t = Inr t"
proof (cases f)
  case (FNumber l)
  then consider "t = dec_nat 0" "trim raw = []" | "t = trim raw" "t \<noteq> []" "hd t = open_brace" | n where "t = dec_nat n" "n \<le> 255"
    using assms(1) by (auto simp: compose_field_def Let_def dec_zero split: if_splits option.splits)
  then show ?thesis
  proof cases
    case 2
    then have "tidy t" using assms(2) set_trim trim_hd_last(2) by (fastforce simp: tidy_def)
    then show ?thesis using 2 FNumber by (simp add: compose_field_def)
  qed (use dec_nat_tidy FNumber in \<open>simp_all add: compose_field_def\<close>)
next
  case (FText l w)
  then show ?thesis using assms set_trim_end trim_end_last by (fastforce simp: compose_field_def tidy_def Let_def split: if_splits)
qed

lemma compose_fields_eq:
  "length ts = length fs \<Longrightarrow> (\<And>j. j < length fs \<Longrightarrow> compose_field (i + j) (fs ! j) (value_at values (i + j)) = Inr (ts ! j)) \<Longrightarrow>
    compose_fields i fs values = Inr (bars ts)"
proof (induction fs arbitrary: i ts)
  case (Cons f fs)
  then obtain t us where ts: "ts = t # us" "length us = length fs" by (cases ts) auto
  have "compose_field i f (value_at values i) = Inr t" using Cons.prems(2) [of 0] ts by simp
  moreover have "compose_fields (i + 1) fs values = Inr (bars us)"
    by (rule Cons.IH) (use Cons.prems(2) ts in \<open>force\<close>)+
  ultimately show ?case using ts by (simp add: value_at_def)
qed simp

lemma frame_kept:
  assumes "ly \<in> set LAYOUTS" "compose_frame ly values = Inr frame" "\<And>v. v \<in> set values \<Longrightarrow> bar_char \<notin> set v"
  shows "\<exists>fields. parse_frame frame = Some (ly, fields) \<and> compose_frame ly fields = Inr frame \<and> length fields = length (ly_fields ly)"
proof -
  from assms(2) obtain rest where r: "compose_fields 0 (ly_fields ly) values = Inr rest" "frame = strip_bars (ly_letter ly # rest)"
    by (auto simp: compose_frame_def split: sum.splits)
  from compose_fields_texts [OF r(1)] obtain ts where ts: "rest = bars ts" "length ts = length (ly_fields ly)"
    and f: "\<And>j. j < length (ly_fields ly) \<Longrightarrow> compose_field j (ly_fields ly ! j) (value_at values j) = Inr (ts ! j)" by auto
  have v: "bar_char \<notin> set (value_at values j)" for j using assms(3) by (auto simp: value_at_def get_at_def)
  have t: "tidy (ts ! j) \<and> compose_field j (ly_fields ly ! j) (ts ! j) = Inr (ts ! j)" if "j < length ts" for j
    using compose_field_tidy [OF f v] that ts(2) by simp
  then have "list_all tidy ts" by (auto simp: list_all_length)
  from frame_reads_back [OF assms(1) this ts(2)] have p: "parse_frame frame = Some (ly, ts)" using r ts by simp
  have "compose_fields 0 (ly_fields ly) ts = Inr (bars ts)"
    by (rule compose_fields_eq) (use t ts(2) in \<open>simp_all add: value_at_def get_at_def\<close>)
  then have "compose_frame ly ts = Inr frame" using r ts by (simp add: compose_frame_def)
  then show ?thesis using p ts(2) by blast
qed



text \<open>A number field that opens a brace is passed on unread, its separators with it, and what is read
  back is shorter than what was composed.\<close>

lemma braced_number_keeps_its_separator:
  "compose_frame (LAYOUTS ! 2) [open_brace # ''a|b''] = Inr (''C|'' @ open_brace # ''a|b'') \<and>
   parse_frame (''C|'' @ open_brace # ''a|b'') = Some (LAYOUTS ! 2, [open_brace # ''a''])"
  by code_simp

definition preset_ok :: "Preset \<Rightarrow> bool" where
  "preset_ok p \<longleftrightarrow> list_all (\<lambda>v. bar_char \<notin> set v) (pt_values p) \<and>
     (case preset_frame p of Some f \<Rightarrow> trim f = f \<and> f \<noteq> [] \<and> f \<noteq> ''off'' | None \<Rightarrow> False)"

lemma presets_compose: "list_all preset_ok PRESETS" by code_simp

lemma presets_differ: "distinct (map preset_frame PRESETS)" by code_simp

lemma find_first_index:
  assumes "i < n" "P i" "\<And>j. j < i \<Longrightarrow> \<not> P j"
  shows "find P [0..<n] = Some i"
  using assms by (force simp: find_Some_iff)

lemma preset_reads_back:
  assumes "p \<in> set PRESETS" "preset_frame p = Some f"
  shows "\<exists>ly fs. parse_frame f = Some (ly, fs) \<and> compose_frame ly fs = Inr f"
proof -
  from assms(2) obtain ly where ly: "find_layout (pt_layout p) = Some ly"
    "compose_frame ly (resize (length (ly_fields ly)) [] (pt_values p)) = Inr f"
    by (auto simp: preset_frame_def split: option.splits sum.splits)
  have "ly \<in> set LAYOUTS" using ly(1) by (auto simp: find_layout_def Let_def find_Some_iff)
  moreover have "bar_char \<notin> set v" if "v \<in> set (resize (length (ly_fields ly)) [] (pt_values p))" for v
    using that assms(1) presets_compose by (auto simp: resize_def list_all_iff preset_ok_def dest: in_set_takeD)
  ultimately show ?thesis using frame_kept [OF _ ly(2)] by blast
qed

text \<open>Every preset composes, fits its layout, and the frame it composes is described by the name of
  the preset.\<close>

theorem presets_describe_themselves:
  "map (\<lambda>p. map_option describe_frame (preset_frame p)) PRESETS = map (\<lambda>p. Some (pt_name p)) PRESETS"
proof (rule map_ext, rule impI)
  fix p assume p: "p \<in> set PRESETS"
  then obtain i where i: "i < length PRESETS" "p = PRESETS ! i" by (auto simp: in_set_conv_nth)
  from p obtain f where f: "preset_frame p = Some f" "trim f = f" "f \<noteq> []" "f \<noteq> ''off''"
    using presets_compose by (fastforce simp: list_all_iff preset_ok_def split: option.splits)
  from p preset_reads_back [OF _ f(1)] obtain ly fs where r: "parse_frame f = Some (ly, fs)" "compose_frame ly fs = Inr f" by blast
  have "preset_index ly fs = Some i"
  proof -
    have "find (\<lambda>j. preset_frame (PRESETS ! j) = Some f) [0..<length PRESETS] = Some i"
    proof (rule find_first_index)
      show "i < length PRESETS" "preset_frame (PRESETS ! i) = Some f" using i f by simp_all
      show "preset_frame (PRESETS ! j) \<noteq> Some f" if "j < i" for j
        using presets_differ that i f nth_eq_iff_index_eq [of "map preset_frame PRESETS" i j] by auto
    qed
    then show ?thesis using r by (simp add: preset_index_def)
  qed
  then show "map_option describe_frame (preset_frame p) = Some (pt_name p)" using f r i by (simp add: describe_frame_def)
qed

section \<open>Gauges\<close>

lemma fill_bar_fits: "fill \<le> 255 \<Longrightarrow> length (fill_bar fill) = 16"
  by (simp add: fill_bar_def Let_def)

section \<open>Pacing the screen\<close>

definition screen_run :: "(Telemetry \<times> string \<times> nat \<times> string option) list \<Rightarrow> Screen" where
  "screen_run us = fold (\<lambda>(tel, template, now, err). screen_update tel template now err) us screen_at"

definition paced :: "(nat \<times> string \<times> string option) list \<Rightarrow> bool" where
  "paced = successively (\<lambda>a b. fst a + SCREEN_WRITE_INTERVAL \<le> fst b)"

definition screen_inv :: "Screen \<Rightarrow> bool" where
  "screen_inv s \<longleftrightarrow> paced (sc_log s) \<and> sc_last_write s = (if sc_log s = [] then None else Some (fst (last (sc_log s)))) \<and>
     map_option (\<lambda>t. t @ [newline]) (sc_last s) = map_option (\<lambda>w. fst (snd w)) (find (\<lambda>w. snd (snd w) = None) (rev (sc_log s)))"

lemma screen_inv_at: "screen_inv screen_at"
  by (simp add: screen_inv_def screen_at_def paced_def)

lemma screen_inv_update: "screen_inv s \<Longrightarrow> screen_inv (screen_update tel template now err s)"
  by (auto simp: screen_inv_def screen_update_def Let_def paced_def successively_append_iff SCREEN_WRITE_INTERVAL_def split: option.splits if_splits)

lemma screen_inv_run: "screen_inv (screen_run us)"
  unfolding screen_run_def by (rule fold_invariant [of us "\<lambda>_. True"]) (auto simp: screen_inv_at screen_inv_update)

text \<open>The screen is written at most every 100 ms, whatever the telemetry does; a text that is
  showing already is not written again, and any other text is written once the floor has passed.\<close>

theorem screen_writes_are_paced:
  "paced (sc_log (screen_run us)) \<and>
   sc_log (screen_run (us @ [(tel, template, now, err)])) =
     (let past = sc_log (screen_run us); txt = render tel template @ [newline]
      in if map_option (\<lambda>w. fst (snd w)) (find (\<lambda>w. snd (snd w) = None) (rev past)) = Some txt \<or>
            past \<noteq> [] \<and> now < fst (last past) + SCREEN_WRITE_INTERVAL
         then past else past @ [(now, txt, err)])"
proof -
  define s where "s = screen_run us"
  have i: "screen_inv s" unfolding s_def by (rule screen_inv_run)
  have r: "screen_run (us @ [(tel, template, now, err)]) = screen_update tel template now err s" by (simp add: screen_run_def s_def)
  have shown: "sc_last s = Some t \<longleftrightarrow> map_option (\<lambda>w. fst (snd w)) (find (\<lambda>w. snd (snd w) = None) (rev (sc_log s))) = Some (t @ [newline])" for t
    using i unfolding screen_inv_def by (cases "sc_last s") (auto dest: sym)
  have floor: "(case sc_last_write s of Some t \<Rightarrow> now - t < SCREEN_WRITE_INTERVAL | None \<Rightarrow> False) \<longleftrightarrow> sc_log s \<noteq> [] \<and> now < fst (last (sc_log s)) + SCREEN_WRITE_INTERVAL"
    using i by (auto simp: screen_inv_def SCREEN_WRITE_INTERVAL_def)
  have "sc_log (screen_update tel template now err s) =
      (if sc_last s = Some (render tel template) \<or> (case sc_last_write s of Some t \<Rightarrow> now - t < SCREEN_WRITE_INTERVAL | None \<Rightarrow> False)
       then sc_log s else sc_log s @ [(now, render tel template @ [newline], err)])"
    by (auto simp: screen_update_def Let_def split: option.split)
  then show ?thesis using i unfolding r s_def [symmetric] shown floor by (simp add: Let_def screen_inv_def)
qed

end
