(* ===== verification/Spec2Isabelle.thy ===== *)
theory Spec2Isabelle
  imports Steering Curve Onboard_Editor Hidpp Sim_Edit Daemon_Mix G923_Props Views Oled_Props
begin

text \<open>
  Verification of the Rust userspace of the Logitech TrueForce driver
  (\<open>src/userspace/logi-wheel/crates\<close>). Three of its crates carry the logic that reaches the
  hardware, and this library models them in the order data flows through them.

  \<^bold>\<open>\<open>logi-ffb\<close>, the virtual force-feedback wheel.\<close> A game writes HID PID reports to a virtual wheel
  that the proxy creates through uhid; the proxy decodes them, hands the operations over a channel
  to a worker thread, and the worker uploads, plays and erases effects on the real wheel. Input of
  the real wheel goes the other way as input reports.
  \<^item> \<open>Descriptor\<close> (\<open>descriptor.rs\<close>): the report descriptor as bytes, a reference HID parser that reads
    field positions out of it, and the input report.
  \<^item> \<open>Pidff\<close> (\<open>pidff.rs\<close>): \<open>decode\<close>, one \<open>EffectOp\<close> per PID report. Its fields are shown to be at the
    positions the descriptor declares.
  \<^item> \<open>Source\<close> (\<open>source.rs\<close>): kernel input records folded into the report state.
  \<^item> \<open>Sink\<close> (\<open>sink.rs\<close>): the effect table and the uploads. The kernel is a parameter; its contract is
    the locale the lemmas are proved in, and the sink refines an abstract wheel with one effect per
    block.
  \<^item> \<open>Uhid\<close> (\<open>uhid.rs\<close>): the records of \<open>/dev/uhid\<close> and the device that speaks them.
  \<^item> \<open>Proxy\<close> (\<open>proxy.rs\<close>): discovery, the poll loop, and the two threads as the step relation
    \<open>sys_step\<close>: every interleaving of the loop, the channel and the worker.
  \<^item> \<open>Steering\<close> (\<open>steering.rs\<close>, \<open>cli.rs\<close>): the launch plan, the registry edit and the launch sequence.

  \<^bold>\<open>\<open>logi-wheel-core\<close>, the settings of the wheel.\<close> The front ends read and write the sysfs attributes
  of the kernel driver, store profiles, edit the onboard slots and speak HID++ to the wheel.
  \<^item> \<open>Text\<close> and \<open>Values\<close> (\<open>value.rs\<close>, \<open>kind.rs\<close>, \<open>error.rs\<close>): trimming, splitting and number parsing as
    the standard library does them; the kinds of setting with parse, format and validate.
  \<^item> \<open>Registry\<close> (\<open>setting.rs\<close>, \<open>registry.rs\<close>): the tables of settings row by row.
  \<^item> \<open>Device\<close> (\<open>sysfs.rs\<close>, \<open>device.rs\<close>): the attribute store as an interface with laws (a locale, with
    the in-memory store as its instance), discovery of wheels, guarded reads and writes.
  \<^item> \<open>Profile_Store\<close> (\<open>profiles.rs\<close>): save, apply, list, delete and migration over a file-system record.
  \<^item> \<open>Onboard_Editor\<close> (\<open>onboard.rs\<close>): a slot edit with its snapshot and the check that the wheel is
    still on the slot.
  \<^item> \<open>Hidpp\<close> (\<open>hidpp.rs\<close>): requests, feature enumeration, firmware, rev lights; the transport is a list
    of answers.
  \<^item> \<open>Curve\<close> (\<open>curve.rs\<close>): response curves and the points uploaded to the driver.
  \<^item> \<open>Relay\<close> (\<open>telemetry.rs\<close>, \<open>relay.rs\<close>, \<open>tfstream.rs\<close>): the telemetry record, both wire codecs and
    the listener that feeds several readers through one port; \<open>relay_step\<close> is any interleaving of
    readers that open, poll and exit.
  \<^item> \<open>Tfsim\<close> (\<open>tfsim.rs\<close>) and \<open>Sim_Edit\<close>: the configuration file as the front ends read and edit it; the
    locale \<open>edited_key\<close> has the laws of one edited line and is interpreted for every setter.
  \<^item> \<open>Views\<close> (\<open>lightsync.rs\<close>, \<open>shaping.rs\<close>): the effect selector, the mirrored strip and the rows shown
    per axis.
  \<^item> \<open>Oled\<close> and \<open>Oled_Props\<close> (\<open>oled.rs\<close>, and \<open>screen.rs\<close> of the daemon): composing and reading screen
    frames, presets, preview, and the paced screen of the daemon. A composed frame reads back, the
    presets describe themselves, the writes keep their distance.

  \<^bold>\<open>\<open>logi-tf-sim\<close>, the telemetry daemon.\<close> It listens to the telemetry of games, synthesises haptics,
  streams them to the wheel under a lease and drives the rev lights.
  \<^item> \<open>F32\<close>: the \<open>f32\<close> of the language as its bit pattern, with correctly rounded product, quotient and
    conversions; rounding is shown to be monotone and nearest. \<open>F32_Ops\<close> adds sum, minimum, fraction,
    square root and the casts, with the bounds and the error of a rounded result.
  \<^item> \<open>Telemetry_Formats\<close> (\<open>codemasters.rs\<close>, \<open>f1.rs\<close>, \<open>pcars.rs\<close>, \<open>wrc.rs\<close>, \<open>beamng.rs\<close>): the decoders, as
    instances of a decoder interface, and one pass over the sockets.
  \<^item> \<open>Lease\<close> (\<open>lease.rs\<close>, \<open>native_session.rs\<close>): the lock-file protocol; \<open>lease_step\<close> is any interleaving
    of programs that take and drop leases.
  \<^item> \<open>Rev_Leds\<close> (\<open>leds.rs\<close>): the level, the pacing and both backends of the rev strip.
  \<^item> \<open>Sim_Config\<close> (\<open>config.rs\<close>): the daemon's own reader and writer of the configuration file.
  \<^item> \<open>Daemon\<close> and \<open>Daemon_Runs\<close> (\<open>daemon.rs\<close>, \<open>game_gain.rs\<close>, \<open>error.rs\<close>): one iteration of the loop, and
    runs of it between which other programs act on the lock files.
  \<^item> \<open>Effects\<close> (\<open>synth.rs\<close>, \<open>effects.rs\<close>): the engine note, the ten haptic layers and the mixer in
    single precision. \<open>Effects_Bounds\<close> states the contract of a layer as the locale \<open>haptic_layer\<close>
    and interprets it for every layer that emits samples; \<open>Mixer_Props\<close> has the invariant of the
    mixer; \<open>Mixer_Runs\<close> shows full scale and silence over runs of blocks, the dwell of the rev limiter
    as a predicate on its history, and that a layer whose cause is gone reaches exact zero.
  \<^item> \<open>Daemon_Mix\<close>: the daemon with this mixer; the bounds of every sample that reaches a wheel.
  \<^item> \<open>G923_Stream\<close> and \<open>G923_Props\<close> (\<open>g923.rs\<close>): discovery, the merge of force and audio, the packets,
    the idle policy, and the writer thread against its owner as \<open>g923_step\<close>. The packets on the wire
    follow a link automaton (init, samples, stop), also when a write fails.

  \<open>Prelude\<close> has the word, list, option and decimal facts the components share.

  \<^bold>\<open>Conventions.\<close> A struct is a record, an enum a datatype, a fallible function returns a sum with the
  error on the left, a panic is a value of the result, integers are words where the width matters
  and naturals where the code has bounded them. Instants are nanoseconds as naturals. What the
  operating system answers (files, sockets, ioctls, the clock) is an argument: a record of answers
  or a list of results in the order they are asked for. Loops over a list of answers are structural
  recursion; no fuel is used. Loops over the bits of a float take 31 steps, one per bit of a
  magnitude. The sine, the exponential and the power of the platform's mathematical library are a
  parameter \<open>libm\<close>, of which only the ranges are assumed (\<open>libm_ok\<close>).

  \<^bold>\<open>Not modelled.\<close> The graphical and the terminal front end (event glue and drawing), the readers
  inside the Windows process and the truck plugin (foreign ABIs), the game and launcher scan, the
  force-feedback and input tests, diagnostics, the build identity, the C sources outside the Rust
  workspace. Of the daemon: a push is an event of \<open>Daemon\<close>, the stream of a direct-drive wheel goes
  through the C library, the pauses between packets, the search for the screen attribute and log
  lines are left out.
\<close>

end
